(* ===== verification/Identity.thy ===== *)
theory Identity
  imports Glaeda_Base
begin

unbundle bit_operations_syntax

text \<open>
  Identities and the durable path layout: \<open>src/artifact.rs\<close> (repository, commit, tree and
  digest references), \<open>src/state.rs\<close> (path components, record identifiers and the layout of
  the state root) and \<open>src/installation_id.rs\<close> (the installation identifier made from
  operating-system randomness, whose \<open>getrandom\<close> call is a parameter).
\<close>

section \<open>Artifact identities\<close>

datatype repository_ref = RepositoryRef (repository_str: string)
datatype commit_id = CommitId (commit_str: string)
datatype git_tree_id = GitTreeId (git_tree_str: string)
datatype sha256_digest = Sha256Digest (sha256_str: string)

datatype artifact_identity_error = ArtifactIdentityError (artifact_error_field: string)

datatype artifact_kind = OciImage | StaticArchive | SourceArchive

record artifact_identity =
  ai_repository :: repository_ref
  ai_commit :: commit_id
  ai_kind :: artifact_kind
  ai_digest :: sha256_digest

definition valid_repository_component :: "string \<Rightarrow> bool" where
  "valid_repository_component v \<longleftrightarrow>
     v \<noteq> [] \<and> length v \<le> 100 \<and>
     list_all (\<lambda>b. is_ascii_alphanumeric b \<or> b \<in> {CHR ''.'', CHR ''_'', CHR ''-''}) v"

definition is_lower_hex :: "char \<Rightarrow> bool" where
  [byte_simps]: "is_lower_hex b \<longleftrightarrow> is_ascii_digit b \<or> (97 \<le> byte b \<and> byte b \<le> 102)"

definition repository_ref_parse :: "string \<Rightarrow> artifact_identity_error + repository_ref" where
  "repository_ref_parse v =
     (let components = split_on (CHR ''/'') v;
          owner = (if 0 < length components then components ! 0 else []);
          name = (if 1 < length components then components ! 1 else [])
      in if 2 < length components
            \<or> \<not> valid_repository_component owner
            \<or> \<not> valid_repository_component name
         then Inl (ArtifactIdentityError ''repository'')
         else Inr (RepositoryRef v))"

definition commit_id_parse :: "string \<Rightarrow> artifact_identity_error + commit_id" where
  "commit_id_parse v =
     (if length v \<notin> {40, 64} \<or> \<not> list_all is_lower_hex v
      then Inl (ArtifactIdentityError ''commit'')
      else Inr (CommitId v))"

definition git_tree_id_parse :: "string \<Rightarrow> artifact_identity_error + git_tree_id" where
  "git_tree_id_parse v =
     (if length v \<notin> {40, 64} \<or> \<not> list_all is_lower_hex v
      then Inl (ArtifactIdentityError ''tree'')
      else Inr (GitTreeId v))"

definition sha256_digest_parse :: "string \<Rightarrow> artifact_identity_error + sha256_digest" where
  "sha256_digest_parse v =
     (case strip_prefix ''sha256:'' v of
        None \<Rightarrow> Inl (ArtifactIdentityError ''digest'')
      | Some hex \<Rightarrow>
          if length hex \<noteq> 64 \<or> \<not> list_all is_lower_hex hex
          then Inl (ArtifactIdentityError ''digest'')
          else Inr (Sha256Digest v))"

definition artifact_identity_new ::
  "repository_ref \<Rightarrow> commit_id \<Rightarrow> artifact_kind \<Rightarrow> sha256_digest \<Rightarrow> artifact_identity" where
  "artifact_identity_new repository commit kind digest =
     \<lparr>ai_repository = repository, ai_commit = commit, ai_kind = kind, ai_digest = digest\<rparr>"

section \<open>State path components\<close>

datatype state_path_error = StatePathError (path_error_field: string)

datatype state_component = StateComponent (component_str: string)
datatype installation_id = InstallationId (installation_component: state_component)
datatype resource_record_id = ResourceRecordId (resource_component: state_component)
datatype journal_id = JournalId (journal_component: state_component)

record state_path =
  sp_components :: "state_component list"

definition MAX_COMPONENT_LEN :: nat where "MAX_COMPONENT_LEN = 128"
definition MAX_RECORD_ID_LEN :: nat where "MAX_RECORD_ID_LEN = 100"

definition safe_first :: "char \<Rightarrow> bool" where
  [byte_simps]: "safe_first b \<longleftrightarrow> is_ascii_lowercase b \<or> is_ascii_digit b"

definition safe_rest :: "char \<Rightarrow> bool" where
  [byte_simps]: "safe_rest b \<longleftrightarrow>
     is_ascii_lowercase b \<or> is_ascii_digit b \<or> b \<in> {CHR ''.'', CHR ''_'', CHR ''-''}"

text \<open>The check both \<open>validate_component\<close> and \<open>LeaseId::parse\<close> make on the bytes:
  the iterator's first byte, then all that remain.\<close>

definition safe_identifier_bytes :: "string \<Rightarrow> bool" where
  "safe_identifier_bytes v =
     (case v of [] \<Rightarrow> False | b # bs \<Rightarrow> safe_first b \<and> list_all safe_rest bs)"

definition validate_component :: "string \<Rightarrow> string \<Rightarrow> nat \<Rightarrow> state_path_error + unit" where
  "validate_component field v max_len =
     (if v = ''.'' \<or> v = ''..'' \<or> max_len < length v \<or> \<not> safe_identifier_bytes v
      then Inl (StatePathError field)
      else Inr ())"

definition state_component_parse :: "string \<Rightarrow> string \<Rightarrow> state_path_error + state_component" where
  "state_component_parse field v =
     try_res (validate_component field v MAX_COMPONENT_LEN) (\<lambda>_. Inr (StateComponent v))"

definition state_component_json_file :: "state_component \<Rightarrow> state_component" where
  "state_component_json_file record_id = StateComponent (component_str record_id @ ''.json'')"

definition installation_id_parse :: "string \<Rightarrow> state_path_error + installation_id" where
  "installation_id_parse v =
     (if \<not> (16 \<le> length v \<and> length v \<le> 80)
         \<or> \<not> list_all (\<lambda>b. is_ascii_lowercase b \<or> is_ascii_digit b \<or> b = CHR ''-'') v
      then Inl (StatePathError ''installation ID'')
      else Inr (InstallationId (StateComponent v)))"

definition installation_id_str :: "installation_id \<Rightarrow> string" where
  "installation_id_str i = component_str (installation_component i)"

definition resource_record_id_parse :: "string \<Rightarrow> state_path_error + resource_record_id" where
  "resource_record_id_parse v =
     try_res (validate_component ''resource record ID'' v MAX_RECORD_ID_LEN)
       (\<lambda>_. Inr (ResourceRecordId (StateComponent v)))"

definition journal_id_parse :: "string \<Rightarrow> state_path_error + journal_id" where
  "journal_id_parse v =
     try_res (validate_component ''journal ID'' v MAX_RECORD_ID_LEN)
       (\<lambda>_. Inr (JournalId (StateComponent v)))"

section \<open>The layout of the state root\<close>

definition layout_installation :: "installation_id \<Rightarrow> state_path" where
  "layout_installation i =
     \<lparr>sp_components = [StateComponent ''installations'', installation_component i]\<rparr>"

definition layout_project_document :: "installation_id \<Rightarrow> state_path" where
  "layout_project_document i =
     \<lparr>sp_components = sp_components (layout_installation i) @ [StateComponent ''project.json'']\<rparr>"

definition layout_resource_document :: "installation_id \<Rightarrow> resource_record_id \<Rightarrow> state_path" where
  "layout_resource_document i r =
     \<lparr>sp_components = sp_components (layout_installation i) @
        [StateComponent ''resources'', state_component_json_file (resource_component r)]\<rparr>"

definition layout_journal_document :: "installation_id \<Rightarrow> journal_id \<Rightarrow> state_path" where
  "layout_journal_document i j =
     \<lparr>sp_components = sp_components (layout_installation i) @
        [StateComponent ''journals'', state_component_json_file (journal_component j)]\<rparr>"

definition layout_execution_receipt_document :: "installation_id \<Rightarrow> journal_id \<Rightarrow> state_path" where
  "layout_execution_receipt_document i j =
     \<lparr>sp_components = sp_components (layout_installation i) @
        [StateComponent ''receipts'', state_component_json_file (journal_component j)]\<rparr>"

section \<open>Installation identifiers from randomness\<close>

datatype installation_id_generation_error =
    RandomnessUnavailable
  | RandomnessIncomplete
  | GeneratedFormatViolated

definition INSTALLATION_RANDOM_BYTES :: nat where "INSTALLATION_RANDOM_BYTES = 24"

definition HEX :: string where "HEX = ''0123456789abcdef''"

definition encode_byte :: "8 word \<Rightarrow> string" where
  "encode_byte b = [HEX ! unat (drop_bit 4 b), HEX ! unat (b AND 15)]"

definition encode_installation_id ::
  "8 word list \<Rightarrow> installation_id_generation_error + installation_id" where
  "encode_installation_id random =
     map_err (\<lambda>_. GeneratedFormatViolated)
       (installation_id_parse (concat (map encode_byte random)))"

text \<open>
  \<open>getrandom\<close> gets the zeroed buffer and gives an error or the number of bytes filled with the
  buffer's new contents.
\<close>

definition generate_installation_id ::
  "(8 word list \<Rightarrow> 'os + nat \<times> 8 word list) \<Rightarrow>
   installation_id_generation_error + installation_id" where
  "generate_installation_id getrandom =
     (let buffer = replicate INSTALLATION_RANDOM_BYTES 0
      in try_res (map_err (\<lambda>_. RandomnessUnavailable) (getrandom buffer)) (\<lambda>(filled, random).
         if filled \<noteq> length random then Inl RandomnessIncomplete
         else encode_installation_id random))"

section \<open>What the layout promises\<close>

text \<open>What one directory descriptor step needs of a name: it names an entry of that directory.\<close>

definition traversal_safe :: "string \<Rightarrow> bool" where
  "traversal_safe s \<longleftrightarrow>
     s \<noteq> [] \<and> s \<noteq> ''.'' \<and> s \<noteq> ''..'' \<and> list_all (\<lambda>b. b \<noteq> CHR ''/'' \<and> byte b \<noteq> 0) s \<and> length s \<le> 128"

text \<open>The documents of one installation, as the layout's callers name them.\<close>

datatype state_document_name =
    ProjectDocument
  | ResourceDocument resource_record_id
  | JournalDocument journal_id
  | ExecutionReceiptDocument journal_id

fun layout_document :: "installation_id \<Rightarrow> state_document_name \<Rightarrow> state_path" where
  "layout_document i ProjectDocument = layout_project_document i"
| "layout_document i (ResourceDocument r) = layout_resource_document i r"
| "layout_document i (JournalDocument j) = layout_journal_document i j"
| "layout_document i (ExecutionReceiptDocument j) = layout_execution_receipt_document i j"

fun parsed_document_name :: "state_document_name \<Rightarrow> bool" where
  "parsed_document_name ProjectDocument = True"
| "parsed_document_name (ResourceDocument r) \<longleftrightarrow>
     resource_record_id_parse (component_str (resource_component r)) = Inr r"
| "parsed_document_name (JournalDocument j) \<longleftrightarrow>
     journal_id_parse (component_str (journal_component j)) = Inr j"
| "parsed_document_name (ExecutionReceiptDocument j) \<longleftrightarrow>
     journal_id_parse (component_str (journal_component j)) = Inr j"

section \<open>Parsed identifiers\<close>

lemma repository_ref_parse_iff:
  "repository_ref_parse v = Inr r \<longleftrightarrow>
     r = RepositoryRef v \<and>
     (\<exists>owner name. v = owner @ CHR ''/'' # name \<and>
        valid_repository_component owner \<and> valid_repository_component name)"
  (is "?L \<longleftrightarrow> ?R")
proof
  assume L: ?L
  have "\<not> valid_repository_component []"
    by (simp add: valid_repository_component_def)
  with L obtain o' n where r: "r = RepositoryRef v"
    and on: "split_on (CHR ''/'') v = [o', n]"
    "valid_repository_component o'" "valid_repository_component n"
    unfolding repository_ref_parse_def Let_def
    by (cases "split_on (CHR ''/'') v" rule: remdups_adj.cases)
      (auto split: if_splits)
  have "v = o' @ CHR ''/'' # n"
    using join_split_on [of "CHR ''/''" v] by (simp add: on(1))
  with r on show ?R by auto
next
  assume ?R
  then obtain owner name where v: "v = owner @ CHR ''/'' # name" "r = RepositoryRef v"
    and ok: "valid_repository_component owner" "valid_repository_component name" by blast
  have no_sep: "CHR ''/'' \<notin> set owner" "CHR ''/'' \<notin> set name"
    using ok by (auto simp: valid_repository_component_def list_all_iff byte_simps)
  have "split_on (CHR ''/'') (owner @ CHR ''/'' # name) = [owner, name]"
    using no_sep by (induction owner) (auto simp: split_on_no_sep)
  with v ok show ?L
    by (simp add: repository_ref_parse_def)
qed

lemma installation_id_parse_iff:
  "installation_id_parse v = Inr i \<longleftrightarrow>
     16 \<le> length v \<and> length v \<le> 80 \<and>
     list_all (\<lambda>b. is_ascii_lowercase b \<or> is_ascii_digit b \<or> b = CHR ''-'') v \<and>
     i = InstallationId (StateComponent v)"
  by (auto simp: installation_id_parse_def)

lemma installation_id_parse_str:
  "installation_id_parse v = Inr i \<Longrightarrow> installation_id_str i = v"
  by (simp add: installation_id_parse_iff installation_id_str_def)

lemma validate_component_ok [simp]:
  "validate_component field v n = Inr u \<longleftrightarrow> length v \<le> n \<and> safe_identifier_bytes v"
proof -
  have "v = ''.'' \<or> v = ''..'' \<Longrightarrow> \<not> safe_identifier_bytes v"
    by (auto simp: safe_identifier_bytes_def byte_simps)
  then show ?thesis
    by (auto simp: validate_component_def)
qed

lemma resource_record_id_parse_iff:
  "resource_record_id_parse v = Inr r \<longleftrightarrow>
     length v \<le> 100 \<and> safe_identifier_bytes v \<and> r = ResourceRecordId (StateComponent v)"
  by (auto simp: resource_record_id_parse_def MAX_RECORD_ID_LEN_def)

lemma journal_id_parse_iff:
  "journal_id_parse v = Inr j \<longleftrightarrow>
     length v \<le> 100 \<and> safe_identifier_bytes v \<and> j = JournalId (StateComponent v)"
  by (auto simp: journal_id_parse_def MAX_RECORD_ID_LEN_def)

lemma safe_bytes_traversal:
  assumes "safe_identifier_bytes s" and "length s \<le> 100"
  shows "traversal_safe (s @ ''.json'')"
  using assms
  by (auto simp: safe_identifier_bytes_def traversal_safe_def list_all_iff byte_simps
      split: list.splits)

lemma installation_traversal:
  assumes "installation_id_parse v = Inr i"
  shows "traversal_safe (component_str (installation_component i))"
proof -
  have "16 \<le> length v" "length v \<le> 80" "i = InstallationId (StateComponent v)"
    "list_all (\<lambda>b. is_ascii_lowercase b \<or> is_ascii_digit b \<or> b = CHR ''-'') v"
    using assms by (auto simp: installation_id_parse_iff)
  then show ?thesis
    by (auto simp: traversal_safe_def list_all_iff byte_simps)
qed

lemmas layout_defs = layout_installation_def layout_project_document_def
  layout_resource_document_def layout_journal_document_def
  layout_execution_receipt_document_def state_component_json_file_def

lemma json_file_inject [simp]:
  "state_component_json_file a = state_component_json_file b \<longleftrightarrow> a = b"
  by (cases a; cases b) (simp add: state_component_json_file_def)

lemma layout_document_components:
  "map component_str (sp_components (layout_document i d)) =
     [''installations'', component_str (installation_component i)] @
     (case d of
        ProjectDocument \<Rightarrow> [''project.json'']
      | ResourceDocument r \<Rightarrow> [''resources'', component_str (resource_component r) @ ''.json'']
      | JournalDocument j \<Rightarrow> [''journals'', component_str (journal_component j) @ ''.json'']
      | ExecutionReceiptDocument j \<Rightarrow> [''receipts'', component_str (journal_component j) @ ''.json''])"
  by (cases d) (simp_all add: layout_defs)

section \<open>Hexadecimal encoding\<close>

lemma unat_high_nibble: "unat (drop_bit 4 (b :: 8 word)) = unat b div 16"
  by (simp add: drop_bit_eq_div unat_div)

lemma unat_low_nibble: "unat (b AND (15 :: 8 word)) = unat b mod 16"
proof -
  have "b AND 15 = take_bit 4 b"
    by (simp add: take_bit_eq_mask mask_eq_exp_minus_1)
  then show ?thesis
    by (simp add: take_bit_eq_mod unat_mod)
qed

lemma nibbles_lt: "unat (b :: 8 word) div 16 < 16" "unat (b :: 8 word) mod 16 < 16"
proof -
  have "unat b < 256" using unsigned_less [of b, where 'a = nat] by simp
  then show "unat b div 16 < 16" by auto
qed simp

lemma HEX_nth_hex: "n < 16 \<Longrightarrow> is_lower_hex (HEX ! n)"
proof -
  have "list_all is_lower_hex HEX" and "length HEX = 16" by (simp_all add: HEX_def byte_simps)
  then show "n < 16 \<Longrightarrow> ?thesis" by (simp add: list_all_length)
qed

lemma HEX_nth_inject: "m < 16 \<Longrightarrow> n < 16 \<Longrightarrow> HEX ! m = HEX ! n \<longleftrightarrow> m = n"
proof -
  have "distinct HEX" and "length HEX = 16" by (simp_all add: HEX_def)
  then show "m < 16 \<Longrightarrow> n < 16 \<Longrightarrow> ?thesis" by (simp add: nth_eq_iff_index_eq)
qed

lemma encode_byte_hex: "list_all is_lower_hex (encode_byte b)"
  by (simp add: encode_byte_def unat_high_nibble unat_low_nibble HEX_nth_hex nibbles_lt)

lemma length_encode_byte [simp]: "length (encode_byte b) = 2"
  by (simp add: encode_byte_def)

lemma encode_byte_not_Nil [simp]: "encode_byte b \<noteq> []"
  by (simp add: encode_byte_def)

lemma encode_byte_inject [simp]: "encode_byte a = encode_byte b \<longleftrightarrow> a = b"
proof
  assume "encode_byte a = encode_byte b"
  then have "unat a div 16 = unat b div 16" "unat a mod 16 = unat b mod 16"
    by (simp_all add: encode_byte_def unat_high_nibble unat_low_nibble HEX_nth_inject nibbles_lt)
  then have "unat a = unat b" by (metis div_mult_mod_eq)
  then show "a = b" by (simp add: word_unat_eq_iff)
qed simp

lemma length_encoded: "length (concat (map encode_byte bs)) = 2 * length bs"
  by (induction bs) auto

lemma encoded_hex: "list_all is_lower_hex (concat (map encode_byte bs))"
  using encode_byte_hex by (induction bs) auto

lemma encoded_inject:
  "concat (map encode_byte xs) = concat (map encode_byte ys) \<longleftrightarrow> xs = ys"
proof (induction xs arbitrary: ys)
  case Nil
  then show ?case by (cases ys) auto
next
  case (Cons x xs)
  then show ?case by (cases ys) auto
qed

lemma encode_installation_id_24:
  assumes "length bs = 24"
  shows "encode_installation_id bs =
    Inr (InstallationId (StateComponent (concat (map encode_byte bs))))"
proof -
  have "list_all (\<lambda>b. is_ascii_lowercase b \<or> is_ascii_digit b \<or> b = CHR ''-'')
      (concat (map encode_byte bs))"
    using encoded_hex [of bs] by (rule list.pred_mono_strong) (auto simp: byte_simps)
  then have "installation_id_parse (concat (map encode_byte bs)) =
      Inr (InstallationId (StateComponent (concat (map encode_byte bs))))"
    using assms by (simp add: installation_id_parse_iff length_encoded)
  then show ?thesis by (simp add: encode_installation_id_def)
qed

lemma generate_installation_id_iff:
  assumes "\<forall>n out. g (replicate 24 0) = Inr (n, out) \<longrightarrow> length out = 24"
  shows "generate_installation_id g = Inr i \<longleftrightarrow>
      (\<exists>out. g (replicate 24 0) = Inr (24, out) \<and>
         i = InstallationId (StateComponent (concat (map encode_byte out))))"
  using assms
  by (auto simp: generate_installation_id_def INSTALLATION_RANDOM_BYTES_def
      encode_installation_id_24 split: if_splits)

section \<open>Properties\<close>

text \<open>
  C40. Every path the layout builds from parsed identifiers can be walked one directory
  descriptor at a time: each component is non-empty, is neither \<open>.\<close> nor \<open>..\<close>, contains no
  separator and no NUL byte and is at most 128 bytes long.
\<close>
theorem layout_document_traversal_safe:
  assumes "installation_id_parse v = Inr i" and "parsed_document_name d"
  shows "list_all (\<lambda>c. traversal_safe (component_str c)) (sp_components (layout_document i d))"
proof -
  have fixed: "list_all traversal_safe
      [''installations'', ''project.json'', ''resources'', ''journals'', ''receipts'']"
    by (simp add: traversal_safe_def)
  have "list_all traversal_safe (map component_str (sp_components (layout_document i d)))"
    using assms fixed installation_traversal [OF assms(1)]
    unfolding layout_document_components
    by (cases d) (auto intro!: safe_bytes_traversal
        simp: resource_record_id_parse_iff journal_id_parse_iff)
  then show ?thesis by (simp add: list.pred_map comp_def)
qed

theorem layout_document_traversal_safe_witness:
  "list_all (\<lambda>c. traversal_safe (component_str c))
     (sp_components (layout_document (InstallationId (StateComponent ''inst-0123456789ab''))
       (JournalDocument (JournalId (StateComponent ''j.1'')))))"
proof (rule layout_document_traversal_safe [where v = "''inst-0123456789ab''"])
  show "installation_id_parse ''inst-0123456789ab'' =
      Inr (InstallationId (StateComponent ''inst-0123456789ab''))"
    by (simp add: installation_id_parse_iff byte_simps)
  show "parsed_document_name (JournalDocument (JournalId (StateComponent ''j.1'')))"
    by (simp add: journal_id_parse_iff safe_identifier_bytes_def byte_simps)
qed

text \<open>
  The layout never gives two documents the same path: two paths are equal only for the
  same installation and the same document, so project, resource, journal and receipt documents
  can not overwrite one another.
\<close>
theorem layout_document_injective:
  "layout_document i d = layout_document i' d' \<longleftrightarrow> i = i' \<and> d = d'"
  by (cases d; cases d'; cases i; cases i')
    (auto simp: layout_installation_def layout_project_document_def layout_resource_document_def
      layout_journal_document_def layout_execution_receipt_document_def
      resource_record_id.expand journal_id.expand)

text \<open>
  Where \<open>getrandom\<close> only ever rewrites the bytes of the buffer it is given, the generator
  succeeds exactly when the buffer was filled completely. The identifier then passes the
  installation identifier grammar, has 48 bytes, and determines the 24 random bytes: no two
  random inputs give the same installation.
\<close>
theorem generate_installation_id_correct:
  assumes g: "\<forall>n out. getrandom (replicate 24 0) = Inr (n, out) \<longrightarrow> length out = 24"
    and g': "\<forall>n out. getrandom' (replicate 24 0) = Inr (n, out) \<longrightarrow> length out = 24"
  shows "(is_ok (generate_installation_id getrandom) \<longleftrightarrow>
           (\<exists>out. getrandom (replicate 24 0) = Inr (24, out))) \<and>
         (\<forall>i. generate_installation_id getrandom = Inr i \<longrightarrow>
           length (installation_id_str i) = 48 \<and>
           installation_id_parse (installation_id_str i) = Inr i) \<and>
         (\<forall>i. generate_installation_id getrandom = Inr i \<longrightarrow>
           generate_installation_id getrandom' = Inr i \<longrightarrow>
           getrandom (replicate 24 0) = getrandom' (replicate 24 0))"
proof (intro conjI allI impI)
  show "is_ok (generate_installation_id getrandom) \<longleftrightarrow>
      (\<exists>out. getrandom (replicate 24 0) = Inr (24, out))"
    by (simp add: is_ok_iff generate_installation_id_iff [where g = getrandom, OF g])
next
  fix i
  assume "generate_installation_id getrandom = Inr i"
  then obtain out where "length out = 24"
    and i: "i = InstallationId (StateComponent (concat (map encode_byte out)))"
    using generate_installation_id_iff [where g = getrandom, OF g] g by blast
  then show "length (installation_id_str i) = 48"
    and "installation_id_parse (installation_id_str i) = Inr i"
    using encode_installation_id_24 [of out]
    by (auto simp: installation_id_str_def length_encoded encode_installation_id_def)
next
  fix i
  assume "generate_installation_id getrandom = Inr i" "generate_installation_id getrandom' = Inr i"
  then show "getrandom (replicate 24 0) = getrandom' (replicate 24 0)"
    using generate_installation_id_iff [where g = getrandom, OF g] generate_installation_id_iff [where g = getrandom', OF g']
    by (auto simp: encoded_inject)
qed

theorem generate_installation_id_correct_witness:
  "is_ok (generate_installation_id
     (\<lambda>buf. (Inr (length buf, map (\<lambda>_. 0xA5) buf) :: unit + nat \<times> 8 word list)))"
  using generate_installation_id_correct
    [of "\<lambda>buf. (Inr (length buf, map (\<lambda>_. 0xA5) buf) :: unit + nat \<times> 8 word list)"
        "\<lambda>buf. (Inr (length buf, map (\<lambda>_. 0xA5) buf) :: unit + nat \<times> 8 word list)"]
  by simp

end
