(* ===== verification/Lease.thy ===== *)
theory Lease
  imports Identity
begin

text \<open>
  The lease state machine of \<open>src/lease.rs\<close> and its durable document,
  \<open>src/lease_document.rs\<close>. A lease is a record with a \<open>u64\<close> revision; every legal action
  advances it by one. \<open>serde_json\<close> is a parameter of the document functions.
\<close>

section \<open>Lease records and their transitions\<close>

datatype lease_id = LeaseId (lease_id_str: string)

datatype lease_id_error = LeaseIdError string

datatype lease_kind = Run | Workspace | Preview

datatype lease_state = Pending | Active | Sleeping | Releasing | Released | Expired | Failed

datatype lease_action =
  Activate | Renew | Sleep | Wake | BeginRelease | FinishRelease | Expire | Fail

definition LEASE_SCHEMA_VERSION :: "8 word" where "LEASE_SCHEMA_VERSION = 1"
definition MAX_LEASE_ID_LEN :: nat where "MAX_LEASE_ID_LEN = 100"

definition lease_id_parse :: "string \<Rightarrow> lease_id_error + lease_id" where
  "lease_id_parse v =
     (if MAX_LEASE_ID_LEN < length v \<or> \<not> safe_identifier_bytes v
      then Inl (LeaseIdError v)
      else Inr (LeaseId v))"

fun supports_sleep :: "lease_kind \<Rightarrow> bool" where
  "supports_sleep Run = False"
| "supports_sleep Workspace = True"
| "supports_sleep Preview = True"

fun lease_kind_str :: "lease_kind \<Rightarrow> string" where
  "lease_kind_str Run = ''run''"
| "lease_kind_str Workspace = ''workspace''"
| "lease_kind_str Preview = ''preview''"

fun is_terminal :: "lease_state \<Rightarrow> bool" where
  "is_terminal Released = True"
| "is_terminal Expired = True"
| "is_terminal Failed = True"
| "is_terminal _ = False"

fun lease_state_str :: "lease_state \<Rightarrow> string" where
  "lease_state_str Pending = ''pending''"
| "lease_state_str Active = ''active''"
| "lease_state_str Sleeping = ''sleeping''"
| "lease_state_str Releasing = ''releasing''"
| "lease_state_str Released = ''released''"
| "lease_state_str Expired = ''expired''"
| "lease_state_str Failed = ''failed''"

record lease_identity =
  li_lease_id :: lease_id
  li_installation_id :: installation_id
  li_kind :: lease_kind

record lease_record =
  lr_schema_version :: "8 word"
  lr_identity :: lease_identity
  lr_state :: lease_state
  lr_revision :: "64 word"

record lease_transition =
  lt_schema_version :: "8 word"
  lt_identity :: lease_identity
  lt_from :: lease_state
  lt_action :: lease_action
  lt_to :: lease_state
  lt_previous_revision :: "64 word"
  lt_next_revision :: "64 word"

datatype lease_problem =
    TerminalLeasesCannotTransition
  | RunLeasesCannotSleep
  | ActionInvalidForState
  | RevisionCounterExhausted

record lease_transition_error =
  lte_lease_id :: lease_id
  lte_kind :: lease_kind
  lte_current :: lease_state
  lte_action :: lease_action
  lte_problem :: lease_problem

definition lease_transition_error_new ::
  "lease_record \<Rightarrow> lease_action \<Rightarrow> lease_problem \<Rightarrow> lease_transition_error" where
  "lease_transition_error_new record' action problem =
     \<lparr>lte_lease_id = li_lease_id (lr_identity record'),
      lte_kind = li_kind (lr_identity record'),
      lte_current = lr_state record',
      lte_action = action,
      lte_problem = problem\<rparr>"

definition lease_record_pending :: "lease_identity \<Rightarrow> lease_record" where
  "lease_record_pending identity =
     \<lparr>lr_schema_version = LEASE_SCHEMA_VERSION, lr_identity = identity,
      lr_state = Pending, lr_revision = 0\<rparr>"

definition next_state :: "lease_kind \<Rightarrow> lease_state \<Rightarrow> lease_action \<Rightarrow> lease_problem + lease_state" where
  "next_state kind st action =
     (if is_terminal st then Inl TerminalLeasesCannotTransition
      else case (st, action) of
        (Pending, Activate) \<Rightarrow> Inr Active
      | (Pending, Renew) \<Rightarrow> Inr st
      | (Active, Renew) \<Rightarrow> Inr st
      | (Sleeping, Renew) \<Rightarrow> Inr st
      | (Active, Sleep) \<Rightarrow> if supports_sleep kind then Inr Sleeping else Inl RunLeasesCannotSleep
      | (Sleeping, Wake) \<Rightarrow> Inr Active
      | (Pending, BeginRelease) \<Rightarrow> Inr Releasing
      | (Active, BeginRelease) \<Rightarrow> Inr Releasing
      | (Sleeping, BeginRelease) \<Rightarrow> Inr Releasing
      | (Releasing, FinishRelease) \<Rightarrow> Inr Released
      | (Pending, Expire) \<Rightarrow> Inr Expired
      | (Active, Expire) \<Rightarrow> Inr Expired
      | (Sleeping, Expire) \<Rightarrow> Inr Expired
      | (Releasing, Expire) \<Rightarrow> Inr Expired
      | (Pending, Fail) \<Rightarrow> Inr Failed
      | (Active, Fail) \<Rightarrow> Inr Failed
      | (Sleeping, Fail) \<Rightarrow> Inr Failed
      | (Releasing, Fail) \<Rightarrow> Inr Failed
      | _ \<Rightarrow> Inl ActionInvalidForState)"

definition lease_plan_transition ::
  "lease_record \<Rightarrow> lease_action \<Rightarrow> lease_transition_error + lease_transition" where
  "lease_plan_transition self action =
     try_res (map_err (lease_transition_error_new self action)
         (next_state (li_kind (lr_identity self)) (lr_state self) action)) (\<lambda>to.
     try_res (ok_or (checked_add (lr_revision self) 1)
         (lease_transition_error_new self action RevisionCounterExhausted)) (\<lambda>next_revision.
     Inr \<lparr>lt_schema_version = LEASE_SCHEMA_VERSION, lt_identity = lr_identity self,
          lt_from = lr_state self, lt_action = action, lt_to = to,
          lt_previous_revision = lr_revision self, lt_next_revision = next_revision\<rparr>))"

definition resulting_record :: "lease_transition \<Rightarrow> lease_record" where
  "resulting_record t =
     \<lparr>lr_schema_version = LEASE_SCHEMA_VERSION, lr_identity = lt_identity t,
      lr_state = lt_to t, lr_revision = lt_next_revision t\<rparr>"

section \<open>Lease documents\<close>

record lease_identity_wire =
  liw_lease_id :: string
  liw_installation_id :: string
  liw_kind :: string

record lease_record_wire =
  lrw_schema_version :: "8 word"
  lrw_identity :: lease_identity_wire
  lrw_state :: string
  lrw_revision :: "64 word"

datatype lease_document_error =
    SerializationFailed
  | EncodedTooLarge
  | DocumentTooLarge
  | InvalidJson
  | UnsupportedLeaseSchema "8 word"
  | InvalidLeaseId
  | InvalidInstallationId
  | RunLeaseSleeping
  | RevisionBelowMinimum lease_state
  | UnknownLeaseKind string
  | UnknownLeaseState string

definition MAX_LEASE_DOCUMENT_BYTES :: nat where "MAX_LEASE_DOCUMENT_BYTES = 65536"

fun minimum_revision :: "lease_state \<Rightarrow> 64 word" where
  "minimum_revision Pending = 0"
| "minimum_revision Active = 1"
| "minimum_revision Releasing = 1"
| "minimum_revision Expired = 1"
| "minimum_revision Failed = 1"
| "minimum_revision Sleeping = 2"
| "minimum_revision Released = 2"

definition validate_lease_record :: "lease_record \<Rightarrow> lease_document_error + unit" where
  "validate_lease_record r =
     (if lr_schema_version r \<noteq> LEASE_SCHEMA_VERSION
        then Inl (UnsupportedLeaseSchema (lr_schema_version r))
      else if li_kind (lr_identity r) = Run \<and> lr_state r = Sleeping then Inl RunLeaseSleeping
      else if lr_revision r < minimum_revision (lr_state r)
        then Inl (RevisionBelowMinimum (lr_state r))
      else Inr ())"

definition parse_kind :: "string \<Rightarrow> lease_document_error + lease_kind" where
  "parse_kind v =
     (if v = ''run'' then Inr Run
      else if v = ''workspace'' then Inr Workspace
      else if v = ''preview'' then Inr Preview
      else Inl (UnknownLeaseKind v))"

definition parse_state :: "string \<Rightarrow> lease_document_error + lease_state" where
  "parse_state v =
     (if v = ''pending'' then Inr Pending
      else if v = ''active'' then Inr Active
      else if v = ''sleeping'' then Inr Sleeping
      else if v = ''releasing'' then Inr Releasing
      else if v = ''released'' then Inr Released
      else if v = ''expired'' then Inr Expired
      else if v = ''failed'' then Inr Failed
      else Inl (UnknownLeaseState v))"

text \<open>
  \<open>to_string_pretty\<close> and \<open>from_slice\<close> are the parameters \<open>to_json\<close> and \<open>from_json\<close>. The
  serialised form of a record has the names of \<open>lease_record_to_wire\<close>: the derived
  \<open>Serialize\<close> with \<open>rename_all = "snake_case"\<close> and transparent identifiers.
\<close>

definition lease_record_to_wire :: "lease_record \<Rightarrow> lease_record_wire" where
  "lease_record_to_wire r =
     \<lparr>lrw_schema_version = lr_schema_version r,
      lrw_identity =
        \<lparr>liw_lease_id = lease_id_str (li_lease_id (lr_identity r)),
         liw_installation_id = installation_id_str (li_installation_id (lr_identity r)),
         liw_kind = lease_kind_str (li_kind (lr_identity r))\<rparr>,
      lrw_state = lease_state_str (lr_state r),
      lrw_revision = lr_revision r\<rparr>"

definition encode_lease_document ::
  "(lease_record_wire \<Rightarrow> 'j + string) \<Rightarrow> lease_record \<Rightarrow> lease_document_error + string" where
  "encode_lease_document to_json r =
     try_res (validate_lease_record r) (\<lambda>_.
     try_res (map_err (\<lambda>_. SerializationFailed) (to_json (lease_record_to_wire r))) (\<lambda>text'.
     let encoded = text' @ [CHR 0x0A]
     in if MAX_LEASE_DOCUMENT_BYTES < length encoded then Inl EncodedTooLarge else Inr encoded))"

definition decode_lease_document ::
  "(string \<Rightarrow> 'j + lease_record_wire) \<Rightarrow> string \<Rightarrow> lease_document_error + lease_record" where
  "decode_lease_document from_json bytes =
     (if MAX_LEASE_DOCUMENT_BYTES < length bytes then Inl DocumentTooLarge
      else
        try_res (map_err (\<lambda>_. InvalidJson) (from_json bytes)) (\<lambda>wire.
        if lrw_schema_version wire \<noteq> LEASE_SCHEMA_VERSION
        then Inl (UnsupportedLeaseSchema (lrw_schema_version wire))
        else
          try_res (map_err (\<lambda>_. InvalidLeaseId)
              (lease_id_parse (liw_lease_id (lrw_identity wire)))) (\<lambda>lease_id.
          try_res (map_err (\<lambda>_. InvalidInstallationId)
              (installation_id_parse (liw_installation_id (lrw_identity wire)))) (\<lambda>installation_id.
          try_res (parse_kind (liw_kind (lrw_identity wire))) (\<lambda>kind.
          try_res (parse_state (lrw_state wire)) (\<lambda>st.
          let r = \<lparr>lr_schema_version = LEASE_SCHEMA_VERSION,
                   lr_identity = \<lparr>li_lease_id = lease_id, li_installation_id = installation_id,
                                  li_kind = kind\<rparr>,
                   lr_state = st, lr_revision = lrw_revision wire\<rparr>
          in try_res (validate_lease_record r) (\<lambda>_. Inr r)))))))"

section \<open>Reachable leases\<close>

text \<open>The records a lease passes through: created pending, then planned transitions only.\<close>

inductive lease_step :: "lease_record \<Rightarrow> lease_record \<Rightarrow> bool" where
  "lease_plan_transition r action = Inr t \<Longrightarrow> lease_step r (resulting_record t)"

inductive lease_reachable :: "lease_record \<Rightarrow> bool" where
  lease_created: "lease_reachable (lease_record_pending identity)"
| lease_stepped: "lease_reachable r \<Longrightarrow> lease_step r r' \<Longrightarrow> lease_reachable r'"

text \<open>An identity whose parts came from their parsers.\<close>

definition parsed_lease_identity :: "lease_identity \<Rightarrow> bool" where
  "parsed_lease_identity i \<longleftrightarrow>
     lease_id_parse (lease_id_str (li_lease_id i)) = Inr (li_lease_id i) \<and>
     installation_id_parse (installation_id_str (li_installation_id i)) = Inr (li_installation_id i)"

section \<open>Lemmas\<close>

lemma next_state_ok_iff:
  "next_state k s a = Inr s' \<longleftrightarrow>
     \<not> is_terminal s \<and>
     (a = Activate \<and> s = Pending \<and> s' = Active
      \<or> a = Renew \<and> s \<noteq> Releasing \<and> s' = s
      \<or> a = Sleep \<and> s = Active \<and> k \<noteq> Run \<and> s' = Sleeping
      \<or> a = Wake \<and> s = Sleeping \<and> s' = Active
      \<or> a = BeginRelease \<and> s \<noteq> Releasing \<and> s' = Releasing
      \<or> a = FinishRelease \<and> s = Releasing \<and> s' = Released
      \<or> a = Expire \<and> s' = Expired
      \<or> a = Fail \<and> s' = Failed)"
  by (cases k; cases s; cases a) (auto simp: next_state_def)

lemma lease_plan_ok_iff:
  "lease_plan_transition r a = Inr t \<longleftrightarrow>
     next_state (li_kind (lr_identity r)) (lr_state r) a = Inr (lt_to t) \<and>
     unat (lt_next_revision t) = unat (lr_revision r) + 1 \<and>
     lt_schema_version t = LEASE_SCHEMA_VERSION \<and> lt_identity t = lr_identity r \<and>
     lt_from t = lr_state r \<and> lt_action t = a \<and> lt_previous_revision t = lr_revision r"
  by (cases t) (auto simp: lease_plan_transition_def checked_add_unat)

lemma resulting_record_simps [simp]:
  "lr_schema_version (resulting_record t) = LEASE_SCHEMA_VERSION"
  "lr_identity (resulting_record t) = lt_identity t"
  "lr_state (resulting_record t) = lt_to t"
  "lr_revision (resulting_record t) = lt_next_revision t"
  by (simp_all add: resulting_record_def)

lemma lease_record_pending_simps [simp]:
  "lr_schema_version (lease_record_pending i) = LEASE_SCHEMA_VERSION"
  "lr_identity (lease_record_pending i) = i"
  "lr_state (lease_record_pending i) = Pending"
  "lr_revision (lease_record_pending i) = 0"
  by (simp_all add: lease_record_pending_def)

lemma lease_step_iff:
  "lease_step r r' \<longleftrightarrow>
     (\<exists>a. next_state (li_kind (lr_identity r)) (lr_state r) a = Inr (lr_state r')) \<and>
     unat (lr_revision r') = unat (lr_revision r) + 1 \<and>
     lr_schema_version r' = LEASE_SCHEMA_VERSION \<and> lr_identity r' = lr_identity r"
  (is "?L \<longleftrightarrow> ?R")
proof
  assume ?L
  then show ?R by (cases rule: lease_step.cases) (auto simp: lease_plan_ok_iff)
next
  assume ?R
  then obtain a where a: "next_state (li_kind (lr_identity r)) (lr_state r) a = Inr (lr_state r')"
    and rest: "unat (lr_revision r') = unat (lr_revision r) + 1"
      "lr_schema_version r' = LEASE_SCHEMA_VERSION" "lr_identity r' = lr_identity r" by blast
  let ?t = "\<lparr>lt_schema_version = LEASE_SCHEMA_VERSION, lt_identity = lr_identity r,
      lt_from = lr_state r, lt_action = a, lt_to = lr_state r',
      lt_previous_revision = lr_revision r, lt_next_revision = lr_revision r'\<rparr>"
  have "lease_plan_transition r a = Inr ?t"
    using a rest by (simp add: lease_plan_ok_iff)
  moreover have "resulting_record ?t = r'"
    using rest by (cases r') (simp add: resulting_record_def)
  ultimately show ?L by (metis lease_step.intros)
qed

lemma minimum_revision_unat:
  "unat (minimum_revision s) =
     (if s = Pending then 0 else if s = Sleeping \<or> s = Released then 2 else 1)"
  by (cases s) auto

lemma validate_lease_record_ok_iff:
  "validate_lease_record r = Inr u \<longleftrightarrow>
     lr_schema_version r = LEASE_SCHEMA_VERSION \<and>
     \<not> (li_kind (lr_identity r) = Run \<and> lr_state r = Sleeping) \<and>
     unat (minimum_revision (lr_state r)) \<le> unat (lr_revision r)"
  by (auto simp: validate_lease_record_def word_less_nat_alt)

lemma lease_step_validates:
  assumes "lease_step r r'" and "validate_lease_record r = Inr ()"
  shows "validate_lease_record r' = Inr ()"
  using assms
  by (auto simp: lease_step_iff validate_lease_record_ok_iff next_state_ok_iff
      minimum_revision_unat split: if_splits)

lemma lease_pending_validates: "validate_lease_record (lease_record_pending i) = Inr ()"
  by (simp add: validate_lease_record_ok_iff lease_record_pending_def)

lemma parse_kind_iff: "parse_kind v = Inr k \<longleftrightarrow> v = lease_kind_str k"
  by (cases k) (auto simp: parse_kind_def)

lemma parse_state_iff: "parse_state v = Inr s \<longleftrightarrow> v = lease_state_str s"
  by (cases s) (auto simp: parse_state_def)

lemma lease_id_parse_iff:
  "lease_id_parse v = Inr l \<longleftrightarrow> length v \<le> 100 \<and> safe_identifier_bytes v \<and> l = LeaseId v"
  by (auto simp: lease_id_parse_def MAX_LEASE_ID_LEN_def)

lemma decode_lease_ok_iff:
  "decode_lease_document from_json bytes = Inr r \<longleftrightarrow>
     length bytes \<le> MAX_LEASE_DOCUMENT_BYTES \<and>
     from_json bytes = Inr (lease_record_to_wire r) \<and>
     parsed_lease_identity (lr_identity r) \<and> validate_lease_record r = Inr ()"
  (is "?L \<longleftrightarrow> ?R")
proof
  assume ?L
  then obtain wire l i k st where "from_json bytes = Inr wire"
    and "lease_id_parse (liw_lease_id (lrw_identity wire)) = Inr l"
    and "installation_id_parse (liw_installation_id (lrw_identity wire)) = Inr i"
    and "lrw_schema_version wire = LEASE_SCHEMA_VERSION"
    and "liw_kind (lrw_identity wire) = lease_kind_str k" and "lrw_state wire = lease_state_str st"
    and "r = \<lparr>lr_schema_version = LEASE_SCHEMA_VERSION,
           lr_identity = \<lparr>li_lease_id = l, li_installation_id = i, li_kind = k\<rparr>,
           lr_state = st, lr_revision = lrw_revision wire\<rparr>"
    and "validate_lease_record r = Inr ()" and "length bytes \<le> MAX_LEASE_DOCUMENT_BYTES"
    by (auto simp: decode_lease_document_def Let_def parse_kind_iff parse_state_iff split: if_splits)
  then show ?R
    by (cases wire; cases "lrw_identity wire")
      (auto simp: lease_record_to_wire_def parsed_lease_identity_def lease_id_parse_iff
        installation_id_parse_iff installation_id_str_def)
next
  assume ?R
  then show ?L
    by (cases r; cases "lr_identity r")
      (auto simp: decode_lease_document_def Let_def lease_record_to_wire_def
        parsed_lease_identity_def parse_kind_iff parse_state_iff validate_lease_record_ok_iff)
qed

section \<open>Properties\<close>

text \<open>
  C37. Every record a lease can reach from creation by planned transitions is one that the
  lease document accepts: a run lease never sleeps and the revision is at least the number of
  transitions its state needs. So the catalog can always persist and reload what it planned.
\<close>
theorem lease_reachable_persistable:
  assumes "lease_reachable r"
  shows "validate_lease_record r = Inr ()"
  using assms
  by (induction rule: lease_reachable.induct)
    (auto intro: lease_step_validates lease_pending_validates)

theorem lease_reachable_persistable_witness:
  "validate_lease_record (lease_record_pending
     \<lparr>li_lease_id = LeaseId ''l1'', li_installation_id = InstallationId (StateComponent ''i''),
      li_kind = Run\<rparr>) = Inr ()"
  by (rule lease_reachable_persistable) (rule lease_created)

text \<open>
  The lease table exactly: an action is planned if and only if the state is not terminal,
  the action is legal in that state for that kind, and the \<open>u64\<close> revision can still grow. The
  planned record keeps the identity, takes the state the table names and the next revision,
  which is greater than the old one: the counter never wraps.
\<close>
theorem lease_plan_transition_correct:
  "(\<exists>t. lease_plan_transition r a = Inr t \<and> resulting_record t = r') \<longleftrightarrow>
     unat (lr_revision r) < 2 ^ 64 - 1 \<and>
     \<not> is_terminal (lr_state r) \<and>
     (a, lr_state r, lr_state r') \<in>
       {(Activate, Pending, Active), (Wake, Sleeping, Active), (FinishRelease, Releasing, Released)}
       \<union> {(Renew, s, s) | s. s \<noteq> Releasing}
       \<union> {(Sleep, Active, Sleeping) | u. li_kind (lr_identity r) \<noteq> Run}
       \<union> {(BeginRelease, s, Releasing) | s. s \<noteq> Releasing}
       \<union> {(Expire, s, Expired) | s. True} \<union> {(Fail, s, Failed) | s. True} \<and>
     unat (lr_revision r') = unat (lr_revision r) + 1 \<and>
     lr_schema_version r' = LEASE_SCHEMA_VERSION \<and> lr_identity r' = lr_identity r"
  (is "?L \<longleftrightarrow> ?R")
proof -
  have max: "unat (lr_revision r') = unat (lr_revision r) + 1 \<Longrightarrow>
      unat (lr_revision r) < 2 ^ 64 - 1"
    using unsigned_less [of "lr_revision r'", where 'a = nat] by simp
  have "?L \<longleftrightarrow> next_state (li_kind (lr_identity r)) (lr_state r) a = Inr (lr_state r') \<and>
     unat (lr_revision r') = unat (lr_revision r) + 1 \<and>
     lr_schema_version r' = LEASE_SCHEMA_VERSION \<and> lr_identity r' = lr_identity r"
    (is "_ \<longleftrightarrow> ?M")
  proof
    assume ?L then show ?M by (auto simp: lease_plan_ok_iff)
  next
    assume ?M
    then show ?L
      by (intro exI [of _ "\<lparr>lt_schema_version = LEASE_SCHEMA_VERSION, lt_identity = lr_identity r,
          lt_from = lr_state r, lt_action = a, lt_to = lr_state r',
          lt_previous_revision = lr_revision r, lt_next_revision = lr_revision r'\<rparr>"])
        (cases r'; simp add: lease_plan_ok_iff resulting_record_def)
  qed
  also have "\<dots> \<longleftrightarrow> ?R"
    using max by (auto simp: next_state_ok_iff)
  finally show ?thesis .
qed

text \<open>
  Lease documents round trip through JSON. Where the JSON library reads back what it wrote
  (here: for this record's text), decoding an encoded document gives the record again; and
  every document that decodes holds parsed identifiers and a record the encoder accepts.
\<close>
theorem lease_document_roundtrip:
  assumes "\<forall>txt. to_json (lease_record_to_wire r) = Inr txt \<longrightarrow>
      from_json (txt @ [CHR 0x0A]) = Inr (lease_record_to_wire r)"
    and "parsed_lease_identity (lr_identity r)"
    and "encode_lease_document to_json r = Inr bytes"
  shows "decode_lease_document from_json bytes = Inr r"
  using assms
  by (auto simp: decode_lease_ok_iff encode_lease_document_def Let_def split: if_splits)

theorem lease_document_roundtrip_witness:
  "decode_lease_document
     (\<lambda>_. (Inr (lease_record_to_wire (lease_record_pending
        \<lparr>li_lease_id = LeaseId ''l1'',
         li_installation_id = InstallationId (StateComponent ''abcdefgh-0123456''),
         li_kind = Preview\<rparr>)) :: unit + lease_record_wire))
     ''{}\<newline>'' = Inr (lease_record_pending
        \<lparr>li_lease_id = LeaseId ''l1'',
         li_installation_id = InstallationId (StateComponent ''abcdefgh-0123456''),
         li_kind = Preview\<rparr>)"
  by (rule lease_document_roundtrip [where to_json = "\<lambda>_. (Inr ''{}'' :: unit + string)"])
    (simp_all add: parsed_lease_identity_def lease_record_pending_def lease_id_parse_def
      MAX_LEASE_ID_LEN_def safe_identifier_bytes_def installation_id_parse_iff
      installation_id_str_def byte_simps encode_lease_document_def MAX_LEASE_DOCUMENT_BYTES_def
      validate_lease_record_ok_iff)

end
