(* ===== verification/Lease_Catalog.thy ===== *)
theory Lease_Catalog
  imports Lease
begin

text \<open>
  The lease catalog of \<open>src/lease_catalog.rs\<close>: the client of the \<open>LeaseStore\<close> trait, and the
  in-memory store. The trait is the locale \<open>lease_store\<close>; a \<open>&mut self\<close> method returns its
  result with the store's next state. The catalog's guarantees are proved from the trait's laws
  and hold for \<open>MemoryLeaseStore\<close> by interpretation.
\<close>

section \<open>Selectors, receipts and errors\<close>

record lease_selector =
  ls_installation_id :: installation_id
  ls_lease_id :: lease_id

definition selector_from_identity :: "lease_identity \<Rightarrow> lease_selector" where
  "selector_from_identity i =
     \<lparr>ls_installation_id = li_installation_id i, ls_lease_id = li_lease_id i\<rparr>"

datatype lease_write_disposition = Created | Replaced

record lease_write_receipt =
  lwr_disposition :: lease_write_disposition
  lwr_revision :: "64 word"

datatype lease_store_error_kind =
    AlreadyExists | Missing | Conflict | Busy | InvalidTransition | CorruptState
  | UnsafeFilesystem | Io

datatype lease_store_message =
    LeaseAlreadyExists
  | LeaseDoesNotExist
  | IdentityDoesNotMatchSelector
  | StaleRevision "64 word" "64 word"
  | TransitionRefused lease_transition_error
  | ReplacementIdentityDiffers
  | LeaseRevisionExhausted
  | RevisionMustAdvanceOnce
  | StoreMessage string

record lease_store_error =
  lse_kind :: lease_store_error_kind
  lse_message :: lease_store_message

definition lease_store_error_public ::
  "lease_store_error_kind \<Rightarrow> lease_store_message \<Rightarrow> lease_store_error" where
  "lease_store_error_public kind message = \<lparr>lse_kind = kind, lse_message = message\<rparr>"

definition stale_revision :: "64 word \<Rightarrow> 64 word \<Rightarrow> lease_store_error" where
  "stale_revision expected actual =
     lease_store_error_public Conflict (StaleRevision expected actual)"

type_synonym 's lease_load = "'s \<Rightarrow> lease_selector \<Rightarrow> lease_store_error + lease_record option"
type_synonym 's lease_create =
  "'s \<Rightarrow> lease_record \<Rightarrow> (lease_store_error + lease_write_receipt) \<times> 's"
type_synonym 's lease_replace =
  "'s \<Rightarrow> 64 word \<Rightarrow> lease_record \<Rightarrow> (lease_store_error + lease_write_receipt) \<times> 's"
type_synonym lease_published = "lease_store_error + lease_record \<times> lease_write_receipt"

section \<open>The catalog over a store\<close>

definition lease_catalog_create ::
  "'s lease_create \<Rightarrow> 's \<Rightarrow> lease_identity \<Rightarrow> lease_published \<times> 's" where
  "lease_catalog_create create s identity =
     (let record' = lease_record_pending identity;
          (result, s') = create s record'
      in (try_res result (\<lambda>receipt. Inr (record', receipt)), s'))"

definition lease_catalog_load ::
  "'s lease_load \<Rightarrow> 's \<Rightarrow> lease_selector \<Rightarrow> lease_store_error + lease_record option" where
  "lease_catalog_load load s selector = load s selector"

definition lease_catalog_transition ::
  "'s lease_load \<Rightarrow> 's lease_replace \<Rightarrow> 's \<Rightarrow> lease_selector \<Rightarrow> 64 word \<Rightarrow> lease_action \<Rightarrow>
   lease_published \<times> 's" where
  "lease_catalog_transition load replace_if_revision s selector expected_revision action =
     (case load s selector of
        Inl e \<Rightarrow> (Inl e, s)
      | Inr None \<Rightarrow> (Inl (lease_store_error_public Missing LeaseDoesNotExist), s)
      | Inr (Some current) \<Rightarrow>
          if selector_from_identity (lr_identity current) \<noteq> selector
          then (Inl (lease_store_error_public CorruptState IdentityDoesNotMatchSelector), s)
          else if lr_revision current \<noteq> expected_revision
          then (Inl (stale_revision expected_revision (lr_revision current)), s)
          else
            (case lease_plan_transition current action of
               Inl e \<Rightarrow> (Inl (lease_store_error_public InvalidTransition (TransitionRefused e)), s)
             | Inr transition \<Rightarrow>
                 let next' = resulting_record transition;
                     (result, s') = replace_if_revision s expected_revision next'
                 in (try_res result (\<lambda>receipt. Inr (next', receipt)), s')))"

section \<open>The in-memory store\<close>

record memory_lease_store =
  mls_records :: "lease_selector \<rightharpoonup> lease_record"

definition memory_store_default :: memory_lease_store where
  "memory_store_default = \<lparr>mls_records = Map.empty\<rparr>"

definition memory_load :: "memory_lease_store lease_load" where
  "memory_load s selector = Inr (mls_records s selector)"

definition memory_create :: "memory_lease_store lease_create" where
  "memory_create s record' =
     (let selector = selector_from_identity (lr_identity record')
      in if mls_records s selector \<noteq> None
         then (Inl (lease_store_error_public AlreadyExists LeaseAlreadyExists), s)
         else (Inr \<lparr>lwr_disposition = Created, lwr_revision = lr_revision record'\<rparr>,
               s\<lparr>mls_records := (mls_records s)(selector \<mapsto> record')\<rparr>))"

definition memory_replace_if_revision :: "memory_lease_store lease_replace" where
  "memory_replace_if_revision s expected_revision record' =
     (let selector = selector_from_identity (lr_identity record')
      in case mls_records s selector of
           None \<Rightarrow> (Inl (lease_store_error_public Missing LeaseDoesNotExist), s)
         | Some current \<Rightarrow>
             if lr_identity current \<noteq> lr_identity record'
             then (Inl (lease_store_error_public CorruptState ReplacementIdentityDiffers), s)
             else if lr_revision current \<noteq> expected_revision
             then (Inl (stale_revision expected_revision (lr_revision current)), s)
             else
               (case checked_add expected_revision 1 of
                  None \<Rightarrow> (Inl (lease_store_error_public Conflict LeaseRevisionExhausted), s)
                | Some next_revision \<Rightarrow>
                    if lr_revision record' \<noteq> next_revision
                    then (Inl (lease_store_error_public Conflict RevisionMustAdvanceOnce), s)
                    else (Inr \<lparr>lwr_disposition = Replaced, lwr_revision = lr_revision record'\<rparr>,
                          s\<lparr>mls_records := (mls_records s)(selector \<mapsto> record')\<rparr>)))"

section \<open>Histories of catalog calls\<close>

text \<open>A client's calls in the order the store's exclusive write boundary serialises them.\<close>

datatype lease_call =
    CallCreate lease_identity
  | CallTransition lease_selector "64 word" lease_action

fun lease_call_step ::
  "'s lease_load \<Rightarrow> 's lease_create \<Rightarrow> 's lease_replace \<Rightarrow> 's \<Rightarrow> lease_call \<Rightarrow> lease_published \<times> 's" where
  "lease_call_step load create rep s (CallCreate i) = lease_catalog_create create s i"
| "lease_call_step load create rep s (CallTransition sel rv a) =
     lease_catalog_transition load rep s sel rv a"

fun lease_run ::
  "'s lease_load \<Rightarrow> 's lease_create \<Rightarrow> 's lease_replace \<Rightarrow> 's \<Rightarrow> lease_call list \<Rightarrow>
   (lease_call \<times> lease_published) list \<times> 's" where
  "lease_run load create rep s [] = ([], s)"
| "lease_run load create rep s (c # cs) =
     (let (result, s') = lease_call_step load create rep s c;
          (history, s'') = lease_run load create rep s' cs
      in ((c, result) # history, s''))"

fun is_transition_of :: "lease_selector \<Rightarrow> lease_call \<times> lease_published \<Rightarrow> bool" where
  "is_transition_of sel (CallTransition sel' rv a, Inr p) \<longleftrightarrow> sel' = sel"
| "is_transition_of sel _ \<longleftrightarrow> False"

text \<open>The number of transitions of one lease that the history reports as published.\<close>

definition published_transitions ::
  "lease_selector \<Rightarrow> (lease_call \<times> lease_published) list \<Rightarrow> nat" where
  "published_transitions sel history = length (filter (is_transition_of sel) history)"

abbreviation memory_call_step ::
  "memory_lease_store \<Rightarrow> lease_call \<Rightarrow> lease_published \<times> memory_lease_store" where
  "memory_call_step \<equiv> lease_call_step memory_load memory_create memory_replace_if_revision"

abbreviation memory_run ::
  "memory_lease_store \<Rightarrow> lease_call list \<Rightarrow>
   (lease_call \<times> lease_published) list \<times> memory_lease_store" where
  "memory_run \<equiv> lease_run memory_load memory_create memory_replace_if_revision"

section \<open>The specification: an atomic map of leases\<close>

fun lease_spec_step ::
  "(lease_selector \<rightharpoonup> lease_record) \<Rightarrow> lease_call \<Rightarrow>
   (lease_record \<times> (lease_selector \<rightharpoonup> lease_record)) option" where
  "lease_spec_step m (CallCreate i) =
     (if m (selector_from_identity i) = None
      then Some (lease_record_pending i, m(selector_from_identity i \<mapsto> lease_record_pending i))
      else None)"
| "lease_spec_step m (CallTransition sel rv a) =
     (case m sel of
        None \<Rightarrow> None
      | Some r \<Rightarrow>
          if lr_revision r = rv
          then (case lease_plan_transition r a of
                  Inl e \<Rightarrow> None
                | Inr t \<Rightarrow> Some (resulting_record t, m(sel \<mapsto> resulting_record t)))
          else None)"

text \<open>Each lease is stored under its own selector and is one the lease document accepts.\<close>

definition lease_map_ok :: "(lease_selector \<rightharpoonup> lease_record) \<Rightarrow> bool" where
  "lease_map_ok m \<longleftrightarrow>
     (\<forall>sel r. m sel = Some r \<longrightarrow>
        selector_from_identity (lr_identity r) = sel \<and> validate_lease_record r = Inr ())"

lemma lease_spec_create_iff:
  "lease_spec_step m (CallCreate i) = Some (r, m') \<longleftrightarrow>
     m (selector_from_identity i) = None \<and> r = lease_record_pending i \<and>
     m' = m(selector_from_identity i \<mapsto> lease_record_pending i)"
  by auto

lemma lease_spec_transition_iff:
  "lease_spec_step m (CallTransition sel rv a) = Some (r, m') \<longleftrightarrow>
     (\<exists>cur t. m sel = Some cur \<and> lr_revision cur = rv \<and> lease_plan_transition cur a = Inr t \<and>
        r = resulting_record t \<and> m' = m(sel \<mapsto> resulting_record t))"
  by (auto split: option.splits sum.splits)

lemmas lease_spec_iffs = lease_spec_create_iff lease_spec_transition_iff

declare lease_spec_step.simps [simp del]

section \<open>The store contract\<close>

locale lease_store =
  fixes load :: "'s lease_load"
    and create :: "'s lease_create"
    and replace_if_revision :: "'s lease_replace"
    and view :: "'s \<Rightarrow> lease_selector \<rightharpoonup> lease_record"
  assumes load_view: "load s sel = Inr x \<Longrightarrow> x = view s sel"
    and create_published: "create s r = (Inr receipt, s') \<Longrightarrow>
      view s (selector_from_identity (lr_identity r)) = None \<and>
      view s' = (view s)(selector_from_identity (lr_identity r) \<mapsto> r)"
    and create_refused: "create s r = (Inl e, s') \<Longrightarrow> view s' = view s"
    and replace_published: "replace_if_revision s rv r = (Inr receipt, s') \<Longrightarrow>
      (\<exists>current. view s (selector_from_identity (lr_identity r)) = Some current \<and>
         lr_identity current = lr_identity r \<and> lr_revision current = rv \<and>
         checked_add rv 1 = Some (lr_revision r)) \<and>
      view s' = (view s)(selector_from_identity (lr_identity r) \<mapsto> r)"
    and replace_refused: "replace_if_revision s rv r = (Inl e, s') \<Longrightarrow> view s' = view s"
begin

lemma create_call_published:
  "lease_catalog_create create s i = (Inr (r, receipt), s') \<Longrightarrow>
   lease_spec_step (view s) (CallCreate i) = Some (r, view s')"
  by (auto simp: lease_catalog_create_def Let_def lease_spec_iffs split: prod.splits
      dest: create_published)

lemma create_call_refused:
  "lease_catalog_create create s i = (Inl e, s') \<Longrightarrow> view s' = view s"
  by (auto simp: lease_catalog_create_def Let_def result_simps split: prod.splits
      dest: create_refused)

lemma transition_call_published:
  assumes "lease_catalog_transition load replace_if_revision s sel rv a = (Inr (r, receipt), s')"
  shows "lease_spec_step (view s) (CallTransition sel rv a) = Some (r, view s')"
proof -
  obtain current t where cur: "load s sel = Inr (Some current)"
    and sel: "selector_from_identity (lr_identity current) = sel" and rv: "lr_revision current = rv"
    and t: "lease_plan_transition current a = Inr t" and r: "r = resulting_record t"
    and rep: "replace_if_revision s rv (resulting_record t) = (Inr receipt, s')"
    using assms
    by (auto simp: lease_catalog_transition_def Let_def
        split: sum.splits option.splits if_splits prod.splits)
  have "view s sel = Some current" using load_view [OF cur] by simp
  moreover have "view s' = (view s)(sel \<mapsto> resulting_record t)"
    using replace_published [OF rep] t sel by (simp add: lease_plan_ok_iff)
  ultimately show ?thesis using rv t r by (simp add: lease_spec_iffs)
qed

lemma transition_call_refused:
  "lease_catalog_transition load replace_if_revision s sel rv a = (Inl e, s') \<Longrightarrow>
   view s' = view s"
  by (auto simp: lease_catalog_transition_def Let_def result_simps
      split: sum.splits option.splits if_splits prod.splits dest: replace_refused)

lemma call_published:
  "lease_call_step load create replace_if_revision s c = (Inr (r, receipt), s') \<Longrightarrow>
   lease_spec_step (view s) c = Some (r, view s')"
  by (cases c) (auto dest: create_call_published transition_call_published)

lemma call_refused:
  "lease_call_step load create replace_if_revision s c = (Inl e, s') \<Longrightarrow> view s' = view s"
  by (cases c) (auto dest: create_call_refused transition_call_refused)

end

section \<open>Lemmas on the specification\<close>

lemma lease_spec_step_ok:
  assumes "lease_spec_step m c = Some (r, m')" and "lease_map_ok m"
  shows "lease_map_ok m'"
proof (cases c)
  case (CallCreate i)
  with assms show ?thesis
    by (auto simp: lease_map_ok_def lease_pending_validates lease_spec_iffs split: if_splits)
next
  case (CallTransition sel rv a)
  with assms(1) obtain cur t where cur: "m sel = Some cur" and t: "lease_plan_transition cur a = Inr t"
    and m': "m' = m(sel \<mapsto> resulting_record t)"
    by (auto simp: lease_spec_iffs)
  have "lease_step cur (resulting_record t)" using t by (rule lease_step.intros)
  then have "validate_lease_record (resulting_record t) = Inr ()"
    using assms(2) cur by (auto intro: lease_step_validates simp: lease_map_ok_def)
  with assms(2) cur t m' show ?thesis
    by (auto simp: lease_map_ok_def lease_plan_ok_iff)
qed

lemma is_transition_of_cases:
  "is_transition_of sel (c, x) \<longleftrightarrow> (\<exists>rv a p. c = CallTransition sel rv a \<and> x = Inr p)"
  by (cases c; cases x) auto

context lease_store begin

lemma call_keeps_ok:
  "lease_map_ok (view s) \<Longrightarrow> lease_call_step load create replace_if_revision s c = (x, s') \<Longrightarrow>
   lease_map_ok (view s')"
  by (cases x) (auto dest: call_refused call_published intro: lease_spec_step_ok)

lemma call_revision:
  assumes "lease_call_step load create replace_if_revision s c = (x, s')"
    and "\<forall>r. view s sel = Some r \<longrightarrow> unat (lr_revision r) = n"
    and "view s sel = None \<longrightarrow> n = 0"
  shows "\<forall>r. view s' sel = Some r \<longrightarrow>
           unat (lr_revision r) = n + (if is_transition_of sel (c, x) then 1 else 0)"
    and "view s' sel = None \<longrightarrow> n + (if is_transition_of sel (c, x) then 1 else 0) = 0"
proof -
  have "(\<forall>r. view s' sel = Some r \<longrightarrow>
           unat (lr_revision r) = n + (if is_transition_of sel (c, x) then 1 else 0)) \<and>
        (view s' sel = None \<longrightarrow> n + (if is_transition_of sel (c, x) then 1 else 0) = 0)"
  proof (cases x)
    case (Inl e)
    then have "view s' = view s" using assms(1) call_refused by blast
    then show ?thesis using assms Inl by (simp add: is_transition_of_cases)
  next
    case (Inr p)
    obtain r receipt where p: "p = (r, receipt)" by force
    have spec: "lease_spec_step (view s) c = Some (r, view s')"
      using assms(1) Inr p call_published by blast
    show ?thesis
    proof (cases c)
      case (CallCreate i)
      then show ?thesis using spec assms(2,3) Inr
        by (auto simp: lease_spec_iffs split: if_splits)
    next
      case (CallTransition sel' rv a)
      then show ?thesis using spec assms(2,3) Inr
        by (auto simp: lease_plan_ok_iff lease_spec_iffs split: if_splits)
    qed
  qed
  then show "\<forall>r. view s' sel = Some r \<longrightarrow>
           unat (lr_revision r) = n + (if is_transition_of sel (c, x) then 1 else 0)"
    and "view s' sel = None \<longrightarrow> n + (if is_transition_of sel (c, x) then 1 else 0) = 0"
    by blast+
qed

lemma run_revision:
  assumes "lease_run load create replace_if_revision s cs = (history, s')"
    and "\<forall>r. view s sel = Some r \<longrightarrow> unat (lr_revision r) = n"
    and "view s sel = None \<longrightarrow> n = 0"
  shows "(\<forall>r. view s' sel = Some r \<longrightarrow>
            unat (lr_revision r) = n + published_transitions sel history) \<and>
         (view s' sel = None \<longrightarrow> n + published_transitions sel history = 0)"
  using assms
proof (induction cs arbitrary: s n history)
  case Nil
  then show ?case by (simp add: published_transitions_def)
next
  case (Cons c cs)
  obtain x s1 where step: "lease_call_step load create replace_if_revision s c = (x, s1)" by force
  obtain h where run: "lease_run load create replace_if_revision s1 cs = (h, s')"
    and hist: "history = (c, x) # h"
    using Cons.prems(1) step by (auto split: prod.splits)
  show ?case
    using Cons.IH [OF run call_revision [OF step Cons.prems(2,3)]] hist
    by (auto simp: published_transitions_def split: if_splits)
qed

lemma run_keeps_ok:
  "lease_run load create replace_if_revision s cs = (history, s') \<Longrightarrow> lease_map_ok (view s) \<Longrightarrow>
   lease_map_ok (view s')"
proof (induction cs arbitrary: s history)
  case (Cons c cs)
  then show ?case
    by (auto split: prod.splits dest: call_keeps_ok)
qed simp

lemma run_revision_mono:
  assumes "lease_run load create replace_if_revision s cs = (history, s')" and "view s sel = Some r"
  shows "\<exists>r'. view s' sel = Some r' \<and> unat (lr_revision r) \<le> unat (lr_revision r') \<and>
     lr_identity r' = lr_identity r"
  using assms
proof (induction cs arbitrary: s r history)
  case (Cons c cs)
  obtain x s1 where step: "lease_call_step load create replace_if_revision s c = (x, s1)" by force
  obtain h where run: "lease_run load create replace_if_revision s1 cs = (h, s')"
    using Cons.prems(1) step by (auto split: prod.splits)
  have "\<exists>r1. view s1 sel = Some r1 \<and> unat (lr_revision r) \<le> unat (lr_revision r1) \<and>
      lr_identity r1 = lr_identity r"
  proof (cases x)
    case (Inl e)
    then show ?thesis using step call_refused Cons.prems(2) by fastforce
  next
    case (Inr p)
    obtain q receipt where "p = (q, receipt)" by force
    then have "lease_spec_step (view s) c = Some (q, view s1)" using step Inr call_published by blast
    then show ?thesis using Cons.prems(2)
      by (cases c) (auto simp: lease_plan_ok_iff lease_spec_iffs split: if_splits)
  qed
  then show ?case using Cons.IH [OF run] by fastforce
qed simp

end

section \<open>The in-memory store keeps the contract\<close>

interpretation mem_leases: lease_store memory_load memory_create memory_replace_if_revision mls_records
proof (unfold_locales, goal_cases)
  case (1 s sel x)
  then show ?case by (simp add: memory_load_def)
next
  case (2 s r receipt s')
  then show ?case by (auto simp: memory_create_def Let_def split: if_splits)
next
  case (3 s r e s')
  then show ?case by (auto simp: memory_create_def Let_def split: if_splits)
next
  case (4 s rv r receipt s')
  then show ?case
    by (auto simp: memory_replace_if_revision_def Let_def split: if_splits option.splits)
next
  case (5 s rv r e s')
  then show ?case
    by (auto simp: memory_replace_if_revision_def Let_def split: if_splits option.splits)
qed

lemma memory_call_complete:
  assumes "lease_map_ok (mls_records s)" and "lease_spec_step (mls_records s) c = Some (r, m')"
  shows "\<exists>receipt s'. memory_call_step s c = (Inr (r, receipt), s') \<and> mls_records s' = m'"
proof (cases c)
  case (CallCreate i)
  with assms(2) show ?thesis
    by (auto simp: lease_catalog_create_def memory_create_def Let_def lease_spec_iffs)
next
  case (CallTransition sel rv a)
  with assms(2) obtain cur t where cur: "mls_records s sel = Some cur" "lr_revision cur = rv"
    and t: "lease_plan_transition cur a = Inr t" "r = resulting_record t" "m' = (mls_records s)(sel \<mapsto> r)"
    by (auto simp: lease_spec_iffs)
  have "selector_from_identity (lr_identity cur) = sel" using assms(1) cur by (auto simp: lease_map_ok_def)
  moreover have "checked_add rv 1 = Some (lt_next_revision t)" "lt_identity t = lr_identity cur"
    using t(1) cur(2) by (auto simp: lease_plan_ok_iff checked_add_unat)
  ultimately show ?thesis using CallTransition cur t
    by (simp add: lease_catalog_transition_def memory_load_def memory_replace_if_revision_def Let_def)
qed

section \<open>Properties\<close>

text \<open>A concrete lease for the examples that accompany the properties.\<close>

definition example_identity :: lease_identity where
  "example_identity =
     \<lparr>li_lease_id = LeaseId ''l'', li_installation_id = InstallationId (StateComponent ''i''),
      li_kind = Run\<rparr>"

definition example_created :: memory_lease_store where
  "example_created =
     \<lparr>mls_records = [selector_from_identity example_identity \<mapsto> lease_record_pending example_identity]\<rparr>"

definition example_active :: lease_record where
  "example_active = \<lparr>lr_schema_version = LEASE_SCHEMA_VERSION, lr_identity = example_identity,
     lr_state = Active, lr_revision = 1\<rparr>"

text \<open>
  C13. The catalog over the in-memory store implements the atomic map of leases: a call
  publishes exactly when the specification allows it, the record it returns and the map it
  leaves are the specification's, and a refused call leaves the map as it was.
\<close>
theorem lease_catalog_refines_spec:
  assumes "lease_map_ok (mls_records s)"
  shows "case lease_spec_step (mls_records s) c of
      Some (r, m') \<Rightarrow> (\<exists>receipt s'. memory_call_step s c = (Inr (r, receipt), s') \<and> mls_records s' = m')
    | None \<Rightarrow> (\<exists>e s'. memory_call_step s c = (Inl e, s') \<and> mls_records s' = mls_records s)"
proof (cases "lease_spec_step (mls_records s) c")
  case None
  obtain x s' where step: "memory_call_step s c = (x, s')" by force
  then have "\<exists>e. x = Inl e"
    using None mem_leases.call_published by (cases x) fastforce+
  then show ?thesis using None step mem_leases.call_refused by fastforce
next
  case (Some p)
  then show ?thesis using memory_call_complete [OF assms] by (cases p) auto
qed

theorem lease_catalog_refines_spec_witness:
  "case lease_spec_step (mls_records memory_store_default) (CallCreate example_identity) of
      Some (r, m') \<Rightarrow> (\<exists>receipt s'. memory_call_step memory_store_default (CallCreate example_identity)
          = (Inr (r, receipt), s') \<and> mls_records s' = m')
    | None \<Rightarrow> (\<exists>e s'. memory_call_step memory_store_default (CallCreate example_identity)
          = (Inl e, s') \<and> mls_records s' = mls_records memory_store_default)"
  by (rule lease_catalog_refines_spec) (simp add: lease_map_ok_def memory_store_default_def)

text \<open>
  C36. However create and transition calls are interleaved on a store that starts empty, the
  revision of every stored lease is exactly the number of transitions of that lease the catalog
  reported as published, the lease stands under its own selector and its document validates:
  no published transition is lost, repeated or applied to another lease.
\<close>
theorem lease_revision_counts_published:
  assumes "memory_run memory_store_default cs = (history, s)"
    and "mls_records s sel = Some r"
  shows "unat (lr_revision r) = published_transitions sel history \<and>
    selector_from_identity (lr_identity r) = sel \<and> validate_lease_record r = Inr ()"
proof -
  have "lease_map_ok (mls_records s)"
    using mem_leases.run_keeps_ok [OF assms(1)] by (simp add: lease_map_ok_def memory_store_default_def)
  moreover have "unat (lr_revision r) = 0 + published_transitions sel history"
    using mem_leases.run_revision [OF assms(1), of sel 0] assms(2) by (simp add: memory_store_default_def)
  ultimately show ?thesis using assms(2) by (simp add: lease_map_ok_def)
qed

theorem lease_revision_counts_published_witness:
  "unat (lr_revision (lease_record_pending example_identity)) =
     published_transitions (selector_from_identity example_identity)
       (fst (memory_run memory_store_default [CallCreate example_identity]))"
proof -
  have "memory_run memory_store_default [CallCreate example_identity] =
      (fst (memory_run memory_store_default [CallCreate example_identity]), example_created)"
    by (simp add: lease_catalog_create_def memory_create_def memory_store_default_def
        example_created_def Let_def)
  from lease_revision_counts_published [OF this, of "selector_from_identity example_identity"]
  show ?thesis by (simp add: example_created_def)
qed

text \<open>
  C35. No lost update: once a transition was published against a revision, every later
  transition of that lease that names the same revision is refused as a conflict and changes
  nothing, whatever calls came in between and whatever its action is.
\<close>
theorem lease_stale_transition_conflicts:
  assumes "lease_map_ok (mls_records s)"
    and "lease_catalog_transition memory_load memory_replace_if_revision s sel rv a = (Inr p, s1)"
    and "memory_run s1 cs = (history, s2)"
  shows "\<exists>actual. lease_catalog_transition memory_load memory_replace_if_revision s2 sel rv b
           = (Inl (stale_revision rv actual), s2) \<and> unat rv < unat actual"
proof -
  have ok1: "lease_map_ok (mls_records s1)"
    using mem_leases.call_keeps_ok [OF assms(1), of "CallTransition sel rv a"] assms(2) by simp
  obtain r receipt where p: "p = (r, receipt)" by force
  then have "lease_spec_step (mls_records s) (CallTransition sel rv a) = Some (r, mls_records s1)"
    using mem_leases.transition_call_published assms(2) by blast
  then have r: "mls_records s1 sel = Some r" "unat (lr_revision r) = unat rv + 1"
    by (auto simp: lease_spec_iffs lease_plan_ok_iff)
  obtain r2 where r2: "mls_records s2 sel = Some r2" "unat (lr_revision r) \<le> unat (lr_revision r2)"
    using mem_leases.run_revision_mono [OF assms(3) r(1)] by blast
  have "selector_from_identity (lr_identity r2) = sel"
    using mem_leases.run_keeps_ok [OF assms(3) ok1] r2(1) by (simp add: lease_map_ok_def)
  with r r2 show ?thesis
    by (auto simp: lease_catalog_transition_def memory_load_def)
qed

theorem lease_stale_transition_conflicts_witness:
  "\<exists>actual. lease_catalog_transition memory_load memory_replace_if_revision
       \<lparr>mls_records = [selector_from_identity example_identity \<mapsto> example_active]\<rparr>
       (selector_from_identity example_identity) 0 Expire
     = (Inl (stale_revision 0 actual),
        \<lparr>mls_records = [selector_from_identity example_identity \<mapsto> example_active]\<rparr>) \<and>
     unat (0 :: 64 word) < unat actual"
proof (rule lease_stale_transition_conflicts)
  show "lease_map_ok (mls_records example_created)"
    by (simp add: example_created_def lease_map_ok_def lease_pending_validates)
  show "lease_catalog_transition memory_load memory_replace_if_revision example_created
      (selector_from_identity example_identity) 0 Activate
      = (Inr (example_active, \<lparr>lwr_disposition = Replaced, lwr_revision = 1\<rparr>),
         \<lparr>mls_records = [selector_from_identity example_identity \<mapsto> example_active]\<rparr>)"
    by (simp add: lease_catalog_transition_def memory_load_def memory_replace_if_revision_def
        lease_plan_transition_def next_state_def checked_add_def resulting_record_def Let_def
        example_created_def example_active_def)
  show "memory_run \<lparr>mls_records = [selector_from_identity example_identity \<mapsto> example_active]\<rparr> []
      = ([], \<lparr>mls_records = [selector_from_identity example_identity \<mapsto> example_active]\<rparr>)"
    by simp
qed

end
