(* ===== verification/Journal.thy ===== *)
theory Journal
  imports Identity
begin

text \<open>
  Mutation plans and their execution journal, \<open>src/journal.rs\<close>. The \<open>MutationExecutor\<close> trait
  is a pair of functions on an arbitrary world \<open>'w\<close>: what an executor does to the host is its
  own affair, in which order it is called is the subject of this theory.
\<close>

section \<open>Plans, receipts and journals\<close>

datatype execution_lane = Operator | Root | RunnerUser | Github

datatype rollback_class = Reversible | Compensating | Irreversible

record preconditions =
  pc_evidence :: "string list"

record planned_mutation =
  pm_id :: string
  pm_lane :: execution_lane
  pm_summary :: string
  pm_rollback :: rollback_class
  pm_preconditions :: preconditions

datatype action_receipt = ActionReceipt (receipt_summary: string)

record action_failure =
  af_code :: string
  af_message :: string

datatype action_outcome =
    Pending | Executing | Completed | Failed | Skipped
  | RollbackInProgress | RolledBack | Compensated | RollbackFailed

record journal_record =
  jr_action :: planned_mutation
  jr_outcome :: action_outcome
  jr_message :: "string option"

record execution_journal =
  ej_schema_version :: "8 word"
  ej_records :: "journal_record list"
  ej_stopped_after :: "string option"

definition JOURNAL_SCHEMA_VERSION :: "8 word" where "JOURNAL_SCHEMA_VERSION = 1"

definition journal_completed :: "execution_journal \<Rightarrow> bool" where
  "journal_completed j \<longleftrightarrow> list_all (\<lambda>r. jr_outcome r = Completed) (ej_records j)"

datatype plan_problem =
    ActionIdEmpty
  | DuplicateActionId string
  | ActionWithoutSummary string
  | ActionWithoutEvidence string

fun validate_plan_loop :: "string set \<Rightarrow> planned_mutation list \<Rightarrow> plan_problem list" where
  "validate_plan_loop ids [] = []"
| "validate_plan_loop ids (action # actions) =
     (if pm_id action = [] then [ActionIdEmpty]
      else if pm_id action \<in> ids then [DuplicateActionId (pm_id action)] else [])
     @ (if pm_summary action = [] then [ActionWithoutSummary (pm_id action)] else [])
     @ (if pc_evidence (pm_preconditions action) = [] then [ActionWithoutEvidence (pm_id action)] else [])
     @ validate_plan_loop (if pm_id action = [] then ids else insert (pm_id action) ids) actions"

definition validate_plan :: "planned_mutation list \<Rightarrow> plan_problem list + unit" where
  "validate_plan actions =
     (let problems = validate_plan_loop {} actions
      in if problems = [] then Inr () else Inl problems)"

section \<open>Execution\<close>

type_synonym 'w mutation_execute =
  "'w \<Rightarrow> planned_mutation \<Rightarrow> (action_failure + action_receipt) \<times> 'w"
type_synonym 'w mutation_rollback =
  "'w \<Rightarrow> planned_mutation \<Rightarrow> action_receipt \<Rightarrow> (action_failure + action_receipt) \<times> 'w"

definition failure_text :: "action_failure \<Rightarrow> string" where
  "failure_text f = af_code f @ '': '' @ af_message f"

definition confirmation_text :: string where
  "confirmation_text = ''irreversible action requires explicit confirmation''"

text \<open>Assignments to the fields of \<open>journal.records[index]\<close>.\<close>

definition set_record ::
  "execution_journal \<Rightarrow> nat \<Rightarrow> action_outcome \<Rightarrow> string option \<Rightarrow> execution_journal" where
  "set_record j i outcome message =
     j\<lparr>ej_records := (ej_records j)
         [i := (ej_records j ! i)\<lparr>jr_outcome := outcome, jr_message := message\<rparr>]\<rparr>"

definition record_action :: "execution_journal \<Rightarrow> nat \<Rightarrow> planned_mutation" where
  "record_action j i = jr_action (ej_records j ! i)"

definition pending_journal :: "planned_mutation list \<Rightarrow> execution_journal" where
  "pending_journal actions =
     \<lparr>ej_schema_version = JOURNAL_SCHEMA_VERSION,
      ej_records = map (\<lambda>a. \<lparr>jr_action = a, jr_outcome = Pending, jr_message = None\<rparr>) actions,
      ej_stopped_after = None\<rparr>"

definition first_unconfirmed_irreversible :: "execution_journal \<Rightarrow> bool \<Rightarrow> nat option" where
  "first_unconfirmed_irreversible j allow_irreversible =
     (if allow_irreversible then None
      else position (\<lambda>r. pm_rollback (jr_action r) = Irreversible) (ej_records j))"

text \<open>The stop at an irreversible action that was not confirmed, and at a failed action.\<close>

definition skipped_journal :: "execution_journal \<Rightarrow> nat \<Rightarrow> execution_journal" where
  "skipped_journal j i =
     (set_record j i Skipped (Some confirmation_text))
       \<lparr>ej_stopped_after := Some (pm_id (record_action j i))\<rparr>"

definition failed_journal :: "execution_journal \<Rightarrow> nat \<Rightarrow> action_failure \<Rightarrow> execution_journal" where
  "failed_journal j i f =
     (set_record j i Failed (Some (failure_text f)))
       \<lparr>ej_stopped_after := Some (pm_id (record_action j i))\<rparr>"

text \<open>The two arms that store the executor's answer to a rollback.\<close>

definition rolled_back_journal ::
  "execution_journal \<Rightarrow> nat \<Rightarrow> action_failure + action_receipt \<Rightarrow> execution_journal" where
  "rolled_back_journal j i answer =
     (case answer of
        Inr receipt \<Rightarrow>
          set_record j i
            (if pm_rollback (record_action j i) = Reversible then RolledBack else Compensated)
            (Some (receipt_summary receipt))
      | Inl f \<Rightarrow> set_record j i RollbackFailed (Some (failure_text f)))"

text \<open>The loop over \<open>completed.iter().rev()\<close>; its argument is the reversed list.\<close>

fun rollback_completed ::
  "'w mutation_rollback \<Rightarrow> (nat \<times> action_receipt) list \<Rightarrow> execution_journal \<Rightarrow> 'w \<Rightarrow>
   execution_journal \<times> 'w" where
  "rollback_completed rollback [] j w = (j, w)"
| "rollback_completed rollback ((i, receipt) # rest) j w =
     (if pm_rollback (record_action j i) = Irreversible
      then rollback_completed rollback rest j w
      else case rollback w (record_action j i) receipt of (answer, w') \<Rightarrow>
        rollback_completed rollback rest (rolled_back_journal j i answer) w')"

text \<open>The loop \<open>for index in 0..journal.records.len()\<close>; its first argument lists the indices left.\<close>

fun execute_loop ::
  "'w mutation_execute \<Rightarrow> 'w mutation_rollback \<Rightarrow> nat list \<Rightarrow> execution_journal \<Rightarrow>
   (nat \<times> action_receipt) list \<Rightarrow> 'w \<Rightarrow> execution_journal \<times> 'w" where
  "execute_loop execute rollback [] j completed w = (j, w)"
| "execute_loop execute rollback (i # rest) j completed w =
     (case execute w (record_action j i) of
        (Inr receipt, w') \<Rightarrow>
          execute_loop execute rollback rest
            (set_record j i Completed (Some (receipt_summary receipt)))
            (completed @ [(i, receipt)]) w'
      | (Inl failure, w') \<Rightarrow>
          rollback_completed rollback (rev completed) (failed_journal j i failure) w')"

definition execute_plan ::
  "'w mutation_execute \<Rightarrow> 'w mutation_rollback \<Rightarrow> planned_mutation list \<Rightarrow> bool \<Rightarrow> 'w \<Rightarrow>
   (plan_problem list + execution_journal) \<times> 'w" where
  "execute_plan execute rollback actions allow_irreversible w =
     (case validate_plan actions of
        Inl problems \<Rightarrow> (Inl problems, w)
      | Inr _ \<Rightarrow>
          let j = pending_journal actions
          in case first_unconfirmed_irreversible j allow_irreversible of
               Some i \<Rightarrow> (Inr (skipped_journal j i), w)
             | None \<Rightarrow>
                 (case execute_loop execute rollback [0..<length (ej_records j)] j [] w of
                    (j', w') \<Rightarrow> (Inr j', w')))"

section \<open>The calls an execution makes\<close>

text \<open>
  A world that carries the calls made so far. Logging changes nothing in what a run returns.
\<close>

datatype executor_call =
    CallExecute planned_mutation "action_failure + action_receipt"
  | CallRollback planned_mutation action_receipt "action_failure + action_receipt"

definition calls_execute :: "'w mutation_execute \<Rightarrow> ('w \<times> executor_call list) mutation_execute" where
  "calls_execute execute = (\<lambda>(w, l) a. case execute w a of (x, w') \<Rightarrow> (x, w', l @ [CallExecute a x]))"

definition calls_rollback :: "'w mutation_rollback \<Rightarrow> ('w \<times> executor_call list) mutation_rollback" where
  "calls_rollback rollback =
     (\<lambda>(w, l) a r. case rollback w a r of (x, w') \<Rightarrow> (x, w', l @ [CallRollback a r x]))"

fun rollback_args :: "executor_call \<Rightarrow> (planned_mutation \<times> action_receipt) option" where
  "rollback_args (CallExecute a x) = None"
| "rollback_args (CallRollback a r x) = Some (a, r)"

text \<open>The calls that executed a sequence of actions with the receipts they returned.\<close>

definition executed_calls :: "planned_mutation list \<Rightarrow> action_receipt list \<Rightarrow> executor_call list" where
  "executed_calls acts rs = map2 (\<lambda>a r. CallExecute a (Inr r)) acts rs"

definition undoable :: "planned_mutation \<Rightarrow> bool" where
  "undoable a \<longleftrightarrow> pm_rollback a \<noteq> Irreversible"

section \<open>Lemmas\<close>

lemma validate_plan_loop_Nil_iff:
  "validate_plan_loop ids actions = [] \<longleftrightarrow>
     (\<forall>a \<in> set actions. pm_id a \<noteq> [] \<and> pm_summary a \<noteq> [] \<and>
        pc_evidence (pm_preconditions a) \<noteq> [] \<and> pm_id a \<notin> ids) \<and>
     distinct (map pm_id actions)"
  by (induction ids actions rule: validate_plan_loop.induct) (auto, metis image_eqI)

lemma validate_plan_ok_iff:
  "validate_plan actions = Inr u \<longleftrightarrow>
     (\<forall>a \<in> set actions. pm_id a \<noteq> [] \<and> pm_summary a \<noteq> [] \<and>
        pc_evidence (pm_preconditions a) \<noteq> []) \<and>
     distinct (map pm_id actions)"
  by (simp add: validate_plan_def Let_def validate_plan_loop_Nil_iff)

lemma set_record_simps [simp]:
  "length (ej_records (set_record j i oc m)) = length (ej_records j)"
  "ej_schema_version (set_record j i oc m) = ej_schema_version j"
  "ej_stopped_after (set_record j i oc m) = ej_stopped_after j"
  "map jr_action (ej_records (set_record j i oc m)) = map jr_action (ej_records j)"
  by (simp_all add: set_record_def)

lemma set_record_nth [simp]:
  "k < length (ej_records j) \<Longrightarrow>
   ej_records (set_record j i oc m) ! k =
     (if k = i then (ej_records j ! i)\<lparr>jr_outcome := oc, jr_message := m\<rparr> else ej_records j ! k)"
  by (auto simp: set_record_def nth_list_update)

lemma record_action_nth:
  "i < length (ej_records j) \<Longrightarrow> record_action j i = map jr_action (ej_records j) ! i"
  by (simp add: record_action_def)

lemma record_action_cong:
  assumes "map jr_action (ej_records j) = map jr_action (ej_records j')"
    and "i < length (ej_records j)"
  shows "record_action j i = record_action j' i"
proof -
  have "length (ej_records j) = length (ej_records j')" using assms(1) by (rule map_eq_imp_length_eq)
  then show ?thesis using assms by (simp add: record_action_nth)
qed

lemma failed_journal_simps [simp]:
  "ej_schema_version (failed_journal j i f) = ej_schema_version j"
  "ej_records (failed_journal j i f) = ej_records (set_record j i Failed (Some (failure_text f)))"
  "ej_stopped_after (failed_journal j i f) = Some (pm_id (record_action j i))"
  by (simp_all add: failed_journal_def)

lemma skipped_journal_simps [simp]:
  "ej_schema_version (skipped_journal j i) = ej_schema_version j"
  "ej_records (skipped_journal j i) = ej_records (set_record j i Skipped (Some confirmation_text))"
  "ej_stopped_after (skipped_journal j i) = Some (pm_id (record_action j i))"
  by (simp_all add: skipped_journal_def)

lemma rolled_back_journal_actions [simp]:
  "map jr_action (ej_records (rolled_back_journal j i answer)) = map jr_action (ej_records j)"
  by (simp add: rolled_back_journal_def split: sum.splits)

lemma pending_journal_simps [simp]:
  "ej_schema_version (pending_journal acts) = JOURNAL_SCHEMA_VERSION"
  "length (ej_records (pending_journal acts)) = length acts"
  "map jr_action (ej_records (pending_journal acts)) = acts"
  "ej_stopped_after (pending_journal acts) = None"
  by (simp_all add: pending_journal_def comp_def)

lemma pending_journal_nth [simp]:
  "i < length acts \<Longrightarrow> ej_records (pending_journal acts) ! i =
     \<lparr>jr_action = acts ! i, jr_outcome = Pending, jr_message = None\<rparr>"
  by (simp add: pending_journal_def)

lemma rollback_calls:
  assumes "rollback_completed (calls_rollback rollback) cs j (w, l) = (j', w', l')"
    and "map jr_action (ej_records j) = acts" and "\<forall>(i, r) \<in> set cs. i < length acts"
  shows "\<exists>xs. l' = l @ xs \<and>
    map rollback_args xs = map Some (filter (\<lambda>(a, r). undoable a) (map (\<lambda>(i, r). (acts ! i, r)) cs))"
  using assms
proof (induction cs arbitrary: j w l)
  case Nil
  then show ?case by simp
next
  case (Cons c cs)
  obtain i r where c: "c = (i, r)" by force
  have "length (ej_records j) = length acts" using Cons.prems(2) by auto
  then have a: "record_action j i = acts ! i"
    using Cons.prems c by (simp add: record_action_nth)
  show ?case
  proof (cases "pm_rollback (acts ! i) = Irreversible")
    case True
    then show ?thesis using Cons.IH [of j w l] Cons.prems c a by (simp add: undoable_def)
  next
    case False
    obtain x w1 where step: "rollback w (acts ! i) r = (x, w1)" by force
    have "rollback_completed (calls_rollback rollback) cs (rolled_back_journal j i x)
        (w1, l @ [CallRollback (acts ! i) r x]) = (j', w', l')"
      using Cons.prems(1) c a False step by (simp add: calls_rollback_def)
    from Cons.IH [OF this] Cons.prems(2,3) obtain xs where
      "l' = l @ CallRollback (acts ! i) r x # xs"
      "map rollback_args xs = map Some (filter (\<lambda>(a, r). undoable a) (map (\<lambda>(i, r). (acts ! i, r)) cs))"
      by auto
    then show ?thesis
      using c False by (intro exI [of _ "CallRollback (acts ! i) r x # xs"]) (simp add: undoable_def)
  qed
qed

lemma zip_upt_nth:
  "n \<le> length acts \<Longrightarrow> length rs = n \<Longrightarrow>
   map (\<lambda>(i, r). (acts ! i, r)) (zip [0..<n] rs) = zip (take n acts) rs"
  by (rule nth_equalityI) auto

lemma execute_calls:
  assumes "execute_loop (calls_execute execute) (calls_rollback rollback)
      [k..<length acts] j (zip [0..<k] rs0) (w, l) = (j', w', l')"
    and "map jr_action (ej_records j) = acts" and "k \<le> length acts" and "length rs0 = k"
  shows "(\<exists>rs. length rs0 + length rs = length acts \<and> l' = l @ executed_calls (drop k acts) rs) \<or>
    (\<exists>rs f ys. length rs0 + length rs < length acts \<and>
       l' = l @ executed_calls (drop k acts) rs @ CallExecute (acts ! (length rs0 + length rs)) (Inl f) # ys \<and>
       map rollback_args ys =
         map Some (filter (\<lambda>(a, r). undoable a) (rev (zip acts (rs0 @ rs)))))"
  using assms
proof (induction "length acts - k" arbitrary: k j rs0 w l)
  case 0
  then show ?case by (auto simp: executed_calls_def)
next
  case (Suc m)
  then have k: "k < length acts" by simp
  then have upt: "[k..<length acts] = k # [Suc k..<length acts]" by (rule upt_conv_Cons)
  have a: "record_action j k = acts ! k"
    using Suc.prems(2) k by (auto simp: record_action_nth)
  obtain x w1 where step: "execute w (acts ! k) = (x, w1)" by force
  let ?l = "l @ [CallExecute (acts ! k) x]"
  show ?case
  proof (cases x)
    case (Inl f)
    let ?cs = "rev (zip [0..<k] rs0)"
    have run: "rollback_completed (calls_rollback rollback) ?cs
        (failed_journal j k f) (w1, ?l) = (j', w', l')"
      using Suc.prems(1) upt a step Inl by (simp add: calls_execute_def)
    have bound: "\<forall>(i, r) \<in> set ?cs. i < length acts"
      using k by (auto dest!: set_zip_leftD)
    have "map (\<lambda>(i, r). (acts ! i, r)) ?cs = rev (zip (take k acts) rs0)"
      using zip_upt_nth [of k acts rs0] Suc.prems(4) k by (simp add: rev_map [symmetric])
    also have "zip (take k acts) rs0 = zip acts rs0"
      using Suc.prems(4) k by (intro nth_equalityI) auto
    finally show ?thesis
      using rollback_calls [OF run _ bound] Suc.prems(2,4) k Inl
      by (intro disjI2 exI [of _ "[]"]) (auto simp: executed_calls_def)
  next
    case (Inr r)
    have run: "execute_loop (calls_execute execute) (calls_rollback rollback) [Suc k..<length acts]
        (set_record j k Completed (Some (receipt_summary r))) (zip [0..<Suc k] (rs0 @ [r])) (w1, ?l)
        = (j', w', l')"
      using Suc.prems(1,4) upt a step Inr by (simp add: calls_execute_def)
    have m: "m = length acts - Suc k" and sk: "Suc k \<le> length acts" using Suc.hyps(2) k by auto
    have more: "executed_calls (drop k acts) (r # rs) =
        CallExecute (acts ! k) (Inr r) # executed_calls (drop (Suc k) acts) rs" for rs
      using k by (simp add: executed_calls_def Cons_nth_drop_Suc [symmetric])
    have "map jr_action (ej_records (set_record j k Completed (Some (receipt_summary r)))) = acts"
      and "length (rs0 @ [r]) = Suc k" using Suc.prems(2,4) by simp_all
    from Suc.hyps(1) [OF m run this(1) sk this(2)]
    consider (all) rs where "Suc (length rs0 + length rs) = length acts"
        "l' = l @ CallExecute (acts ! k) x # executed_calls (drop (Suc k) acts) rs"
      | (stop) rs f ys where "Suc (length rs0 + length rs) < length acts"
        "l' = l @ CallExecute (acts ! k) x # executed_calls (drop (Suc k) acts) rs @
           CallExecute (acts ! Suc (length rs0 + length rs)) (Inl f) # ys"
        "map rollback_args ys = map Some (filter (\<lambda>(a, r). undoable a) (rev (zip acts (rs0 @ r # rs))))"
      by auto
    then show ?thesis
    proof cases
      case all
      then show ?thesis using Inr more [of rs] by (intro disjI1 exI [of _ "r # rs"]) simp
    next
      case stop
      then show ?thesis using Inr more [of rs]
        by (intro disjI2 exI [of _ "r # rs"] exI [of _ f] exI [of _ ys]) simp
    qed
  qed
qed

section \<open>Properties\<close>

text \<open>
  C30. What the executor of a plan is asked to do, in order. Without confirmation a plan with an
  irreversible action is refused before the first call, as is an invalid plan. Otherwise the
  actions are executed in plan order up to the first failure; after it, the actions completed
  before are undone in reverse order, irreversible ones excepted, each with the receipt its own
  execution returned, and nothing else is called.
\<close>
theorem execute_plan_calls:
  assumes "execute_plan (calls_execute execute) (calls_rollback rollback) acts allow (w, []) = (x, w', l)"
  shows "if is_ok (validate_plan acts) \<and> (allow \<or> list_all undoable acts)
    then (\<exists>rs. length rs = length acts \<and> l = executed_calls acts rs) \<or>
      (\<exists>rs f ys. length rs < length acts \<and>
         l = executed_calls acts rs @ CallExecute (acts ! length rs) (Inl f) # ys \<and>
         map rollback_args ys = map Some (filter (\<lambda>(a, r). undoable a) (rev (zip acts rs))))
    else l = []"
proof (cases "is_ok (validate_plan acts) \<and> (allow \<or> list_all undoable acts)")
  case True
  then have "first_unconfirmed_irreversible (pending_journal acts) allow = None"
    by (auto simp: first_unconfirmed_irreversible_def pending_journal_def list_all_iff undoable_def)
  then obtain j' where "execute_loop (calls_execute execute) (calls_rollback rollback)
      [0..<length acts] (pending_journal acts) (zip [0..<0] []) (w, []) = (j', w', l)"
    using assms True by (auto simp: execute_plan_def is_ok_iff split: prod.splits)
  from execute_calls [OF this] True show ?thesis by simp
next
  case False
  have "\<exists>i. first_unconfirmed_irreversible (pending_journal acts) allow = Some i"
    if "is_ok (validate_plan acts)"
    using False that
    by (auto simp: first_unconfirmed_irreversible_def pending_journal_def list_all_iff undoable_def
        not_None_eq [symmetric])
  then have "l = []"
    using assms False by (auto simp: execute_plan_def is_ok_def Let_def split: sum.splits)
  then show ?thesis by (simp only: False if_False)
qed

theorem execute_plan_calls_witness:
  "(\<exists>x w' l. execute_plan (calls_execute (\<lambda>w a. (Inr (ActionReceipt ''ok''), Suc w)))
      (calls_rollback (\<lambda>w a r. (Inr r, w)))
      [\<lparr>pm_id = ''a'', pm_lane = Root, pm_summary = ''s'', pm_rollback = Irreversible,
        pm_preconditions = \<lparr>pc_evidence = [''e'']\<rparr>\<rparr>] False (0, []) = (x, w', l) \<and> l = [])"
proof -
  let ?acts = "[\<lparr>pm_id = ''a'', pm_lane = Root, pm_summary = ''s'', pm_rollback = Irreversible,
      pm_preconditions = \<lparr>pc_evidence = [''e'']\<rparr>\<rparr>]"
  obtain x w' l where run: "execute_plan (calls_execute (\<lambda>w a. (Inr (ActionReceipt ''ok''), Suc w)))
      (calls_rollback (\<lambda>w a r. (Inr r, w))) ?acts False (0, []) = (x, w', l)"
    by (metis prod_cases3)
  with execute_plan_calls [OF run] show ?thesis by (simp add: undoable_def)
qed

end
