(* ===== verification/Journal_Document.thy ===== *)
theory Journal_Document
  imports Journal
begin

text \<open>
  The durable execution-journal document, \<open>src/journal_document.rs\<close>, and the part of
  \<open>src/state_store.rs\<close> that binds a document to its canonical path. Problems are collected in
  the order the code pushes them; their texts are constructors. \<open>serde_json\<close> is a parameter.
\<close>

section \<open>Validation of a journal\<close>

definition JOURNAL_DOCUMENT_SCHEMA_VERSION :: "8 word" where "JOURNAL_DOCUMENT_SCHEMA_VERSION = 1"
definition MAX_JOURNAL_RECORDS :: nat where "MAX_JOURNAL_RECORDS = 10000"
definition MAX_EVIDENCE_ITEMS :: nat where "MAX_EVIDENCE_ITEMS = 256"
definition MAX_PUBLIC_TEXT_LEN :: nat where "MAX_PUBLIC_TEXT_LEN = 4096"

datatype journal_field =
    FieldActionId nat
  | FieldActionSummary nat
  | FieldEvidence nat nat
  | FieldMessage nat
  | FieldStoppedAfter

datatype journal_problem =
    UnsupportedJournalVersion "8 word"
  | TooManyJournalRecords
  | PlanProblem plan_problem
  | TextEmpty journal_field
  | TextTooLong journal_field
  | TextHasControl journal_field
  | TooMuchEvidence nat
  | MessageWhilePending nat
  | MessageWhileExecuting nat
  | MessageRequired nat action_outcome
  | RolledBackNotReversible nat
  | CompensatedNotCompensating nat
  | RollbackOfIrreversible nat
  | ManyStopRecords
  | StopPositionRequired
  | StopNamesNoRecord string
  | StopNamesOtherOutcome
  | PendingBeforeFailedStop
  | ProgressAfterFailedStop
  | ProgressBesideSkippedStop
  | ManyInProgress
  | ExecutingWithStop
  | IncompleteBeforeExecuting
  | ProgressAfterExecuting
  | RollbackWithoutStop
  | RecoveryUnreachable
  | UnsupportedDocumentVersion "8 word"
  | InvalidDocumentInstallation
  | InvalidDocumentJournal
  | DocumentJsonInvalid
  | DocumentSerializationFailed

definition validate_public_text :: "journal_field \<Rightarrow> string \<Rightarrow> journal_problem list" where
  "validate_public_text field v =
     (if v = [] then [TextEmpty field]
      else if MAX_PUBLIC_TEXT_LEN < length v then [TextTooLong field]
      else if has_control v then [TextHasControl field]
      else [])"

definition validate_journal_record :: "nat \<Rightarrow> journal_record \<Rightarrow> journal_problem list" where
  "validate_journal_record index r =
     validate_public_text (FieldActionId index) (pm_id (jr_action r))
     @ validate_public_text (FieldActionSummary index) (pm_summary (jr_action r))
     @ (let evidence = pc_evidence (pm_preconditions (jr_action r))
        in (if MAX_EVIDENCE_ITEMS < length evidence then [TooMuchEvidence index] else [])
           @ concat (map (\<lambda>(k, e). validate_public_text (FieldEvidence index k) e) (enumerate 0 evidence)))
     @ (case jr_outcome r of
          Pending \<Rightarrow> if jr_message r \<noteq> None then [MessageWhilePending index] else []
        | Executing \<Rightarrow> if jr_message r \<noteq> None then [MessageWhileExecuting index] else []
        | _ \<Rightarrow> (case jr_message r of
                  Some message \<Rightarrow> validate_public_text (FieldMessage index) message
                | None \<Rightarrow> [MessageRequired index (jr_outcome r)]))
     @ (case jr_outcome r of
          RolledBack \<Rightarrow>
            if pm_rollback (jr_action r) \<noteq> Reversible then [RolledBackNotReversible index] else []
        | Compensated \<Rightarrow>
            if pm_rollback (jr_action r) \<noteq> Compensating then [CompensatedNotCompensating index] else []
        | RollbackInProgress \<Rightarrow>
            if pm_rollback (jr_action r) = Irreversible then [RollbackOfIrreversible index] else []
        | RollbackFailed \<Rightarrow>
            if pm_rollback (jr_action r) = Irreversible then [RollbackOfIrreversible index] else []
        | _ \<Rightarrow> [])"

definition is_stop_outcome :: "action_outcome \<Rightarrow> bool" where
  "is_stop_outcome oc \<longleftrightarrow> oc = Failed \<or> oc = Skipped"

definition validate_stop_position :: "execution_journal \<Rightarrow> journal_problem list" where
  "validate_stop_position j =
     (let stopping_records = filter (\<lambda>(_, r). is_stop_outcome (jr_outcome r)) (enumerate 0 (ej_records j))
      in (if 1 < length stopping_records then [ManyStopRecords] else [])
         @ (case ej_stopped_after j of
              None \<Rightarrow> if stopping_records \<noteq> [] then [StopPositionRequired] else []
            | Some stopped_after \<Rightarrow>
                validate_public_text FieldStoppedAfter stopped_after
                @ (case position (\<lambda>r. pm_id (jr_action r) = stopped_after) (ej_records j) of
                     None \<Rightarrow> [StopNamesNoRecord stopped_after]
                   | Some stop_index \<Rightarrow>
                       (if \<not> is_stop_outcome (jr_outcome (ej_records j ! stop_index))
                        then [StopNamesOtherOutcome] else [])
                       @ (case jr_outcome (ej_records j ! stop_index) of
                            Failed \<Rightarrow>
                              (if list_ex (\<lambda>r. jr_outcome r = Pending) (take stop_index (ej_records j))
                               then [PendingBeforeFailedStop] else [])
                              @ (if list_ex (\<lambda>r. jr_outcome r \<noteq> Pending) (drop (stop_index + 1) (ej_records j))
                                 then [ProgressAfterFailedStop] else [])
                          | Skipped \<Rightarrow>
                              if list_ex (\<lambda>(k, r). k \<noteq> stop_index \<and> jr_outcome r \<noteq> Pending)
                                   (enumerate 0 (ej_records j))
                              then [ProgressBesideSkippedStop] else []
                          | _ \<Rightarrow> []))))"

definition is_in_progress :: "action_outcome \<Rightarrow> bool" where
  "is_in_progress oc \<longleftrightarrow> oc = Executing \<or> oc = RollbackInProgress"

definition validate_recovery_position :: "execution_journal \<Rightarrow> journal_problem list" where
  "validate_recovery_position j =
     (case filter (\<lambda>(_, r). is_in_progress (jr_outcome r)) (enumerate 0 (ej_records j)) of
        _ # _ # _ \<Rightarrow> [ManyInProgress]
      | [] \<Rightarrow> []
      | [(active_index, active_record)] \<Rightarrow>
          (case jr_outcome active_record of
             Executing \<Rightarrow>
               (if ej_stopped_after j \<noteq> None then [ExecutingWithStop] else [])
               @ (if list_ex (\<lambda>r. jr_outcome r \<noteq> Completed) (take active_index (ej_records j))
                  then [IncompleteBeforeExecuting] else [])
               @ (if list_ex (\<lambda>r. jr_outcome r \<noteq> Pending) (drop (active_index + 1) (ej_records j))
                  then [ProgressAfterExecuting] else [])
           | RollbackInProgress \<Rightarrow>
               (if ej_stopped_after j = None then [RollbackWithoutStop] else [])
           | _ \<Rightarrow> [RecoveryUnreachable]))"

definition validate_execution_journal :: "execution_journal \<Rightarrow> journal_problem list + unit" where
  "validate_execution_journal j =
     (let problems =
        (if ej_schema_version j \<noteq> JOURNAL_SCHEMA_VERSION
         then [UnsupportedJournalVersion (ej_schema_version j)] else [])
        @ (if MAX_JOURNAL_RECORDS < length (ej_records j) then [TooManyJournalRecords] else [])
        @ (case validate_plan (map jr_action (ej_records j)) of
             Inl found \<Rightarrow> map PlanProblem found
           | Inr _ \<Rightarrow> [])
        @ concat (map (\<lambda>(index, r). validate_journal_record index r) (enumerate 0 (ej_records j)))
        @ validate_stop_position j
        @ validate_recovery_position j
      in if problems = [] then Inr () else Inl problems)"

section \<open>The document\<close>

record journal_state_document =
  jsd_schema_version :: "8 word"
  jsd_installation_id :: installation_id
  jsd_journal_id :: journal_id
  jsd_journal :: execution_journal

definition journal_state_document_new ::
  "installation_id \<Rightarrow> journal_id \<Rightarrow> execution_journal \<Rightarrow> journal_problem list + journal_state_document" where
  "journal_state_document_new installation_id journal_id j =
     try_res (validate_execution_journal j) (\<lambda>_.
     Inr \<lparr>jsd_schema_version = JOURNAL_DOCUMENT_SCHEMA_VERSION,
          jsd_installation_id = installation_id, jsd_journal_id = journal_id, jsd_journal = j\<rparr>)"

datatype wire_execution_lane = WireOperator | WireRoot | WireRunnerUser | WireGithub

datatype wire_rollback_class = WireReversible | WireCompensating | WireIrreversible

datatype wire_action_outcome =
    WirePending | WireExecuting | WireCompleted | WireFailed | WireSkipped
  | WireRollbackInProgress | WireRolledBack | WireCompensated | WireRollbackFailed

record wire_planned_mutation =
  wpm_id :: string
  wpm_lane :: wire_execution_lane
  wpm_summary :: string
  wpm_rollback :: wire_rollback_class
  wpm_evidence :: "string list"

record wire_journal_record =
  wjr_action :: wire_planned_mutation
  wjr_outcome :: wire_action_outcome
  wjr_message :: "string option"

record wire_execution_journal =
  wej_schema_version :: "8 word"
  wej_records :: "wire_journal_record list"
  wej_stopped_after :: "string option"

record wire_journal_document =
  wjd_schema_version :: "8 word"
  wjd_installation_id :: string
  wjd_journal_id :: string
  wjd_journal :: wire_execution_journal

fun lane_from_wire :: "wire_execution_lane \<Rightarrow> execution_lane" where
  "lane_from_wire WireOperator = Operator"
| "lane_from_wire WireRoot = Root"
| "lane_from_wire WireRunnerUser = RunnerUser"
| "lane_from_wire WireGithub = Github"

fun rollback_from_wire :: "wire_rollback_class \<Rightarrow> rollback_class" where
  "rollback_from_wire WireReversible = Reversible"
| "rollback_from_wire WireCompensating = Compensating"
| "rollback_from_wire WireIrreversible = Irreversible"

fun outcome_from_wire :: "wire_action_outcome \<Rightarrow> action_outcome" where
  "outcome_from_wire WirePending = Pending"
| "outcome_from_wire WireExecuting = Executing"
| "outcome_from_wire WireCompleted = Completed"
| "outcome_from_wire WireFailed = Failed"
| "outcome_from_wire WireSkipped = Skipped"
| "outcome_from_wire WireRollbackInProgress = RollbackInProgress"
| "outcome_from_wire WireRolledBack = RolledBack"
| "outcome_from_wire WireCompensated = Compensated"
| "outcome_from_wire WireRollbackFailed = RollbackFailed"

definition mutation_from_wire :: "wire_planned_mutation \<Rightarrow> planned_mutation" where
  "mutation_from_wire w =
     \<lparr>pm_id = wpm_id w, pm_lane = lane_from_wire (wpm_lane w), pm_summary = wpm_summary w,
      pm_rollback = rollback_from_wire (wpm_rollback w),
      pm_preconditions = \<lparr>pc_evidence = wpm_evidence w\<rparr>\<rparr>"

definition record_from_wire :: "wire_journal_record \<Rightarrow> journal_record" where
  "record_from_wire w =
     \<lparr>jr_action = mutation_from_wire (wjr_action w), jr_outcome = outcome_from_wire (wjr_outcome w),
      jr_message = wjr_message w\<rparr>"

definition journal_from_wire :: "wire_execution_journal \<Rightarrow> execution_journal" where
  "journal_from_wire w =
     \<lparr>ej_schema_version = wej_schema_version w, ej_records = map record_from_wire (wej_records w),
      ej_stopped_after = wej_stopped_after w\<rparr>"

definition journal_document_try_from ::
  "wire_journal_document \<Rightarrow> journal_problem list + journal_state_document" where
  "journal_document_try_from w =
     (if wjd_schema_version w \<noteq> JOURNAL_DOCUMENT_SCHEMA_VERSION
      then Inl [UnsupportedDocumentVersion (wjd_schema_version w)]
      else
        try_res (map_err (\<lambda>_. [InvalidDocumentInstallation]) (installation_id_parse (wjd_installation_id w)))
          (\<lambda>installation_id.
        try_res (map_err (\<lambda>_. [InvalidDocumentJournal]) (journal_id_parse (wjd_journal_id w)))
          (\<lambda>journal_id.
        journal_state_document_new installation_id journal_id (journal_from_wire (wjd_journal w)))))"

definition encode_journal_document ::
  "(journal_state_document \<Rightarrow> 'j + string) \<Rightarrow> journal_state_document \<Rightarrow> journal_problem list + string" where
  "encode_journal_document to_json document =
     try_res (map_err (\<lambda>_. [DocumentSerializationFailed]) (to_json document)) (\<lambda>encoded.
     Inr (encoded @ [CHR 0x0A]))"

definition decode_journal_document ::
  "(string \<Rightarrow> 'j + wire_journal_document) \<Rightarrow> string \<Rightarrow> journal_problem list + journal_state_document" where
  "decode_journal_document from_json input =
     try_res (map_err (\<lambda>_. [DocumentJsonInvalid]) (from_json input)) journal_document_try_from"

section \<open>Records of the state store\<close>

datatype state_record_kind = ProjectRecord | ResourceRecord | JournalRecord | ExecutionReceiptRecord

record state_record =
  sr_kind :: state_record_kind
  sr_path :: state_path
  sr_bytes :: string

datatype state_record_error =
    RecordProblems "journal_problem list"
  | EncodedDocumentTooLarge

definition MAX_STATE_DOCUMENT_BYTES :: nat where "MAX_STATE_DOCUMENT_BYTES = 1048576"

definition state_record_finish ::
  "state_record_kind \<Rightarrow> state_path \<Rightarrow> string \<Rightarrow> state_record_error + state_record" where
  "state_record_finish kind path encoded =
     (if MAX_STATE_DOCUMENT_BYTES < length encoded then Inl EncodedDocumentTooLarge
      else Inr \<lparr>sr_kind = kind, sr_path = path, sr_bytes = encoded\<rparr>)"

definition state_record_journal ::
  "(journal_state_document \<Rightarrow> 'j + string) \<Rightarrow> journal_state_document \<Rightarrow> state_record_error + state_record" where
  "state_record_journal to_json document =
     (let path = layout_journal_document (jsd_installation_id document) (jsd_journal_id document)
      in try_res (map_err RecordProblems (encode_journal_document to_json document)) (\<lambda>encoded.
         state_record_finish JournalRecord path encoded))"

section \<open>The shapes of a journal\<close>

text \<open>
  The journals an execution can leave behind, as a description apart from the checks: running or
  finished up to some index, executing one action, stopped before the first action, or stopped at
  a failed action with the completed ones before it in some state of rollback. \<open>T\<close> is what is
  known of the messages.
\<close>

definition pending_record :: "journal_record \<Rightarrow> bool" where
  "pending_record r \<longleftrightarrow> jr_outcome r = Pending \<and> jr_message r = None"

definition has_message :: "(string \<Rightarrow> bool) \<Rightarrow> journal_record \<Rightarrow> bool" where
  "has_message T r \<longleftrightarrow> (\<exists>m. jr_message r = Some m \<and> T m)"

definition completed_record :: "(string \<Rightarrow> bool) \<Rightarrow> journal_record \<Rightarrow> bool" where
  "completed_record T r \<longleftrightarrow> jr_outcome r = Completed \<and> has_message T r"

definition undone_record :: "(string \<Rightarrow> bool) \<Rightarrow> journal_record \<Rightarrow> bool" where
  "undone_record T r \<longleftrightarrow> has_message T r \<and>
     (jr_outcome r = Completed
      \<or> jr_outcome r = RolledBack \<and> pm_rollback (jr_action r) = Reversible
      \<or> jr_outcome r = Compensated \<and> pm_rollback (jr_action r) = Compensating
      \<or> jr_outcome r = RollbackFailed \<and> pm_rollback (jr_action r) \<noteq> Irreversible)"

definition undoing_record :: "(string \<Rightarrow> bool) \<Rightarrow> journal_record \<Rightarrow> bool" where
  "undoing_record T r \<longleftrightarrow> has_message T r \<and>
     jr_outcome r = RollbackInProgress \<and> pm_rollback (jr_action r) \<noteq> Irreversible"

definition running_at :: "(string \<Rightarrow> bool) \<Rightarrow> nat \<Rightarrow> execution_journal \<Rightarrow> bool" where
  "running_at T i j \<longleftrightarrow> i \<le> length (ej_records j) \<and> ej_stopped_after j = None \<and>
     (\<forall>k < i. completed_record T (ej_records j ! k)) \<and>
     (\<forall>k < length (ej_records j). i \<le> k \<longrightarrow> pending_record (ej_records j ! k))"

definition executing_at :: "(string \<Rightarrow> bool) \<Rightarrow> nat \<Rightarrow> execution_journal \<Rightarrow> bool" where
  "executing_at T i j \<longleftrightarrow> i < length (ej_records j) \<and> ej_stopped_after j = None \<and>
     (\<forall>k < i. completed_record T (ej_records j ! k)) \<and>
     jr_outcome (ej_records j ! i) = Executing \<and> jr_message (ej_records j ! i) = None \<and>
     (\<forall>k < length (ej_records j). i < k \<longrightarrow> pending_record (ej_records j ! k))"

definition skipped_at :: "(string \<Rightarrow> bool) \<Rightarrow> nat \<Rightarrow> execution_journal \<Rightarrow> bool" where
  "skipped_at T i j \<longleftrightarrow> i < length (ej_records j) \<and>
     ej_stopped_after j = Some (pm_id (record_action j i)) \<and>
     jr_outcome (ej_records j ! i) = Skipped \<and> has_message T (ej_records j ! i) \<and>
     (\<forall>k < length (ej_records j). k \<noteq> i \<longrightarrow> pending_record (ej_records j ! k))"

definition failed_at :: "(string \<Rightarrow> bool) \<Rightarrow> nat \<Rightarrow> execution_journal \<Rightarrow> bool" where
  "failed_at T f j \<longleftrightarrow> f < length (ej_records j) \<and>
     ej_stopped_after j = Some (pm_id (record_action j f)) \<and>
     jr_outcome (ej_records j ! f) = Failed \<and> has_message T (ej_records j ! f) \<and>
     (\<forall>k < length (ej_records j). f < k \<longrightarrow> pending_record (ej_records j ! k)) \<and>
     (\<forall>k < f. undone_record T (ej_records j ! k))"

definition undoing_at :: "(string \<Rightarrow> bool) \<Rightarrow> nat \<Rightarrow> nat \<Rightarrow> execution_journal \<Rightarrow> bool" where
  "undoing_at T f i j \<longleftrightarrow> f < length (ej_records j) \<and> i < f \<and>
     ej_stopped_after j = Some (pm_id (record_action j f)) \<and>
     jr_outcome (ej_records j ! f) = Failed \<and> has_message T (ej_records j ! f) \<and>
     (\<forall>k < length (ej_records j). f < k \<longrightarrow> pending_record (ej_records j ! k)) \<and>
     undoing_record T (ej_records j ! i) \<and>
     (\<forall>k < f. k \<noteq> i \<longrightarrow> undone_record T (ej_records j ! k))"

definition journal_shape :: "(string \<Rightarrow> bool) \<Rightarrow> planned_mutation list \<Rightarrow> execution_journal \<Rightarrow> bool" where
  "journal_shape T acts j \<longleftrightarrow>
     ej_schema_version j = JOURNAL_SCHEMA_VERSION \<and> map jr_action (ej_records j) = acts \<and>
     ((\<exists>i. running_at T i j) \<or> (\<exists>i. executing_at T i j) \<or> (\<exists>i. skipped_at T i j) \<or>
      (\<exists>f. failed_at T f j) \<or> (\<exists>f i. undoing_at T f i j))"

definition public_text :: "string \<Rightarrow> bool" where
  "public_text v \<longleftrightarrow> v \<noteq> [] \<and> length v \<le> 4096 \<and> \<not> has_control v"

text \<open>A plan whose texts a journal document can hold.\<close>

definition public_plan :: "planned_mutation list \<Rightarrow> bool" where
  "public_plan acts \<longleftrightarrow> length acts \<le> 10000 \<and>
     list_all (\<lambda>a. public_text (pm_id a) \<and> public_text (pm_summary a) \<and>
       length (pc_evidence (pm_preconditions a)) \<le> 256 \<and>
       list_all public_text (pc_evidence (pm_preconditions a))) acts"

section \<open>Lemmas\<close>

lemma validate_public_text_Nil [simp]: "validate_public_text field v = [] \<longleftrightarrow> public_text v"
  by (simp add: validate_public_text_def public_text_def MAX_PUBLIC_TEXT_LEN_def)

lemma validate_journal_record_Nil:
  "validate_journal_record i r = [] \<longleftrightarrow>
     public_text (pm_id (jr_action r)) \<and> public_text (pm_summary (jr_action r)) \<and>
     length (pc_evidence (pm_preconditions (jr_action r))) \<le> 256 \<and>
     list_all public_text (pc_evidence (pm_preconditions (jr_action r))) \<and>
     (if jr_outcome r = Pending \<or> jr_outcome r = Executing then jr_message r = None
      else has_message public_text r) \<and>
     (jr_outcome r = RolledBack \<longrightarrow> pm_rollback (jr_action r) = Reversible) \<and>
     (jr_outcome r = Compensated \<longrightarrow> pm_rollback (jr_action r) = Compensating) \<and>
     (jr_outcome r = RollbackInProgress \<or> jr_outcome r = RollbackFailed \<longrightarrow>
        pm_rollback (jr_action r) \<noteq> Irreversible)"
proof -
  have "(\<forall>x \<in> set (enumerate 0 es). case x of (k, e) \<Rightarrow> public_text e) \<longleftrightarrow> list_all public_text es"
    for es :: "string list"
    by (auto simp: in_set_enumerate_eq list_all_length)
  then show ?thesis
    by (cases "jr_outcome r"; cases "jr_message r")
      (auto simp: validate_journal_record_def Let_def MAX_EVIDENCE_ITEMS_def has_message_def
        concat_eq_Nil_conv case_prod_beta split: if_splits)
qed

lemma filter_enumerate_none:
  "filter (\<lambda>(k, r). P r) (enumerate n xs) = [] \<longleftrightarrow> (\<forall>r \<in> set xs. \<not> P r)"
  by (induction xs arbitrary: n) auto

lemma filter_enumerate_one:
  assumes "i < length xs" and "P (xs ! i)" and "\<forall>k < length xs. k \<noteq> i \<longrightarrow> \<not> P (xs ! k)"
  shows "filter (\<lambda>(k, r). P r) (enumerate n xs) = [(n + i, xs ! i)]"
  using assms
proof (induction xs arbitrary: n i)
  case (Cons x xs)
  show ?case
  proof (cases i)
    case 0
    have "\<not> P r" if r: "r \<in> set xs" for r
    proof -
      obtain k where "k < length xs" "xs ! k = r" using r by (auto simp: in_set_conv_nth)
      then show ?thesis using Cons.prems(3) 0 by (auto dest: spec [of _ "Suc k"])
    qed
    then show ?thesis using Cons.prems 0 by (simp add: filter_enumerate_none)
  next
    case (Suc m)
    have "\<not> P x" using Cons.prems(3) Suc by auto
    moreover have "filter (\<lambda>(k, r). P r) (enumerate (Suc n) xs) = [(Suc n + m, xs ! m)]"
      using Cons.prems Suc by (intro Cons.IH) auto
    ultimately show ?thesis using Suc by simp
  qed
qed simp

lemmas shape_defs = running_at_def executing_at_def skipped_at_def failed_at_def undoing_at_def
lemmas record_shape_defs = pending_record_def completed_record_def undone_record_def undoing_record_def

lemma shape_record_cases:
  assumes "journal_shape T acts j" and "k < length (ej_records j)"
  shows "pending_record (ej_records j ! k) \<or> completed_record T (ej_records j ! k) \<or>
      undone_record T (ej_records j ! k) \<or> undoing_record T (ej_records j ! k) \<or>
      jr_outcome (ej_records j ! k) = Executing \<and> jr_message (ej_records j ! k) = None \<or>
      (jr_outcome (ej_records j ! k) = Skipped \<or> jr_outcome (ej_records j ! k) = Failed) \<and>
        has_message T (ej_records j ! k)"
proof -
  have less: "k < i \<or> k = i \<or> i < k" for i by linarith
  from assms(1) consider (a) i where "running_at T i j" | (b) i where "executing_at T i j"
    | (c) i where "skipped_at T i j" | (d) i where "failed_at T i j" | (e) f i where "undoing_at T f i j"
    unfolding journal_shape_def by blast
  then show ?thesis
  proof cases
    case (a i) then show ?thesis using assms(2) less [of i] unfolding running_at_def by fastforce
  next
    case (b i) then show ?thesis using assms(2) less [of i] unfolding executing_at_def by blast
  next
    case (c i) then show ?thesis using assms(2) unfolding skipped_at_def by blast
  next
    case (d i) then show ?thesis using assms(2) less [of i] unfolding failed_at_def by blast
  next
    case (e f i) then show ?thesis using assms(2) less [of f] unfolding undoing_at_def by blast
  qed
qed

lemma shape_records_valid:
  assumes "journal_shape public_text acts j" and "public_plan acts" and "k < length (ej_records j)"
  shows "validate_journal_record k (ej_records j ! k) = []"
proof -
  let ?r = "ej_records j ! k"
  have "jr_action ?r \<in> set acts"
    using assms(1,3) by (auto simp: journal_shape_def)
  then have plan: "public_text (pm_id (jr_action ?r)) \<and> public_text (pm_summary (jr_action ?r)) \<and>
      length (pc_evidence (pm_preconditions (jr_action ?r))) \<le> 256 \<and>
      list_all public_text (pc_evidence (pm_preconditions (jr_action ?r)))"
    using assms(2) by (auto simp: public_plan_def list_all_iff)
  have "pending_record ?r \<or> completed_record public_text ?r \<or> undone_record public_text ?r \<or>
      undoing_record public_text ?r \<or> jr_outcome ?r = Executing \<and> jr_message ?r = None \<or>
      (jr_outcome ?r = Skipped \<or> jr_outcome ?r = Failed) \<and> has_message public_text ?r"
    using shape_record_cases [OF assms(1,3)] .
  then show ?thesis using plan
    by (auto simp: validate_journal_record_Nil record_shape_defs)
qed

lemma shape_position:
  assumes "map jr_action (ej_records j) = acts" and "distinct (map pm_id acts)"
    and "i < length (ej_records j)"
  shows "position (\<lambda>r. pm_id (jr_action r) = pm_id (record_action j i)) (ej_records j) = Some i"
proof -
  have "distinct (map (\<lambda>r. pm_id (jr_action r)) (ej_records j))"
    using assms(1,2) by (auto simp: comp_def)
  from position_unique_id [OF this assms(3)] show ?thesis by (simp add: record_action_def)
qed

lemma list_ex_take_nth: "list_ex P (take n xs) \<longleftrightarrow> (\<exists>k < length xs. k < n \<and> P (xs ! k))"
  by (auto simp: list_ex_length)

lemma list_ex_drop_nth: "list_ex P (drop (n + 1) xs) \<longleftrightarrow> (\<exists>k < length xs. n < k \<and> P (xs ! k))"
proof
  assume "\<exists>k < length xs. n < k \<and> P (xs ! k)"
  then obtain k where "k < length xs" "n < k" "P (xs ! k)" by blast
  then show "list_ex P (drop (n + 1) xs)"
    by (auto simp: list_ex_length intro: exI [of _ "k - (n + 1)"])
next
  assume "list_ex P (drop (n + 1) xs)"
  then obtain m where "m < length xs - (n + 1)" "P (xs ! (n + 1 + m))"
    by (auto simp: list_ex_length)
  then show "\<exists>k < length xs. n < k \<and> P (xs ! k)"
    by (intro exI [of _ "n + 1 + m"]) auto
qed

lemma undone_not_stop: "undone_record T r \<or> undoing_record T r \<or> pending_record r \<or> completed_record T r \<Longrightarrow>
    \<not> is_stop_outcome (jr_outcome r)"
  by (auto simp: record_shape_defs is_stop_outcome_def)

lemma stop_records_none:
  assumes "\<forall>k < length xs. \<not> is_stop_outcome (jr_outcome (xs ! k))"
  shows "filter (\<lambda>(k, r). is_stop_outcome (jr_outcome r)) (enumerate 0 xs) = []"
  using assms by (auto simp: filter_enumerate_none in_set_conv_nth)

lemma running_stop_valid:
  assumes "running_at T i j \<or> executing_at T i j"
  shows "validate_stop_position j = []"
proof -
  have "\<not> is_stop_outcome (jr_outcome (ej_records j ! k))" if k: "k < length (ej_records j)" for k
  proof -
    consider "k < i" | "k = i" | "i < k" by linarith
    then show ?thesis
      using assms k
      by cases (auto simp: shape_defs record_shape_defs is_stop_outcome_def)
  qed
  then show ?thesis
    using assms by (auto simp: validate_stop_position_def stop_records_none shape_defs Let_def)
qed

lemma stop_valid_at:
  assumes "i < length (ej_records j)" and "is_stop_outcome (jr_outcome (ej_records j ! i))"
    and "\<forall>k < length (ej_records j). k \<noteq> i \<longrightarrow> \<not> is_stop_outcome (jr_outcome (ej_records j ! k))"
    and "ej_stopped_after j = Some (pm_id (record_action j i))"
    and "position (\<lambda>r. pm_id (jr_action r) = pm_id (record_action j i)) (ej_records j) = Some i"
    and "public_text (pm_id (record_action j i))"
    and "jr_outcome (ej_records j ! i) = Failed \<Longrightarrow>
      (\<forall>k < i. jr_outcome (ej_records j ! k) \<noteq> Pending) \<and>
      (\<forall>k < length (ej_records j). i < k \<longrightarrow> jr_outcome (ej_records j ! k) = Pending)"
    and "jr_outcome (ej_records j ! i) = Skipped \<Longrightarrow>
      (\<forall>k < length (ej_records j). k \<noteq> i \<longrightarrow> jr_outcome (ej_records j ! k) = Pending)"
  shows "validate_stop_position j = []"
proof -
  have one: "filter (\<lambda>(k, r). is_stop_outcome (jr_outcome r)) (enumerate 0 (ej_records j))
      = [(0 + i, ej_records j ! i)]"
    by (rule filter_enumerate_one [OF assms(1,2,3)])
  show ?thesis
  proof (cases "jr_outcome (ej_records j ! i) = Failed")
    case True
    then have "\<not> list_ex (\<lambda>r. jr_outcome r = Pending) (take i (ej_records j))"
      and "\<not> list_ex (\<lambda>r. jr_outcome r \<noteq> Pending) (drop (i + 1) (ej_records j))"
      unfolding list_ex_take_nth list_ex_drop_nth using assms(7) by blast+
    then show ?thesis
      unfolding validate_stop_position_def Let_def one assms(4)
      by (simp add: assms(5,6) True is_stop_outcome_def)
  next
    case False
    then have "jr_outcome (ej_records j ! i) = Skipped" using assms(2) by (simp add: is_stop_outcome_def)
    moreover from this have "\<not> list_ex (\<lambda>(k, r). k \<noteq> i \<and> jr_outcome r \<noteq> Pending) (enumerate 0 (ej_records j))"
      using assms(8) by (auto simp: list_ex_iff in_set_enumerate_eq)
    ultimately show ?thesis
      unfolding validate_stop_position_def Let_def one assms(4)
      by (simp add: assms(5,6) is_stop_outcome_def)
  qed
qed

lemma recovery_none:
  assumes "\<forall>k < length (ej_records j). \<not> is_in_progress (jr_outcome (ej_records j ! k))"
  shows "validate_recovery_position j = []"
proof -
  have "filter (\<lambda>(k, r). is_in_progress (jr_outcome r)) (enumerate 0 (ej_records j)) = []"
    using assms by (auto simp: filter_enumerate_none in_set_conv_nth)
  then show ?thesis by (simp add: validate_recovery_position_def)
qed

lemma recovery_one:
  assumes "i < length (ej_records j)" and "is_in_progress (jr_outcome (ej_records j ! i))"
    and "\<forall>k < length (ej_records j). k \<noteq> i \<longrightarrow> \<not> is_in_progress (jr_outcome (ej_records j ! k))"
    and "jr_outcome (ej_records j ! i) = Executing \<Longrightarrow> ej_stopped_after j = None \<and>
      (\<forall>k < i. jr_outcome (ej_records j ! k) = Completed) \<and>
      (\<forall>k < length (ej_records j). i < k \<longrightarrow> jr_outcome (ej_records j ! k) = Pending)"
    and "jr_outcome (ej_records j ! i) = RollbackInProgress \<Longrightarrow> ej_stopped_after j \<noteq> None"
  shows "validate_recovery_position j = []"
proof -
  have one: "filter (\<lambda>(k, r). is_in_progress (jr_outcome r)) (enumerate 0 (ej_records j))
      = [(0 + i, ej_records j ! i)]"
    by (rule filter_enumerate_one [OF assms(1,2,3)])
  show ?thesis
  proof (cases "jr_outcome (ej_records j ! i) = Executing")
    case True
    then have "\<not> list_ex (\<lambda>r. jr_outcome r \<noteq> Completed) (take i (ej_records j))"
      and "\<not> list_ex (\<lambda>r. jr_outcome r \<noteq> Pending) (drop (i + 1) (ej_records j))"
      unfolding list_ex_take_nth list_ex_drop_nth using assms(4) by blast+
    then show ?thesis
      unfolding validate_recovery_position_def one using assms(4) True by simp
  next
    case False
    then have "jr_outcome (ej_records j ! i) = RollbackInProgress"
      using assms(2) by (simp add: is_in_progress_def)
    then show ?thesis
      unfolding validate_recovery_position_def one using assms(5) by simp
  qed
qed

lemma skipped_stop_valid:
  assumes "skipped_at public_text i j" and "map jr_action (ej_records j) = acts"
    and "distinct (map pm_id acts)" and "public_text (pm_id (record_action j i))"
  shows "validate_stop_position j = []" and "validate_recovery_position j = []"
proof -
  have i: "i < length (ej_records j)" "ej_stopped_after j = Some (pm_id (record_action j i))"
    "jr_outcome (ej_records j ! i) = Skipped"
    and other: "\<And>k. k < length (ej_records j) \<Longrightarrow> k \<noteq> i \<Longrightarrow> jr_outcome (ej_records j ! k) = Pending"
    using assms(1) by (auto simp: skipped_at_def pending_record_def)
  show "validate_stop_position j = []"
    by (rule stop_valid_at [OF i(1) _ _ i(2) shape_position [OF assms(2,3) i(1)] assms(4)])
      (auto simp: i(3) other is_stop_outcome_def)
  have "\<not> is_in_progress (jr_outcome (ej_records j ! k))" if "k < length (ej_records j)" for k
    using i(3) other [OF that] by (cases "k = i") (auto simp: is_in_progress_def)
  then show "validate_recovery_position j = []" by (intro recovery_none) blast
qed

lemma failed_stop_valid:
  assumes "failed_at public_text f j \<or> undoing_at public_text f i j"
    and "map jr_action (ej_records j) = acts"
    and "distinct (map pm_id acts)" and "public_text (pm_id (record_action j f))"
  shows "validate_stop_position j = []" and "validate_recovery_position j = []"
proof -
  have f: "f < length (ej_records j)" "ej_stopped_after j = Some (pm_id (record_action j f))"
    "jr_outcome (ej_records j ! f) = Failed"
    and after: "\<And>k. k < length (ej_records j) \<Longrightarrow> f < k \<Longrightarrow> jr_outcome (ej_records j ! k) = Pending"
    and before: "\<And>k. k < f \<Longrightarrow> undone_record public_text (ej_records j ! k) \<or>
      k = i \<and> undoing_record public_text (ej_records j ! k)"
    using assms(1) unfolding failed_at_def undoing_at_def pending_record_def by blast+
  have early: "jr_outcome (ej_records j ! k) \<noteq> Pending \<and>
      \<not> is_stop_outcome (jr_outcome (ej_records j ! k))" if "k < f" for k
    using before [OF that] by (auto simp: record_shape_defs is_stop_outcome_def)
  have others: "\<forall>k < length (ej_records j). k \<noteq> f \<longrightarrow> \<not> is_stop_outcome (jr_outcome (ej_records j ! k))"
  proof (intro allI impI)
    fix k assume "k < length (ej_records j)" "k \<noteq> f"
    then show "\<not> is_stop_outcome (jr_outcome (ej_records j ! k))"
      using early [of k] after [of k] by (cases "k < f") (auto simp: is_stop_outcome_def)
  qed
  show "validate_stop_position j = []"
    by (rule stop_valid_at [OF f(1) _ others f(2) shape_position [OF assms(2,3) f(1)] assms(4)])
      (auto simp: f(3) is_stop_outcome_def early after)
  have quiet: "\<not> is_in_progress (jr_outcome (ej_records j ! k))"
    if "k < length (ej_records j)" "\<not> (k < f \<and> k = i \<and> undoing_record public_text (ej_records j ! k))" for k
    using f(3) after [OF that(1)] before [of k] that(2)
    by (cases k f rule: linorder_cases) (auto simp: record_shape_defs is_in_progress_def)
  show "validate_recovery_position j = []"
  proof (cases "i < f \<and> undoing_record public_text (ej_records j ! i)")
    case True
    then show ?thesis using f(1) quiet
      by (intro recovery_one [of i]) (auto simp: undoing_record_def is_in_progress_def f(2))
  next
    case False
    then show ?thesis using quiet by (intro recovery_none) blast
  qed
qed

lemma running_recovery_valid:
  assumes "running_at T i j"
  shows "validate_recovery_position j = []"
proof (rule recovery_none, intro allI impI)
  fix k assume "k < length (ej_records j)"
  then show "\<not> is_in_progress (jr_outcome (ej_records j ! k))"
    using assms by (cases "k < i") (auto simp: running_at_def record_shape_defs is_in_progress_def)
qed

lemma executing_recovery_valid:
  assumes "executing_at T i j"
  shows "validate_recovery_position j = []"
proof (rule recovery_one [of i])
  show "\<forall>k < length (ej_records j). k \<noteq> i \<longrightarrow> \<not> is_in_progress (jr_outcome (ej_records j ! k))"
  proof (intro allI impI)
    fix k assume "k < length (ej_records j)" "k \<noteq> i"
    then show "\<not> is_in_progress (jr_outcome (ej_records j ! k))"
      using assms by (cases "k < i") (auto simp: executing_at_def record_shape_defs is_in_progress_def)
  qed
qed (use assms in \<open>auto simp: executing_at_def record_shape_defs is_in_progress_def\<close>)

text \<open>Every shape with public texts over a public, valid plan passes the validation.\<close>

lemma shape_validates:
  assumes shape: "journal_shape public_text acts j" and "public_plan acts"
    and "validate_plan acts = Inr ()"
  shows "validate_execution_journal j = Inr ()"
proof -
  have acts: "map jr_action (ej_records j) = acts" and version: "ej_schema_version j = JOURNAL_SCHEMA_VERSION"
    using shape by (auto simp: journal_shape_def)
  have distinct: "distinct (map pm_id acts)" using assms(3) by (simp add: validate_plan_ok_iff)
  have id: "public_text (pm_id (record_action j i))" if "i < length (ej_records j)" for i
    using assms(2) acts that by (auto simp: public_plan_def list_all_iff record_action_def)
  have len: "length (ej_records j) \<le> MAX_JOURNAL_RECORDS"
    using assms(2) acts by (auto simp: public_plan_def MAX_JOURNAL_RECORDS_def)
  have records: "concat (map (\<lambda>(index, r). validate_journal_record index r) (enumerate 0 (ej_records j))) = []"
    using shape_records_valid [OF shape assms(2)] by (auto simp: in_set_enumerate_eq)
  have "validate_stop_position j = [] \<and> validate_recovery_position j = []"
    using shape running_stop_valid running_recovery_valid executing_recovery_valid
      skipped_stop_valid [OF _ acts distinct id] failed_stop_valid [OF _ acts distinct id]
    unfolding journal_shape_def
    by (metis skipped_at_def failed_at_def undoing_at_def)
  then show ?thesis
    using records acts version len assms(3) by (simp add: validate_execution_journal_def)
qed

text \<open>The panic arm of \<open>validate_recovery_position\<close> is never taken.\<close>

lemma recovery_unreachable: "RecoveryUnreachable \<notin> set (validate_recovery_position j)"
proof -
  let ?active = "filter (\<lambda>(k, r). is_in_progress (jr_outcome r)) (enumerate 0 (ej_records j))"
  have active: "is_in_progress (jr_outcome (snd x))" if "x \<in> set ?active" for x
    using that by auto
  consider "?active = []" | x where "?active = [x]" | x y xs where "?active = x # y # xs"
    by (metis remdups_adj.cases)
  then show ?thesis
  proof cases
    case (2 x)
    then show ?thesis
      using active [of x] by (cases x) (auto simp: validate_recovery_position_def is_in_progress_def)
  qed (simp_all add: validate_recovery_position_def)
qed

end
