(* ===== verification/Durable_Journal.thy ===== *)
theory Durable_Journal
  imports Journal_Document
begin

text \<open>
  Execution with durable checkpoints, \<open>src/durable_journal.rs\<close>: every uncertain boundary is
  persisted before it is crossed. The executor and the checkpoint are functions on one arbitrary
  world, so that the order in which they are called is visible; Rust's two disjoint \<open>&mut\<close>
  arguments are the special case of a product of two states.
\<close>

section \<open>Checkpoints\<close>

datatype journal_checkpoint_phase = Initial | BeforeExecute | AfterExecute | BeforeRollback | AfterRollback

datatype state_store_error_kind = StoreBusy | StoreConflict | StoreIo | StoreUnsafeFilesystem | StoreCorruptState

record state_store_error =
  sse_kind :: state_store_error_kind
  sse_message :: string

datatype journal_checkpoint_failure =
    SnapshotInvalid "journal_problem list"
  | SnapshotNotBound state_record_error
  | SnapshotNotPersisted state_store_error
  | CheckpointFailureText string

type_synonym 'w journal_checkpoint =
  "'w \<Rightarrow> execution_journal \<Rightarrow> (journal_checkpoint_failure + unit) \<times> 'w"

record durable_checkpoint_error =
  dce_phase :: journal_checkpoint_phase
  dce_action_id :: "string option"
  dce_last_durable :: "execution_journal option"
  dce_attempted :: execution_journal
  dce_failure :: journal_checkpoint_failure

datatype durable_execution_error =
    PlanError "plan_problem list"
  | CheckpointError durable_checkpoint_error

definition persist_checkpoint ::
  "'w journal_checkpoint \<Rightarrow> execution_journal \<Rightarrow> execution_journal option \<Rightarrow> journal_checkpoint_phase \<Rightarrow>
   nat option \<Rightarrow> 'w \<Rightarrow> (durable_execution_error + unit) \<times> execution_journal option \<times> 'w" where
  "persist_checkpoint checkpoint j last_durable phase action_index w =
     (case checkpoint w j of
        (Inr _, w') \<Rightarrow> (Inr (), Some j, w')
      | (Inl failure, w') \<Rightarrow>
          (Inl (CheckpointError
             \<lparr>dce_phase = phase,
              dce_action_id = map_option (\<lambda>i. pm_id (record_action j i)) action_index,
              dce_last_durable = last_durable,
              dce_attempted = j,
              dce_failure = failure\<rparr>), last_durable, w'))"

definition set_outcome :: "execution_journal \<Rightarrow> nat \<Rightarrow> action_outcome \<Rightarrow> execution_journal" where
  "set_outcome j i outcome = set_record j i outcome (jr_message (ej_records j ! i))"

fun rollback_completed_durably ::
  "'w mutation_rollback \<Rightarrow> 'w journal_checkpoint \<Rightarrow> (nat \<times> action_receipt) list \<Rightarrow> execution_journal \<Rightarrow>
   execution_journal option \<Rightarrow> 'w \<Rightarrow> (durable_execution_error + execution_journal) \<times> 'w" where
  "rollback_completed_durably rollback checkpoint [] j last_durable w = (Inr j, w)"
| "rollback_completed_durably rollback checkpoint ((i, receipt) # rest) j last_durable w =
     (if pm_rollback (record_action j i) = Irreversible
      then rollback_completed_durably rollback checkpoint rest j last_durable w
      else
        let j1 = set_outcome j i RollbackInProgress
        in case persist_checkpoint checkpoint j1 last_durable BeforeRollback (Some i) w of
             (Inl e, _, w1) \<Rightarrow> (Inl e, w1)
           | (Inr _, last1, w1) \<Rightarrow>
               (case rollback w1 (record_action j1 i) receipt of
                  (answer, w2) \<Rightarrow>
                    let j2 = rolled_back_journal j1 i answer
                    in case persist_checkpoint checkpoint j2 last1 AfterRollback (Some i) w2 of
                         (Inl e, _, w3) \<Rightarrow> (Inl e, w3)
                       | (Inr _, last2, w3) \<Rightarrow>
                           rollback_completed_durably rollback checkpoint rest j2 last2 w3))"

fun execute_loop_durably ::
  "'w mutation_execute \<Rightarrow> 'w mutation_rollback \<Rightarrow> 'w journal_checkpoint \<Rightarrow> nat list \<Rightarrow> execution_journal \<Rightarrow>
   (nat \<times> action_receipt) list \<Rightarrow> execution_journal option \<Rightarrow> 'w \<Rightarrow>
   (durable_execution_error + execution_journal) \<times> 'w" where
  "execute_loop_durably execute rollback checkpoint [] j completed last_durable w = (Inr j, w)"
| "execute_loop_durably execute rollback checkpoint (i # rest) j completed last_durable w =
     (let j1 = set_record j i Executing None
      in case persist_checkpoint checkpoint j1 last_durable BeforeExecute (Some i) w of
           (Inl e, _, w1) \<Rightarrow> (Inl e, w1)
         | (Inr _, last1, w1) \<Rightarrow>
             (case execute w1 (record_action j1 i) of
                (Inr receipt, w2) \<Rightarrow>
                  let j2 = set_record j1 i Completed (Some (receipt_summary receipt))
                  in (case persist_checkpoint checkpoint j2 last1 AfterExecute (Some i) w2 of
                        (Inl e, _, w3) \<Rightarrow> (Inl e, w3)
                      | (Inr _, last2, w3) \<Rightarrow>
                          execute_loop_durably execute rollback checkpoint rest j2
                            (completed @ [(i, receipt)]) last2 w3)
              | (Inl failure, w2) \<Rightarrow>
                  let j2 = failed_journal j1 i failure
                  in (case persist_checkpoint checkpoint j2 last1 AfterExecute (Some i) w2 of
                        (Inl e, _, w3) \<Rightarrow> (Inl e, w3)
                      | (Inr _, last2, w3) \<Rightarrow>
                          rollback_completed_durably rollback checkpoint (rev completed) j2 last2 w3)))"

definition execute_plan_durably ::
  "'w mutation_execute \<Rightarrow> 'w mutation_rollback \<Rightarrow> 'w journal_checkpoint \<Rightarrow> planned_mutation list \<Rightarrow> bool \<Rightarrow>
   'w \<Rightarrow> (durable_execution_error + execution_journal) \<times> 'w" where
  "execute_plan_durably execute rollback checkpoint actions allow_irreversible w =
     (case validate_plan actions of
        Inl problems \<Rightarrow> (Inl (PlanError problems), w)
      | Inr _ \<Rightarrow>
          let j = pending_journal actions
          in case first_unconfirmed_irreversible j allow_irreversible of
               Some i \<Rightarrow>
                 let j1 = skipped_journal j i
                 in (case persist_checkpoint checkpoint j1 None Initial (Some i) w of
                       (Inl e, _, w1) \<Rightarrow> (Inl e, w1)
                     | (Inr _, _, w1) \<Rightarrow> (Inr j1, w1))
             | None \<Rightarrow>
                 (case persist_checkpoint checkpoint j None Initial None w of
                    (Inl e, _, w1) \<Rightarrow> (Inl e, w1)
                  | (Inr _, last1, w1) \<Rightarrow>
                      execute_loop_durably execute rollback checkpoint [0..<length (ej_records j)] j []
                        last1 w1))"

section \<open>The state-store checkpoint\<close>

datatype state_write_disposition = StateCreated | StateReplaced

record state_write_receipt =
  swr_disposition :: state_write_disposition
  swr_bytes_written :: nat

type_synonym 's state_publish = "'s \<Rightarrow> state_record \<Rightarrow> (state_store_error + state_write_receipt) \<times> 's"

record 's state_store_journal_checkpoint =
  ssc_store :: 's
  ssc_installation_id :: installation_id
  ssc_journal_id :: journal_id
  ssc_initialized :: bool

definition state_store_checkpoint_new ::
  "'s \<Rightarrow> installation_id \<Rightarrow> journal_id \<Rightarrow> 's state_store_journal_checkpoint" where
  "state_store_checkpoint_new store installation_id journal_id =
     \<lparr>ssc_store = store, ssc_installation_id = installation_id, ssc_journal_id = journal_id,
      ssc_initialized = False\<rparr>"

definition state_store_checkpoint ::
  "(journal_state_document \<Rightarrow> 'j + string) \<Rightarrow> 's state_publish \<Rightarrow> 's state_publish \<Rightarrow>
   's state_store_journal_checkpoint journal_checkpoint" where
  "state_store_checkpoint to_json create_atomic write_atomic self j =
     (case journal_state_document_new (ssc_installation_id self) (ssc_journal_id self) j of
        Inl e \<Rightarrow> (Inl (SnapshotInvalid e), self)
      | Inr document \<Rightarrow>
          (case state_record_journal to_json document of
             Inl e \<Rightarrow> (Inl (SnapshotNotBound e), self)
           | Inr record' \<Rightarrow>
               (case (if ssc_initialized self then write_atomic else create_atomic) (ssc_store self) record' of
                  (Inl e, store') \<Rightarrow> (Inl (SnapshotNotPersisted e), self\<lparr>ssc_store := store'\<rparr>)
                | (Inr _, store') \<Rightarrow>
                    (Inr (), self\<lparr>ssc_store := store', ssc_initialized := True\<rparr>))))"

section \<open>Runs and their events\<close>

datatype durable_event =
    EvExecute planned_mutation "action_failure + action_receipt"
  | EvRollback planned_mutation action_receipt "action_failure + action_receipt"
  | EvCheckpoint execution_journal "journal_checkpoint_failure + unit"

definition log_execute :: "'w mutation_execute \<Rightarrow> ('w \<times> durable_event list) mutation_execute" where
  "log_execute execute = (\<lambda>(w, l) a. case execute w a of (x, w') \<Rightarrow> (x, w', l @ [EvExecute a x]))"

definition log_rollback :: "'w mutation_rollback \<Rightarrow> ('w \<times> durable_event list) mutation_rollback" where
  "log_rollback rollback =
     (\<lambda>(w, l) a r. case rollback w a r of (x, w') \<Rightarrow> (x, w', l @ [EvRollback a r x]))"

definition log_checkpoint :: "'w journal_checkpoint \<Rightarrow> ('w \<times> durable_event list) journal_checkpoint" where
  "log_checkpoint checkpoint =
     (\<lambda>(w, l) j. case checkpoint w j of (x, w') \<Rightarrow> (x, w', l @ [EvCheckpoint j x]))"

abbreviation durable_run ::
  "'w mutation_execute \<Rightarrow> 'w mutation_rollback \<Rightarrow> 'w journal_checkpoint \<Rightarrow> planned_mutation list \<Rightarrow> bool \<Rightarrow>
   'w \<Rightarrow> (durable_execution_error + execution_journal) \<times> 'w \<times> durable_event list" where
  "durable_run ex rb cp acts allow w \<equiv>
     execute_plan_durably (log_execute ex) (log_rollback rb) (log_checkpoint cp) acts allow (w, [])"

text \<open>
  Write-ahead discipline: which event may follow which. Nothing follows a failed checkpoint; an
  action runs only right after the snapshot that says it is executing, with everything before it
  completed; a rollback only right after the snapshot that says it is in progress; and the first
  thing after either is the snapshot of its outcome.
\<close>

definition any_text :: "string \<Rightarrow> bool" where "any_text m = True"

fun follows :: "durable_event option \<Rightarrow> durable_event \<Rightarrow> bool" where
  "follows None (EvCheckpoint j x) = True"
| "follows (Some (EvCheckpoint j (Inr u))) (EvCheckpoint j' x) = True"
| "follows (Some (EvCheckpoint j (Inr u))) (EvExecute a x) =
     (\<exists>i. executing_at any_text i j \<and> record_action j i = a)"
| "follows (Some (EvCheckpoint j (Inr u))) (EvRollback a r x) =
     (\<exists>f i. undoing_at any_text f i j \<and> record_action j i = a)"
| "follows (Some (EvExecute a x)) (EvCheckpoint j y) =
     (\<exists>i < length (ej_records j). record_action j i = a \<and>
        jr_outcome (ej_records j ! i) = (if is_ok x then Completed else Failed))"
| "follows (Some (EvRollback a r x)) (EvCheckpoint j y) =
     (\<exists>i < length (ej_records j). record_action j i = a \<and>
        jr_outcome (ej_records j ! i) =
          (if \<not> is_ok x then RollbackFailed
           else if pm_rollback a = Reversible then RolledBack else Compensated))"
| "follows p e = False"

definition write_ahead :: "durable_event list \<Rightarrow> bool" where
  "write_ahead l \<longleftrightarrow>
     (\<forall>i < length l. follows (if i = 0 then None else Some (l ! (i - 1))) (l ! i))"

text \<open>The last snapshot whose checkpoint succeeded.\<close>

fun newest_snapshot :: "execution_journal option \<Rightarrow> durable_event \<Rightarrow> execution_journal option" where
  "newest_snapshot acc (EvCheckpoint j (Inr u)) = Some j"
| "newest_snapshot acc e = acc"

definition last_snapshot :: "durable_event list \<Rightarrow> execution_journal option" where
  "last_snapshot l = foldl newest_snapshot None l"

definition snapshots :: "durable_event list \<Rightarrow> execution_journal set" where
  "snapshots l = {j. \<exists>x. EvCheckpoint j x \<in> set l}"

definition answer_text :: "(string \<Rightarrow> bool) \<Rightarrow> action_failure + action_receipt \<Rightarrow> bool" where
  "answer_text T x = (case x of Inl f \<Rightarrow> T (failure_text f) | Inr r \<Rightarrow> T (receipt_summary r))"

section \<open>How the loops move between shapes\<close>

lemma set_record_again [simp]: "set_record (set_record j i oc m) i oc' m' = set_record j i oc' m'"
  by (cases "i < length (ej_records j)")
    (auto simp: set_record_def list_update_beyond intro: execution_journal.equality)

lemma set_outcome_simps [simp]:
  "length (ej_records (set_outcome j i oc)) = length (ej_records j)"
  "ej_schema_version (set_outcome j i oc) = ej_schema_version j"
  "map jr_action (ej_records (set_outcome j i oc)) = map jr_action (ej_records j)"
  by (simp_all add: set_outcome_def)

lemma record_action_set [simp]:
  "k < length (ej_records j) \<Longrightarrow> record_action (set_record j i oc m) k = record_action j k"
  by (auto simp: record_action_def)

lemma record_action_set_outcome [simp]:
  "k < length (ej_records j) \<Longrightarrow> record_action (set_outcome j i oc) k = record_action j k"
  by (simp add: set_outcome_def)

lemma shape_executing:
  assumes "running_at T i j" and "i < length (ej_records j)"
  shows "executing_at T i (set_record j i Executing None)"
  using assms by (auto simp: running_at_def executing_at_def)

lemma shape_completed:
  assumes "executing_at T i j" and "T m"
  shows "running_at T (Suc i) (set_record j i Completed (Some m))"
  using assms
  by (auto simp: running_at_def executing_at_def less_Suc_eq completed_record_def has_message_def)

lemma shape_failed:
  assumes "executing_at T i j" and "T (failure_text f)"
  shows "failed_at T i (failed_journal j i f)"
proof -
  have i: "i < length (ej_records j)" using assms(1) by (simp add: executing_at_def)
  have "record_action (failed_journal j i f) i = record_action j i"
    using i by (simp add: record_action_def)
  then show ?thesis using assms i
    by (auto simp: failed_at_def executing_at_def has_message_def completed_record_def undone_record_def)
qed

lemma shape_undoing:
  assumes "failed_at T f j" and "i < f" and "pm_rollback (record_action j i) \<noteq> Irreversible"
  shows "undoing_at T f i (set_outcome j i RollbackInProgress)"
proof -
  have "f < length (ej_records j)" using assms(1) by (simp add: failed_at_def)
  moreover from this have "record_action (set_outcome j i RollbackInProgress) f = record_action j f"
    by simp
  ultimately show ?thesis using assms
    by (auto simp: failed_at_def undoing_at_def set_outcome_def undoing_record_def undone_record_def
        has_message_def record_action_def)
qed

lemma shape_undone:
  assumes "undoing_at T f i j" and "answer_text T x"
  shows "failed_at T f (rolled_back_journal j i x)"
proof -
  have len: "f < length (ej_records j)" "i < f" using assms(1) by (auto simp: undoing_at_def)
  then have "record_action (rolled_back_journal j i x) f = record_action j f"
    by (simp add: rolled_back_journal_def split: sum.splits)
  then show ?thesis using assms len
    by (cases "pm_rollback (record_action j i)")
      (auto simp: failed_at_def undoing_at_def rolled_back_journal_def answer_text_def
        undoing_record_def undone_record_def has_message_def record_action_def split: sum.splits)
qed

lemma shape_skipped:
  assumes "i < length acts" and "T confirmation_text"
  shows "skipped_at T i (skipped_journal (pending_journal acts) i)"
proof -
  have "record_action (skipped_journal (pending_journal acts) i) i = record_action (pending_journal acts) i"
    using assms by (simp add: record_action_def)
  then show ?thesis using assms
    by (auto simp: skipped_at_def has_message_def pending_record_def)
qed

lemma shape_pending: "running_at T 0 (pending_journal acts)"
  by (auto simp: running_at_def pending_record_def)

section \<open>Logs that keep the discipline\<close>

lemma write_ahead_Nil [simp]: "write_ahead []"
  by (simp add: write_ahead_def)

lemma write_ahead_snoc [simp]:
  "write_ahead (l @ [e]) \<longleftrightarrow> write_ahead l \<and> follows (if l = [] then None else Some (last l)) e"
proof -
  have "write_ahead (l @ [e]) \<longleftrightarrow> write_ahead l \<and>
      follows (if length l = 0 then None else Some ((l @ [e]) ! (length l - 1))) e"
    by (auto simp: write_ahead_def less_Suc_eq nth_append)
  then show ?thesis by (auto simp: nth_append last_conv_nth)
qed

lemma last_snapshot_simps [simp]:
  "last_snapshot [] = None"
  "last_snapshot (l @ [e]) = newest_snapshot (last_snapshot l) e"
  by (simp_all add: last_snapshot_def)

lemma snapshots_simps [simp]:
  "snapshots [] = {}"
  "snapshots (l @ [EvCheckpoint j x]) = insert j (snapshots l)"
  "snapshots (l @ [EvExecute a y]) = snapshots l"
  "snapshots (l @ [EvRollback a r y]) = snapshots l"
  by (auto simp: snapshots_def)

definition good_log :: "(string \<Rightarrow> bool) \<Rightarrow> planned_mutation list \<Rightarrow> durable_event list \<Rightarrow> bool" where
  "good_log T acts l \<longleftrightarrow> write_ahead l \<and> (\<forall>j \<in> snapshots l. journal_shape T acts j)"

text \<open>Between two steps of a loop: the last event is the successful checkpoint of the current
  journal.\<close>

definition settled ::
  "(string \<Rightarrow> bool) \<Rightarrow> planned_mutation list \<Rightarrow> execution_journal \<Rightarrow> execution_journal option \<Rightarrow>
   durable_event list \<Rightarrow> bool" where
  "settled T acts j last_durable l \<longleftrightarrow>
     good_log T acts l \<and> (\<exists>l0. l = l0 @ [EvCheckpoint j (Inr ())]) \<and> last_durable = Some j"

text \<open>What a run leaves: the journal it returns is the last snapshot; a checkpoint error ends the
  log with the snapshot that failed and names the last one that did not.\<close>

definition settled_result ::
  "(string \<Rightarrow> bool) \<Rightarrow> planned_mutation list \<Rightarrow> durable_execution_error + execution_journal \<Rightarrow>
   durable_event list \<Rightarrow> bool" where
  "settled_result T acts x l \<longleftrightarrow> good_log T acts l \<and>
     (case x of
        Inr j \<Rightarrow> (\<exists>l0. l = l0 @ [EvCheckpoint j (Inr ())])
      | Inl (PlanError ps) \<Rightarrow> l = []
      | Inl (CheckpointError e) \<Rightarrow>
          (\<exists>l0. l = l0 @ [EvCheckpoint (dce_attempted e) (Inl (dce_failure e))] \<and>
             dce_last_durable e = last_snapshot l0))"

lemma settled_snapshot: "settled T acts j last_durable l \<Longrightarrow> last_durable = last_snapshot l \<and> good_log T acts l"
  by (auto simp: settled_def)

lemma settled_last: "settled T acts j d l \<Longrightarrow> l \<noteq> [] \<and> last l = EvCheckpoint j (Inr ())"
  by (auto simp: settled_def)

lemma settled_done: "settled T acts j d l \<Longrightarrow> settled_result T acts (Inr j) l"
  by (auto simp: settled_def settled_result_def)

lemma log_apply [simp]:
  "ex w a = (x, w') \<Longrightarrow> log_execute ex (w, l) a = (x, w', l @ [EvExecute a x])"
  "rb w a r = (x, w') \<Longrightarrow> log_rollback rb (w, l) a r = (x, w', l @ [EvRollback a r x])"
  by (simp_all add: log_execute_def log_rollback_def)

lemma follows_any_result: "follows p (EvCheckpoint j x) \<longleftrightarrow> follows p (EvCheckpoint j y)"
proof (cases p)
  case (Some e)
  then show ?thesis
  proof (cases e)
    case (EvCheckpoint j' z)
    then show ?thesis using Some by (cases z) simp_all
  qed simp_all
qed simp

text \<open>One checkpoint: from a good log whose last event it may follow, it settles the journal or
  ends the run.\<close>

lemma persist_settles:
  assumes "persist_checkpoint (log_checkpoint cp) j d phase idx (w, l) = (x, d', w', l')"
    and "good_log T acts l" and "d = last_snapshot l" and "journal_shape T acts j"
    and "follows (if l = [] then None else Some (last l)) (EvCheckpoint j (Inr ()))"
  shows "(\<exists>u. x = Inr u \<and> settled T acts j d' l') \<or> (\<exists>e. x = Inl e \<and> settled_result T acts (Inl e) l')"
proof -
  obtain y w1 where cp: "cp w j = (y, w1)" by force
  have fol: "follows (if l = [] then None else Some (last l)) (EvCheckpoint j y)"
    using assms(5) follows_any_result by blast
  have good: "good_log T acts (l @ [EvCheckpoint j y])"
    using assms(2,4) fol by (simp add: good_log_def)
  show ?thesis
  proof (cases y)
    case (Inl f)
    then show ?thesis
      using assms(1,3) cp good by (auto simp: persist_checkpoint_def log_checkpoint_def settled_result_def)
  next
    case (Inr u)
    then show ?thesis
      using assms(1) cp good by (auto simp: persist_checkpoint_def log_checkpoint_def settled_def)
  qed
qed

lemma shape_any:
  "executing_at T i j \<Longrightarrow> executing_at any_text i j"
  "undoing_at T f i j \<Longrightarrow> undoing_at any_text f i j"
  by (auto simp: executing_at_def undoing_at_def completed_record_def undone_record_def
      undoing_record_def has_message_def any_text_def)

text \<open>After the call, with its answer logged, the log is still good and the last snapshot the
  same.\<close>

lemma log_call_execute:
  assumes "settled T acts j d l" and "executing_at T i j"
  shows "good_log T acts (l @ [EvExecute (record_action j i) x])"
    and "d = last_snapshot (l @ [EvExecute (record_action j i) x])"
  using assms settled_last [OF assms(1)] settled_snapshot [OF assms(1)] shape_any(1) [OF assms(2)]
  by (auto simp: good_log_def)

lemma log_call_rollback:
  assumes "settled T acts j d l" and "undoing_at T f i j"
  shows "good_log T acts (l @ [EvRollback (record_action j i) r x])"
    and "d = last_snapshot (l @ [EvRollback (record_action j i) r x])"
  using assms settled_last [OF assms(1)] settled_snapshot [OF assms(1)] shape_any(2) [OF assms(2)]
  by (auto simp: good_log_def)

text \<open>The frame every journal of a run shares.\<close>

definition run_frame :: "planned_mutation list \<Rightarrow> execution_journal \<Rightarrow> bool" where
  "run_frame acts j \<longleftrightarrow>
     ej_schema_version j = JOURNAL_SCHEMA_VERSION \<and> map jr_action (ej_records j) = acts"

lemma shape_journal:
  assumes "run_frame acts j"
  shows "running_at T i j \<Longrightarrow> journal_shape T acts j" "executing_at T i j \<Longrightarrow> journal_shape T acts j"
    "skipped_at T i j \<Longrightarrow> journal_shape T acts j" "failed_at T i j \<Longrightarrow> journal_shape T acts j"
    "undoing_at T i k j \<Longrightarrow> journal_shape T acts j"
  using assms by (auto simp: journal_shape_def run_frame_def)

lemma run_frame_simps [simp]:
  "run_frame acts (set_record j i oc m) = run_frame acts j"
  "run_frame acts (set_outcome j i oc) = run_frame acts j"
  "run_frame acts (failed_journal j i f) = run_frame acts j"
  "run_frame acts (skipped_journal j i) = run_frame acts j"
  "run_frame acts (rolled_back_journal j i x) = run_frame acts j"
  "run_frame acts (pending_journal acts)"
  by (auto simp: run_frame_def rolled_back_journal_def split: sum.splits)

text \<open>One turn of the rollback loop, then one turn of the execution loop: the run ends settled, or
  the loop goes on from a settled journal of the same shape.\<close>

lemma rollback_turn:
  assumes run: "rollback_completed_durably (log_rollback rb) (log_checkpoint cp) ((i, r) # cs) j d (w, l)
      = (x, w', l')"
    and rb: "\<forall>w a r. answer_text T (fst (rb w a r))"
    and set0: "settled T acts j d l" and fail: "failed_at T f j" and frame: "run_frame acts j"
    and i: "i < f" and undo: "pm_rollback (record_action j i) \<noteq> Irreversible"
  shows "settled_result T acts x l' \<or>
    (\<exists>j2 d2 w3 l3. rollback_completed_durably (log_rollback rb) (log_checkpoint cp) cs j2 d2 (w3, l3)
        = (x, w', l') \<and> settled T acts j2 d2 l3 \<and> failed_at T f j2 \<and> run_frame acts j2)"
proof -
  let ?j1 = "set_outcome j i RollbackInProgress"
  have und: "undoing_at T f i ?j1" by (rule shape_undoing [OF fail i undo])
  obtain x1 d1 w1 l1 where p1:
    "persist_checkpoint (log_checkpoint cp) ?j1 d BeforeRollback (Some i) (w, l) = (x1, d1, w1, l1)"
    by (metis prod_cases4)
  have frame1: "run_frame acts ?j1" using frame by simp
  have s1: "(\<exists>u. x1 = Inr u \<and> settled T acts ?j1 d1 l1) \<or> (\<exists>e. x1 = Inl e \<and> settled_result T acts (Inl e) l1)"
    using settled_snapshot [OF set0] settled_last [OF set0]
    by (intro persist_settles [OF p1 _ _ shape_journal(5) [OF frame1 und]]) simp_all
  then consider e where "x1 = Inl e" "settled_result T acts (Inl e) l1" | u where "x1 = Inr u" "settled T acts ?j1 d1 l1"
    by blast
  then show ?thesis
  proof cases
    case 1
    then show ?thesis using run undo p1 by (simp add: Let_def)
  next
    case (2 u)
    obtain y w2 where y: "rb w1 (record_action ?j1 i) r = (y, w2)" by force
    let ?l2 = "l1 @ [EvRollback (record_action ?j1 i) r y]"
    let ?j2 = "rolled_back_journal ?j1 i y"
    have fail2: "failed_at T f ?j2" using shape_undone [OF und] rb y by (metis fst_conv)
    obtain x2 d2 w3 l3 where p2:
      "persist_checkpoint (log_checkpoint cp) ?j2 d1 AfterRollback (Some i) (w2, ?l2) = (x2, d2, w3, l3)"
      by (metis prod_cases4)
    have "i < length (ej_records ?j1)" using fail i by (simp add: failed_at_def)
    then have fol: "follows (Some (EvRollback (record_action ?j1 i) r y)) (EvCheckpoint ?j2 (Inr ()))"
      by (auto simp: rolled_back_journal_def record_action_def intro!: exI [of _ i] split: sum.splits)
    have frame2: "run_frame acts ?j2" using frame by simp
    have s2: "(\<exists>u. x2 = Inr u \<and> settled T acts ?j2 d2 l3) \<or> (\<exists>e. x2 = Inl e \<and> settled_result T acts (Inl e) l3)"
      using fol by (intro persist_settles [OF p2 log_call_rollback [OF 2(2) und]
          shape_journal(4) [OF frame2 fail2]]) simp
    show ?thesis
    proof (cases x2)
      case (Inl e)
      then show ?thesis using run undo p1 2(1) y p2 s2 by (auto simp: Let_def)
    next
      case (Inr v)
      then have "rollback_completed_durably (log_rollback rb) (log_checkpoint cp) cs ?j2 d2 (w3, l3) = (x, w', l')"
        using run undo p1 2(1) y p2 by (simp add: Let_def)
      then show ?thesis using s2 Inr fail2 frame2 by blast
    qed
  qed
qed

lemma rollback_settles:
  assumes "rollback_completed_durably (log_rollback rb) (log_checkpoint cp) cs j d (w, l) = (x, w', l')"
    and "\<forall>w a r. answer_text T (fst (rb w a r))"
    and "settled T acts j d l" and "failed_at T f j" and "run_frame acts j"
    and "\<forall>(i, r) \<in> set cs. i < f"
  shows "settled_result T acts x l'"
  using assms
proof (induction cs arbitrary: j d w l)
  case Nil
  then show ?case using settled_done by auto
next
  case (Cons c cs)
  obtain i r where c: "c = (i, r)" by force
  show ?case
  proof (cases "pm_rollback (record_action j i) = Irreversible")
    case True
    then show ?thesis using Cons c by auto
  next
    case False
    then show ?thesis
      using rollback_turn [OF Cons.prems(1) [unfolded c] Cons.prems(2-5)] Cons.IH Cons.prems(2,6) c
      by auto
  qed
qed

lemma execute_turn:
  assumes run: "execute_loop_durably (log_execute ex) (log_rollback rb) (log_checkpoint cp) (i # is) j cs d (w, l)
      = (x, w', l')"
    and ex: "\<forall>w a. answer_text T (fst (ex w a))" and rb: "\<forall>w a r. answer_text T (fst (rb w a r))"
    and set0: "settled T acts j d l" and shape: "running_at T i j" and frame: "run_frame acts j"
    and i: "i < length acts" and cs: "\<forall>(k, r) \<in> set cs. k < i"
  shows "settled_result T acts x l' \<or>
    (\<exists>j2 r d2 w3 l3. execute_loop_durably (log_execute ex) (log_rollback rb) (log_checkpoint cp) is j2
        (cs @ [(i, r)]) d2 (w3, l3) = (x, w', l') \<and>
        settled T acts j2 d2 l3 \<and> running_at T (Suc i) j2 \<and> run_frame acts j2)"
proof -
  let ?j1 = "set_record j i Executing None"
  have len: "length (ej_records j) = length acts" using frame by (auto simp: run_frame_def)
  have exe: "executing_at T i ?j1" using shape_executing [OF shape] i len by simp
  have frame1: "run_frame acts ?j1" using frame by simp
  obtain x1 d1 w1 l1 where p1:
    "persist_checkpoint (log_checkpoint cp) ?j1 d BeforeExecute (Some i) (w, l) = (x1, d1, w1, l1)"
    by (metis prod_cases4)
  have "(\<exists>u. x1 = Inr u \<and> settled T acts ?j1 d1 l1) \<or> (\<exists>e. x1 = Inl e \<and> settled_result T acts (Inl e) l1)"
    using settled_snapshot [OF set0] settled_last [OF set0]
    by (intro persist_settles [OF p1 _ _ shape_journal(2) [OF frame1 exe]]) simp_all
  then consider e where "x1 = Inl e" "settled_result T acts (Inl e) l1" | u where "x1 = Inr u" "settled T acts ?j1 d1 l1"
    by blast
  then show ?thesis
  proof cases
    case 1
    then show ?thesis using run p1 by (simp add: Let_def)
  next
    case (2 u)
    obtain y w2 where y: "ex w1 (record_action ?j1 i) = (y, w2)" by force
    let ?l2 = "l1 @ [EvExecute (record_action ?j1 i) y]"
    let ?j2 = "case y of Inr r \<Rightarrow> set_record ?j1 i Completed (Some (receipt_summary r)) | Inl f \<Rightarrow> failed_journal ?j1 i f"
    have said: "answer_text T y" using ex y by (metis fst_conv)
    have shape2: "(\<forall>r. y = Inr r \<longrightarrow> running_at T (Suc i) ?j2) \<and> (\<forall>f. y = Inl f \<longrightarrow> failed_at T i ?j2)"
      using shape_completed [OF exe] shape_failed [OF exe] said by (auto simp: answer_text_def)
    have frame2: "run_frame acts ?j2" using frame by (simp split: sum.splits)
    have fol: "follows (Some (EvExecute (record_action ?j1 i) y)) (EvCheckpoint ?j2 (Inr ()))"
      using i len by (auto simp: record_action_def intro!: exI [of _ i] split: sum.splits)
    obtain x2 d2 w3 l3 where p2:
      "persist_checkpoint (log_checkpoint cp) ?j2 d1 AfterExecute (Some i) (w2, ?l2) = (x2, d2, w3, l3)"
      by (metis prod_cases4)
    have "journal_shape T acts ?j2"
      using shape2 shape_journal(1,4) [OF frame2] by (cases y) blast+
    then have s2: "(\<exists>u. x2 = Inr u \<and> settled T acts ?j2 d2 l3) \<or> (\<exists>e. x2 = Inl e \<and> settled_result T acts (Inl e) l3)"
      using fol by (intro persist_settles [OF p2 log_call_execute [OF 2(2) exe]]) simp_all
    show ?thesis
    proof (cases y)
      case (Inr r)
      have "execute_loop_durably (log_execute ex) (log_rollback rb) (log_checkpoint cp) is ?j2
          (cs @ [(i, r)]) d2 (w3, l3) = (x, w', l')" if "x2 = Inr v" for v
        using run p1 2(1) y p2 Inr that by (simp add: Let_def)
      moreover have "x2 = Inl e \<Longrightarrow> x = Inl e \<and> l' = l3" for e
        using run p1 2(1) y p2 Inr by (simp add: Let_def)
      ultimately show ?thesis using s2 shape2 frame2 Inr by blast
    next
      case (Inl f)
      have "settled_result T acts x l'" if "x2 = Inr v" "settled T acts ?j2 d2 l3" for v
      proof (rule rollback_settles [OF _ rb that(2)])
        show "rollback_completed_durably (log_rollback rb) (log_checkpoint cp) (rev cs) ?j2 d2 (w3, l3) = (x, w', l')"
          using run p1 2(1) y p2 that(1) Inl by (simp add: Let_def)
      qed (use shape2 frame2 cs Inl in auto)
      then show ?thesis using run p1 2(1) y p2 s2 Inl by (auto simp: Let_def)
    qed
  qed
qed

lemma execute_settles:
  assumes "execute_loop_durably (log_execute ex) (log_rollback rb) (log_checkpoint cp) [i..<length acts] j cs d (w, l)
      = (x, w', l')"
    and "\<forall>w a. answer_text T (fst (ex w a))" and "\<forall>w a r. answer_text T (fst (rb w a r))"
    and "settled T acts j d l" and "running_at T i j" and "run_frame acts j"
    and "i \<le> length acts" and "\<forall>(k, r) \<in> set cs. k < i"
  shows "settled_result T acts x l'"
  using assms
proof (induction "length acts - i" arbitrary: i j cs d w l)
  case 0
  then show ?case using settled_done by auto
next
  case (Suc n)
  then have i: "i < length acts" by simp
  have "execute_loop_durably (log_execute ex) (log_rollback rb) (log_checkpoint cp) (i # [Suc i..<length acts])
      j cs d (w, l) = (x, w', l')"
    using Suc.prems(1) by (simp only: upt_conv_Cons [OF i])
  note turn = execute_turn [OF this Suc.prems(2-6) i Suc.prems(8)]
  have n: "n = length acts - Suc i" using Suc.hyps(2) by simp
  have cs: "\<forall>(k, r') \<in> set (cs @ [(i, r)]). k < Suc i" for r using Suc.prems(8) by auto
  show ?case using turn Suc.hyps(1) [OF n _ Suc.prems(2,3) _ _ _ _ cs] i by fastforce
qed

lemma durable_settles:
  assumes "durable_run ex rb cp acts allow w = (x, w', l)"
    and "\<forall>w a. answer_text T (fst (ex w a))" and "\<forall>w a r. answer_text T (fst (rb w a r))"
    and "T confirmation_text"
  shows "settled_result T acts x l"
proof (cases "validate_plan acts")
  case (Inl ps)
  then show ?thesis using assms(1)
    by (auto simp: execute_plan_durably_def settled_result_def good_log_def)
next
  case (Inr u)
  let ?j = "pending_journal acts"
  have start: "good_log T acts []" "None = last_snapshot []" by (simp_all add: good_log_def)
  show ?thesis
  proof (cases "first_unconfirmed_irreversible ?j allow")
    case (Some i)
    then have i: "i < length acts"
      by (auto simp: first_unconfirmed_irreversible_def pending_journal_def split: if_splits dest: position_bound)
    have shape: "journal_shape T acts (skipped_journal ?j i)"
      by (rule shape_journal(3) [OF _ shape_skipped [where T = T, OF i assms(4)]]) simp
    obtain x1 d1 w1 l1 where p: "persist_checkpoint (log_checkpoint cp) (skipped_journal ?j i) None Initial (Some i) (w, [])
        = (x1, d1, w1, l1)" by (metis prod_cases4)
    from persist_settles [OF p start shape] show ?thesis
      using assms(1) Inr Some p by (auto simp: execute_plan_durably_def Let_def dest: settled_done)
  next
    case None
    obtain x1 d1 w1 l1 where p: "persist_checkpoint (log_checkpoint cp) ?j None Initial None (w, []) = (x1, d1, w1, l1)"
      by (metis prod_cases4)
    have run: "run_frame acts ?j" by simp
    from persist_settles [OF p start shape_journal(1) [OF run shape_pending]]
    show ?thesis
      using assms Inr None p shape_pending [of T acts] execute_settles [of ex rb cp 0 acts ?j "[]" d1 w1 l1 x w' l T]
      by (auto simp: execute_plan_durably_def Let_def)
  qed
qed

section \<open>Durable execution and plain execution\<close>

text \<open>The executor and the checkpoint on their own halves of a product.\<close>

definition on_executor :: "'x mutation_execute \<Rightarrow> ('x \<times> 'c) mutation_execute" where
  "on_executor ex = (\<lambda>(e, c) a. case ex e a of (r, e') \<Rightarrow> (r, e', c))"

definition on_executor_rollback :: "'x mutation_rollback \<Rightarrow> ('x \<times> 'c) mutation_rollback" where
  "on_executor_rollback rb = (\<lambda>(e, c) a r. case rb e a r of (x, e') \<Rightarrow> (x, e', c))"

definition on_checkpoint :: "'c journal_checkpoint \<Rightarrow> ('x \<times> 'c) journal_checkpoint" where
  "on_checkpoint cp = (\<lambda>(e, c) j. case cp c j of (x, c') \<Rightarrow> (x, e, c'))"

lemma on_apply [simp]:
  "ex e a = (x, e') \<Longrightarrow> on_executor ex (e, c) a = (x, e', c)"
  "rb e a r = (x, e') \<Longrightarrow> on_executor_rollback rb (e, c) a r = (x, e', c)"
  by (simp_all add: on_executor_def on_executor_rollback_def)

lemma persist_always:
  assumes "\<forall>c j. is_ok (fst (cp c j))"
  shows "\<exists>c'. persist_checkpoint (on_checkpoint cp) j d phase idx (e, c) = (Inr (), Some j, e, c')"
proof -
  obtain x c' where "cp c j = (x, c')" by force
  moreover have "is_ok x" using assms calculation by (metis fst_conv)
  ultimately show ?thesis by (auto simp: persist_checkpoint_def on_checkpoint_def is_ok_iff)
qed

lemma rolled_back_again [simp]:
  assumes "i < length (ej_records j)"
  shows "rolled_back_journal (set_outcome j i oc) i x = rolled_back_journal j i x"
  using assms by (simp add: rolled_back_journal_def set_outcome_def split: sum.splits)

lemma failed_again [simp]:
  assumes "i < length (ej_records j)"
  shows "failed_journal (set_record j i oc m) i f = failed_journal j i f"
  using assms by (simp add: failed_journal_def)

lemma rollback_durably_plain:
  assumes "\<forall>c j. is_ok (fst (cp c j))" and "\<forall>(i, r) \<in> set cs. i < length (ej_records j)"
  shows "\<exists>c'. rollback_completed_durably (on_executor_rollback rb) (on_checkpoint cp) cs j d (e, c) =
    (Inr (fst (rollback_completed rb cs j e)), snd (rollback_completed rb cs j e), c')"
  using assms(2)
proof (induction cs arbitrary: j d e c)
  case (Cons ir cs)
  obtain i r where ir: "ir = (i, r)" by force
  have i: "i < length (ej_records j)" using Cons.prems ir by simp
  obtain x e' where rb: "rb e (record_action j i) r = (x, e')" by force
  have len: "length (ej_records (rolled_back_journal j i x)) = length (ej_records j)"
    using rolled_back_journal_actions [of j i x] by (metis length_map)
  obtain c1 where "persist_checkpoint (on_checkpoint cp) (set_outcome j i RollbackInProgress) d
      BeforeRollback (Some i) (e, c) = (Inr (), Some (set_outcome j i RollbackInProgress), e, c1)"
    by atomize_elim (rule persist_always [OF assms(1)])
  moreover obtain c2 where "persist_checkpoint (on_checkpoint cp) (rolled_back_journal j i x)
      (Some (set_outcome j i RollbackInProgress)) AfterRollback (Some i) (e', c1)
      = (Inr (), Some (rolled_back_journal j i x), e', c2)"
    by atomize_elim (rule persist_always [OF assms(1)])
  ultimately show ?case
    using Cons.IH [of "rolled_back_journal j i x" "Some (rolled_back_journal j i x)" e' c2]
      Cons.IH [of j d e c] Cons.prems ir rb i len by (simp add: Let_def)
qed simp

lemma execute_durably_plain:
  assumes "\<forall>c j. is_ok (fst (cp c j))"
    and "\<forall>i \<in> set is. i < length (ej_records j)" and "\<forall>(i, r) \<in> set cs. i < length (ej_records j)"
  shows "\<exists>c'. execute_loop_durably (on_executor ex) (on_executor_rollback rb) (on_checkpoint cp) is j cs d (e, c) =
    (Inr (fst (execute_loop ex rb is j cs e)), snd (execute_loop ex rb is j cs e), c')"
  using assms(2,3)
proof (induction "is" arbitrary: j cs d e c)
  case (Cons i "is")
  have i: "i < length (ej_records j)" using Cons.prems by simp
  obtain x e' where ex: "ex e (record_action j i) = (x, e')" by force
  let ?j1 = "set_record j i Executing None"
  let ?j2 = "case x of Inr r \<Rightarrow> set_record ?j1 i Completed (Some (receipt_summary r)) | Inl f \<Rightarrow> failed_journal ?j1 i f"
  obtain c1 where p1: "persist_checkpoint (on_checkpoint cp) ?j1 d BeforeExecute (Some i) (e, c) = (Inr (), Some ?j1, e, c1)"
    by atomize_elim (rule persist_always [OF assms(1)])
  obtain c2 where p2: "persist_checkpoint (on_checkpoint cp) ?j2 (Some ?j1) AfterExecute (Some i) (e', c1) = (Inr (), Some ?j2, e', c2)"
    by atomize_elim (rule persist_always [OF assms(1)])
  show ?case
  proof (cases x)
    case (Inl f)
    then show ?thesis
      using p1 p2 ex i Cons.prems rollback_durably_plain [OF assms(1), of "rev cs" ?j2 rb "Some ?j2" e' c2]
      by (simp add: Let_def)
  next
    case (Inr r)
    then show ?thesis
      using p1 p2 ex i Cons.prems Cons.IH [of ?j2 "cs @ [(i, r)]" "Some ?j2" e' c2]
      by (simp add: Let_def)
  qed
qed simp

section \<open>Properties\<close>

text \<open>
  C1. Write-ahead discipline of durable execution, for every executor, every checkpoint and every
  world they act on: the first event is a checkpoint; an action is executed only immediately after
  a successful checkpoint that shows it executing with all earlier actions completed; a rollback
  only immediately after one that shows it in progress; the event after each is the checkpoint of
  its outcome; nothing at all follows a failed checkpoint. A returned journal is the last
  snapshot made durable; a checkpoint error names the snapshot that failed and the last durable
  one before it; an invalid plan causes no event.
\<close>
theorem durable_write_ahead:
  assumes "durable_run ex rb cp acts allow w = (x, w', l)"
  shows "write_ahead l \<and>
    (case x of
       Inr j \<Rightarrow> last_snapshot l = Some j
     | Inl (PlanError ps) \<Rightarrow> l = []
     | Inl (CheckpointError e) \<Rightarrow>
         (\<exists>l0. l = l0 @ [EvCheckpoint (dce_attempted e) (Inl (dce_failure e))] \<and>
            dce_last_durable e = last_snapshot l0))"
proof -
  have "settled_result any_text acts x l"
    by (rule durable_settles [OF assms]) (auto simp: answer_text_def any_text_def split: sum.splits)
  then show ?thesis
    by (auto simp: settled_result_def good_log_def split: sum.splits durable_execution_error.splits)
qed

definition example_mutation :: planned_mutation where
  "example_mutation =
     \<lparr>pm_id = ''create-user'', pm_lane = Root, pm_summary = ''create the runner user'',
      pm_rollback = Reversible, pm_preconditions = \<lparr>pc_evidence = [''user is absent'']\<rparr>\<rparr>"

theorem durable_write_ahead_witness:
  "write_ahead (snd (snd (durable_run (\<lambda>w a. (Inr (ActionReceipt ''done''), Suc w)) (\<lambda>w a r. (Inr r, w))
     (\<lambda>w j. (Inr (), w)) [example_mutation] False 0)))"
proof -
  obtain x w' l where "durable_run (\<lambda>w a. (Inr (ActionReceipt ''done''), Suc w)) (\<lambda>w a r. (Inr r, w))
     (\<lambda>w j. (Inr (), w)) [example_mutation] False 0 = (x, w', l)" by (metis prod_cases3)
  from durable_write_ahead [OF this] this show ?thesis by simp
qed



text \<open>
  C29. Durable execution does what plain execution does. With the executor and the checkpoint on
  separate states and every checkpoint succeeding, it makes the same executor calls, leaves the
  executor in the same state and returns the same journal, or the same plan problems.
\<close>
theorem durable_equals_plain:
  assumes "\<forall>c j. is_ok (fst (cp c j))"
  shows "\<exists>c'. execute_plan_durably (on_executor ex) (on_executor_rollback rb) (on_checkpoint cp) acts allow (e, c) =
    (map_err PlanError (fst (execute_plan ex rb acts allow e)), snd (execute_plan ex rb acts allow e), c')"
proof (cases "validate_plan acts")
  case (Inl ps)
  then show ?thesis by (simp add: execute_plan_durably_def execute_plan_def)
next
  case (Inr u)
  let ?j = "pending_journal acts"
  show ?thesis
  proof (cases "first_unconfirmed_irreversible ?j allow")
    case (Some i)
    then show ?thesis
      using Inr persist_always [OF assms, of "skipped_journal ?j i" None Initial "Some i" e c]
      by (auto simp: execute_plan_durably_def execute_plan_def Let_def)
  next
    case None
    obtain c1 where "persist_checkpoint (on_checkpoint cp) ?j None Initial None (e, c) = (Inr (), Some ?j, e, c1)"
      by atomize_elim (rule persist_always [OF assms])
    moreover obtain c2 where "execute_loop_durably (on_executor ex) (on_executor_rollback rb) (on_checkpoint cp)
        [0..<length acts] ?j [] (Some ?j) (e, c1) =
        (Inr (fst (execute_loop ex rb [0..<length acts] ?j [] e)), snd (execute_loop ex rb [0..<length acts] ?j [] e), c2)"
      by atomize_elim (rule execute_durably_plain [OF assms], simp_all)
    ultimately show ?thesis
      using Inr None by (simp add: execute_plan_durably_def execute_plan_def Let_def split: prod.split)
  qed
qed

theorem durable_equals_plain_witness:
  "\<exists>c'. execute_plan_durably (on_executor (\<lambda>w a. (Inr (ActionReceipt ''done''), Suc w)))
      (on_executor_rollback (\<lambda>w a r. (Inr r, w))) (on_checkpoint (\<lambda>c j. (Inr (), c @ [j])))
      [example_mutation] False (0, []) =
    (map_err PlanError (fst (execute_plan (\<lambda>w a. (Inr (ActionReceipt ''done''), Suc w)) (\<lambda>w a r. (Inr r, w))
       [example_mutation] False 0)),
     snd (execute_plan (\<lambda>w a. (Inr (ActionReceipt ''done''), Suc w)) (\<lambda>w a r. (Inr r, w))
       [example_mutation] False 0), c')"
  by (rule durable_equals_plain) simp

end
