(* ===== verification/Capacity.thy ===== *)
theory Capacity
  imports Identity "HOL-Library.Multiset"
begin

text \<open>
  Resource ownership and fail-closed capacity arithmetic, \<open>src/execution_capacity.rs\<close>: domains
  with an exact set of tracked dimensions, claims against them, and the admission of one more
  claim. Amounts are \<open>u64\<close> words; a \<open>BTreeMap\<close> is a map. The two \<open>expect\<close> calls are a branch
  of the model and are shown not to be taken.
\<close>

section \<open>Dimensions\<close>

datatype capacity_dimension = CpuMillis | MemoryBytes | DiskBytes | Pids

text \<open>The derived \<open>Ord\<close>: the order of declaration.\<close>

fun dimension_rank :: "capacity_dimension \<Rightarrow> nat" where
  "dimension_rank CpuMillis = 0"
| "dimension_rank MemoryBytes = 1"
| "dimension_rank DiskBytes = 2"
| "dimension_rank Pids = 3"

lemma dimension_rank_inject [simp]: "dimension_rank a = dimension_rank b \<longleftrightarrow> a = b"
  by (cases a; cases b) auto

instantiation capacity_dimension :: linorder
begin

definition less_eq_capacity_dimension :: "capacity_dimension \<Rightarrow> capacity_dimension \<Rightarrow> bool" where
  "less_eq_capacity_dimension a b \<longleftrightarrow> dimension_rank a \<le> dimension_rank b"

definition less_capacity_dimension :: "capacity_dimension \<Rightarrow> capacity_dimension \<Rightarrow> bool" where
  "less_capacity_dimension a b \<longleftrightarrow> dimension_rank a < dimension_rank b"

instance
  by standard (auto simp: less_eq_capacity_dimension_def less_capacity_dimension_def)

end

datatype execution_capacity_error =
    InvalidCapacityDomainId
  | InvalidCapacityClaimId
  | InvalidCapacityDimensionSet
  | DuplicateCapacityDimension
  | InvalidCapacityDomainGeneration
  | CapacityDimensionSetMismatch
  | NestedChildDomainUnsupported
  | ParentClaimDomainMismatch
  | ParentClaimExceedsDomain
  | ParentClaimMissingBinding
  | ChildDomainAliasesParent
  | ChildDimensionSetNotSubset
  | ChildBudgetExceedsParent

datatype capacity_domain_id = CapacityDomainId string
datatype capacity_claim_id = CapacityClaimId string
datatype capacity_dimension_set = CapacityDimensionSet (dimensions: "capacity_dimension list")

definition MAX_CAPACITY_DIMENSIONS :: nat where "MAX_CAPACITY_DIMENSIONS = 4"
definition MAX_CAPACITY_ID_BYTES :: nat where "MAX_CAPACITY_ID_BYTES = 96"
definition MAX_CAPACITY_DOMAIN_GENERATION :: "64 word" where
  "MAX_CAPACITY_DOMAIN_GENERATION = 1000000000000"
definition EXECUTION_CAPACITY_SCHEMA_VERSION :: "8 word" where
  "EXECUTION_CAPACITY_SCHEMA_VERSION = 1"

definition validate_opaque_identity ::
  "execution_capacity_error \<Rightarrow> string \<Rightarrow> string \<Rightarrow> execution_capacity_error + unit" where
  "validate_opaque_identity code v prefix =
     (case strip_prefix prefix v of
        None \<Rightarrow> Inl code
      | Some payload \<Rightarrow>
          if MAX_CAPACITY_ID_BYTES < length v \<or> length payload \<noteq> 64
             \<or> \<not> list_all (\<lambda>b. is_ascii_digit b \<or> (97 \<le> byte b \<and> byte b \<le> 102)) payload
          then Inl code else Inr ())"

definition capacity_domain_id_parse :: "string \<Rightarrow> execution_capacity_error + capacity_domain_id" where
  "capacity_domain_id_parse v =
     try_res (validate_opaque_identity InvalidCapacityDomainId v ''capacity-domain-v1-'')
       (\<lambda>_. Inr (CapacityDomainId v))"

definition capacity_claim_id_parse :: "string \<Rightarrow> execution_capacity_error + capacity_claim_id" where
  "capacity_claim_id_parse v =
     try_res (validate_opaque_identity InvalidCapacityClaimId v ''capacity-claim-v1-'')
       (\<lambda>_. Inr (CapacityClaimId v))"

fun adjacent_equal :: "'a list \<Rightarrow> bool" where
  "adjacent_equal (x # y # zs) \<longleftrightarrow> x = y \<or> adjacent_equal (y # zs)"
| "adjacent_equal _ \<longleftrightarrow> False"

definition dimension_set_new ::
  "capacity_dimension list \<Rightarrow> execution_capacity_error + capacity_dimension_set" where
  "dimension_set_new ds =
     (if ds = [] \<or> MAX_CAPACITY_DIMENSIONS < length ds then Inl InvalidCapacityDimensionSet
      else
        let canonical = sort ds
        in if adjacent_equal canonical then Inl DuplicateCapacityDimension
           else Inr (CapacityDimensionSet canonical))"

text \<open>\<open>slice::binary_search\<close> on the canonical vector, between two indices.\<close>

function binary_search :: "'a::linorder list \<Rightarrow> 'a \<Rightarrow> nat \<Rightarrow> nat \<Rightarrow> bool" where
  "binary_search xs x lo hi =
     (if hi \<le> lo then False
      else
        let mid = lo + (hi - lo) div 2
        in if xs ! mid = x then True
           else if xs ! mid < x then binary_search xs x (mid + 1) hi
           else binary_search xs x lo mid)"
  by pat_completeness auto
termination by (relation "measure (\<lambda>(xs, x, lo, hi). hi - lo)") auto

declare binary_search.simps [simp del]

definition set_contains :: "capacity_dimension_set \<Rightarrow> capacity_dimension \<Rightarrow> bool" where
  "set_contains s d = binary_search (dimensions s) d 0 (length (dimensions s))"

definition is_subset_of :: "capacity_dimension_set \<Rightarrow> capacity_dimension_set \<Rightarrow> bool" where
  "is_subset_of s parent = list_all (set_contains parent) (dimensions s)"

section \<open>Amounts\<close>

record capacity_amounts =
  ca_tracked :: capacity_dimension_set
  ca_amounts :: "capacity_dimension \<rightharpoonup> 64 word"

abbreviation tracked_list :: "capacity_amounts \<Rightarrow> capacity_dimension list" where
  "tracked_list a \<equiv> dimensions (ca_tracked a)"

text \<open>Collecting pairs into a \<open>BTreeMap\<close>: a later pair replaces an earlier one.\<close>

definition capacity_amounts_new ::
  "(capacity_dimension \<times> 64 word) list \<Rightarrow> execution_capacity_error + capacity_amounts" where
  "capacity_amounts_new entries =
     try_res (dimension_set_new (map fst entries)) (\<lambda>tracked.
     Inr \<lparr>ca_tracked = tracked, ca_amounts = map_of (rev entries)\<rparr>)"

definition amount :: "capacity_amounts \<Rightarrow> capacity_dimension \<Rightarrow> 64 word option" where
  "amount a d = ca_amounts a d"

definition zeroed :: "capacity_dimension_set \<Rightarrow> capacity_amounts" where
  "zeroed tracked =
     \<lparr>ca_tracked = tracked, ca_amounts = map_of (rev (map (\<lambda>d. (d, 0)) (dimensions tracked)))\<rparr>"

fun amounts_add_loop ::
  "capacity_amounts \<Rightarrow> capacity_amounts \<Rightarrow> capacity_dimension list \<Rightarrow> capacity_amounts \<Rightarrow> capacity_amounts option" where
  "amounts_add_loop self other [] next' = Some next'"
| "amounts_add_loop self other (d # ds) next' =
     (case amount self d of
        None \<Rightarrow> None
      | Some a \<Rightarrow>
          (case amount other d of
             None \<Rightarrow> None
           | Some b \<Rightarrow>
               (case checked_add a b of
                  None \<Rightarrow> None
                | Some s \<Rightarrow>
                    amounts_add_loop self other ds
                      (next'\<lparr>ca_amounts := (ca_amounts next')(d \<mapsto> s)\<rparr>))))"

definition amounts_checked_add :: "capacity_amounts \<Rightarrow> capacity_amounts \<Rightarrow> capacity_amounts option" where
  "amounts_checked_add self other =
     (if ca_tracked self \<noteq> ca_tracked other then None
      else amounts_add_loop self other (tracked_list self) (zeroed (ca_tracked self)))"

definition within_limit :: "capacity_amounts \<Rightarrow> capacity_amounts \<Rightarrow> capacity_dimension \<Rightarrow> bool" where
  "within_limit self limit d =
     (case (amount self d, amount limit d) of
        (Some used, Some maximum) \<Rightarrow> used \<le> maximum
      | _ \<Rightarrow> False)"

definition fits_within :: "capacity_amounts \<Rightarrow> capacity_amounts \<Rightarrow> bool" where
  "fits_within self limit \<longleftrightarrow>
     ca_tracked self = ca_tracked limit \<and> list_all (within_limit self limit) (tracked_list self)"

definition fits_within_parent :: "capacity_amounts \<Rightarrow> capacity_amounts \<Rightarrow> bool" where
  "fits_within_parent self parent \<longleftrightarrow>
     is_subset_of (ca_tracked self) (ca_tracked parent) \<and>
     list_all (within_limit self parent) (tracked_list self)"

text \<open>\<open>None\<close> where an \<open>expect\<close> would panic or the subtraction would underflow.\<close>

fun remaining_loop ::
  "capacity_amounts \<Rightarrow> capacity_amounts \<Rightarrow> capacity_dimension list \<Rightarrow> capacity_amounts \<Rightarrow> capacity_amounts option" where
  "remaining_loop self limit [] remaining = Some remaining"
| "remaining_loop self limit (d # ds) remaining =
     (case (amount limit d, amount self d) of
        (Some maximum, Some used) \<Rightarrow>
          if maximum < used then None
          else remaining_loop self limit ds
                 (remaining\<lparr>ca_amounts := (ca_amounts remaining)(d \<mapsto> maximum - used)\<rparr>)
      | _ \<Rightarrow> None)"

definition remaining_within :: "capacity_amounts \<Rightarrow> capacity_amounts \<Rightarrow> capacity_amounts option" where
  "remaining_within self limit =
     remaining_loop self limit (tracked_list self) (zeroed (ca_tracked self))"

section \<open>Domains and claims\<close>

datatype capacity_domain_generation = CapacityDomainGeneration "64 word"

definition capacity_domain_generation_new ::
  "64 word \<Rightarrow> execution_capacity_error + capacity_domain_generation" where
  "capacity_domain_generation_new v =
     (if \<not> (1 \<le> v \<and> v \<le> MAX_CAPACITY_DOMAIN_GENERATION) then Inl InvalidCapacityDomainGeneration
      else Inr (CapacityDomainGeneration v))"

record capacity_child_domain_binding =
  cb_domain_id :: capacity_domain_id
  cb_domain_generation :: capacity_domain_generation
  cb_budget :: capacity_amounts

record capacity_claim =
  cc_id :: capacity_claim_id
  cc_domain_id :: capacity_domain_id
  cc_domain_generation :: capacity_domain_generation
  cc_resources :: capacity_amounts
  cc_child_domain_binding :: "capacity_child_domain_binding option"

datatype capacity_domain_scope = RootScope | ChildScope capacity_claim

record capacity_domain =
  cd_id :: capacity_domain_id
  cd_generation :: capacity_domain_generation
  cd_budget :: capacity_amounts
  cd_scope :: capacity_domain_scope

definition validate_child_domain_binding ::
  "capacity_domain \<Rightarrow> capacity_amounts \<Rightarrow> capacity_child_domain_binding \<Rightarrow> execution_capacity_error + unit" where
  "validate_child_domain_binding parent_domain parent_resources binding =
     (if cd_scope parent_domain \<noteq> RootScope then Inl NestedChildDomainUnsupported
      else if \<not> fits_within parent_resources (cd_budget parent_domain) then Inl ParentClaimExceedsDomain
      else if cb_domain_id binding = cd_id parent_domain then Inl ChildDomainAliasesParent
      else if \<not> is_subset_of (ca_tracked (cb_budget binding)) (ca_tracked parent_resources)
        then Inl ChildDimensionSetNotSubset
      else if \<not> fits_within_parent (cb_budget binding) parent_resources then Inl ChildBudgetExceedsParent
      else Inr ())"

definition capacity_claim_new ::
  "capacity_claim_id \<Rightarrow> capacity_domain \<Rightarrow> capacity_amounts \<Rightarrow> capacity_child_domain_binding option \<Rightarrow>
   execution_capacity_error + capacity_claim" where
  "capacity_claim_new claim_id domain resources binding =
     (if ca_tracked resources \<noteq> ca_tracked (cd_budget domain) then Inl CapacityDimensionSetMismatch
      else
        try_res (case binding of
                   None \<Rightarrow> Inr ()
                 | Some b \<Rightarrow> validate_child_domain_binding domain resources b) (\<lambda>_.
        Inr \<lparr>cc_id = claim_id, cc_domain_id = cd_id domain, cc_domain_generation = cd_generation domain,
             cc_resources = resources, cc_child_domain_binding = binding\<rparr>))"

definition claim_for_domain ::
  "capacity_claim_id \<Rightarrow> capacity_domain \<Rightarrow> capacity_amounts \<Rightarrow> execution_capacity_error + capacity_claim" where
  "claim_for_domain claim_id domain resources = capacity_claim_new claim_id domain resources None"

definition claim_for_domain_with_child ::
  "capacity_claim_id \<Rightarrow> capacity_domain \<Rightarrow> capacity_amounts \<Rightarrow> capacity_domain_id \<Rightarrow>
   capacity_domain_generation \<Rightarrow> capacity_amounts \<Rightarrow> execution_capacity_error + capacity_claim" where
  "claim_for_domain_with_child claim_id domain resources child_id child_generation child_budget =
     capacity_claim_new claim_id domain resources
       (Some \<lparr>cb_domain_id = child_id, cb_domain_generation = child_generation, cb_budget = child_budget\<rparr>)"

definition capacity_domain_root ::
  "capacity_domain_id \<Rightarrow> capacity_domain_generation \<Rightarrow> capacity_amounts \<Rightarrow> capacity_domain" where
  "capacity_domain_root domain_id generation budget =
     \<lparr>cd_id = domain_id, cd_generation = generation, cd_budget = budget, cd_scope = RootScope\<rparr>"

definition capacity_domain_child ::
  "capacity_domain \<Rightarrow> capacity_claim \<Rightarrow> execution_capacity_error + capacity_domain" where
  "capacity_domain_child parent_domain parent_claim =
     (if cd_scope parent_domain \<noteq> RootScope then Inl NestedChildDomainUnsupported
      else if cc_domain_id parent_claim \<noteq> cd_id parent_domain
           \<or> cc_domain_generation parent_claim \<noteq> cd_generation parent_domain
           \<or> ca_tracked (cc_resources parent_claim) \<noteq> ca_tracked (cd_budget parent_domain)
        then Inl ParentClaimDomainMismatch
      else if \<not> fits_within (cc_resources parent_claim) (cd_budget parent_domain)
        then Inl ParentClaimExceedsDomain
      else
        try_res (ok_or (cc_child_domain_binding parent_claim) ParentClaimMissingBinding) (\<lambda>binding.
        try_res (validate_child_domain_binding parent_domain (cc_resources parent_claim) binding) (\<lambda>_.
        Inr \<lparr>cd_id = cb_domain_id binding, cd_generation = cb_domain_generation binding,
             cd_budget = cb_budget binding, cd_scope = ChildScope parent_claim\<rparr>)))"

section \<open>Admission\<close>

datatype capacity_refusal_reason =
    ForeignDomain | StaleGeneration | DimensionSetMismatch | DuplicateClaimIdentity
  | ArithmeticOverflow | InsufficientResources

datatype capacity_admission_decision =
    Accepted "8 word" capacity_amounts capacity_amounts
  | Refused "8 word" capacity_refusal_reason
  | AdmissionPanic

definition capacity_refused :: "capacity_refusal_reason \<Rightarrow> capacity_admission_decision" where
  "capacity_refused reason = Refused EXECUTION_CAPACITY_SCHEMA_VERSION reason"

definition claims_with_candidate :: "capacity_claim list \<Rightarrow> capacity_claim \<Rightarrow> capacity_claim list" where
  "claims_with_candidate existing candidate = existing @ [candidate]"

definition admit_capacity_claim ::
  "capacity_domain \<Rightarrow> capacity_claim list \<Rightarrow> capacity_claim \<Rightarrow> capacity_admission_decision" where
  "admit_capacity_claim domain existing candidate =
     (let claims = claims_with_candidate existing candidate
      in if list_ex (\<lambda>c. cc_domain_id c \<noteq> cd_id domain) claims then capacity_refused ForeignDomain
         else if list_ex (\<lambda>c. cc_domain_generation c \<noteq> cd_generation domain) claims
           then capacity_refused StaleGeneration
         else if list_ex (\<lambda>c. ca_tracked (cc_resources c) \<noteq> ca_tracked (cd_budget domain)) claims
           then capacity_refused DimensionSetMismatch
         else if \<not> insert_all {} (map cc_id claims) then capacity_refused DuplicateClaimIdentity
         else
           (case try_fold (\<lambda>acc c. amounts_checked_add acc (cc_resources c))
                   (zeroed (ca_tracked (cd_budget domain))) claims of
              None \<Rightarrow> capacity_refused ArithmeticOverflow
            | Some total_claimed \<Rightarrow>
                if \<not> fits_within total_claimed (cd_budget domain) then capacity_refused InsufficientResources
                else
                  (case remaining_within total_claimed (cd_budget domain) of
                     None \<Rightarrow> AdmissionPanic
                   | Some remaining \<Rightarrow> Accepted EXECUTION_CAPACITY_SCHEMA_VERSION total_claimed remaining)))"

section \<open>Well-formed amounts\<close>

definition dimension_set_ok :: "capacity_dimension_set \<Rightarrow> bool" where
  "dimension_set_ok s \<longleftrightarrow> dimensions s \<noteq> [] \<and> sorted (dimensions s) \<and> distinct (dimensions s)"

text \<open>What the constructor guarantees: a canonical dimension set, and amounts for exactly its
  members.\<close>

definition amounts_ok :: "capacity_amounts \<Rightarrow> bool" where
  "amounts_ok a \<longleftrightarrow> dimension_set_ok (ca_tracked a) \<and> dom (ca_amounts a) = set (tracked_list a)"

definition units :: "capacity_amounts \<Rightarrow> capacity_dimension \<Rightarrow> nat" where
  "units a d = (case ca_amounts a d of None \<Rightarrow> 0 | Some v \<Rightarrow> unat v)"

definition claimed :: "capacity_claim list \<Rightarrow> capacity_dimension \<Rightarrow> nat" where
  "claimed cs d = sum_list (map (\<lambda>c. units (cc_resources c) d) cs)"

text \<open>The admission decision in unbounded arithmetic, as a function of the claims as a whole.\<close>

definition amounts_of :: "capacity_dimension_set \<Rightarrow> (capacity_dimension \<Rightarrow> nat) \<Rightarrow> capacity_amounts" where
  "amounts_of s f =
     \<lparr>ca_tracked = s, ca_amounts = (\<lambda>d. if d \<in> set (dimensions s) then Some (of_nat (f d)) else None)\<rparr>"

definition admission_spec :: "capacity_domain \<Rightarrow> capacity_claim list \<Rightarrow> capacity_admission_decision" where
  "admission_spec domain cs =
     (let budget = cd_budget domain; ds = tracked_list budget
      in if \<exists>c \<in> set cs. cc_domain_id c \<noteq> cd_id domain then Refused 1 ForeignDomain
         else if \<exists>c \<in> set cs. cc_domain_generation c \<noteq> cd_generation domain then Refused 1 StaleGeneration
         else if \<exists>c \<in> set cs. ca_tracked (cc_resources c) \<noteq> ca_tracked budget
           then Refused 1 DimensionSetMismatch
         else if \<not> distinct (map cc_id cs) then Refused 1 DuplicateClaimIdentity
         else if \<exists>d \<in> set ds. 2 ^ 64 \<le> claimed cs d then Refused 1 ArithmeticOverflow
         else if \<exists>d \<in> set ds. units budget d < claimed cs d then Refused 1 InsufficientResources
         else Accepted 1 (amounts_of (ca_tracked budget) (claimed cs))
                (amounts_of (ca_tracked budget) (\<lambda>d. units budget d - claimed cs d)))"

section \<open>Lemmas\<close>

lemma adjacent_equal_sorted: "sorted xs \<Longrightarrow> adjacent_equal xs \<longleftrightarrow> \<not> distinct xs"
  by (induction xs rule: adjacent_equal.induct) auto

lemma dimension_set_new_ok:
  "dimension_set_new ds = Inr s \<longleftrightarrow>
     ds \<noteq> [] \<and> length ds \<le> 4 \<and> distinct ds \<and> s = CapacityDimensionSet (sort ds)"
  by (auto simp: dimension_set_new_def Let_def adjacent_equal_sorted MAX_CAPACITY_DIMENSIONS_def)

lemma binary_search_range:
  assumes "sorted xs" and "hi \<le> length xs"
  shows "binary_search xs x lo hi \<longleftrightarrow> (\<exists>k. lo \<le> k \<and> k < hi \<and> xs ! k = x)"
  using assms
proof (induction xs x lo hi rule: binary_search.induct)
  case (1 xs x lo hi)
  let ?mid = "lo + (hi - lo) div 2"
  show ?case
  proof (cases "hi \<le> lo")
    case True
    then show ?thesis by (simp add: binary_search.simps)
  next
    case False
    then have mid: "lo \<le> ?mid" "?mid < hi" by linarith+
    have mono: "xs ! k \<le> xs ! m" if "k \<le> m" "m < hi" for k m
      using that "1.prems" by (intro sorted_nth_mono) auto
    consider "xs ! ?mid = x" | "xs ! ?mid < x" | "x < xs ! ?mid" by fastforce
    then show ?thesis
    proof cases
      case 1
      then have "\<exists>k. lo \<le> k \<and> k < hi \<and> xs ! k = x" using mid by blast
      then show ?thesis using 1 False by (subst binary_search.simps) (simp add: Let_def)
    next
      case 2
      have above: "?mid + 1 \<le> k" if "k < hi" "xs ! k = x" for k
      proof (rule ccontr)
        assume "\<not> ?mid + 1 \<le> k"
        then have "xs ! k \<le> xs ! ?mid" using mono [of k ?mid] mid(2) by simp
        then show False using 2 that(2) by simp
      qed
      have "?mid + 1 \<le> k \<Longrightarrow> lo \<le> k" for k using mid(1) by linarith
      then have "(\<exists>k. ?mid + 1 \<le> k \<and> k < hi \<and> xs ! k = x) \<longleftrightarrow> (\<exists>k. lo \<le> k \<and> k < hi \<and> xs ! k = x)"
        using above by blast
      moreover have "binary_search xs x lo hi = binary_search xs x (?mid + 1) hi"
        using 2 False less_imp_neq [OF 2] by (simp only: binary_search.simps [of xs x lo hi] Let_def if_True if_False)
      ultimately show ?thesis using 2 False "1.IH"(1) [OF False refl] "1.prems" by simp
    next
      case 3
      have below: "k < ?mid" if "k < hi" "xs ! k = x" for k
      proof (rule ccontr)
        assume "\<not> k < ?mid"
        then have "xs ! ?mid \<le> xs ! k" using mono [of ?mid k] that(1) by simp
        then show False using 3 that(2) by simp
      qed
      have "k < ?mid \<Longrightarrow> k < hi" for k using mid(2) by linarith
      then have "(\<exists>k. lo \<le> k \<and> k < ?mid \<and> xs ! k = x) \<longleftrightarrow> (\<exists>k. lo \<le> k \<and> k < hi \<and> xs ! k = x)"
        using below by blast
      moreover have "binary_search xs x lo hi = binary_search xs x lo ?mid"
        using 3 False less_imp_neq [OF 3, symmetric] not_less_iff_gr_or_eq [of "xs ! ?mid" x]
        by (simp only: binary_search.simps [of xs x lo hi] Let_def if_True if_False simp_thms)
      ultimately show ?thesis using 3 False "1.IH"(2) [OF False refl] "1.prems" mid by simp
    qed
  qed
qed

lemma set_contains_iff:
  "dimension_set_ok s \<Longrightarrow> set_contains s d \<longleftrightarrow> d \<in> set (dimensions s)"
  by (auto simp: set_contains_def dimension_set_ok_def binary_search_range in_set_conv_nth)

lemma is_subset_of_iff:
  "dimension_set_ok parent \<Longrightarrow> is_subset_of s parent \<longleftrightarrow> set (dimensions s) \<subseteq> set (dimensions parent)"
  by (auto simp: is_subset_of_def set_contains_iff list_all_iff)

lemma amounts_new_ok:
  assumes "capacity_amounts_new entries = Inr a"
  shows "amounts_ok a"
proof -
  have a: "a = \<lparr>ca_tracked = CapacityDimensionSet (sort (map fst entries)), ca_amounts = map_of (rev entries)\<rparr>"
    and "entries \<noteq> []" "distinct (map fst entries)"
    using assms by (auto simp: capacity_amounts_new_def dimension_set_new_ok)
  moreover from this have "sort (map fst entries) \<noteq> []"
    by (metis length_0_conv length_map length_sort)
  moreover have "dom (map_of (rev entries)) = fst ` set entries"
    by (simp add: dom_map_of_conv_image_fst)
  ultimately show ?thesis by (simp add: amounts_ok_def dimension_set_ok_def)
qed

lemma amounts_of_simps [simp]:
  "ca_tracked (amounts_of s f) = s"
  "ca_amounts (amounts_of s f) d = (if d \<in> set (dimensions s) then Some (of_nat (f d)) else None)"
  by (simp_all add: amounts_of_def)

lemma zeroed_amounts_of: "zeroed s = amounts_of s (\<lambda>d. 0)"
  by (auto simp: zeroed_def amounts_of_def fun_eq_iff rev_map map_of_map_restrict restrict_map_def)

lemma amounts_eq_iff:
  fixes a b :: capacity_amounts
  shows "a = b \<longleftrightarrow> ca_tracked a = ca_tracked b \<and> (\<forall>d. ca_amounts a d = ca_amounts b d)"
  by (cases a; cases b) (auto simp: fun_eq_iff)

lemma amounts_ok_of: "amounts_ok a \<Longrightarrow> a = amounts_of (ca_tracked a) (units a)"
  by (auto simp: amounts_eq_iff amounts_ok_def units_def split: option.splits)

lemma units_of [simp]:
  "f d < 2 ^ 64 \<Longrightarrow> units (amounts_of s f) d = (if d \<in> set (dimensions s) then f d else 0)"
  by (simp add: units_def unat_of_nat_small)

lemma units_bound: "units a d < 2 ^ 64"
  using unsigned_less [where 'a = nat and 'b = 64] by (auto simp: units_def split: option.splits)

text \<open>The addition loop adds every dimension or fails at the first that overflows.\<close>

lemma add_loop_spec:
  assumes "\<forall>d \<in> set ds. ca_amounts a d = Some (of_nat (f d)) \<and> ca_amounts b d = Some (of_nat (g d))"
    and "\<forall>d \<in> set ds. f d < 2 ^ 64 \<and> g d < 2 ^ 64"
  shows "amounts_add_loop a b ds acc =
    (if \<forall>d \<in> set ds. f d + g d < 2 ^ 64
     then Some (acc\<lparr>ca_amounts := (\<lambda>d. if d \<in> set ds then Some (of_nat (f d + g d)) else ca_amounts acc d)\<rparr>)
     else None)"
  using assms
proof (induction ds arbitrary: acc)
  case (Cons d ds)
  have "checked_add (of_nat (f d) :: 64 word) (of_nat (g d)) =
      (if f d + g d < 2 ^ 64 then Some (of_nat (f d + g d)) else None)"
    using Cons.prems(2) by (simp add: checked_add_def unat_of_nat_small)
  then show ?case
    using Cons by (auto simp: amount_def amounts_eq_iff)
qed (simp add: amounts_eq_iff)

lemma amounts_add_of:
  assumes "dimension_set_ok s" and "\<forall>d \<in> set (dimensions s). f d < 2 ^ 64 \<and> g d < 2 ^ 64"
  shows "amounts_checked_add (amounts_of s f) (amounts_of s g) =
    (if \<forall>d \<in> set (dimensions s). f d + g d < 2 ^ 64 then Some (amounts_of s (\<lambda>d. f d + g d)) else None)"
  using assms
  by (auto simp: amounts_checked_add_def add_loop_spec [where f = f and g = g] zeroed_amounts_of amounts_eq_iff)

text \<open>The running total: defined as long as no dimension overflows.\<close>

lemma total_spec:
  assumes "dimension_set_ok s" and "\<forall>c \<in> set cs. amounts_ok (cc_resources c) \<and> ca_tracked (cc_resources c) = s"
    and "\<forall>d \<in> set (dimensions s). f d < 2 ^ 64"
  shows "try_fold (\<lambda>acc c. amounts_checked_add acc (cc_resources c)) (amounts_of s f) cs =
    (if \<forall>d \<in> set (dimensions s). f d + claimed cs d < 2 ^ 64
     then Some (amounts_of s (\<lambda>d. f d + claimed cs d)) else None)"
  using assms(2,3)
proof (induction cs arbitrary: f)
  case Nil
  then show ?case by (simp add: claimed_def)
next
  case (Cons c cs)
  have c: "cc_resources c = amounts_of s (units (cc_resources c))"
    using Cons.prems(1) amounts_ok_of by fastforce
  have claimed: "claimed (c # cs) d = units (cc_resources c) d + claimed cs d" for d
    by (simp add: claimed_def)
  have add: "amounts_checked_add (amounts_of s f) (cc_resources c) =
      (if \<forall>d \<in> set (dimensions s). f d + units (cc_resources c) d < 2 ^ 64
       then Some (amounts_of s (\<lambda>d. f d + units (cc_resources c) d)) else None)"
    using amounts_add_of [OF assms(1), of f "units (cc_resources c)"] c Cons.prems(2) units_bound by simp
  show ?case
  proof (cases "\<forall>d \<in> set (dimensions s). f d + units (cc_resources c) d < 2 ^ 64")
    case True
    then show ?thesis
      using add Cons.IH [of "\<lambda>d. f d + units (cc_resources c) d"] Cons.prems(1)
      by (simp add: claimed add.assoc)
  next
    case False
    then have none: "amounts_checked_add (amounts_of s f) (cc_resources c) = None"
      using add by (simp only: if_False)
    from False have "\<not> (\<forall>d \<in> set (dimensions s). f d + claimed (c # cs) d < 2 ^ 64)"
      unfolding claimed by (metis add.assoc le_add1 order_le_less_trans)
    then show ?thesis using none by (simp only: try_fold.simps option.case if_False)
  qed
qed

lemma fits_of:
  assumes "amounts_ok b" and "ca_tracked b = s" and "\<forall>d \<in> set (dimensions s). f d < 2 ^ 64"
  shows "fits_within (amounts_of s f) b \<longleftrightarrow> (\<forall>d \<in> set (dimensions s). f d \<le> units b d)"
proof -
  have "within_limit (amounts_of s f) b d \<longleftrightarrow> f d \<le> units b d" if "d \<in> set (dimensions s)" for d
  proof -
    have "d \<in> dom (ca_amounts b)" using assms(1,2) that by (simp add: amounts_ok_def)
    then obtain v where "ca_amounts b d = Some v" by blast
    then show ?thesis using that assms(3)
      by (simp add: within_limit_def amount_def units_def word_le_nat_alt unat_of_nat_small)
  qed
  then show ?thesis using assms(2) by (auto simp: fits_within_def list_all_iff)
qed

lemma remaining_loop_spec:
  assumes "\<forall>d \<in> set ds. ca_amounts a d = Some (of_nat (f d)) \<and> ca_amounts b d = Some (of_nat (g d))"
    and "\<forall>d \<in> set ds. f d \<le> g d \<and> g d < 2 ^ 64"
  shows "remaining_loop a b ds acc =
    Some (acc\<lparr>ca_amounts := (\<lambda>d. if d \<in> set ds then Some (of_nat (g d - f d)) else ca_amounts acc d)\<rparr>)"
  using assms
proof (induction ds arbitrary: acc)
  case (Cons d ds)
  have le: "f d \<le> g d" "g d < 2 ^ 64" "f d < 2 ^ 64" using Cons.prems(2) by auto
  then have "\<not> (of_nat (g d) :: 64 word) < of_nat (f d)"
    by (simp add: word_less_nat_alt unat_of_nat_small)
  moreover have "(of_nat (g d) :: 64 word) - of_nat (f d) = of_nat (g d - f d)"
    using le by (simp add: of_nat_diff)
  ultimately show ?case
    using Cons by (auto simp: amount_def amounts_eq_iff)
qed (simp add: amounts_eq_iff)

lemma remaining_of:
  assumes "amounts_ok b" and "ca_tracked b = s" and "\<forall>d \<in> set (dimensions s). f d \<le> units b d"
  shows "remaining_within (amounts_of s f) b = Some (amounts_of s (\<lambda>d. units b d - f d))"
proof -
  have "ca_amounts b d = Some (of_nat (units b d))" if "d \<in> set (dimensions s)" for d
    using assms(1,2) that by (auto simp: amounts_ok_def units_def split: option.splits)
  then show ?thesis
    using assms(3) units_bound
    by (simp add: remaining_within_def remaining_loop_spec [where f = f and g = "units b"]
        zeroed_amounts_of amounts_eq_iff)
qed

lemma claimed_mset: "mset cs = mset cs' \<Longrightarrow> claimed cs d = claimed cs' d"
  unfolding claimed_def by (metis mset_map sum_mset_sum_list)

lemma admission_spec_mset: "mset cs = mset cs' \<Longrightarrow> admission_spec domain cs = admission_spec domain cs'"
proof -
  assume eq: "mset cs = mset cs'"
  have "set cs = set cs'" using eq by (rule mset_eq_setD)
  moreover have "distinct (map cc_id cs) \<longleftrightarrow> distinct (map cc_id cs')"
    using eq by (intro mset_eq_imp_distinct_iff) simp
  moreover have "claimed cs = claimed cs'" using claimed_mset [OF eq] by blast
  ultimately show ?thesis by (simp only: admission_spec_def)
qed

text \<open>A domain and claims whose amounts came from the constructor.\<close>

definition ledger_ok :: "capacity_domain \<Rightarrow> capacity_claim list \<Rightarrow> bool" where
  "ledger_ok domain cs \<longleftrightarrow> amounts_ok (cd_budget domain) \<and> (\<forall>c \<in> set cs. amounts_ok (cc_resources c))"

lemma admit_is_spec:
  assumes "ledger_ok domain (existing @ [candidate])"
  shows "admit_capacity_claim domain existing candidate = admission_spec domain (existing @ [candidate])"
proof -
  let ?cs = "existing @ [candidate]"
  let ?b = "cd_budget domain"
  let ?s = "ca_tracked ?b"
  have b: "amounts_ok ?b" "dimension_set_ok ?s" using assms by (auto simp: ledger_ok_def amounts_ok_def)
  show ?thesis
  proof (cases "\<forall>c \<in> set ?cs. ca_tracked (cc_resources c) = ?s")
    case True
    have fold: "try_fold (\<lambda>acc c. amounts_checked_add acc (cc_resources c)) (zeroed ?s) ?cs =
        (if \<forall>d \<in> set (dimensions ?s). claimed ?cs d < 2 ^ 64 then Some (amounts_of ?s (claimed ?cs)) else None)"
      using total_spec [OF b(2), of ?cs "\<lambda>d. 0"] assms True
      unfolding zeroed_amounts_of ledger_ok_def by simp
    have over: "(\<exists>d \<in> set (dimensions ?s). 2 ^ 64 \<le> claimed ?cs d) \<longleftrightarrow>
        \<not> (\<forall>d \<in> set (dimensions ?s). claimed ?cs d < 2 ^ 64)"
      by (meson not_le)
    have short: "(\<exists>d \<in> set (dimensions ?s). units ?b d < claimed ?cs d) \<longleftrightarrow>
        \<not> (\<forall>d \<in> set (dimensions ?s). claimed ?cs d \<le> units ?b d)"
      by (meson not_le)
    note unfolds = admit_capacity_claim_def admission_spec_def claims_with_candidate_def Let_def
        capacity_refused_def EXECUTION_CAPACITY_SCHEMA_VERSION_def list_ex_iff insert_all_empty
    show ?thesis
    proof (cases "\<forall>d \<in> set (dimensions ?s). claimed ?cs d < 2 ^ 64")
      case False
      have same: "\<not> (\<exists>c \<in> set ?cs. ca_tracked (cc_resources c) \<noteq> ?s)" using True by blast
      show ?thesis unfolding unfolds fold over
        by (simp only: same False if_True if_False option.case not_True_eq_False not_False_eq_True)
    next
      case small: True
      have same: "\<not> (\<exists>c \<in> set ?cs. ca_tracked (cc_resources c) \<noteq> ?s)" using True by blast
      show ?thesis
      proof (cases "\<forall>d \<in> set (dimensions ?s). claimed ?cs d \<le> units ?b d")
        case True
        show ?thesis
          unfolding unfolds fold over short fits_of [OF b(1) refl small] remaining_of [OF b(1) refl True]
            if_P [OF small] if_P [OF True] option.case
          by (simp only: same eqTrueI [OF small] eqTrueI [OF True] if_True if_False option.case not_True_eq_False not_False_eq_True)
      next
        case False
        show ?thesis
          unfolding unfolds fold over short fits_of [OF b(1) refl small] if_P [OF small]
          by (simp only: same fits_of [OF b(1) refl small] eqTrueI [OF small] False if_True if_False option.case not_True_eq_False not_False_eq_True)
      qed
    qed
  next
    case False
    then have "\<exists>c \<in> set ?cs. ca_tracked (cc_resources c) \<noteq> ?s" by blast
    then show ?thesis
      unfolding admit_capacity_claim_def admission_spec_def claims_with_candidate_def Let_def
        capacity_refused_def EXECUTION_CAPACITY_SCHEMA_VERSION_def list_ex_iff
      by (simp only: if_True)
  qed
qed

lemma fits_within_parent_units:
  assumes "fits_within_parent a parent" and "amounts_ok a" and "amounts_ok parent"
  shows "set (tracked_list a) \<subseteq> set (tracked_list parent) \<and> units a d \<le> units parent d"
proof -
  have sub: "set (tracked_list a) \<subseteq> set (tracked_list parent)"
    using assms by (simp add: fits_within_parent_def is_subset_of_iff amounts_ok_def)
  have "units a d \<le> units parent d" if "d \<in> set (tracked_list a)"
    using assms(1) that
    by (auto simp: fits_within_parent_def list_all_iff within_limit_def amount_def units_def
        word_le_nat_alt split: option.splits)
  moreover have "units a d = 0" if "d \<notin> set (tracked_list a)"
    using assms(2) that by (auto simp: amounts_ok_def units_def split: option.splits)
  ultimately show ?thesis using sub by fastforce
qed

lemma fits_within_units:
  assumes "fits_within a b" and "amounts_ok a"
  shows "units a d \<le> units b d"
proof (cases "d \<in> set (tracked_list a)")
  case True
  then show ?thesis using assms(1)
    by (auto simp: fits_within_def list_all_iff within_limit_def amount_def units_def
        word_le_nat_alt split: option.splits)
next
  case False
  then show ?thesis using assms(2) by (auto simp: amounts_ok_def units_def split: option.splits)
qed

section \<open>Properties\<close>

text \<open>
  C12. Admission computes the decision of unbounded arithmetic. Over amounts made by the
  constructor it is the specification: refusals in their documented precedence, overflow exactly
  when a tracked dimension's true sum leaves \<open>u64\<close>, insufficiency exactly when a true sum
  exceeds the budget, and otherwise acceptance with the true sums and what remains of the budget
  in each dimension. In particular neither \<open>expect\<close> can panic and no subtraction underflows.
\<close>
theorem admit_capacity_claim_correct:
  assumes "ledger_ok domain (existing @ [candidate])"
  shows "admit_capacity_claim domain existing candidate = admission_spec domain (existing @ [candidate])"
  using assms by (rule admit_is_spec)

definition example_amounts :: "64 word \<Rightarrow> capacity_amounts" where
  "example_amounts n = \<lparr>ca_tracked = CapacityDimensionSet [CpuMillis], ca_amounts = [CpuMillis \<mapsto> n]\<rparr>"

definition example_claim :: "string \<Rightarrow> 64 word \<Rightarrow> capacity_claim" where
  "example_claim name n =
     \<lparr>cc_id = CapacityClaimId name, cc_domain_id = CapacityDomainId ''d'',
      cc_domain_generation = CapacityDomainGeneration 1, cc_resources = example_amounts n,
      cc_child_domain_binding = None\<rparr>"

lemma example_amounts_ok: "amounts_ok (example_amounts n)"
  by (auto simp: amounts_ok_def dimension_set_ok_def example_amounts_def)

theorem admit_capacity_claim_correct_witness:
  "admit_capacity_claim
     (capacity_domain_root (CapacityDomainId ''d'') (CapacityDomainGeneration 1) (example_amounts 10))
     [example_claim ''a'' 4] (example_claim ''b'' 7) = Refused 1 InsufficientResources"
proof -
  let ?d = "capacity_domain_root (CapacityDomainId ''d'') (CapacityDomainGeneration 1) (example_amounts 10)"
  have "ledger_ok ?d ([example_claim ''a'' 4] @ [example_claim ''b'' 7])"
    by (simp add: ledger_ok_def capacity_domain_root_def example_claim_def example_amounts_ok)
  from admit_capacity_claim_correct [OF this] show ?thesis
    by (simp add: admission_spec_def capacity_domain_root_def example_claim_def example_amounts_def
        claimed_def units_def)
qed

text \<open>
  The decision does not depend on the order of the existing claims, refusal reasons and
  reported amounts included.
\<close>
theorem admit_order_independent:
  assumes "ledger_ok domain (existing @ [candidate])" and "mset existing = mset existing'"
  shows "admit_capacity_claim domain existing candidate = admit_capacity_claim domain existing' candidate"
proof -
  have "ledger_ok domain (existing' @ [candidate])"
    using assms mset_eq_setD [OF assms(2)] by (simp add: ledger_ok_def)
  then show ?thesis
    using assms admission_spec_mset [of "existing @ [candidate]" "existing' @ [candidate]" domain]
    by (simp add: admit_is_spec)
qed

theorem admit_order_independent_witness:
  "admit_capacity_claim
     (capacity_domain_root (CapacityDomainId ''d'') (CapacityDomainGeneration 1) (example_amounts 10))
     [example_claim ''a'' 4, example_claim ''b'' 1] (example_claim ''c'' 2) =
   admit_capacity_claim
     (capacity_domain_root (CapacityDomainId ''d'') (CapacityDomainGeneration 1) (example_amounts 10))
     [example_claim ''b'' 1, example_claim ''a'' 4] (example_claim ''c'' 2)"
  by (rule admit_order_independent)
    (simp_all add: ledger_ok_def capacity_domain_root_def example_claim_def example_amounts_ok)

text \<open>
  Nested ledgers do not overcommit. Whatever claims a child domain accepts, their true sum in
  every dimension stays within the parent claim that carries the child, which itself stays within
  the root domain's budget; a dimension the child does not track is not spent at all.
\<close>
theorem child_domain_within_root:
  assumes "capacity_domain_child root_domain parent = Inr child"
    and "ledger_ok root_domain [parent]"
    and "ledger_ok child (existing @ [candidate])"
    and "admit_capacity_claim child existing candidate = Accepted v total_claimed remaining"
  shows "claimed (existing @ [candidate]) d \<le> units (cc_resources parent) d \<and>
    units (cc_resources parent) d \<le> units (cd_budget root_domain) d"
proof -
  let ?cs = "existing @ [candidate]"
  obtain binding where b: "validate_child_domain_binding root_domain (cc_resources parent) binding = Inr ()"
    and child: "cd_budget child = cb_budget binding"
    using assms(1) by (auto simp: capacity_domain_child_def split: if_splits)
  have parent: "units (cc_resources parent) d \<le> units (cd_budget root_domain) d"
    using b assms(2) by (intro fits_within_units)
      (auto simp: validate_child_domain_binding_def ledger_ok_def split: if_splits)
  have "units (cd_budget child) d \<le> units (cc_resources parent) d"
    using b child assms(2,3) fits_within_parent_units
    by (auto simp: validate_child_domain_binding_def ledger_ok_def split: if_splits)
  moreover have "claimed ?cs d \<le> units (cd_budget child) d"
  proof (cases "d \<in> set (tracked_list (cd_budget child))")
    case True
    then show ?thesis using assms(4) unfolding admit_is_spec [OF assms(3)] admission_spec_def Let_def
      by (auto split: if_splits simp: not_less)
  next
    case False
    have "units (cc_resources c) d = 0" if "c \<in> set ?cs" for c
    proof -
      have "ca_tracked (cc_resources c) = ca_tracked (cd_budget child)"
        using assms(4) that unfolding admit_is_spec [OF assms(3)] admission_spec_def Let_def
        by (auto split: if_splits)
      moreover have "amounts_ok (cc_resources c)" using assms(3) that by (auto simp: ledger_ok_def)
      ultimately show ?thesis using False by (auto simp: amounts_ok_def units_def split: option.splits)
    qed
    then have "claimed ?cs d = 0" unfolding claimed_def by (simp add: sum_list_eq_0_iff)
    then show ?thesis by simp
  qed
  ultimately show ?thesis using parent by linarith
qed

theorem child_domain_within_root_witness:
  "claimed [example_claim ''b'' 3] CpuMillis \<le> 4"
proof -
  let ?root = "capacity_domain_root (CapacityDomainId ''r'') (CapacityDomainGeneration 1) (example_amounts 10)"
  let ?binding = "\<lparr>cb_domain_id = CapacityDomainId ''d'', cb_domain_generation = CapacityDomainGeneration 1,
      cb_budget = example_amounts 4\<rparr>"
  let ?parent = "(example_claim ''p'' 4)\<lparr>cc_domain_id := CapacityDomainId ''r'', cc_child_domain_binding := Some ?binding\<rparr>"
  let ?child = "\<lparr>cd_id = CapacityDomainId ''d'', cd_generation = CapacityDomainGeneration 1,
      cd_budget = example_amounts 4, cd_scope = ChildScope ?parent\<rparr>"
  have subset: "is_subset_of (CapacityDimensionSet [CpuMillis]) (CapacityDimensionSet [CpuMillis])"
    by (simp add: is_subset_of_iff dimension_set_ok_def)
  have child: "capacity_domain_child ?root ?parent = Inr ?child"
    using subset
    by (simp add: capacity_domain_child_def validate_child_domain_binding_def capacity_domain_root_def
        example_claim_def example_amounts_def fits_within_def fits_within_parent_def within_limit_def amount_def)
  have root_ok: "ledger_ok ?root [?parent]" and child_ok: "ledger_ok ?child ([] @ [example_claim ''b'' 3])"
    by (simp_all add: ledger_ok_def capacity_domain_root_def example_claim_def example_amounts_ok)
  have "\<exists>t r. admit_capacity_claim ?child [] (example_claim ''b'' 3) = Accepted 1 t r"
    using admit_is_spec [OF child_ok]
    by (simp add: admission_spec_def example_claim_def example_amounts_def claimed_def units_def Let_def)
  then obtain t r where acc: "admit_capacity_claim ?child [] (example_claim ''b'' 3) = Accepted 1 t r" by blast
  from child_domain_within_root [OF child root_ok child_ok acc, of CpuMillis] show ?thesis
    by (simp add: example_claim_def example_amounts_def units_def)
qed

end
