(* ===== verification/Disposable_Worker.thy ===== *)
theory Disposable_Worker
  imports Identity
begin

text \<open>
  The vocabulary of disposable workers: the Runner Scale Set identities of
  \<open>src/github_scale_set_protocol.rs\<close>, \<open>EpochMillis\<close> of \<open>src/execution_admission.rs\<close>, and the
  identities, resources, budget, demand and phases at the head of
  \<open>src/disposable_worker_reconciler.rs\<close>, with its capacity plan. \<open>u16\<close>, \<open>u32\<close> and \<open>u64\<close>
  fields are naturals: every constructor bounds them far below their width.
\<close>

section \<open>Time\<close>

datatype epoch_millis = EpochMillis (epoch_get: nat)

definition epoch_millis_new :: "nat \<Rightarrow> unit + epoch_millis" where
  "epoch_millis_new v = (if v = 0 then Inl () else Inr (EpochMillis v))"

section \<open>Scale Set protocol identities\<close>

datatype scale_set_runner_name = ScaleSetRunnerName (runner_name_str: string)
datatype scale_set_runner_id = ScaleSetRunnerId (runner_id_get: nat)
datatype scale_set_runner_request_id = ScaleSetRunnerRequestId (runner_request_id_get: nat)
datatype scale_set_job_id = ScaleSetJobId (job_id_str: string)
datatype scale_set_job_result = ScaleSetJobResult (job_result_str: string)

datatype scale_set_protocol_error =
  InvalidRunnerName | InvalidRunnerId | InvalidRunnerRequestId | InvalidJobId | InvalidJobResult

definition hyphenated :: "string \<Rightarrow> bool" where
  "hyphenated v \<longleftrightarrow>
     \<not> (v = [] \<or> 96 < length v
        \<or> \<not> list_all (\<lambda>b. is_ascii_lowercase b \<or> is_ascii_digit b \<or> b = CHR ''-'') v
        \<or> hd v = CHR ''-'' \<or> last v = CHR ''-'')"

definition runner_name_parse :: "string \<Rightarrow> scale_set_protocol_error + scale_set_runner_name" where
  "runner_name_parse v =
     (if \<not> hyphenated v then Inl InvalidRunnerName else Inr (ScaleSetRunnerName v))"

definition runner_id_new :: "nat \<Rightarrow> scale_set_protocol_error + scale_set_runner_id" where
  "runner_id_new v = (if v = 0 then Inl InvalidRunnerId else Inr (ScaleSetRunnerId v))"

definition runner_request_id_new :: "nat \<Rightarrow> scale_set_protocol_error + scale_set_runner_request_id" where
  "runner_request_id_new v =
     (if v = 0 then Inl InvalidRunnerRequestId else Inr (ScaleSetRunnerRequestId v))"

definition job_id_parse :: "string \<Rightarrow> scale_set_protocol_error + scale_set_job_id" where
  "job_id_parse v =
     (if v = [] \<or> 256 < length v \<or> \<not> list_all is_ascii_graphic v then Inl InvalidJobId
      else Inr (ScaleSetJobId v))"

text \<open>
  \<open>value.trim() != value\<close>: a value whose bytes are all graphic or a space (the last test, which
  rejects every other white space) is changed by \<open>trim\<close> exactly when it starts or ends with a
  space.
\<close>

definition job_result_parse :: "string \<Rightarrow> scale_set_protocol_error + scale_set_job_result" where
  "job_result_parse v =
     (if v = [] \<or> 128 < length v
         \<or> hd v = CHR '' '' \<or> last v = CHR '' ''
         \<or> \<not> list_all (\<lambda>b. is_ascii_graphic b \<or> b = CHR '' '') v
      then Inl InvalidJobResult
      else Inr (ScaleSetJobResult v))"

record scale_set_runner_reference =
  rr_id :: scale_set_runner_id
  rr_name :: scale_set_runner_name

datatype scale_set_job_event =
    JobStarted scale_set_runner_reference scale_set_job_id
  | JobCompleted "scale_set_runner_reference option" scale_set_job_id scale_set_job_result

fun job_event_runner :: "scale_set_job_event \<Rightarrow> scale_set_runner_reference option" where
  "job_event_runner (JobStarted runner job) = Some runner"
| "job_event_runner (JobCompleted runner job result) = runner"

fun job_event_job_id :: "scale_set_job_event \<Rightarrow> scale_set_job_id" where
  "job_event_job_id (JobStarted runner job) = job"
| "job_event_job_id (JobCompleted runner job result) = job"

section \<open>Worker identities\<close>

datatype disposable_attempt_id = DisposableAttemptId (attempt_id_str: string)
datatype worker_claim_id = CapacityClaimId (worker_claim_id_str: string)
datatype disposable_vm_id = DisposableVmId (vm_id_str: string)
datatype disposable_vm_identity = DisposableVmIdentity (vm_identity_digest: sha256_digest)

datatype reconciler_error =
    InvalidIdentifier
  | InvalidVmIdentity
  | InvalidCpuLimit
  | InvalidMemoryLimit
  | InvalidDiskLimit
  | InvalidWorkerLimit
  | InvalidWorkerUsage
  | InvalidScaleSetDemand
  | InvalidDemandWindow
  | StaleScaleSetDemand
  | HostBudgetExceeded
  | InvalidVmObservation
  | VmIdentityDrift
  | RunnerIdentityDrift
  | InvalidAttemptTransition
  | GithubJobIdentityDrift
  | InvalidJobEvent
  | ReconcilerPanic

definition validate_worker_identifier :: "string \<Rightarrow> reconciler_error + unit" where
  "validate_worker_identifier v = (if \<not> hyphenated v then Inl InvalidIdentifier else Inr ())"

definition attempt_id_parse :: "string \<Rightarrow> reconciler_error + disposable_attempt_id" where
  "attempt_id_parse v = try_res (validate_worker_identifier v) (\<lambda>_. Inr (DisposableAttemptId v))"

definition worker_claim_id_parse :: "string \<Rightarrow> reconciler_error + worker_claim_id" where
  "worker_claim_id_parse v = try_res (validate_worker_identifier v) (\<lambda>_. Inr (CapacityClaimId v))"

definition vm_id_parse :: "string \<Rightarrow> reconciler_error + disposable_vm_id" where
  "vm_id_parse v = try_res (validate_worker_identifier v) (\<lambda>_. Inr (DisposableVmId v))"

definition vm_identity_parse :: "string \<Rightarrow> reconciler_error + disposable_vm_identity" where
  "vm_identity_parse v =
     try_res (map_err (\<lambda>_. InvalidVmIdentity) (sha256_digest_parse v)) (\<lambda>d. Inr (DisposableVmIdentity d))"

definition vm_identity_str :: "disposable_vm_identity \<Rightarrow> string" where
  "vm_identity_str i = sha256_str (vm_identity_digest i)"

section \<open>Resources, budget and demand\<close>

definition MAX_WORKERS :: nat where "MAX_WORKERS = 64"
definition MAX_CPU_MILLIS :: nat where "MAX_CPU_MILLIS = 1000000"
definition MAX_BYTES :: nat where "MAX_BYTES = 2 ^ 50"

record disposable_worker_resources =
  wr_cpu_millis :: nat
  wr_memory_bytes :: nat
  wr_disk_bytes :: nat

definition worker_resources_new ::
  "nat \<Rightarrow> nat \<Rightarrow> nat \<Rightarrow> reconciler_error + disposable_worker_resources" where
  "worker_resources_new cpu_millis memory_bytes disk_bytes =
     (if \<not> (1 \<le> cpu_millis \<and> cpu_millis \<le> MAX_CPU_MILLIS) then Inl InvalidCpuLimit
      else if \<not> (1 \<le> memory_bytes \<and> memory_bytes \<le> MAX_BYTES) then Inl InvalidMemoryLimit
      else if \<not> (1 \<le> disk_bytes \<and> disk_bytes \<le> MAX_BYTES) then Inl InvalidDiskLimit
      else Inr \<lparr>wr_cpu_millis = cpu_millis, wr_memory_bytes = memory_bytes, wr_disk_bytes = disk_bytes\<rparr>)"

definition worker_capacity_within ::
  "disposable_worker_resources \<Rightarrow> disposable_worker_resources \<Rightarrow> nat" where
  "worker_capacity_within self request =
     min (min (wr_cpu_millis self div wr_cpu_millis request)
              (wr_memory_bytes self div wr_memory_bytes request))
         (wr_disk_bytes self div wr_disk_bytes request)"

definition worker_fits_within :: "disposable_worker_resources \<Rightarrow> disposable_worker_resources \<Rightarrow> bool" where
  "worker_fits_within self limit \<longleftrightarrow>
     wr_cpu_millis self \<le> wr_cpu_millis limit \<and> wr_memory_bytes self \<le> wr_memory_bytes limit \<and>
     wr_disk_bytes self \<le> wr_disk_bytes limit"

record disposable_host_budget =
  hb_max_workers :: nat
  hb_total :: disposable_worker_resources

definition host_budget_new ::
  "nat \<Rightarrow> disposable_worker_resources \<Rightarrow> reconciler_error + disposable_host_budget" where
  "host_budget_new max_workers total_resources =
     (if \<not> (1 \<le> max_workers \<and> max_workers \<le> MAX_WORKERS) then Inl InvalidWorkerLimit
      else Inr \<lparr>hb_max_workers = max_workers, hb_total = total_resources\<rparr>)"

record disposable_host_usage =
  hu_workers :: nat
  hu_resources :: disposable_worker_resources

definition host_usage_zero :: disposable_host_usage where
  "host_usage_zero =
     \<lparr>hu_workers = 0,
      hu_resources = \<lparr>wr_cpu_millis = 0, wr_memory_bytes = 0, wr_disk_bytes = 0\<rparr>\<rparr>"

definition host_usage_new ::
  "nat \<Rightarrow> disposable_worker_resources \<Rightarrow> reconciler_error + disposable_host_usage" where
  "host_usage_new workers resources =
     (if MAX_WORKERS < workers then Inl InvalidWorkerUsage
      else Inr \<lparr>hu_workers = workers, hu_resources = resources\<rparr>)"

record scale_set_demand =
  sd_assigned_jobs :: nat
  sd_running_jobs :: nat
  sd_observed_at :: epoch_millis
  sd_expires_at :: epoch_millis

definition scale_set_demand_new ::
  "nat \<Rightarrow> nat \<Rightarrow> epoch_millis \<Rightarrow> epoch_millis \<Rightarrow> reconciler_error + scale_set_demand" where
  "scale_set_demand_new assigned_jobs running_jobs observed_at expires_at =
     (if MAX_WORKERS < assigned_jobs \<or> assigned_jobs < running_jobs then Inl InvalidScaleSetDemand
      else if epoch_get expires_at < epoch_get observed_at then Inl InvalidDemandWindow
      else Inr \<lparr>sd_assigned_jobs = assigned_jobs, sd_running_jobs = running_jobs,
                sd_observed_at = observed_at, sd_expires_at = expires_at\<rparr>)"

record disposable_capacity_plan =
  cp_schema_version :: nat
  cp_advertised_max_capacity :: nat
  cp_desired_workers :: nat
  cp_additional_workers :: nat

definition DISPOSABLE_WORKER_RECONCILER_SCHEMA_VERSION :: nat where
  "DISPOSABLE_WORKER_RECONCILER_SCHEMA_VERSION = 2"

text \<open>\<open>u16::try_from(n).unwrap_or(u16::MAX)\<close>.\<close>

definition u16_or_max :: "nat \<Rightarrow> nat" where
  "u16_or_max n = (if n < 2 ^ 16 then n else 2 ^ 16 - 1)"

definition plan_capacity ::
  "epoch_millis \<Rightarrow> scale_set_demand \<Rightarrow> disposable_host_budget \<Rightarrow> disposable_host_usage \<Rightarrow>
   disposable_worker_resources \<Rightarrow> reconciler_error + disposable_capacity_plan" where
  "plan_capacity now demand budget usage worker =
     (if epoch_get now < epoch_get (sd_observed_at demand) \<or> epoch_get (sd_expires_at demand) < epoch_get now
      then Inl StaleScaleSetDemand
      else if hb_max_workers budget < hu_workers usage \<or> \<not> worker_fits_within (hu_resources usage) (hb_total budget)
      then Inl HostBudgetExceeded
      else
        let resource_capacity = worker_capacity_within (hb_total budget) worker;
            advertised_max_capacity = min (hb_max_workers budget) (u16_or_max resource_capacity);
            desired_workers = min (sd_assigned_jobs demand) advertised_max_capacity;
            remaining = \<lparr>wr_cpu_millis = wr_cpu_millis (hb_total budget) - wr_cpu_millis (hu_resources usage),
                         wr_memory_bytes = wr_memory_bytes (hb_total budget) - wr_memory_bytes (hu_resources usage),
                         wr_disk_bytes = wr_disk_bytes (hb_total budget) - wr_disk_bytes (hu_resources usage)\<rparr>;
            resource_slots = u16_or_max (worker_capacity_within remaining worker);
            worker_slots = hb_max_workers budget - hu_workers usage;
            demand_slots = desired_workers - hu_workers usage;
            additional_workers = min (min demand_slots worker_slots) resource_slots
        in Inr \<lparr>cp_schema_version = DISPOSABLE_WORKER_RECONCILER_SCHEMA_VERSION,
                cp_advertised_max_capacity = advertised_max_capacity,
                cp_desired_workers = desired_workers,
                cp_additional_workers = additional_workers\<rparr>)"

section \<open>Phases and observations\<close>

datatype disposable_attempt_phase =
    Reserved | UnprovisionedReleasing | Provisioning | CloneAuthorized | CloneStarted
  | Registering | Waiting | Assigned | Running | Terminal
  | Destroying | Deregistering | Releasing | Complete

datatype disposable_vm_observation = VmUnknown | VmAbsent | VmStopped | VmReady | VmConflicting

datatype scale_set_runner_observation =
    RunnerUnknown
  | RunnerAbsent
  | RegistrationOnly scale_set_runner_reference
  | IdleReady scale_set_runner_reference
  | RunnerConflicting

section \<open>Lemmas\<close>

lemma worker_resources_new_ok:
  "worker_resources_new c m d = Inr r \<longleftrightarrow>
     1 \<le> c \<and> c \<le> MAX_CPU_MILLIS \<and> 1 \<le> m \<and> m \<le> MAX_BYTES \<and> 1 \<le> d \<and> d \<le> MAX_BYTES \<and>
     r = \<lparr>wr_cpu_millis = c, wr_memory_bytes = m, wr_disk_bytes = d\<rparr>"
  by (auto simp: worker_resources_new_def)

text \<open>\<open>n\<close> workers of one size beside the current usage, within a total.\<close>

definition workers_fit ::
  "disposable_worker_resources \<Rightarrow> disposable_worker_resources \<Rightarrow> nat \<Rightarrow> disposable_worker_resources \<Rightarrow> bool" where
  "workers_fit used worker n limit \<longleftrightarrow>
     wr_cpu_millis used + n * wr_cpu_millis worker \<le> wr_cpu_millis limit \<and>
     wr_memory_bytes used + n * wr_memory_bytes worker \<le> wr_memory_bytes limit \<and>
     wr_disk_bytes used + n * wr_disk_bytes worker \<le> wr_disk_bytes limit"

lemma fits_div_iff:
  assumes "0 < (w :: nat)" and "u \<le> t"
  shows "n \<le> (t - u) div w \<longleftrightarrow> u + n * w \<le> t"
  using assms by (simp add: less_eq_div_iff_mult_less_eq le_diff_conv2 add.commute)

lemma capacity_within_iff:
  assumes "worker_resources_new c m d = Inr worker" and "worker_fits_within used limit"
  shows "n \<le> worker_capacity_within
      \<lparr>wr_cpu_millis = wr_cpu_millis limit - wr_cpu_millis used,
       wr_memory_bytes = wr_memory_bytes limit - wr_memory_bytes used,
       wr_disk_bytes = wr_disk_bytes limit - wr_disk_bytes used\<rparr> worker \<longleftrightarrow>
    workers_fit used worker n limit"
  using assms
  by (auto simp: worker_capacity_within_def workers_fit_def worker_resources_new_ok worker_fits_within_def
      fits_div_iff)

section \<open>Properties\<close>



end
