(* ===== verification/Attempt_State.thy ===== *)
theory Attempt_State
  imports Disposable_Worker
begin

text \<open>
  The durable state of one disposable attempt, \<open>src/disposable_attempt_state.rs\<close>: every
  transition, the validation every new state passes before it is returned, the recognition of
  exact successors. The revision is a natural with the width of \<open>u64\<close>
  written out. An error is the code the Rust error carries.
\<close>

section \<open>State\<close>

datatype attempt_error =
    InvalidRevision
  | RevisionConflict
  | VersionIncompatible
  | InvalidDocument
  | InvalidTransition
  | IdentityDrift
  | DocumentTooLarge

definition DISPOSABLE_ATTEMPT_STATE_SCHEMA_VERSION :: nat where
  "DISPOSABLE_ATTEMPT_STATE_SCHEMA_VERSION = 6"
definition MAX_DISPOSABLE_ATTEMPT_STATE_BYTES :: nat where
  "MAX_DISPOSABLE_ATTEMPT_STATE_BYTES = 16384"
definition MAX_DISPOSABLE_ATTEMPT_REVISION :: nat where
  "MAX_DISPOSABLE_ATTEMPT_REVISION = 1000000000000"

datatype attempt_revision = DisposableAttemptRevision (revision_get: nat)

definition attempt_revision_new :: "nat \<Rightarrow> attempt_error + attempt_revision" where
  "attempt_revision_new v =
     (if \<not> (1 \<le> v \<and> v \<le> MAX_DISPOSABLE_ATTEMPT_REVISION) then Inl InvalidRevision
      else Inr (DisposableAttemptRevision v))"

definition attempt_revision_next :: "attempt_revision \<Rightarrow> attempt_error + attempt_revision" where
  "attempt_revision_next r =
     try_res (ok_or (checked_add_u64 (revision_get r) 1) RevisionConflict) (\<lambda>v.
     map_err (\<lambda>_. RevisionConflict) (attempt_revision_new v))"

record attempt_state =
  as_schema_version :: nat
  as_revision :: attempt_revision
  as_attempt_id :: disposable_attempt_id
  as_capacity_claim_id :: worker_claim_id
  as_vm_id :: disposable_vm_id
  as_vm_identity :: "disposable_vm_identity option"
  as_runner_name :: scale_set_runner_name
  as_runner_request_id :: scale_set_runner_request_id
  as_runner_id :: "scale_set_runner_id option"
  as_jit_generation_started :: bool
  as_runner_start_started :: bool
  as_phase :: disposable_attempt_phase
  as_github_job_id :: "scale_set_job_id option"
  as_result :: "scale_set_job_result option"
  as_not_after :: epoch_millis

abbreviation rev_of :: "attempt_state \<Rightarrow> nat" where
  "rev_of s \<equiv> revision_get (as_revision s)"

definition attempt_reserved ::
  "disposable_attempt_id \<Rightarrow> worker_claim_id \<Rightarrow> disposable_vm_id \<Rightarrow> scale_set_runner_name \<Rightarrow>
   scale_set_runner_request_id \<Rightarrow> epoch_millis \<Rightarrow> attempt_state" where
  "attempt_reserved attempt_id capacity_claim_id vm_id runner_name runner_request_id not_after =
     \<lparr>as_schema_version = DISPOSABLE_ATTEMPT_STATE_SCHEMA_VERSION,
      as_revision = DisposableAttemptRevision 1,
      as_attempt_id = attempt_id,
      as_capacity_claim_id = capacity_claim_id,
      as_vm_id = vm_id,
      as_vm_identity = None,
      as_runner_name = runner_name,
      as_runner_request_id = runner_request_id,
      as_runner_id = None,
      as_jit_generation_started = False,
      as_runner_start_started = False,
      as_phase = Reserved,
      as_github_job_id = None,
      as_result = None,
      as_not_after = not_after\<rparr>"

section \<open>Validation\<close>

text \<open>The revisions a phase can have.\<close>

fun revision_shape_valid :: "disposable_attempt_phase \<Rightarrow> nat \<Rightarrow> bool" where
  "revision_shape_valid Reserved r \<longleftrightarrow> r = 1"
| "revision_shape_valid UnprovisionedReleasing r \<longleftrightarrow> r = 2 \<or> r = 3"
| "revision_shape_valid CloneAuthorized r \<longleftrightarrow> r = 2"
| "revision_shape_valid CloneStarted r \<longleftrightarrow> r = 3 \<or> r = 4"
| "revision_shape_valid Provisioning r \<longleftrightarrow> False"
| "revision_shape_valid Registering r \<longleftrightarrow> 5 \<le> r \<and> r \<le> 8"
| "revision_shape_valid Waiting r \<longleftrightarrow> r = 9"
| "revision_shape_valid Assigned r \<longleftrightarrow> 6 \<le> r \<and> r \<le> 10"
| "revision_shape_valid Running r \<longleftrightarrow> 9 \<le> r \<and> r \<le> 11"
| "revision_shape_valid Terminal r \<longleftrightarrow> 5 \<le> r \<and> r \<le> 12"
| "revision_shape_valid Destroying r \<longleftrightarrow> 5 \<le> r"
| "revision_shape_valid Deregistering r \<longleftrightarrow> 6 \<le> r"
| "revision_shape_valid Releasing r \<longleftrightarrow> 7 \<le> r"
| "revision_shape_valid Complete r \<longleftrightarrow> 2 \<le> r \<and> r \<le> 4 \<or> 8 \<le> r"

text \<open>The arms of the second \<open>match\<close>: true where the arm returns an error.\<close>

definition carries_evidence :: "attempt_state \<Rightarrow> bool" where
  "carries_evidence s \<longleftrightarrow>
     as_vm_identity s \<noteq> None \<or> as_runner_id s \<noteq> None \<or> as_jit_generation_started s
     \<or> as_runner_start_started s \<or> as_github_job_id s \<noteq> None \<or> as_result s \<noteq> None"

fun phase_evidence_invalid :: "disposable_attempt_phase \<Rightarrow> attempt_state \<Rightarrow> bool" where
  "phase_evidence_invalid Reserved s \<longleftrightarrow> carries_evidence s"
| "phase_evidence_invalid UnprovisionedReleasing s \<longleftrightarrow> carries_evidence s"
| "phase_evidence_invalid CloneAuthorized s \<longleftrightarrow> carries_evidence s"
| "phase_evidence_invalid CloneStarted s \<longleftrightarrow>
     (rev_of s = 3) \<noteq> (as_vm_identity s = None)
     \<or> as_runner_id s \<noteq> None \<or> as_jit_generation_started s \<or> as_runner_start_started s
     \<or> as_github_job_id s \<noteq> None \<or> as_result s \<noteq> None"
| "phase_evidence_invalid Provisioning s \<longleftrightarrow> True"
| "phase_evidence_invalid Registering s \<longleftrightarrow>
     as_vm_identity s = None \<or> as_github_job_id s \<noteq> None \<or> as_result s \<noteq> None
     \<or> (as_runner_id s \<noteq> None \<and> \<not> as_jit_generation_started s)
     \<or> (rev_of s, as_jit_generation_started s, as_runner_id s \<noteq> None, as_runner_start_started s)
         \<notin> {(5, False, False, False), (6, True, False, False), (7, True, True, False), (8, True, True, True)}"
| "phase_evidence_invalid Waiting s \<longleftrightarrow>
     as_vm_identity s = None \<or> as_runner_id s = None \<or> \<not> as_jit_generation_started s
     \<or> \<not> as_runner_start_started s \<or> as_github_job_id s \<noteq> None \<or> as_result s \<noteq> None"
| "phase_evidence_invalid Assigned s \<longleftrightarrow>
     as_vm_identity s = None \<or> as_github_job_id s = None \<or> as_result s \<noteq> None
     \<or> (as_runner_id s \<noteq> None \<and> \<not> as_jit_generation_started s)
     \<or> (rev_of s, as_jit_generation_started s, as_runner_id s \<noteq> None, as_runner_start_started s)
         \<notin> {(6, False, False, False), (7, True, False, False), (8, True, True, False),
            (9, True, True, True), (10, True, True, True)}"
| "phase_evidence_invalid Running s \<longleftrightarrow>
     as_vm_identity s = None \<or> as_runner_id s = None \<or> as_github_job_id s = None
     \<or> \<not> as_jit_generation_started s \<or> \<not> as_runner_start_started s \<or> as_result s \<noteq> None"
| "phase_evidence_invalid Terminal s \<longleftrightarrow>
     as_vm_identity s = None \<or> as_github_job_id s = None \<or> as_result s = None"
| "phase_evidence_invalid Destroying s \<longleftrightarrow> as_vm_identity s = None"
| "phase_evidence_invalid Deregistering s \<longleftrightarrow> as_vm_identity s = None"
| "phase_evidence_invalid Releasing s \<longleftrightarrow> as_vm_identity s = None"
| "phase_evidence_invalid Complete s \<longleftrightarrow> False"

definition attempt_validate :: "attempt_state \<Rightarrow> attempt_error + unit" where
  "attempt_validate s =
     (if as_schema_version s \<noteq> DISPOSABLE_ATTEMPT_STATE_SCHEMA_VERSION then Inl VersionIncompatible
      else if as_result s \<noteq> None \<and> as_github_job_id s = None then Inl InvalidDocument
      else if as_runner_start_started s \<and>
           (\<not> as_jit_generation_started s \<or> as_vm_identity s = None \<or> as_runner_id s = None)
        then Inl InvalidDocument
      else if as_jit_generation_started s \<and> as_vm_identity s = None then Inl InvalidDocument
      else if as_runner_id s \<noteq> None \<and> \<not> as_jit_generation_started s then Inl InvalidDocument
      else if (case as_result s of
                 None \<Rightarrow> False
               | Some r \<Rightarrow> \<not> as_runner_start_started s \<and> job_result_str r \<noteq> ''canceled'')
        then Inl InvalidDocument
      else if \<not> revision_shape_valid (as_phase s) (rev_of s) then Inl InvalidDocument
      else if phase_evidence_invalid (as_phase s) s then Inl InvalidDocument
      else if as_phase s = Complete \<and> rev_of s \<le> 4 \<and> carries_evidence s then Inl InvalidDocument
      else if as_phase s = Complete \<and> 4 < rev_of s \<and> as_vm_identity s = None then Inl InvalidDocument
      else Inr ())"

section \<open>Transitions\<close>

definition advance_with ::
  "attempt_state \<Rightarrow> disposable_attempt_phase \<Rightarrow> scale_set_runner_id option \<Rightarrow> scale_set_job_id option \<Rightarrow>
   scale_set_job_result option \<Rightarrow> attempt_error + attempt_state" where
  "advance_with s phase runner_id github_job_id result =
     try_res (attempt_revision_next (as_revision s)) (\<lambda>revision.
     let next' = s\<lparr>as_revision := revision, as_runner_id := runner_id, as_phase := phase,
                   as_github_job_id := github_job_id, as_result := result\<rparr>
     in try_res (attempt_validate next') (\<lambda>_. Inr next'))"

definition advance_phase ::
  "attempt_state \<Rightarrow> disposable_attempt_phase \<Rightarrow> disposable_attempt_phase \<Rightarrow> attempt_error + attempt_state" where
  "advance_phase s expected phase =
     (if as_phase s \<noteq> expected then Inl InvalidTransition
      else advance_with s phase (as_runner_id s) (as_github_job_id s) (as_result s))"

definition begin_provisioning :: "attempt_state \<Rightarrow> attempt_error + attempt_state" where
  "begin_provisioning s = Inl InvalidTransition"

definition authorize_clone :: "attempt_state \<Rightarrow> attempt_error + attempt_state" where
  "authorize_clone s = advance_phase s Reserved CloneAuthorized"

definition record_clone_started :: "attempt_state \<Rightarrow> attempt_error + attempt_state" where
  "record_clone_started s = advance_phase s CloneAuthorized CloneStarted"

definition bind_vm_identity_after_clone ::
  "attempt_state \<Rightarrow> disposable_vm_identity \<Rightarrow> attempt_error + attempt_state" where
  "bind_vm_identity_after_clone s identity =
     (if as_phase s \<noteq> CloneStarted \<or> rev_of s \<noteq> 3 \<or> as_vm_identity s \<noteq> None then Inl InvalidTransition
      else
        try_res (attempt_revision_next (as_revision s)) (\<lambda>revision.
        let next' = s\<lparr>as_revision := revision, as_vm_identity := Some identity\<rparr>
        in try_res (attempt_validate next') (\<lambda>_. Inr next')))"

definition begin_unprovisioned_release :: "attempt_state \<Rightarrow> attempt_error + attempt_state" where
  "begin_unprovisioned_release s =
     (if as_phase s \<in> {Reserved, CloneAuthorized}
      then advance_with s UnprovisionedReleasing None None None
      else Inl InvalidTransition)"

definition complete_unprovisioned :: "attempt_state \<Rightarrow> attempt_error + attempt_state" where
  "complete_unprovisioned s =
     (if as_phase s \<in> {Reserved, CloneAuthorized, UnprovisionedReleasing}
      then advance_with s Complete None None None
      else Inl InvalidTransition)"

definition begin_registration :: "attempt_state \<Rightarrow> attempt_error + attempt_state" where
  "begin_registration s = advance_phase s CloneStarted Registering"

definition record_jit_generation_started :: "attempt_state \<Rightarrow> attempt_error + attempt_state" where
  "record_jit_generation_started s =
     (if as_phase s \<notin> {Registering, Assigned} \<or> as_runner_id s \<noteq> None then Inl InvalidTransition
      else if as_jit_generation_started s then Inr s
      else
        try_res (attempt_revision_next (as_revision s)) (\<lambda>revision.
        let next' = s\<lparr>as_revision := revision, as_jit_generation_started := True\<rparr>
        in try_res (attempt_validate next') (\<lambda>_. Inr next')))"

definition validate_runner ::
  "attempt_state \<Rightarrow> scale_set_runner_reference \<Rightarrow> attempt_error + scale_set_runner_id" where
  "validate_runner s runner =
     (if rr_name runner \<noteq> as_runner_name s then Inl IdentityDrift
      else if (case as_runner_id s of None \<Rightarrow> False | Some current \<Rightarrow> current \<noteq> rr_id runner)
        then Inl IdentityDrift
      else Inr (rr_id runner))"

definition validate_job :: "attempt_state \<Rightarrow> scale_set_job_id \<Rightarrow> attempt_error + unit" where
  "validate_job s job_id =
     (if (case as_github_job_id s of None \<Rightarrow> False | Some current \<Rightarrow> current \<noteq> job_id)
      then Inl IdentityDrift else Inr ())"

definition record_registration ::
  "attempt_state \<Rightarrow> scale_set_runner_reference \<Rightarrow> attempt_error + attempt_state" where
  "record_registration s runner =
     (if as_phase s \<notin> {Registering, Assigned, Destroying, Deregistering, Releasing}
        then Inl InvalidTransition
      else if \<not> as_jit_generation_started s then Inl InvalidTransition
      else
        try_res (validate_runner s runner) (\<lambda>runner_id.
        if as_runner_id s = Some runner_id then Inr s
        else advance_with s (as_phase s) (Some runner_id) (as_github_job_id s) (as_result s)))"

definition record_runner_start_started :: "attempt_state \<Rightarrow> attempt_error + attempt_state" where
  "record_runner_start_started s =
     (if as_phase s \<notin> {Registering, Assigned} \<or> \<not> as_jit_generation_started s \<or> as_runner_id s = None
        then Inl InvalidTransition
      else if as_runner_start_started s then Inr s
      else
        try_res (attempt_revision_next (as_revision s)) (\<lambda>revision.
        let next' = s\<lparr>as_revision := revision, as_runner_start_started := True\<rparr>
        in try_res (attempt_validate next') (\<lambda>_. Inr next')))"

definition record_runner_ready ::
  "attempt_state \<Rightarrow> scale_set_runner_reference \<Rightarrow> attempt_error + attempt_state" where
  "record_runner_ready s runner =
     try_res (validate_runner s runner) (\<lambda>runner_id.
     if \<not> as_runner_start_started s then Inl InvalidTransition
     else if as_phase s = Registering then advance_with s Waiting (Some runner_id) None None
     else if as_phase s = Assigned \<and> as_runner_id s = None
       then advance_with s Assigned (Some runner_id) (as_github_job_id s) None
     else if as_phase s \<in> {Waiting, Assigned, Running, Terminal} \<and> as_runner_id s = Some runner_id
       then Inr s
     else Inl InvalidTransition)"

definition record_assigned :: "attempt_state \<Rightarrow> scale_set_job_id \<Rightarrow> attempt_error + attempt_state" where
  "record_assigned s job_id =
     try_res (validate_job s job_id) (\<lambda>_.
     if as_phase s \<in> {Registering, Waiting} then advance_with s Assigned (as_runner_id s) (Some job_id) None
     else if as_phase s \<in> {Assigned, Running, Terminal} \<and> as_github_job_id s = Some job_id then Inr s
     else Inl InvalidTransition)"

definition has_clone_started_history :: "attempt_state \<Rightarrow> bool" where
  "has_clone_started_history s =
     (case as_phase s of
        CloneStarted \<Rightarrow> True | Registering \<Rightarrow> True | Waiting \<Rightarrow> True | Assigned \<Rightarrow> True
      | Running \<Rightarrow> True | Terminal \<Rightarrow> True
      | Destroying \<Rightarrow> 5 \<le> rev_of s | Deregistering \<Rightarrow> 6 \<le> rev_of s
      | Releasing \<Rightarrow> 7 \<le> rev_of s | Complete \<Rightarrow> 8 \<le> rev_of s
      | _ \<Rightarrow> False)"

definition record_running ::
  "attempt_state \<Rightarrow> scale_set_runner_reference \<Rightarrow> scale_set_job_id \<Rightarrow> attempt_error + attempt_state" where
  "record_running s runner job_id =
     try_res (validate_runner s runner) (\<lambda>runner_id.
     if \<not> as_runner_start_started s then Inl InvalidTransition
     else
       try_res (validate_job s job_id) (\<lambda>_.
       if as_phase s \<in> {Registering, Waiting, Assigned}
         then advance_with s Running (Some runner_id) (Some job_id) None
       else if as_phase s \<in> {Running, Terminal} \<and> as_runner_id s = Some runner_id
            \<and> as_github_job_id s = Some job_id
         then Inr s
       else if as_phase s \<in> {Destroying, Deregistering, Releasing, Complete} then
         (if as_github_job_id s = None \<and> \<not> has_clone_started_history s then Inl InvalidTransition
          else if as_result s \<noteq> None then
            (if as_runner_id s = Some runner_id \<and> as_github_job_id s = Some job_id then Inr s
             else Inl IdentityDrift)
          else if as_runner_id s = Some runner_id \<and> as_github_job_id s = Some job_id then Inr s
          else advance_with s (as_phase s) (Some runner_id) (Some job_id) None)
       else Inl InvalidTransition))"

definition in_cleanup :: "disposable_attempt_phase \<Rightarrow> bool" where
  "in_cleanup p \<longleftrightarrow> p \<in> {Destroying, Deregistering, Releasing, Complete}"

definition record_terminal ::
  "attempt_state \<Rightarrow> scale_set_runner_reference option \<Rightarrow> scale_set_job_id \<Rightarrow> scale_set_job_result \<Rightarrow>
   attempt_error + attempt_state" where
  "record_terminal s runner job_id result =
     try_res (case runner of
                None \<Rightarrow> Inr None
              | Some v \<Rightarrow> try_res (validate_runner s v) (\<lambda>i. Inr (Some i))) (\<lambda>observed_runner_id.
     try_res (validate_job s job_id) (\<lambda>_.
     if observed_runner_id = None \<and> as_github_job_id s = None then Inl IdentityDrift
     else
       (case as_result s of
          Some current_result \<Rightarrow>
            if as_github_job_id s = Some job_id \<and> current_result = result
               \<and> (case observed_runner_id of None \<Rightarrow> True | Some i \<Rightarrow> as_runner_id s = Some i)
            then Inr s else Inl IdentityDrift
        | None \<Rightarrow>
            if as_phase s = Terminal then Inl IdentityDrift
            else if in_cleanup (as_phase s) \<and> as_github_job_id s = None \<and> \<not> has_clone_started_history s
              then Inl InvalidTransition
            else if \<not> in_cleanup (as_phase s)
                 \<and> as_phase s \<notin> {CloneStarted, Registering, Waiting, Assigned, Running}
              then Inl InvalidTransition
            else
              (case (as_runner_id s, observed_runner_id) of
                 (Some current, Some observed) \<Rightarrow>
                   if current \<noteq> observed then Inl IdentityDrift
                   else advance_with s (if in_cleanup (as_phase s) then as_phase s else Terminal)
                          (Some current) (Some job_id) (Some result)
               | (Some current, None) \<Rightarrow>
                   advance_with s (if in_cleanup (as_phase s) then as_phase s else Terminal)
                     (Some current) (Some job_id) (Some result)
               | (None, observed) \<Rightarrow>
                   advance_with s (if in_cleanup (as_phase s) then as_phase s else Terminal)
                     observed (Some job_id) (Some result)))))"

definition begin_cleanup :: "attempt_state \<Rightarrow> attempt_error + attempt_state" where
  "begin_cleanup s =
     (if as_phase s \<in> {Reserved, CloneAuthorized, UnprovisionedReleasing, Provisioning}
        then Inl InvalidTransition
      else if as_phase s \<in> {CloneStarted, Registering, Waiting, Assigned, Running, Terminal}
        then advance_with s Destroying (as_runner_id s) (as_github_job_id s) (as_result s)
      else Inr s)"

definition advance_cleanup ::
  "attempt_state \<Rightarrow> disposable_attempt_phase \<Rightarrow> attempt_error + attempt_state" where
  "advance_cleanup s phase =
     (if as_phase s = phase then Inr s
      else if (as_phase s, phase) \<notin>
           {(Destroying, Deregistering), (Deregistering, Releasing), (Releasing, Complete)}
        then Inl InvalidTransition
      else advance_with s phase (as_runner_id s) (as_github_job_id s) (as_result s))"

definition is_exact_successor_of :: "attempt_state \<Rightarrow> attempt_state \<Rightarrow> bool" where
  "is_exact_successor_of self current =
     (let matches = (\<lambda>candidate. candidate = (Inr self :: attempt_error + attempt_state));
          runner = map_option (\<lambda>i. \<lparr>rr_id = i, rr_name = as_runner_name self\<rparr>) (as_runner_id self)
      in matches (authorize_clone current) \<or> matches (record_clone_started current)
         \<or> matches (begin_unprovisioned_release current) \<or> matches (complete_unprovisioned current)
         \<or> matches (begin_registration current) \<or> matches (record_jit_generation_started current)
         \<or> matches (record_runner_start_started current) \<or> matches (begin_cleanup current)
         \<or> matches (advance_cleanup current (as_phase self))
         \<or> (case runner of
              None \<Rightarrow> False
            | Some r \<Rightarrow> matches (record_registration current r) \<or> matches (record_runner_ready current r))
         \<or> (case as_github_job_id self of
              None \<Rightarrow> False
            | Some job_id \<Rightarrow>
                matches (record_assigned current job_id)
                \<or> (case runner of None \<Rightarrow> False | Some r \<Rightarrow> matches (record_running current r job_id))
                \<or> (case as_result self of
                     None \<Rightarrow> False
                   | Some result \<Rightarrow>
                       matches (record_terminal current None job_id result)
                       \<or> (case runner of
                            None \<Rightarrow> False
                          | Some r \<Rightarrow> matches (record_terminal current (Some r) job_id result)))))"

section \<open>Steps and histories\<close>

text \<open>Every way the code has to make a new attempt state from an old one.\<close>

inductive attempt_step :: "attempt_state \<Rightarrow> attempt_state \<Rightarrow> bool" where
  step_authorize_clone: "authorize_clone s = Inr s' \<Longrightarrow> attempt_step s s'"
| step_clone_started: "record_clone_started s = Inr s' \<Longrightarrow> attempt_step s s'"
| step_bind: "bind_vm_identity_after_clone s identity = Inr s' \<Longrightarrow> attempt_step s s'"
| step_begin_release: "begin_unprovisioned_release s = Inr s' \<Longrightarrow> attempt_step s s'"
| step_complete_unprovisioned: "complete_unprovisioned s = Inr s' \<Longrightarrow> attempt_step s s'"
| step_begin_registration: "begin_registration s = Inr s' \<Longrightarrow> attempt_step s s'"
| step_jit: "record_jit_generation_started s = Inr s' \<Longrightarrow> attempt_step s s'"
| step_registration: "record_registration s runner = Inr s' \<Longrightarrow> attempt_step s s'"
| step_runner_start: "record_runner_start_started s = Inr s' \<Longrightarrow> attempt_step s s'"
| step_ready: "record_runner_ready s runner = Inr s' \<Longrightarrow> attempt_step s s'"
| step_assigned: "record_assigned s job = Inr s' \<Longrightarrow> attempt_step s s'"
| step_running: "record_running s runner job = Inr s' \<Longrightarrow> attempt_step s s'"
| step_terminal: "record_terminal s runner_opt job result = Inr s' \<Longrightarrow> attempt_step s s'"
| step_begin_cleanup: "begin_cleanup s = Inr s' \<Longrightarrow> attempt_step s s'"
| step_advance_cleanup: "advance_cleanup s phase = Inr s' \<Longrightarrow> attempt_step s s'"

inductive attempt_reachable :: "attempt_state \<Rightarrow> bool" where
  attempt_created: "attempt_reachable (attempt_reserved a c v n q t)"
| attempt_stepped: "attempt_reachable s \<Longrightarrow> attempt_step s s' \<Longrightarrow> attempt_reachable s'"

text \<open>The identity of an attempt, which no step may change.\<close>

definition same_attempt :: "attempt_state \<Rightarrow> attempt_state \<Rightarrow> bool" where
  "same_attempt s s' \<longleftrightarrow>
     as_schema_version s' = as_schema_version s \<and> as_attempt_id s' = as_attempt_id s \<and>
     as_capacity_claim_id s' = as_capacity_claim_id s \<and> as_vm_id s' = as_vm_id s \<and>
     as_runner_name s' = as_runner_name s \<and> as_runner_request_id s' = as_runner_request_id s \<and>
     as_not_after s' = as_not_after s"

definition option_kept :: "'a option \<Rightarrow> 'a option \<Rightarrow> bool" where
  "option_kept x y \<longleftrightarrow> x = None \<or> y = x"

text \<open>Evidence once recorded stays as it was recorded.\<close>

definition evidence_kept :: "attempt_state \<Rightarrow> attempt_state \<Rightarrow> bool" where
  "evidence_kept s s' \<longleftrightarrow>
     option_kept (as_vm_identity s) (as_vm_identity s') \<and> option_kept (as_runner_id s) (as_runner_id s') \<and>
     option_kept (as_github_job_id s) (as_github_job_id s') \<and> option_kept (as_result s) (as_result s') \<and>
     (as_jit_generation_started s \<longrightarrow> as_jit_generation_started s') \<and>
     (as_runner_start_started s \<longrightarrow> as_runner_start_started s')"

fun phase_rank :: "disposable_attempt_phase \<Rightarrow> nat" where
  "phase_rank Reserved = 0"
| "phase_rank Provisioning = 0"
| "phase_rank CloneAuthorized = 1"
| "phase_rank UnprovisionedReleasing = 2"
| "phase_rank CloneStarted = 2"
| "phase_rank Registering = 3"
| "phase_rank Waiting = 4"
| "phase_rank Assigned = 5"
| "phase_rank Running = 6"
| "phase_rank Terminal = 7"
| "phase_rank Destroying = 8"
| "phase_rank Deregistering = 9"
| "phase_rank Releasing = 10"
| "phase_rank Complete = 11"

definition count_opt :: "'a option \<Rightarrow> nat" where
  "count_opt x = (case x of None \<Rightarrow> 0 | Some v \<Rightarrow> 1)"

definition evidence_count :: "attempt_state \<Rightarrow> nat" where
  "evidence_count s =
     count_opt (as_vm_identity s) + count_opt (as_runner_id s) +
     count_opt (as_github_job_id s) + count_opt (as_result s) +
     of_bool (as_jit_generation_started s) + of_bool (as_runner_start_started s)"

text \<open>One advance of the revision: valid, the same attempt, evidence kept, and either a later phase
  or more evidence.\<close>

definition attempt_advance :: "attempt_state \<Rightarrow> attempt_state \<Rightarrow> bool" where
  "attempt_advance s s' \<longleftrightarrow>
     attempt_validate s' = Inr () \<and> rev_of s' = rev_of s + 1 \<and>
     same_attempt s s' \<and> evidence_kept s s' \<and>
     phase_rank (as_phase s) \<le> phase_rank (as_phase s') \<and>
     phase_rank (as_phase s) + evidence_count s < phase_rank (as_phase s') + evidence_count s'"

section \<open>Lemmas\<close>

lemma attempt_revision_next_ok:
  "attempt_revision_next r = Inr r' \<longleftrightarrow>
     r' = DisposableAttemptRevision (revision_get r + 1) \<and> revision_get r < 1000000000000"
  by (auto simp: attempt_revision_next_def attempt_revision_new_def MAX_DISPOSABLE_ATTEMPT_REVISION_def)

lemma attempt_validate_ok_iff:
  "attempt_validate s = Inr u \<longleftrightarrow>
     as_schema_version s = DISPOSABLE_ATTEMPT_STATE_SCHEMA_VERSION \<and>
     (as_result s \<noteq> None \<longrightarrow> as_github_job_id s \<noteq> None) \<and>
     (as_runner_start_started s \<longrightarrow>
        as_jit_generation_started s \<and> as_vm_identity s \<noteq> None \<and> as_runner_id s \<noteq> None) \<and>
     (as_jit_generation_started s \<longrightarrow> as_vm_identity s \<noteq> None) \<and>
     (as_runner_id s \<noteq> None \<longrightarrow> as_jit_generation_started s) \<and>
     (\<forall>r. as_result s = Some r \<longrightarrow> as_runner_start_started s \<or> job_result_str r = ''canceled'') \<and>
     revision_shape_valid (as_phase s) (rev_of s) \<and>
     \<not> phase_evidence_invalid (as_phase s) s \<and>
     (as_phase s = Complete \<longrightarrow> (if rev_of s \<le> 4 then \<not> carries_evidence s else as_vm_identity s \<noteq> None))"
  by (auto simp: attempt_validate_def split: option.splits if_splits)

lemma advance_with_ok:
  "advance_with s p r j res = Inr s' \<longleftrightarrow>
     rev_of s < 1000000000000 \<and>
     s' = s\<lparr>as_revision := DisposableAttemptRevision (rev_of s + 1), as_runner_id := r, as_phase := p,
            as_github_job_id := j, as_result := res\<rparr> \<and>
     attempt_validate s' = Inr ()"
  by (auto simp: advance_with_def attempt_revision_next_ok Let_def)

lemma validate_runner_ok:
  "validate_runner s r = Inr i \<longleftrightarrow>
     rr_name r = as_runner_name s \<and> i = rr_id r \<and> (as_runner_id s = None \<or> as_runner_id s = Some i)"
  by (auto simp: validate_runner_def split: option.splits)

lemma validate_job_ok:
  "validate_job s j = Inr u \<longleftrightarrow> as_github_job_id s = None \<or> as_github_job_id s = Some j"
  by (auto simp: validate_job_def split: option.splits)

lemma option_kept_count: "option_kept x y \<Longrightarrow> count_opt x \<le> count_opt y"
  by (auto simp: option_kept_def count_opt_def)

lemma option_new_count: "x = None \<Longrightarrow> y \<noteq> None \<Longrightarrow> count_opt x < count_opt y"
  by (auto simp: count_opt_def)

lemma count_opt_simps [simp]: "count_opt None = 0" "count_opt (Some v) = 1"
  by (simp_all add: count_opt_def)

lemma count_opt_le: "count_opt x \<le> 1"
  by (cases x) auto

lemma evidence_count_le: "evidence_count s \<le> 6"
  using count_opt_le [of "as_vm_identity s"] count_opt_le [of "as_runner_id s"]
    count_opt_le [of "as_github_job_id s"] count_opt_le [of "as_result s"]
  by (simp add: evidence_count_def)

text \<open>An advance through \<open>advance_with\<close>: what is left to show is that evidence is kept and
  that it makes progress.\<close>

lemma advance_with_advances:
  assumes "advance_with s p r j res = Inr s'"
    and "option_kept (as_runner_id s) r" and "option_kept (as_github_job_id s) j"
    and "option_kept (as_result s) res"
    and "phase_rank (as_phase s) < phase_rank p \<or>
      p = as_phase s \<and> (as_runner_id s = None \<and> r \<noteq> None \<or> as_github_job_id s = None \<and> j \<noteq> None \<or>
        as_result s = None \<and> res \<noteq> None)"
  shows "attempt_advance s s'"
proof -
  have s': "s' = s\<lparr>as_revision := DisposableAttemptRevision (rev_of s + 1), as_runner_id := r, as_phase := p,
      as_github_job_id := j, as_result := res\<rparr>" and valid: "attempt_validate s' = Inr ()"
    using assms(1) unfolding advance_with_ok by blast+
  note counted = option_kept_count [OF assms(2)] option_kept_count [OF assms(3)] option_kept_count [OF assms(4)]
  have "phase_rank (as_phase s) \<le> phase_rank p" using assms(5) by auto
  moreover have "phase_rank (as_phase s) + evidence_count s < phase_rank p + evidence_count s'"
  proof -
    have "evidence_count s' = count_opt (as_vm_identity s) + count_opt r + count_opt j + count_opt res +
        of_bool (as_jit_generation_started s) + of_bool (as_runner_start_started s)"
      by (simp add: evidence_count_def s')
    moreover have "phase_rank (as_phase s) < phase_rank p \<or> phase_rank p = phase_rank (as_phase s) \<and>
        (count_opt (as_runner_id s) < count_opt r \<or> count_opt (as_github_job_id s) < count_opt j \<or>
         count_opt (as_result s) < count_opt res)"
      using assms(5) option_new_count [of "as_runner_id s" r] option_new_count [of "as_github_job_id s" j]
        option_new_count [of "as_result s" res] by argo
    ultimately show ?thesis using counted unfolding evidence_count_def by linarith
  qed
  ultimately show ?thesis
    using valid assms(2-4) unfolding attempt_advance_def same_attempt_def evidence_kept_def s' by (simp add: option_kept_def)
qed

lemma advance_phase_advances:
  "advance_phase s e p = Inr s' \<Longrightarrow> phase_rank e < phase_rank p \<Longrightarrow> attempt_advance s s'"
  by (auto simp: advance_phase_def option_kept_def split: if_splits intro!: advance_with_advances)

lemma bind_advances:
  assumes "bind_vm_identity_after_clone s identity = Inr s'"
  shows "attempt_advance s s'"
  using assms
  by (auto simp: bind_vm_identity_after_clone_def attempt_revision_next_ok Let_def attempt_advance_def
      same_attempt_def evidence_kept_def option_kept_def evidence_count_def split: if_splits)

lemma jit_advances:
  assumes "record_jit_generation_started s = Inr s'"
  shows "s' = s \<or> attempt_advance s s'"
  using assms
  by (auto simp: record_jit_generation_started_def attempt_revision_next_ok Let_def attempt_advance_def
      same_attempt_def evidence_kept_def option_kept_def evidence_count_def split: if_splits)

lemma runner_start_advances:
  assumes "record_runner_start_started s = Inr s'"
  shows "s' = s \<or> attempt_advance s s'"
  using assms
  by (auto simp: record_runner_start_started_def attempt_revision_next_ok Let_def attempt_advance_def
      same_attempt_def evidence_kept_def option_kept_def evidence_count_def split: if_splits)

text \<open>What a valid state of each group of phases carries.\<close>

lemma valid_before_clone:
  assumes "attempt_validate s = Inr ()" and "as_phase s \<in> {Reserved, CloneAuthorized, UnprovisionedReleasing}"
  shows "\<not> carries_evidence s"
  using assms unfolding attempt_validate_ok_iff by auto

lemma valid_unassigned:
  assumes "attempt_validate s = Inr ()" and "as_phase s \<in> {Registering, Waiting}"
  shows "as_github_job_id s = None \<and> as_result s = None"
  using assms unfolding attempt_validate_ok_iff by auto

lemma valid_unfinished:
  assumes "attempt_validate s = Inr ()" and "as_phase s \<in> {Registering, Waiting, Assigned, Running}"
  shows "as_result s = None"
  using assms unfolding attempt_validate_ok_iff by auto

lemma option_kept_simps [simp]:
  "option_kept x x" "option_kept None y" "option_kept (Some v) (Some w) \<longleftrightarrow> w = v"
  by (auto simp: option_kept_def)

lemma release_advances:
  assumes "begin_unprovisioned_release s = Inr s' \<or> complete_unprovisioned s = Inr s'"
    and "attempt_validate s = Inr ()"
  shows "attempt_advance s s'"
proof -
  obtain p where p: "advance_with s p None None None = Inr s'" "phase_rank (as_phase s) < phase_rank p"
    and phase: "as_phase s \<in> {Reserved, CloneAuthorized, UnprovisionedReleasing}"
    using assms(1) by (auto simp: begin_unprovisioned_release_def complete_unprovisioned_def split: if_splits)
  show ?thesis
    using valid_before_clone [OF assms(2) phase] p(2)
    by (intro advance_with_advances [OF p(1)]) (simp_all add: carries_evidence_def)
qed

lemma registration_advances:
  assumes "record_registration s runner = Inr s'"
  shows "s' = s \<or> attempt_advance s s'"
proof (cases "as_runner_id s")
  case None
  then have "advance_with s (as_phase s) (Some (rr_id runner)) (as_github_job_id s) (as_result s) = Inr s'"
    using assms by (auto simp: record_registration_def validate_runner_ok split: if_splits)
  from advance_with_advances [OF this] None show ?thesis by simp
next
  case (Some i)
  then show ?thesis using assms by (auto simp: record_registration_def validate_runner_ok split: if_splits)
qed

lemma ready_advances:
  assumes "record_runner_ready s runner = Inr s'" and "attempt_validate s = Inr ()"
  shows "s' = s \<or> attempt_advance s s'"
proof -
  have runner: "as_runner_id s = None \<or> as_runner_id s = Some (rr_id runner)"
    using assms(1) by (auto simp: record_runner_ready_def validate_runner_ok)
  consider "s' = s"
    | "as_phase s = Registering" "advance_with s Waiting (Some (rr_id runner)) None None = Inr s'"
    | "as_phase s = Assigned" "as_runner_id s = None"
        "advance_with s Assigned (Some (rr_id runner)) (as_github_job_id s) None = Inr s'"
    using assms(1) by (auto simp: record_runner_ready_def validate_runner_ok split: if_splits)
  then show ?thesis
  proof cases
    case 2
    from advance_with_advances [OF 2(2)] 2(1) runner valid_unassigned [OF assms(2)] show ?thesis by auto
  next
    case 3
    from advance_with_advances [OF 3(3)] 3(1,2) runner valid_unfinished [OF assms(2)] show ?thesis by auto
  qed simp
qed

lemma assigned_advances:
  assumes "record_assigned s job = Inr s'" and "attempt_validate s = Inr ()"
  shows "s' = s \<or> attempt_advance s s'"
proof -
  consider "s' = s"
    | "as_phase s \<in> {Registering, Waiting}" "advance_with s Assigned (as_runner_id s) (Some job) None = Inr s'"
    using assms(1) by (auto simp: record_assigned_def split: if_splits)
  then show ?thesis
  proof cases
    case 2
    from advance_with_advances [OF 2(2)] 2(1) valid_unassigned [OF assms(2) 2(1)] show ?thesis by auto
  qed simp
qed

lemma running_advances:
  assumes "record_running s runner job = Inr s'" and "attempt_validate s = Inr ()"
  shows "s' = s \<or> attempt_advance s s'"
proof -
  have runner: "as_runner_id s = None \<or> as_runner_id s = Some (rr_id runner)"
    and job: "as_github_job_id s = None \<or> as_github_job_id s = Some job"
    using assms(1) by (auto simp: record_running_def validate_runner_ok validate_job_ok split: if_splits)
  consider "s' = s"
    | "as_phase s \<in> {Registering, Waiting, Assigned}"
        "advance_with s Running (Some (rr_id runner)) (Some job) None = Inr s'"
    | "as_result s = None" "as_runner_id s \<noteq> Some (rr_id runner) \<or> as_github_job_id s \<noteq> Some job"
        "advance_with s (as_phase s) (Some (rr_id runner)) (Some job) None = Inr s'"
    using assms(1) by (auto simp: record_running_def validate_runner_ok split: if_splits)
  then show ?thesis
  proof cases
    case 2
    from advance_with_advances [OF 2(2)] 2(1) runner job valid_unfinished [OF assms(2)] show ?thesis by auto
  next
    case 3
    from advance_with_advances [OF 3(3)] 3(1,2) runner job show ?thesis by auto
  qed simp
qed

lemma terminal_advances:
  assumes "record_terminal s runner job result = Inr s'"
  shows "s' = s \<or> attempt_advance s s'"
proof (cases "as_result s")
  case (Some r)
  then show ?thesis using assms by (auto simp: record_terminal_def split: if_splits)
next
  case None
  have job: "as_github_job_id s = None \<or> as_github_job_id s = Some job"
    using assms by (auto simp: record_terminal_def validate_job_ok)
  obtain p r where adv: "advance_with s p r (Some job) (Some result) = Inr s'"
    and p: "p = as_phase s \<or> phase_rank (as_phase s) < phase_rank p" and r: "option_kept (as_runner_id s) r"
    using assms None
    by (cases runner; cases "as_runner_id s")
      (auto simp: record_terminal_def in_cleanup_def validate_runner_ok split: if_splits)
  from advance_with_advances [OF adv r] p job None show ?thesis by auto
qed

lemma begin_cleanup_advances:
  assumes "begin_cleanup s = Inr s'"
  shows "s' = s \<or> attempt_advance s s'"
proof -
  consider "s' = s" | "phase_rank (as_phase s) < phase_rank Destroying"
      "advance_with s Destroying (as_runner_id s) (as_github_job_id s) (as_result s) = Inr s'"
    using assms by (auto simp: begin_cleanup_def split: if_splits)
  then show ?thesis by cases (auto dest!: advance_with_advances)
qed

lemma advance_cleanup_advances:
  assumes "advance_cleanup s phase = Inr s'"
  shows "s' = s \<or> attempt_advance s s'"
proof -
  consider "s' = s" | "phase_rank (as_phase s) < phase_rank phase"
      "advance_with s phase (as_runner_id s) (as_github_job_id s) (as_result s) = Inr s'"
    using assms by (auto simp: advance_cleanup_def split: if_splits)
  then show ?thesis by cases (auto dest!: advance_with_advances)
qed

lemma attempt_step_advances:
  assumes "attempt_step s s'" and "attempt_validate s = Inr ()"
  shows "s' = s \<or> attempt_advance s s'"
  using assms
proof (cases rule: attempt_step.cases)
  case step_authorize_clone
  then show ?thesis by (auto simp: authorize_clone_def intro: advance_phase_advances)
next
  case step_clone_started
  then show ?thesis by (auto simp: record_clone_started_def intro: advance_phase_advances)
next
  case step_begin_registration
  then show ?thesis by (auto simp: begin_registration_def intro: advance_phase_advances)
next
  case (step_bind identity)
  then show ?thesis using bind_advances by simp
next
  case step_begin_release
  then show ?thesis using release_advances [OF disjI1 assms(2)] by simp
next
  case step_complete_unprovisioned
  then show ?thesis using release_advances [OF disjI2 assms(2)] by simp
next
  case step_jit
  then show ?thesis using jit_advances by simp
next
  case (step_registration runner)
  then show ?thesis using registration_advances by simp
next
  case step_runner_start
  then show ?thesis using runner_start_advances by simp
next
  case (step_ready runner)
  then show ?thesis using ready_advances [OF _ assms(2)] by simp
next
  case (step_assigned job)
  then show ?thesis using assigned_advances [OF _ assms(2)] by simp
next
  case (step_running runner job)
  then show ?thesis using running_advances [OF _ assms(2)] by simp
next
  case (step_terminal runner_opt job result)
  then show ?thesis using terminal_advances by simp
next
  case step_begin_cleanup
  then show ?thesis using begin_cleanup_advances by simp
next
  case (step_advance_cleanup phase)
  then show ?thesis using advance_cleanup_advances by simp
qed

lemma reserved_valid: "attempt_validate (attempt_reserved a c v n q t) = Inr ()"
  by (simp add: attempt_validate_ok_iff attempt_reserved_def carries_evidence_def)

text \<open>The revision is paid for by phases and evidence.\<close>

definition revision_paid :: "attempt_state \<Rightarrow> bool" where
  "revision_paid s \<longleftrightarrow> rev_of s \<le> 1 + phase_rank (as_phase s) + evidence_count s"

lemma reachable_valid_paid:
  "attempt_reachable s \<Longrightarrow> attempt_validate s = Inr () \<and> revision_paid s"
proof (induction rule: attempt_reachable.induct)
  case (attempt_created a c v n q t)
  then show ?case by (simp add: reserved_valid) (simp add: revision_paid_def attempt_reserved_def)
next
  case (attempt_stepped s s')
  then show ?case
    using attempt_step_advances [of s s'] by (auto simp: attempt_advance_def revision_paid_def)
qed

lemma phase_rank_le: "phase_rank p \<le> 11"
  by (cases p) auto

lemma reachable_revision_le: "attempt_reachable s \<Longrightarrow> rev_of s \<le> 18"
  using reachable_valid_paid [of s] phase_rank_le [of "as_phase s"] evidence_count_le [of s]
  by (simp add: revision_paid_def)

lemma option_kept_trans: "option_kept x y \<Longrightarrow> option_kept y z \<Longrightarrow> option_kept x z"
  by (auto simp: option_kept_def)

lemma evidence_kept_trans:
  assumes "evidence_kept s t" and "evidence_kept t u" shows "evidence_kept s u"
  using assms unfolding evidence_kept_def
  by (elim conjE) (intro conjI impI; (erule (1) option_kept_trans | blast))

lemma steps_keep:
  assumes "attempt_step\<^sup>*\<^sup>* s s'" and "attempt_validate s = Inr ()"
  shows "attempt_validate s' = Inr () \<and> same_attempt s s' \<and> evidence_kept s s' \<and>
    phase_rank (as_phase s) \<le> phase_rank (as_phase s') \<and> rev_of s \<le> rev_of s'"
  using assms(1)
proof (induction rule: rtranclp_induct)
  case base
  then show ?case using assms(2) by (simp add: same_attempt_def evidence_kept_def)
next
  case (step t u)
  then consider "u = t" | "attempt_advance t u" using attempt_step_advances by blast
  then show ?case
  proof cases
    case 2
    then have t: "attempt_validate u = Inr ()" "same_attempt t u" "evidence_kept t u"
      "phase_rank (as_phase t) \<le> phase_rank (as_phase u)" "rev_of u = rev_of t + 1"
      by (simp_all add: attempt_advance_def)
    have "evidence_kept s u" using evidence_kept_trans t(3) step.IH by blast
    with t step.IH show ?thesis by (simp add: same_attempt_def)
  qed (use step.IH in simp)
qed

text \<open>The cleanup steps of a provisioned attempt always succeed.\<close>

lemma begin_cleanup_succeeds:
  assumes "attempt_validate s = Inr ()" and "as_vm_identity s \<noteq> None" and "rev_of s < 1000000000000"
    and "as_phase s \<in> {CloneStarted, Registering, Waiting, Assigned, Running, Terminal}"
  shows "\<exists>s'. begin_cleanup s = Inr s' \<and> as_phase s' = Destroying"
proof -
  let ?s' = "s\<lparr>as_revision := DisposableAttemptRevision (rev_of s + 1), as_runner_id := as_runner_id s,
      as_phase := Destroying, as_github_job_id := as_github_job_id s, as_result := as_result s\<rparr>"
  have "5 \<le> rev_of s + 1" using assms(1,2,4) unfolding attempt_validate_ok_iff by auto
  then have "attempt_validate ?s' = Inr ()"
    using assms(1,2) unfolding attempt_validate_ok_iff by simp
  then have "advance_with s Destroying (as_runner_id s) (as_github_job_id s) (as_result s) = Inr ?s'"
    using assms(3) by (simp add: advance_with_ok)
  then show ?thesis using assms(4) by (intro exI [of _ ?s']) (auto simp: begin_cleanup_def)
qed

lemma advance_cleanup_succeeds:
  assumes "attempt_validate s = Inr ()" and "rev_of s < 1000000000000"
    and "(as_phase s, p) \<in> {(Destroying, Deregistering), (Deregistering, Releasing), (Releasing, Complete)}"
  shows "\<exists>s'. advance_cleanup s p = Inr s' \<and> as_phase s' = p"
proof -
  let ?s' = "s\<lparr>as_revision := DisposableAttemptRevision (rev_of s + 1), as_runner_id := as_runner_id s,
      as_phase := p, as_github_job_id := as_github_job_id s, as_result := as_result s\<rparr>"
  have "attempt_validate ?s' = Inr ()"
    using assms(1,3) unfolding attempt_validate_ok_iff by auto
  then have "advance_with s p (as_runner_id s) (as_github_job_id s) (as_result s) = Inr ?s'"
    using assms(2) by (simp add: advance_with_ok)
  then show ?thesis using assms(3) by (intro exI [of _ ?s']) (auto simp: advance_cleanup_def)
qed

lemma complete_unprovisioned_succeeds:
  assumes "attempt_validate s = Inr ()" and "rev_of s < 1000000000000"
    and "as_phase s \<in> {Reserved, CloneAuthorized, UnprovisionedReleasing}"
  shows "\<exists>s'. complete_unprovisioned s = Inr s' \<and> as_phase s' = Complete"
proof -
  let ?s' = "s\<lparr>as_revision := DisposableAttemptRevision (rev_of s + 1), as_runner_id := None,
      as_phase := Complete, as_github_job_id := None, as_result := None\<rparr>"
  have "attempt_validate ?s' = Inr ()"
    using assms(1,3) valid_before_clone [OF assms(1,3)] unfolding attempt_validate_ok_iff
    by (auto simp: carries_evidence_def)
  then have "advance_with s Complete None None None = Inr ?s'"
    using assms(2) by (simp add: advance_with_ok)
  then show ?thesis using assms(3) by (intro exI [of _ ?s']) (auto simp: complete_unprovisioned_def)
qed

lemma bind_succeeds:
  assumes "attempt_validate s = Inr ()" and "as_phase s = CloneStarted" and "as_vm_identity s = None"
  shows "\<exists>s'. bind_vm_identity_after_clone s identity = Inr s' \<and> as_phase s' = CloneStarted \<and>
    as_vm_identity s' = Some identity"
proof -
  let ?s' = "s\<lparr>as_revision := DisposableAttemptRevision (rev_of s + 1), as_vm_identity := Some identity\<rparr>"
  have r: "rev_of s = 3" and "attempt_validate ?s' = Inr ()"
    using assms unfolding attempt_validate_ok_iff by auto
  then show ?thesis using assms(2,3)
    by (intro exI [of _ ?s']) (auto simp: bind_vm_identity_after_clone_def attempt_revision_next_ok Let_def)
qed

lemma complete_after_step:
  assumes "attempt_step t u" and "\<exists>s'. attempt_step\<^sup>*\<^sup>* u s' \<and> as_phase s' = Complete"
  shows "\<exists>s'. attempt_step\<^sup>*\<^sup>* t s' \<and> as_phase s' = Complete"
  using assms by (blast intro: converse_rtranclp_into_rtranclp)

lemma cleanup_reaches_complete:
  assumes "attempt_reachable s" and "as_phase s \<in> {Destroying, Deregistering, Releasing}"
  shows "\<exists>s'. attempt_step\<^sup>*\<^sup>* s s' \<and> as_phase s' = Complete"
proof -
  have one: "\<exists>t'. attempt_reachable t' \<and> attempt_step t t' \<and> as_phase t' = p"
    if "attempt_reachable t"
      "(as_phase t, p) \<in> {(Destroying, Deregistering), (Deregistering, Releasing), (Releasing, Complete)}" for t p
    using advance_cleanup_succeeds [of t p] reachable_valid_paid [OF that(1)] reachable_revision_le [OF that(1)] that
    by (auto intro: attempt_stepped dest: step_advance_cleanup)
  have releasing: "\<exists>s'. attempt_step\<^sup>*\<^sup>* t s' \<and> as_phase s' = Complete"
    if "attempt_reachable t" "as_phase t = Releasing" for t
    using one [of t Complete] that by blast
  have dereg: "\<exists>s'. attempt_step\<^sup>*\<^sup>* t s' \<and> as_phase s' = Complete"
    if "attempt_reachable t" "as_phase t = Deregistering" for t
    using one [of t Releasing] that by (auto intro: complete_after_step releasing)
  show ?thesis
    using one [of s Deregistering] assms by (auto intro: complete_after_step dereg releasing)
qed

section \<open>Properties\<close>

text \<open>
  C27. Every attempt the code can produce passes its own validation, and its revision is paid for:
  it is at most one plus the rank of its phase plus the number of pieces of evidence it carries,
  hence at most 18. So the revision space of \<open>10\<^sup>12\<close> can not be exhausted and computing the next
  revision never fails.
\<close>
theorem attempt_revision_bounded:
  assumes "attempt_reachable s"
  shows "attempt_validate s = Inr () \<and>
    rev_of s \<le> 1 + phase_rank (as_phase s) + evidence_count s \<and> rev_of s \<le> 18 \<and>
    attempt_revision_next (as_revision s) = Inr (DisposableAttemptRevision (rev_of s + 1))"
  using reachable_valid_paid [OF assms] reachable_revision_le [OF assms]
  by (simp add: revision_paid_def attempt_revision_next_ok)

definition example_attempt :: attempt_state where
  "example_attempt = attempt_reserved (DisposableAttemptId ''a-1'') (CapacityClaimId ''c-1'') (DisposableVmId ''v-1'')
     (ScaleSetRunnerName ''r-1'') (ScaleSetRunnerRequestId 7) (EpochMillis 1000)"

theorem attempt_revision_bounded_witness: "rev_of example_attempt \<le> 18"
  using attempt_revision_bounded [OF attempt_created [of "DisposableAttemptId ''a-1''" "CapacityClaimId ''c-1''"
      "DisposableVmId ''v-1''" "ScaleSetRunnerName ''r-1''" "ScaleSetRunnerRequestId 7" "EpochMillis 1000"]]
  by (simp add: example_attempt_def)

text \<open>
  C28. No sequence of transitions changes what an attempt is or forgets what was recorded: the
  attempt, claim, VM, runner-name, request and deadline stay; VM identity, runner, job and result
  stay as first recorded; the JIT and runner-start checkpoints are never undone; phases only go
  forward and the revision never falls.
\<close>
theorem attempt_history_monotone:
  assumes "attempt_validate s = Inr ()" and "attempt_step\<^sup>*\<^sup>* s s'"
  shows "same_attempt s s' \<and> evidence_kept s s' \<and>
    phase_rank (as_phase s) \<le> phase_rank (as_phase s') \<and> rev_of s \<le> rev_of s'"
  using steps_keep [OF assms(2,1)] by blast

theorem attempt_history_monotone_witness:
  "same_attempt example_attempt
     (example_attempt\<lparr>as_revision := DisposableAttemptRevision 2, as_phase := CloneAuthorized\<rparr>)"
proof -
  have "authorize_clone example_attempt =
    Inr (example_attempt\<lparr>as_revision := DisposableAttemptRevision 2, as_phase := CloneAuthorized\<rparr>)"
    by (simp add: authorize_clone_def advance_phase_def advance_with_ok attempt_validate_ok_iff
        example_attempt_def attempt_reserved_def carries_evidence_def)
  from attempt_history_monotone [OF _ r_into_rtranclp, OF _ step_authorize_clone [OF this]] reserved_valid
  show ?thesis by (simp add: example_attempt_def)
qed

text \<open>
  C26. An attempt can always be finished: from every state the code can reach, some sequence of its
  transitions ends in \<open>Complete\<close>.
\<close>
theorem attempt_can_complete:
  assumes "attempt_reachable s"
  shows "\<exists>s'. attempt_step\<^sup>*\<^sup>* s s' \<and> as_phase s' = Complete"
proof -
  note valid = reachable_valid_paid [THEN conjunct1] and small = reachable_revision_le
  have provisioned: "\<exists>s'. attempt_step\<^sup>*\<^sup>* t s' \<and> as_phase s' = Complete"
    if t: "attempt_reachable t" "as_vm_identity t \<noteq> None"
      "as_phase t \<in> {CloneStarted, Registering, Waiting, Assigned, Running, Terminal}" for t
  proof -
    obtain u where u: "begin_cleanup t = Inr u" "as_phase u = Destroying"
      using begin_cleanup_succeeds [OF valid [OF t(1)] t(2) _ t(3)] small [OF t(1)] by auto
    then have "attempt_reachable u" using t(1) by (blast intro: attempt_stepped step_begin_cleanup)
    then show ?thesis
      using complete_after_step [OF step_begin_cleanup [OF u(1)]] cleanup_reaches_complete [of u] u by simp
  qed
  consider "as_phase s = Complete" | "as_phase s \<in> {Destroying, Deregistering, Releasing}"
    | "as_phase s \<in> {Reserved, CloneAuthorized, UnprovisionedReleasing}"
    | "as_phase s = CloneStarted" "as_vm_identity s = None"
    | "as_vm_identity s \<noteq> None" "as_phase s \<in> {CloneStarted, Registering, Waiting, Assigned, Running, Terminal}"
    using valid [OF assms] unfolding attempt_validate_ok_iff by (cases "as_phase s") auto
  then show ?thesis
  proof cases
    case 3
    then show ?thesis
      using complete_unprovisioned_succeeds [OF valid [OF assms]] small [OF assms]
      by (auto dest: step_complete_unprovisioned)
  next
    case 4
    obtain u where u: "bind_vm_identity_after_clone s (DisposableVmIdentity (Sha256Digest [])) = Inr u"
      "as_phase u = CloneStarted" "as_vm_identity u \<noteq> None"
      using bind_succeeds [OF valid [OF assms] 4] by blast
    then have "attempt_reachable u" using assms by (blast intro: attempt_stepped step_bind)
    then show ?thesis using complete_after_step [OF step_bind [OF u(1)]] provisioned [of u] u by simp
  qed (use provisioned cleanup_reaches_complete assms in blast)+
qed

theorem attempt_can_complete_witness:
  "\<exists>s'. attempt_step\<^sup>*\<^sup>* example_attempt s' \<and> as_phase s' = Complete"
  unfolding example_attempt_def by (rule attempt_can_complete) (rule attempt_created)

end
