(* ===== verification/Attempt_Codec.thy ===== *)
theory Attempt_Codec
  imports Attempt_State
begin

text \<open>
  The durable document of a disposable attempt: the second half of
  \<open>src/disposable_attempt_state.rs\<close>. The JSON layer (serde) is a parameter.
\<close>

section \<open>The wire document\<close>

record attempt_wire =
  aw_schema_version :: nat
  aw_revision :: nat
  aw_attempt_id :: string
  aw_capacity_claim_id :: string
  aw_vm_id :: string
  aw_vm_identity_digest :: "string option"
  aw_runner_name :: string
  aw_runner_request_id :: nat
  aw_runner_id :: "nat option"
  aw_jit_generation_started :: bool
  aw_runner_start_started :: bool
  aw_phase :: string
  aw_github_job_id :: "string option"
  aw_result :: "string option"
  aw_not_after :: nat

fun phase_name :: "disposable_attempt_phase \<Rightarrow> string" where
  "phase_name Reserved = ''reserved''"
| "phase_name UnprovisionedReleasing = ''unprovisioned_releasing''"
| "phase_name Provisioning = ''provisioning''"
| "phase_name CloneAuthorized = ''clone_authorized''"
| "phase_name CloneStarted = ''clone_started''"
| "phase_name Registering = ''registering''"
| "phase_name Waiting = ''waiting''"
| "phase_name Assigned = ''assigned''"
| "phase_name Running = ''running''"
| "phase_name Terminal = ''terminal''"
| "phase_name Destroying = ''destroying''"
| "phase_name Deregistering = ''deregistering''"
| "phase_name Releasing = ''releasing''"
| "phase_name Complete = ''complete''"

definition parse_phase :: "string \<Rightarrow> attempt_error + disposable_attempt_phase" where
  "parse_phase v =
     (if v = ''reserved'' then Inr Reserved
      else if v = ''unprovisioned_releasing'' then Inr UnprovisionedReleasing
      else if v = ''provisioning'' then Inr Provisioning
      else if v = ''clone_authorized'' then Inr CloneAuthorized
      else if v = ''clone_started'' then Inr CloneStarted
      else if v = ''registering'' then Inr Registering
      else if v = ''waiting'' then Inr Waiting
      else if v = ''assigned'' then Inr Assigned
      else if v = ''running'' then Inr Running
      else if v = ''terminal'' then Inr Terminal
      else if v = ''destroying'' then Inr Destroying
      else if v = ''deregistering'' then Inr Deregistering
      else if v = ''releasing'' then Inr Releasing
      else if v = ''complete'' then Inr Complete
      else Inl InvalidDocument)"

definition attempt_to_wire :: "attempt_state \<Rightarrow> attempt_wire" where
  "attempt_to_wire s =
     \<lparr>aw_schema_version = as_schema_version s,
      aw_revision = rev_of s,
      aw_attempt_id = attempt_id_str (as_attempt_id s),
      aw_capacity_claim_id = worker_claim_id_str (as_capacity_claim_id s),
      aw_vm_id = vm_id_str (as_vm_id s),
      aw_vm_identity_digest = map_option vm_identity_str (as_vm_identity s),
      aw_runner_name = runner_name_str (as_runner_name s),
      aw_runner_request_id = runner_request_id_get (as_runner_request_id s),
      aw_runner_id = map_option runner_id_get (as_runner_id s),
      aw_jit_generation_started = as_jit_generation_started s,
      aw_runner_start_started = as_runner_start_started s,
      aw_phase = phase_name (as_phase s),
      aw_github_job_id = map_option job_id_str (as_github_job_id s),
      aw_result = map_option job_result_str (as_result s),
      aw_not_after = epoch_get (as_not_after s)\<rparr>"

definition encode_disposable_attempt_state ::
  "(attempt_wire \<Rightarrow> 'j + string) \<Rightarrow> attempt_state \<Rightarrow> attempt_error + string" where
  "encode_disposable_attempt_state to_json s =
     try_res (attempt_validate s) (\<lambda>_.
     try_res (map_err (\<lambda>_. InvalidDocument) (to_json (attempt_to_wire s))) (\<lambda>encoded.
     if MAX_DISPOSABLE_ATTEMPT_STATE_BYTES < length encoded then Inl DocumentTooLarge
     else Inr encoded))"

text \<open>\<open>Option::map(parse).transpose()\<close>.\<close>

definition parse_opt :: "('a \<Rightarrow> 'e + 'b) \<Rightarrow> 'a option \<Rightarrow> attempt_error + 'b option" where
  "parse_opt p x =
     (case x of
        None \<Rightarrow> Inr None
      | Some v \<Rightarrow> try_res (map_err (\<lambda>_. InvalidDocument) (p v)) (\<lambda>r. Inr (Some r)))"

definition parse_doc :: "('a \<Rightarrow> 'e + 'b) \<Rightarrow> 'a \<Rightarrow> attempt_error + 'b" where
  "parse_doc p v = map_err (\<lambda>_. InvalidDocument) (p v)"

text \<open>
  \<open>from_slice\<close> is applied twice to the same bytes, first for the version alone: the parameters
  \<open>version_json\<close> and \<open>from_json\<close>.
\<close>

definition decode_disposable_attempt_state ::
  "(string \<Rightarrow> 'j + nat) \<Rightarrow> (string \<Rightarrow> 'j + attempt_wire) \<Rightarrow> string \<Rightarrow> attempt_error + attempt_state" where
  "decode_disposable_attempt_state version_json from_json bytes =
     (if MAX_DISPOSABLE_ATTEMPT_STATE_BYTES < length bytes then Inl DocumentTooLarge
      else
        try_res (map_err (\<lambda>_. InvalidDocument) (version_json bytes)) (\<lambda>version.
        if version \<noteq> DISPOSABLE_ATTEMPT_STATE_SCHEMA_VERSION then Inl VersionIncompatible
        else
          try_res (map_err (\<lambda>_. InvalidDocument) (from_json bytes)) (\<lambda>w.
          try_res (attempt_revision_new (aw_revision w)) (\<lambda>revision.
          try_res (parse_doc attempt_id_parse (aw_attempt_id w)) (\<lambda>attempt_id.
          try_res (parse_doc worker_claim_id_parse (aw_capacity_claim_id w)) (\<lambda>claim_id.
          try_res (parse_doc vm_id_parse (aw_vm_id w)) (\<lambda>vm_id.
          try_res (parse_opt vm_identity_parse (aw_vm_identity_digest w)) (\<lambda>vm_identity.
          try_res (parse_doc runner_name_parse (aw_runner_name w)) (\<lambda>runner_name.
          try_res (parse_doc runner_request_id_new (aw_runner_request_id w)) (\<lambda>request_id.
          try_res (parse_opt runner_id_new (aw_runner_id w)) (\<lambda>runner_id.
          try_res (parse_phase (aw_phase w)) (\<lambda>phase.
          try_res (parse_opt job_id_parse (aw_github_job_id w)) (\<lambda>job_id.
          try_res (parse_opt job_result_parse (aw_result w)) (\<lambda>result.
          try_res (parse_doc epoch_millis_new (aw_not_after w)) (\<lambda>not_after.
          let s = \<lparr>as_schema_version = aw_schema_version w, as_revision = revision,
                   as_attempt_id = attempt_id, as_capacity_claim_id = claim_id, as_vm_id = vm_id,
                   as_vm_identity = vm_identity, as_runner_name = runner_name,
                   as_runner_request_id = request_id, as_runner_id = runner_id,
                   as_jit_generation_started = aw_jit_generation_started w,
                   as_runner_start_started = aw_runner_start_started w, as_phase = phase,
                   as_github_job_id = job_id, as_result = result, as_not_after = not_after\<rparr>
          in try_res (attempt_validate s) (\<lambda>_. Inr s))))))))))))))))"

section \<open>Lemmas\<close>

lemma parse_phase_name [simp]: "parse_phase (phase_name p) = Inr p"
  by (cases p) (simp_all add: parse_phase_def)

lemma parse_phase_ok: "parse_phase v = Inr p \<Longrightarrow> phase_name p = v"
  by (auto simp: parse_phase_def split: if_splits)

text \<open>Every parser keeps the text or number it was given.\<close>

lemma parsers_keep:
  "attempt_id_parse v = Inr a \<Longrightarrow> attempt_id_str a = v"
  "worker_claim_id_parse v = Inr c \<Longrightarrow> worker_claim_id_str c = v"
  "vm_id_parse v = Inr i \<Longrightarrow> vm_id_str i = v"
  "vm_identity_parse v = Inr d \<Longrightarrow> vm_identity_str d = v"
  "runner_name_parse v = Inr n \<Longrightarrow> runner_name_str n = v"
  "runner_request_id_new k = Inr q \<Longrightarrow> runner_request_id_get q = k"
  "runner_id_new k = Inr r \<Longrightarrow> runner_id_get r = k"
  "job_id_parse v = Inr j \<Longrightarrow> job_id_str j = v"
  "job_result_parse v = Inr x \<Longrightarrow> job_result_str x = v"
  "epoch_millis_new k = Inr t \<Longrightarrow> epoch_get t = k"
  "attempt_revision_new k = Inr m \<Longrightarrow> revision_get m = k"
  by (auto simp: attempt_id_parse_def worker_claim_id_parse_def vm_id_parse_def vm_identity_parse_def
      vm_identity_str_def sha256_digest_parse_def runner_name_parse_def runner_request_id_new_def
      runner_id_new_def job_id_parse_def job_result_parse_def epoch_millis_new_def attempt_revision_new_def
      map_err_def try_res_def validate_worker_identifier_def split: if_splits option.splits sum.splits)

text \<open>The values of an attempt are results of their parsers, as the private fields ensure.\<close>

definition opt_parsed :: "('a \<Rightarrow> 'e + 'b) \<Rightarrow> ('b \<Rightarrow> 'a) \<Rightarrow> 'b option \<Rightarrow> bool" where
  "opt_parsed p str x = (case x of None \<Rightarrow> True | Some v \<Rightarrow> p (str v) = Inr v)"

definition attempt_parsed :: "attempt_state \<Rightarrow> bool" where
  "attempt_parsed s \<longleftrightarrow>
     attempt_revision_new (rev_of s) = Inr (as_revision s) \<and>
     attempt_id_parse (attempt_id_str (as_attempt_id s)) = Inr (as_attempt_id s) \<and>
     worker_claim_id_parse (worker_claim_id_str (as_capacity_claim_id s)) = Inr (as_capacity_claim_id s) \<and>
     vm_id_parse (vm_id_str (as_vm_id s)) = Inr (as_vm_id s) \<and>
     opt_parsed vm_identity_parse vm_identity_str (as_vm_identity s) \<and>
     runner_name_parse (runner_name_str (as_runner_name s)) = Inr (as_runner_name s) \<and>
     runner_request_id_new (runner_request_id_get (as_runner_request_id s)) = Inr (as_runner_request_id s) \<and>
     opt_parsed runner_id_new runner_id_get (as_runner_id s) \<and>
     opt_parsed job_id_parse job_id_str (as_github_job_id s) \<and>
     opt_parsed job_result_parse job_result_str (as_result s) \<and>
     epoch_millis_new (epoch_get (as_not_after s)) = Inr (as_not_after s)"

lemma parse_opt_parsed: "opt_parsed p str x \<Longrightarrow> parse_opt p (map_option str x) = Inr x"
  by (cases x) (simp_all add: opt_parsed_def parse_opt_def)

lemma parse_opt_ok:
  assumes "parse_opt p w = Inr x" and "\<And>v y. p v = Inr y \<Longrightarrow> str y = v"
  shows "w = map_option str x \<and> opt_parsed p str x"
proof (cases w)
  case (Some v)
  then obtain y where "p v = Inr y" "x = Some y" using assms(1)
    by (cases "p v") (auto simp: parse_opt_def map_err_def try_res_def)
  with assms(2) [of v y] Some show ?thesis by (simp add: opt_parsed_def)
qed (use assms(1) in \<open>simp add: parse_opt_def opt_parsed_def\<close>)

lemma parse_doc_iff [simp]: "parse_doc p v = Inr x \<longleftrightarrow> p v = Inr x"
  by (cases "p v") (auto simp: parse_doc_def map_err_def)

lemma decode_ok:
  assumes "decode_disposable_attempt_state version_json from_json bytes = Inr s"
  shows "\<exists>w. from_json bytes = Inr w \<and> attempt_validate s = Inr () \<and>
    aw_schema_version w = as_schema_version s \<and>
    attempt_revision_new (aw_revision w) = Inr (as_revision s) \<and>
    attempt_id_parse (aw_attempt_id w) = Inr (as_attempt_id s) \<and>
    worker_claim_id_parse (aw_capacity_claim_id w) = Inr (as_capacity_claim_id s) \<and>
    vm_id_parse (aw_vm_id w) = Inr (as_vm_id s) \<and>
    parse_opt vm_identity_parse (aw_vm_identity_digest w) = Inr (as_vm_identity s) \<and>
    runner_name_parse (aw_runner_name w) = Inr (as_runner_name s) \<and>
    runner_request_id_new (aw_runner_request_id w) = Inr (as_runner_request_id s) \<and>
    parse_opt runner_id_new (aw_runner_id w) = Inr (as_runner_id s) \<and>
    aw_jit_generation_started w = as_jit_generation_started s \<and>
    aw_runner_start_started w = as_runner_start_started s \<and>
    parse_phase (aw_phase w) = Inr (as_phase s) \<and>
    parse_opt job_id_parse (aw_github_job_id w) = Inr (as_github_job_id s) \<and>
    parse_opt job_result_parse (aw_result w) = Inr (as_result s) \<and>
    epoch_millis_new (aw_not_after w) = Inr (as_not_after s)"
  using assms by (auto simp: decode_disposable_attempt_state_def Let_def split: if_splits)

lemma decode_of_wire:
  assumes "attempt_validate s = Inr ()" and "attempt_parsed s"
    and "from_json bytes = Inr (attempt_to_wire s)" and "version_json bytes = Inr (as_schema_version s)"
    and "length bytes \<le> MAX_DISPOSABLE_ATTEMPT_STATE_BYTES"
  shows "decode_disposable_attempt_state version_json from_json bytes = Inr s"
proof -
  have "as_schema_version s = DISPOSABLE_ATTEMPT_STATE_SCHEMA_VERSION"
    using assms(1) by (simp add: attempt_validate_ok_iff)
  with assms show ?thesis
    by (cases s) (simp add: decode_disposable_attempt_state_def attempt_to_wire_def attempt_parsed_def
        parse_opt_parsed parse_doc_def Let_def)
qed

lemma example_attempt_parsed: "attempt_parsed example_attempt"
  by (simp add: attempt_parsed_def example_attempt_def attempt_reserved_def opt_parsed_def
      attempt_revision_new_def MAX_DISPOSABLE_ATTEMPT_REVISION_def attempt_id_parse_def
      worker_claim_id_parse_def vm_id_parse_def validate_worker_identifier_def hyphenated_def
      runner_name_parse_def runner_request_id_new_def epoch_millis_new_def byte_simps)

lemma example_attempt_valid: "attempt_validate example_attempt = Inr ()"
  by (simp add: example_attempt_def reserved_valid)

lemma example_attempt_schema: "as_schema_version example_attempt = DISPOSABLE_ATTEMPT_STATE_SCHEMA_VERSION"
  by (simp add: example_attempt_def attempt_reserved_def)

section \<open>Properties\<close>

text \<open>
  C38. Durable round trip: with a JSON layer that reads back what it wrote, decoding an encoded
  attempt whose values came from their parsers gives the attempt, whatever its phase.
\<close>
theorem attempt_codec_roundtrip:
  assumes json: "\<forall>bytes. to_json (attempt_to_wire s) = Inr bytes \<longrightarrow>
      from_json bytes = Inr (attempt_to_wire s) \<and> version_json bytes = Inr (as_schema_version s)"
    and parsed: "attempt_parsed s"
    and encoded: "encode_disposable_attempt_state to_json s = Inr bytes"
  shows "decode_disposable_attempt_state version_json from_json bytes = Inr s"
  using json encoded
  by (auto simp: encode_disposable_attempt_state_def split: if_splits intro!: decode_of_wire [OF _ parsed])

theorem attempt_codec_roundtrip_witness:
  "decode_disposable_attempt_state (\<lambda>_. (Inr 6 :: unit + nat)) (\<lambda>_. Inr (attempt_to_wire example_attempt)) ''{}'' =
     Inr example_attempt"
  by (rule attempt_codec_roundtrip [where to_json = "\<lambda>_. (Inr ''{}'' :: unit + string)"])
    (simp_all add: example_attempt_parsed example_attempt_schema example_attempt_valid
      encode_disposable_attempt_state_def MAX_DISPOSABLE_ATTEMPT_STATE_BYTES_def
      DISPOSABLE_ATTEMPT_STATE_SCHEMA_VERSION_def)

text \<open>
  C39. What decodes is sound: the attempt is valid, its values came from their parsers, and it
  stands for exactly the wire document that was read, so no two attempts decode from one document
  and none is altered on the way.
\<close>
theorem attempt_decode_sound:
  assumes "decode_disposable_attempt_state version_json from_json bytes = Inr s"
  shows "attempt_validate s = Inr () \<and> attempt_parsed s \<and> from_json bytes = Inr (attempt_to_wire s)"
proof -
  obtain w where "from_json bytes = Inr w" and "attempt_validate s = Inr ()"
    and flags: "aw_schema_version w = as_schema_version s"
      "aw_jit_generation_started w = as_jit_generation_started s"
      "aw_runner_start_started w = as_runner_start_started s"
    and p: "attempt_revision_new (aw_revision w) = Inr (as_revision s)"
      "attempt_id_parse (aw_attempt_id w) = Inr (as_attempt_id s)"
      "worker_claim_id_parse (aw_capacity_claim_id w) = Inr (as_capacity_claim_id s)"
      "vm_id_parse (aw_vm_id w) = Inr (as_vm_id s)"
      "runner_name_parse (aw_runner_name w) = Inr (as_runner_name s)"
      "runner_request_id_new (aw_runner_request_id w) = Inr (as_runner_request_id s)"
      "epoch_millis_new (aw_not_after w) = Inr (as_not_after s)"
      "parse_phase (aw_phase w) = Inr (as_phase s)"
    and o: "parse_opt vm_identity_parse (aw_vm_identity_digest w) = Inr (as_vm_identity s)"
      "parse_opt runner_id_new (aw_runner_id w) = Inr (as_runner_id s)"
      "parse_opt job_id_parse (aw_github_job_id w) = Inr (as_github_job_id s)"
      "parse_opt job_result_parse (aw_result w) = Inr (as_result s)"
    using decode_ok [OF assms] by blast
  moreover note keep = parsers_keep(11) [OF p(1)] parsers_keep(1) [OF p(2)] parsers_keep(2) [OF p(3)]
    parsers_keep(3) [OF p(4)] parsers_keep(5) [OF p(5)] parsers_keep(6) [OF p(6)]
    parsers_keep(10) [OF p(7)] parse_phase_ok [OF p(8)]
    parse_opt_ok [OF o(1) parsers_keep(4)] parse_opt_ok [OF o(2) parsers_keep(7)]
    parse_opt_ok [OF o(3) parsers_keep(8)] parse_opt_ok [OF o(4) parsers_keep(9)]
  ultimately show ?thesis
    by (cases w) (simp add: attempt_parsed_def attempt_to_wire_def)
qed

theorem attempt_decode_sound_witness: "attempt_parsed example_attempt"
proof -
  have "decode_disposable_attempt_state (\<lambda>_. (Inr 6 :: unit + nat))
    (\<lambda>_. Inr (attempt_to_wire example_attempt)) ''{}'' = Inr example_attempt"
    by (rule decode_of_wire [OF example_attempt_valid example_attempt_parsed])
      (simp_all add: example_attempt_schema MAX_DISPOSABLE_ATTEMPT_STATE_BYTES_def
        DISPOSABLE_ATTEMPT_STATE_SCHEMA_VERSION_def)
  from attempt_decode_sound [OF this] show ?thesis by blast
qed

end
