(* ===== verification/Attempt_Catalog.thy ===== *)
theory Attempt_Catalog
  imports Attempt_State
begin

text \<open>
  The catalog of disposable attempts, \<open>src/disposable_attempt_catalog.rs\<close>: the document with its
  reservations and replay history, its validation, the exact-successor checks of the stores, the
  client of the \<open>DisposableAttemptCatalogStore\<close> trait and the in-memory store. An error is its
  \<open>DisposableAttemptCatalogErrorKind\<close>; the fixed message texts are left out. The store trait is a
  record of functions on the store's state, with its laws in the locale \<open>attempt_store\<close>.
\<close>

section \<open>Document\<close>

datatype catalog_error =
    CatAlreadyExists | CatMissing | CatConflict | CatIdentityDrift | CatInvalidAction
  | CatLimitExceeded | CatCorruptState | CatBusy | CatIo | CatUnsafeFilesystem
  | CatVersionIncompatible | CatRecoveryRequired

definition DISPOSABLE_ATTEMPT_CATALOG_SCHEMA_VERSION :: nat where
  "DISPOSABLE_ATTEMPT_CATALOG_SCHEMA_VERSION = 7"
definition MAX_ACTIVE_DISPOSABLE_ATTEMPTS :: nat where
  "MAX_ACTIVE_DISPOSABLE_ATTEMPTS = 64"
definition MAX_DISPOSABLE_ATTEMPT_TOMBSTONES :: nat where
  "MAX_DISPOSABLE_ATTEMPT_TOMBSTONES = 64"
definition MAX_DISPOSABLE_ATTEMPT_CATALOG_REVISION :: nat where
  "MAX_DISPOSABLE_ATTEMPT_CATALOG_REVISION = 1000000000000"

datatype catalog_revision = DisposableAttemptCatalogRevision (catalog_revision_get: nat)

definition catalog_revision_new :: "nat \<Rightarrow> catalog_error + catalog_revision" where
  "catalog_revision_new v =
     (if \<not> (1 \<le> v \<and> v \<le> MAX_DISPOSABLE_ATTEMPT_CATALOG_REVISION) then Inl CatCorruptState
      else Inr (DisposableAttemptCatalogRevision v))"

definition catalog_revision_next :: "catalog_revision \<Rightarrow> catalog_error + catalog_revision" where
  "catalog_revision_next r =
     try_res (ok_or (checked_add_u64 (catalog_revision_get r) 1) CatConflict) (\<lambda>v.
     map_err (\<lambda>_. CatConflict) (catalog_revision_new v))"

datatype prepared_template_identity = DisposablePreparedTemplateIdentity (template_digest: sha256_digest)

record reservation =
  rs_attempt :: attempt_state
  rs_resources :: disposable_worker_resources
  rs_prepared_template_identity :: prepared_template_identity

definition reservation_new ::
  "attempt_state \<Rightarrow> disposable_worker_resources \<Rightarrow> prepared_template_identity \<Rightarrow> catalog_error + reservation" where
  "reservation_new attempt resources template =
     (if as_phase attempt \<noteq> Reserved \<or> rev_of attempt \<noteq> 1 then Inl CatCorruptState
      else Inr \<lparr>rs_attempt = attempt, rs_resources = resources, rs_prepared_template_identity = template\<rparr>)"

record catalog_document =
  cd_schema_version :: nat
  cd_revision :: catalog_revision
  cd_active :: "reservation list"
  cd_tombstones :: "attempt_state list"

abbreviation cat_rev :: "catalog_document \<Rightarrow> nat" where
  "cat_rev d \<equiv> catalog_revision_get (cd_revision d)"

abbreviation rs_id :: "reservation \<Rightarrow> disposable_attempt_id" where
  "rs_id r \<equiv> as_attempt_id (rs_attempt r)"

definition catalog_empty :: catalog_document where
  "catalog_empty =
     \<lparr>cd_schema_version = DISPOSABLE_ATTEMPT_CATALOG_SCHEMA_VERSION,
      cd_revision = DisposableAttemptCatalogRevision 1, cd_active = [], cd_tombstones = []\<rparr>"

definition find_active :: "catalog_document \<Rightarrow> disposable_attempt_id \<Rightarrow> reservation option" where
  "find_active d attempt_id = find (\<lambda>r. rs_id r = attempt_id) (cd_active d)"

definition find_tombstone :: "catalog_document \<Rightarrow> disposable_attempt_id \<Rightarrow> attempt_state option" where
  "find_tombstone d attempt_id = find (\<lambda>a. as_attempt_id a = attempt_id) (cd_tombstones d)"

section \<open>Host usage\<close>

text \<open>The loop of \<open>host_usage\<close>, its four counters as arguments.\<close>

fun host_usage_loop ::
  "nat \<Rightarrow> nat \<Rightarrow> nat \<Rightarrow> nat \<Rightarrow> reservation list \<Rightarrow> catalog_error + nat \<times> nat \<times> nat \<times> nat" where
  "host_usage_loop workers cpu memory disk [] = Inr (workers, cpu, memory, disk)"
| "host_usage_loop workers cpu memory disk (r # rs) =
     (if as_phase (rs_attempt r) = Complete then host_usage_loop workers cpu memory disk rs
      else
        try_res (ok_or (checked_add_u16 workers 1) CatLimitExceeded) (\<lambda>workers'.
        try_res (ok_or (checked_add_u32 cpu (wr_cpu_millis (rs_resources r))) CatLimitExceeded) (\<lambda>cpu'.
        try_res (ok_or (checked_add_u64 memory (wr_memory_bytes (rs_resources r))) CatLimitExceeded) (\<lambda>memory'.
        try_res (ok_or (checked_add_u64 disk (wr_disk_bytes (rs_resources r))) CatLimitExceeded) (\<lambda>disk'.
        host_usage_loop workers' cpu' memory' disk' rs)))))"

definition host_usage :: "catalog_document \<Rightarrow> catalog_error + disposable_host_usage" where
  "host_usage d =
     try_res (host_usage_loop 0 0 0 0 (cd_active d)) (\<lambda>(workers, cpu, memory, disk).
     if workers = 0 then Inr host_usage_zero
     else
       try_res (map_err (\<lambda>_. CatLimitExceeded) (worker_resources_new cpu memory disk)) (\<lambda>resources.
       map_err (\<lambda>_. CatLimitExceeded) (host_usage_new workers resources)))"

section \<open>Validation\<close>

definition represented_revision :: "catalog_document \<Rightarrow> nat option" where
  "represented_revision d =
     Option.bind (try_fold (\<lambda>revision r. checked_add_u64 revision (rev_of (rs_attempt r))) 1 (cd_active d))
       (\<lambda>revision.
          try_fold (\<lambda>revision a.
             Option.bind (checked_add_u64 revision (rev_of a)) (\<lambda>v. checked_add_u64 v 1))
            revision (cd_tombstones d))"

record identity_sets =
  is_attempt_ids :: "disposable_attempt_id set"
  is_claim_ids :: "worker_claim_id set"
  is_vm_ids :: "disposable_vm_id set"
  is_vm_identities :: "disposable_vm_identity set"
  is_runner_names :: "scale_set_runner_name set"
  is_runner_request_ids :: "scale_set_runner_request_id set"
  is_runner_ids :: "scale_set_runner_id set"
  is_job_ids :: "scale_set_job_id set"

text \<open>\<open>opt.is_some_and(|v| !set.insert(v))\<close> and the set it leaves.\<close>

definition opt_seen :: "'a option \<Rightarrow> 'a set \<Rightarrow> bool" where
  "opt_seen x seen = (case x of None \<Rightarrow> False | Some v \<Rightarrow> v \<in> seen)"

definition opt_insert :: "'a option \<Rightarrow> 'a set \<Rightarrow> 'a set" where
  "opt_insert x seen = (case x of None \<Rightarrow> seen | Some v \<Rightarrow> insert v seen)"

fun validate_identities :: "identity_sets \<Rightarrow> attempt_state list \<Rightarrow> catalog_error + unit" where
  "validate_identities seen [] = Inr ()"
| "validate_identities seen (a # as) =
     (if as_attempt_id a \<in> is_attempt_ids seen \<or> as_capacity_claim_id a \<in> is_claim_ids seen
         \<or> as_vm_id a \<in> is_vm_ids seen \<or> as_runner_name a \<in> is_runner_names seen
         \<or> as_runner_request_id a \<in> is_runner_request_ids seen
      then Inl CatCorruptState
      else if opt_seen (as_vm_identity a) (is_vm_identities seen) then Inl CatCorruptState
      else if opt_seen (as_runner_id a) (is_runner_ids seen) then Inl CatCorruptState
      else if opt_seen (as_github_job_id a) (is_job_ids seen) then Inl CatCorruptState
      else
        validate_identities
          \<lparr>is_attempt_ids = insert (as_attempt_id a) (is_attempt_ids seen),
           is_claim_ids = insert (as_capacity_claim_id a) (is_claim_ids seen),
           is_vm_ids = insert (as_vm_id a) (is_vm_ids seen),
           is_vm_identities = opt_insert (as_vm_identity a) (is_vm_identities seen),
           is_runner_names = insert (as_runner_name a) (is_runner_names seen),
           is_runner_request_ids = insert (as_runner_request_id a) (is_runner_request_ids seen),
           is_runner_ids = opt_insert (as_runner_id a) (is_runner_ids seen),
           is_job_ids = opt_insert (as_github_job_id a) (is_job_ids seen)\<rparr> as)"

definition no_identities :: identity_sets where
  "no_identities =
     \<lparr>is_attempt_ids = {}, is_claim_ids = {}, is_vm_ids = {}, is_vm_identities = {}, is_runner_names = {},
      is_runner_request_ids = {}, is_runner_ids = {}, is_job_ids = {}\<rparr>"

abbreviation catalog_attempts :: "catalog_document \<Rightarrow> attempt_state list" where
  "catalog_attempts d \<equiv> map rs_attempt (cd_active d) @ cd_tombstones d"

definition catalog_validate :: "catalog_document \<Rightarrow> catalog_error + unit" where
  "catalog_validate d =
     (if cd_schema_version d \<noteq> DISPOSABLE_ATTEMPT_CATALOG_SCHEMA_VERSION then Inl CatCorruptState
      else if MAX_ACTIVE_DISPOSABLE_ATTEMPTS < length (cd_active d)
           \<or> MAX_DISPOSABLE_ATTEMPT_TOMBSTONES < length (cd_tombstones d)
        then Inl CatCorruptState
      else
        try_res (ok_or (represented_revision d) CatCorruptState) (\<lambda>represented.
        let revision_is_consistent =
              (if length (cd_tombstones d) < MAX_DISPOSABLE_ATTEMPT_TOMBSTONES
               then cat_rev d = represented else represented \<le> cat_rev d)
        in if \<not> revision_is_consistent then Inl CatCorruptState
           else if \<exists>r \<in> set (cd_active d). as_phase (rs_attempt r) = Reserved \<and> rev_of (rs_attempt r) \<noteq> 1
             then Inl CatCorruptState
           else
             try_res (validate_identities no_identities (catalog_attempts d)) (\<lambda>_.
             if \<exists>a \<in> set (cd_tombstones d). as_phase a \<noteq> Complete then Inl CatCorruptState
             else try_res (host_usage d) (\<lambda>_. Inr ()))))"

section \<open>Operations on the document\<close>

datatype catalog_action =
    BeginProvisioning
  | AuthorizeClone
  | RecordCloneStarted
  | BeginUnprovisionedRelease
  | CompleteUnprovisioned
  | BeginRegistration
  | RecordJitGenerationStarted
  | RecordRegistration scale_set_runner_reference
  | RecordRunnerStartStarted
  | RecordRunnerReady scale_set_runner_reference
  | RecordAssigned scale_set_job_id
  | RecordRunning scale_set_runner_reference scale_set_job_id
  | RecordTerminal "scale_set_runner_reference option" scale_set_job_id scale_set_job_result
  | BeginCleanup
  | AdvanceCleanup disposable_attempt_phase

fun run_action :: "attempt_state \<Rightarrow> catalog_action \<Rightarrow> attempt_error + attempt_state" where
  "run_action s BeginProvisioning = begin_provisioning s"
| "run_action s AuthorizeClone = authorize_clone s"
| "run_action s RecordCloneStarted = record_clone_started s"
| "run_action s BeginUnprovisionedRelease = begin_unprovisioned_release s"
| "run_action s CompleteUnprovisioned = complete_unprovisioned s"
| "run_action s BeginRegistration = begin_registration s"
| "run_action s RecordJitGenerationStarted = record_jit_generation_started s"
| "run_action s (RecordRegistration runner) = record_registration s runner"
| "run_action s RecordRunnerStartStarted = record_runner_start_started s"
| "run_action s (RecordRunnerReady runner) = record_runner_ready s runner"
| "run_action s (RecordAssigned job_id) = record_assigned s job_id"
| "run_action s (RecordRunning runner job_id) = record_running s runner job_id"
| "run_action s (RecordTerminal runner job_id result) = record_terminal s runner job_id result"
| "run_action s BeginCleanup = begin_cleanup s"
| "run_action s (AdvanceCleanup phase) = advance_cleanup s phase"

definition apply_action :: "attempt_state \<Rightarrow> catalog_action \<Rightarrow> catalog_error + attempt_state" where
  "apply_action current action =
     map_err (\<lambda>e. if e = IdentityDrift then CatIdentityDrift else CatInvalidAction) (run_action current action)"

definition doc_reserve :: "catalog_document \<Rightarrow> reservation \<Rightarrow> catalog_error + catalog_document" where
  "doc_reserve d r =
     (case find_active d (rs_id r) of
        Some existing \<Rightarrow> if existing = r then Inr d else Inl CatAlreadyExists
      | None \<Rightarrow>
          if find_tombstone d (rs_id r) \<noteq> None then Inl CatAlreadyExists
          else if MAX_ACTIVE_DISPOSABLE_ATTEMPTS \<le> length (cd_active d) then Inl CatLimitExceeded
          else
            try_res (catalog_revision_next (cd_revision d)) (\<lambda>revision.
            let next' = d\<lparr>cd_revision := revision, cd_active := cd_active d @ [r]\<rparr>
            in try_res (catalog_validate next') (\<lambda>_. Inr next')))"

text \<open>\<open>next.active[index].attempt = successor\<close> under the next revision, validated.\<close>

definition doc_set_attempt ::
  "catalog_document \<Rightarrow> nat \<Rightarrow> attempt_state \<Rightarrow> catalog_error + catalog_document" where
  "doc_set_attempt d index successor =
     try_res (catalog_revision_next (cd_revision d)) (\<lambda>revision.
     let next' = d\<lparr>cd_revision := revision,
                   cd_active := (cd_active d)[index := (cd_active d ! index)\<lparr>rs_attempt := successor\<rparr>]\<rparr>
     in try_res (catalog_validate next') (\<lambda>_. Inr next'))"

definition doc_replace_attempt ::
  "catalog_document \<Rightarrow> disposable_attempt_id \<Rightarrow> attempt_revision \<Rightarrow> catalog_action \<Rightarrow>
   catalog_error + catalog_document" where
  "doc_replace_attempt d attempt_id expected_attempt_revision action =
     try_res (ok_or (position (\<lambda>r. rs_id r = attempt_id) (cd_active d)) CatMissing) (\<lambda>index.
     let current = cd_active d ! index
     in if as_revision (rs_attempt current) \<noteq> expected_attempt_revision then Inl CatConflict
        else
          try_res (apply_action (rs_attempt current) action) (\<lambda>successor.
          if successor = rs_attempt current then Inr d
          else doc_set_attempt d index successor))"

definition doc_retire_complete ::
  "catalog_document \<Rightarrow> disposable_attempt_id \<Rightarrow> attempt_revision \<Rightarrow> catalog_error + catalog_document" where
  "doc_retire_complete d attempt_id expected_attempt_revision =
     try_res (ok_or (position (\<lambda>r. rs_id r = attempt_id) (cd_active d)) CatMissing) (\<lambda>index.
     let current = cd_active d ! index
     in if as_revision (rs_attempt current) \<noteq> expected_attempt_revision then Inl CatConflict
        else if as_phase (rs_attempt current) \<noteq> Complete then Inl CatInvalidAction
        else
          try_res (catalog_revision_next (cd_revision d)) (\<lambda>revision.
          let pushed = cd_tombstones d @ [rs_attempt current];
              next' = d\<lparr>cd_revision := revision,
                        cd_active := take index (cd_active d) @ drop (Suc index) (cd_active d),
                        cd_tombstones := (if MAX_DISPOSABLE_ATTEMPT_TOMBSTONES < length pushed
                                          then tl pushed else pushed)\<rparr>
          in try_res (catalog_validate next') (\<lambda>_. Inr next')))"

definition doc_bind_vm_identity_after_clone ::
  "catalog_document \<Rightarrow> disposable_attempt_id \<Rightarrow> attempt_revision \<Rightarrow> disposable_vm_identity \<Rightarrow>
   catalog_error + catalog_document" where
  "doc_bind_vm_identity_after_clone d attempt_id expected_attempt_revision identity =
     try_res (ok_or (position (\<lambda>r. rs_id r = attempt_id) (cd_active d)) CatMissing) (\<lambda>index.
     let current = cd_active d ! index
     in if as_revision (rs_attempt current) \<noteq> expected_attempt_revision then Inl CatConflict
        else
          try_res (map_err (\<lambda>_. CatInvalidAction)
                    (bind_vm_identity_after_clone (rs_attempt current) identity)) (\<lambda>successor.
          doc_set_attempt d index successor))"

definition checkpoint_clone_started ::
  "catalog_document \<Rightarrow> disposable_attempt_id \<Rightarrow> attempt_revision \<Rightarrow> catalog_error + catalog_document" where
  "checkpoint_clone_started d attempt_id expected_attempt_revision =
     doc_replace_attempt d attempt_id expected_attempt_revision RecordCloneStarted"

section \<open>Exact successors\<close>

text \<open>The pairs that differ, in order: \<open>zip\<close> and \<open>filter\<close>.\<close>

definition changed_pairs :: "catalog_document \<Rightarrow> catalog_document \<Rightarrow> (reservation \<times> reservation) list" where
  "changed_pairs self current = filter (\<lambda>(next', prior). next' \<noteq> prior) (zip (cd_active self) (cd_active current))"

definition validate_successor_of :: "catalog_document \<Rightarrow> catalog_document \<Rightarrow> catalog_error + unit" where
  "validate_successor_of self current =
     try_res (catalog_validate current) (\<lambda>_.
     try_res (catalog_validate self) (\<lambda>_.
     try_res (catalog_revision_next (cd_revision current)) (\<lambda>next_revision.
     if cd_revision self \<noteq> next_revision then Inl CatConflict
     else
       let reservation' =
             (cd_active self \<noteq> [] \<and> length (cd_active self) = length (cd_active current) + 1
              \<and> doc_reserve current (last (cd_active self)) = Inr self);
           transition =
             (if length (cd_active self) = length (cd_active current) \<and> cd_tombstones self = cd_tombstones current
              then (case changed_pairs self current of
                      [(next', prior)] \<Rightarrow>
                        rs_resources next' = rs_resources prior
                        \<and> rs_prepared_template_identity next' = rs_prepared_template_identity prior
                        \<and> is_exact_successor_of (rs_attempt next') (rs_attempt prior)
                    | _ \<Rightarrow> False)
              else False);
           retirement =
             (\<exists>r \<in> set (cd_active current).
                doc_retire_complete current (rs_id r) (as_revision (rs_attempt r)) = Inr self)
       in if reservation' \<or> transition \<or> retirement then Inr () else Inl CatConflict)))"

definition validate_recovery_successor_of :: "catalog_document \<Rightarrow> catalog_document \<Rightarrow> catalog_error + unit" where
  "validate_recovery_successor_of self current =
     (if is_ok (validate_successor_of self current) then Inr ()
      else
        try_res (catalog_validate current) (\<lambda>_.
        try_res (catalog_validate self) (\<lambda>_.
        try_res (catalog_revision_next (cd_revision current)) (\<lambda>next_revision.
        if cd_revision self \<noteq> next_revision \<or> length (cd_active self) \<noteq> length (cd_active current)
           \<or> cd_tombstones self \<noteq> cd_tombstones current
        then Inl CatConflict
        else
          (case changed_pairs self current of
             [(n, prior)] \<Rightarrow>
               if rs_resources n = rs_resources prior
                  \<and> rs_prepared_template_identity n = rs_prepared_template_identity prior
                  \<and> as_phase (rs_attempt prior) = CloneStarted \<and> rev_of (rs_attempt prior) = 3
                  \<and> as_vm_identity (rs_attempt prior) = None
                  \<and> as_phase (rs_attempt n) = CloneStarted \<and> rev_of (rs_attempt n) = 4
                  \<and> as_vm_identity (rs_attempt n) \<noteq> None
                  \<and> as_attempt_id (rs_attempt n) = as_attempt_id (rs_attempt prior)
                  \<and> as_capacity_claim_id (rs_attempt n) = as_capacity_claim_id (rs_attempt prior)
                  \<and> as_vm_id (rs_attempt n) = as_vm_id (rs_attempt prior)
                  \<and> as_runner_name (rs_attempt n) = as_runner_name (rs_attempt prior)
                  \<and> as_runner_request_id (rs_attempt n) = as_runner_request_id (rs_attempt prior)
                  \<and> as_runner_id (rs_attempt n) = as_runner_id (rs_attempt prior)
                  \<and> as_github_job_id (rs_attempt n) = as_github_job_id (rs_attempt prior)
                  \<and> as_result (rs_attempt n) = as_result (rs_attempt prior)
                  \<and> as_not_after (rs_attempt n) = as_not_after (rs_attempt prior)
               then Inr () else Inl CatConflict
           | _ \<Rightarrow> Inl CatConflict)))))"

section \<open>Exact successors of one attempt\<close>

lemma advance_with_fields:
  "advance_with s p r j x = Inr s' \<Longrightarrow>
     as_phase s' = p \<and> as_runner_id s' = r \<and> as_github_job_id s' = j \<and> as_result s' = x \<and>
     as_runner_name s' = as_runner_name s"
  by (auto simp: advance_with_ok)

lemma registration_runner:
  "record_registration s r = Inr s' \<Longrightarrow> as_runner_id s' = Some (rr_id r) \<and> as_runner_name s' = rr_name r"
  by (auto simp: record_registration_def validate_runner_ok dest: advance_with_fields split: if_splits)

lemma ready_runner:
  "record_runner_ready s r = Inr s' \<Longrightarrow> as_runner_id s' = Some (rr_id r) \<and> as_runner_name s' = rr_name r"
  by (auto simp: record_runner_ready_def validate_runner_ok dest: advance_with_fields split: if_splits)

lemma assigned_job: "record_assigned s j = Inr s' \<Longrightarrow> as_github_job_id s' = Some j"
  by (auto simp: record_assigned_def dest: advance_with_fields split: if_splits)

lemma running_runner_job:
  "record_running s r j = Inr s' \<Longrightarrow>
     as_runner_id s' = Some (rr_id r) \<and> as_runner_name s' = rr_name r \<and> as_github_job_id s' = Some j"
  by (auto simp: record_running_def validate_runner_ok dest: advance_with_fields split: if_splits)

lemma terminal_job_result:
  "record_terminal s r j x = Inr s' \<Longrightarrow> as_github_job_id s' = Some j \<and> as_result s' = Some x"
  by (auto simp: record_terminal_def dest: advance_with_fields split: if_splits option.splits)

lemma terminal_runner:
  "record_terminal s (Some r) j x = Inr s' \<Longrightarrow> as_runner_id s' = Some (rr_id r) \<and> as_runner_name s' = rr_name r"
  by (auto simp: record_terminal_def validate_runner_ok dest: advance_with_fields split: if_splits option.splits)

lemma advance_cleanup_phase: "advance_cleanup s p = Inr s' \<Longrightarrow> as_phase s' = p"
  by (auto simp: advance_cleanup_def dest: advance_with_fields split: if_splits)

lemma runner_reference_eta [simp]: "\<lparr>rr_id = rr_id r, rr_name = rr_name r\<rparr> = (r :: scale_set_runner_reference)"
  by (cases r) simp

text \<open>The store's recognition of a successor is exactly the application of one action.\<close>

lemma exact_successor_iff: "is_exact_successor_of s' s \<longleftrightarrow> (\<exists>a. run_action s a = Inr s')"
proof
  assume "is_exact_successor_of s' s"
  then show "\<exists>a. run_action s a = Inr s'"
    unfolding is_exact_successor_of_def Let_def
    by (elim disjE) (auto intro: run_action.simps [THEN trans] split: option.splits)
next
  assume "\<exists>a. run_action s a = Inr s'"
  then obtain a where a: "run_action s a = Inr s'" ..
  show "is_exact_successor_of s' s"
  proof (cases a)
    case (RecordTerminal r j x)
    with a have t: "record_terminal s r j x = Inr s'" by simp
    show ?thesis
    proof (cases r)
      case None
      with t terminal_job_result [OF t] show ?thesis by (simp add: is_exact_successor_of_def Let_def)
    next
      case (Some v)
      with t have "record_terminal s (Some v) j x = Inr s'" by simp
      with terminal_job_result [OF this] terminal_runner [OF this] show ?thesis
        by (simp add: is_exact_successor_of_def Let_def)
    qed
  next
    case (RecordRegistration r)
    with a have t: "record_registration s r = Inr s'" by simp
    with registration_runner [OF t] show ?thesis by (simp add: is_exact_successor_of_def Let_def)
  next
    case (RecordRunnerReady r)
    with a have t: "record_runner_ready s r = Inr s'" by simp
    with ready_runner [OF t] show ?thesis by (simp add: is_exact_successor_of_def Let_def)
  next
    case (RecordAssigned j)
    with a have t: "record_assigned s j = Inr s'" by simp
    with assigned_job [OF t] show ?thesis by (simp add: is_exact_successor_of_def Let_def)
  next
    case (RecordRunning r j)
    with a have t: "record_running s r j = Inr s'" by simp
    with running_runner_job [OF t] show ?thesis by (simp add: is_exact_successor_of_def Let_def)
  next
    case (AdvanceCleanup p)
    with a have t: "advance_cleanup s p = Inr s'" by simp
    with advance_cleanup_phase [OF t] show ?thesis by (simp add: is_exact_successor_of_def Let_def)
  qed (use a in \<open>simp_all add: is_exact_successor_of_def Let_def begin_provisioning_def\<close>)
qed

section \<open>What validation accepts\<close>

lemma catalog_revision_next_ok:
  "catalog_revision_next r = Inr r' \<longleftrightarrow>
     catalog_revision_get r < 1000000000000 \<and> r' = DisposableAttemptCatalogRevision (catalog_revision_get r + 1)"
  by (auto simp: catalog_revision_next_def catalog_revision_new_def
      MAX_DISPOSABLE_ATTEMPT_CATALOG_REVISION_def)

text \<open>The revisions the entries account for.\<close>

definition represented :: "catalog_document \<Rightarrow> nat" where
  "represented d =
     1 + (\<Sum>r\<leftarrow>cd_active d. rev_of (rs_attempt r)) + (\<Sum>a\<leftarrow>cd_tombstones d. rev_of a + 1)"

lemma tombstone_fold:
  "try_fold (\<lambda>v a. Option.bind (checked_add_u64 v (rev_of a)) (\<lambda>v. checked_add_u64 v 1)) n as =
     try_fold (\<lambda>v a. checked_add_u64 v (rev_of a + 1)) n as"
proof -
  have "(\<lambda>v a. Option.bind (checked_add_u64 v (rev_of a)) (\<lambda>v. checked_add_u64 v 1)) =
      (\<lambda>v a. checked_add_u64 v (rev_of a + 1))"
    by (auto simp: fun_eq_iff checked_add_n_def)
  then show ?thesis by simp
qed

lemma represented_revision_Some:
  "represented_revision d = Some v \<longleftrightarrow> v = represented d \<and> represented d < 2 ^ 64"
  unfolding represented_revision_def tombstone_fold try_fold_checked_sum represented_def
  by (auto simp: bind_eq_Some_conv split: if_splits)

text \<open>Two attempts share no identity.\<close>

definition options_apart :: "'a option \<Rightarrow> 'a option \<Rightarrow> bool" where
  "options_apart x y \<longleftrightarrow> x = None \<or> x \<noteq> y"

definition no_shared_identity :: "attempt_state \<Rightarrow> attempt_state \<Rightarrow> bool" where
  "no_shared_identity a b \<longleftrightarrow>
     as_attempt_id a \<noteq> as_attempt_id b \<and> as_capacity_claim_id a \<noteq> as_capacity_claim_id b \<and>
     as_vm_id a \<noteq> as_vm_id b \<and> as_runner_name a \<noteq> as_runner_name b \<and>
     as_runner_request_id a \<noteq> as_runner_request_id b \<and>
     options_apart (as_vm_identity a) (as_vm_identity b) \<and> options_apart (as_runner_id a) (as_runner_id b) \<and>
     options_apart (as_github_job_id a) (as_github_job_id b)"

lemma no_shared_sym: "no_shared_identity a b \<longleftrightarrow> no_shared_identity b a"
  by (auto simp: no_shared_identity_def options_apart_def)

definition not_seen :: "identity_sets \<Rightarrow> attempt_state \<Rightarrow> bool" where
  "not_seen seen a \<longleftrightarrow>
     as_attempt_id a \<notin> is_attempt_ids seen \<and> as_capacity_claim_id a \<notin> is_claim_ids seen \<and>
     as_vm_id a \<notin> is_vm_ids seen \<and> as_runner_name a \<notin> is_runner_names seen \<and>
     as_runner_request_id a \<notin> is_runner_request_ids seen \<and>
     \<not> opt_seen (as_vm_identity a) (is_vm_identities seen) \<and> \<not> opt_seen (as_runner_id a) (is_runner_ids seen) \<and>
     \<not> opt_seen (as_github_job_id a) (is_job_ids seen)"

definition see :: "attempt_state \<Rightarrow> identity_sets \<Rightarrow> identity_sets" where
  "see a seen =
     \<lparr>is_attempt_ids = insert (as_attempt_id a) (is_attempt_ids seen),
      is_claim_ids = insert (as_capacity_claim_id a) (is_claim_ids seen),
      is_vm_ids = insert (as_vm_id a) (is_vm_ids seen),
      is_vm_identities = opt_insert (as_vm_identity a) (is_vm_identities seen),
      is_runner_names = insert (as_runner_name a) (is_runner_names seen),
      is_runner_request_ids = insert (as_runner_request_id a) (is_runner_request_ids seen),
      is_runner_ids = opt_insert (as_runner_id a) (is_runner_ids seen),
      is_job_ids = opt_insert (as_github_job_id a) (is_job_ids seen)\<rparr>"

lemma opt_seen_insert: "opt_seen y (opt_insert x seen) \<longleftrightarrow> opt_seen y seen \<or> \<not> options_apart x y"
  by (auto simp: opt_seen_def opt_insert_def options_apart_def split: option.splits)

lemma not_seen_see: "not_seen (see a seen) b \<longleftrightarrow> not_seen seen b \<and> no_shared_identity a b"
  unfolding not_seen_def see_def no_shared_identity_def by (auto simp: opt_seen_insert)

lemma validate_identities_Cons:
  "validate_identities seen (a # as) =
     (if not_seen seen a then validate_identities (see a seen) as else Inl CatCorruptState)"
  by (simp add: not_seen_def see_def)

declare validate_identities.simps(2) [simp del]

lemma validate_identities_ok:
  "validate_identities seen as = Inr () \<longleftrightarrow> sorted_wrt no_shared_identity as \<and> (\<forall>a\<in>set as. not_seen seen a)"
  by (induction as arbitrary: seen) (auto simp: validate_identities_Cons not_seen_see)

lemma nothing_seen [simp]: "not_seen no_identities a"
  by (simp add: not_seen_def no_identities_def opt_seen_def split: option.splits)

text \<open>The reservations that hold capacity, and what they hold.\<close>

definition live :: "reservation list \<Rightarrow> reservation list" where
  "live rs = filter (\<lambda>r. as_phase (rs_attempt r) \<noteq> Complete) rs"

definition usage_of :: "reservation list \<Rightarrow> disposable_host_usage" where
  "usage_of rs =
     \<lparr>hu_workers = length (live rs),
      hu_resources = \<lparr>wr_cpu_millis = (\<Sum>r\<leftarrow>live rs. wr_cpu_millis (rs_resources r)),
                      wr_memory_bytes = (\<Sum>r\<leftarrow>live rs. wr_memory_bytes (rs_resources r)),
                      wr_disk_bytes = (\<Sum>r\<leftarrow>live rs. wr_disk_bytes (rs_resources r))\<rparr>\<rparr>"

definition resources_bounded :: "disposable_worker_resources \<Rightarrow> bool" where
  "resources_bounded w \<longleftrightarrow>
     1 \<le> wr_cpu_millis w \<and> wr_cpu_millis w \<le> MAX_CPU_MILLIS \<and>
     1 \<le> wr_memory_bytes w \<and> wr_memory_bytes w \<le> MAX_BYTES \<and> 1 \<le> wr_disk_bytes w \<and> wr_disk_bytes w \<le> MAX_BYTES"

definition within_envelope :: "reservation list \<Rightarrow> bool" where
  "within_envelope rs \<longleftrightarrow> live rs = [] \<or> length (live rs) \<le> MAX_WORKERS \<and> resources_bounded (hu_resources (usage_of rs))"

lemma live_simps [simp]:
  "live [] = []"
  "live (r # rs) = (if as_phase (rs_attempt r) = Complete then live rs else r # live rs)"
  "live (rs @ rs') = live rs @ live rs'"
  by (simp_all add: live_def)

lemma host_usage_loop_sound:
  "host_usage_loop w c m k rs = Inr x \<Longrightarrow>
     x = (w + hu_workers (usage_of rs), c + wr_cpu_millis (hu_resources (usage_of rs)),
          m + wr_memory_bytes (hu_resources (usage_of rs)), k + wr_disk_bytes (hu_resources (usage_of rs)))"
proof (induction rs arbitrary: w c m k)
  case (Cons r rs)
  then show ?case
    by (cases "as_phase (rs_attempt r) = Complete")
      (fastforce simp: usage_of_def add.assoc dest!: Cons.IH)+
qed (simp add: usage_of_def)

lemma host_usage_loop_total:
  "w + hu_workers (usage_of rs) < 2 ^ 16 \<Longrightarrow> c + wr_cpu_millis (hu_resources (usage_of rs)) < 2 ^ 32 \<Longrightarrow>
   m + wr_memory_bytes (hu_resources (usage_of rs)) < 2 ^ 64 \<Longrightarrow> k + wr_disk_bytes (hu_resources (usage_of rs)) < 2 ^ 64 \<Longrightarrow>
   \<exists>x. host_usage_loop w c m k rs = Inr x"
proof (induction rs arbitrary: w c m k)
  case (Cons r rs)
  show ?case
  proof (cases "as_phase (rs_attempt r) = Complete")
    case True
    then show ?thesis using Cons by (simp add: usage_of_def)
  next
    case False
    let ?u = "rs_resources r"
    have "\<exists>x. host_usage_loop (w + 1) (c + wr_cpu_millis ?u) (m + wr_memory_bytes ?u) (k + wr_disk_bytes ?u) rs = Inr x"
      by (rule Cons.IH) (use Cons.prems False in \<open>simp_all add: usage_of_def add.assoc\<close>)
    moreover have "w + 1 < 2 ^ 16" "c + wr_cpu_millis ?u < 2 ^ 32" "m + wr_memory_bytes ?u < 2 ^ 64"
      "k + wr_disk_bytes ?u < 2 ^ 64"
      using Cons.prems False by (simp_all add: usage_of_def)
    ultimately show ?thesis using False by (simp add: checked_add_n_def)
  qed
qed simp

lemma host_usage_loop_error: "host_usage_loop w c m k rs = Inl e \<Longrightarrow> e = CatLimitExceeded"
  by (induction rs arbitrary: w c m k) (auto simp: result_simps split: if_splits)

lemma envelope_widths:
  assumes "within_envelope rs"
  shows "hu_workers (usage_of rs) < 2 ^ 16 \<and> wr_cpu_millis (hu_resources (usage_of rs)) < 2 ^ 32 \<and>
    wr_memory_bytes (hu_resources (usage_of rs)) < 2 ^ 64 \<and> wr_disk_bytes (hu_resources (usage_of rs)) < 2 ^ 64"
  using assms
  by (auto simp: within_envelope_def resources_bounded_def usage_of_def MAX_WORKERS_def MAX_CPU_MILLIS_def
      MAX_BYTES_def)

text \<open>The usage is the sum over the live reservations, and it is refused exactly outside the
  envelope of one host.\<close>

lemma host_usage_eq:
  "host_usage d = (if within_envelope (cd_active d) then Inr (usage_of (cd_active d)) else Inl CatLimitExceeded)"
proof (cases "host_usage_loop 0 0 0 0 (cd_active d)")
  case (Inl e)
  then have "\<not> within_envelope (cd_active d)"
    using host_usage_loop_total [of 0 "cd_active d" 0 0 0] envelope_widths [of "cd_active d"] by auto
  with Inl host_usage_loop_error [OF Inl] show ?thesis by (simp add: host_usage_def)
next
  case (Inr x)
  note sums = host_usage_loop_sound [OF Inr]
  show ?thesis
  proof (cases "live (cd_active d) = []")
    case True
    then show ?thesis using Inr sums
      by (simp add: host_usage_def within_envelope_def usage_of_def host_usage_zero_def)
  next
    case False
    then show ?thesis using Inr sums
      by (auto simp: host_usage_def within_envelope_def usage_of_def resources_bounded_def worker_resources_new_def
          host_usage_new_def)
  qed
qed

definition revision_consistent :: "catalog_document \<Rightarrow> bool" where
  "revision_consistent d \<longleftrightarrow>
     (if length (cd_tombstones d) < MAX_DISPOSABLE_ATTEMPT_TOMBSTONES
      then cat_rev d = represented d else represented d \<le> cat_rev d)"

lemma catalog_validate_ok:
  "catalog_validate d = Inr u \<longleftrightarrow>
     cd_schema_version d = DISPOSABLE_ATTEMPT_CATALOG_SCHEMA_VERSION \<and>
     length (cd_active d) \<le> MAX_ACTIVE_DISPOSABLE_ATTEMPTS \<and>
     length (cd_tombstones d) \<le> MAX_DISPOSABLE_ATTEMPT_TOMBSTONES \<and>
     represented d < 2 ^ 64 \<and> revision_consistent d \<and>
     (\<forall>r\<in>set (cd_active d). as_phase (rs_attempt r) = Reserved \<longrightarrow> rev_of (rs_attempt r) = 1) \<and>
     sorted_wrt no_shared_identity (catalog_attempts d) \<and>
     (\<forall>a\<in>set (cd_tombstones d). as_phase a = Complete) \<and> within_envelope (cd_active d)"
  unfolding catalog_validate_def revision_consistent_def
  by (auto simp: represented_revision_Some validate_identities_ok host_usage_eq Let_def not_less
      split: if_splits)

end
