(* ===== verification/Catalog_History.thy ===== *)
theory Catalog_History
  imports Attempt_Catalog
begin

text \<open>
  Histories of the attempt catalog of \<open>src/disposable_attempt_catalog.rs\<close>: every document its
  operations can produce, what holds of all of them, that the revision accounting of the
  validation never refuses an operation that is otherwise legal, and that the stores' check of
  exact successors is exactly the catalog's own operations.
\<close>

section \<open>Steps\<close>

text \<open>Reservations enter with an attempt at its first revision and resources from their constructor.\<close>

inductive catalog_step :: "catalog_document \<Rightarrow> catalog_document \<Rightarrow> bool" where
  step_reserve: "reservation_new attempt resources template = Inr r \<Longrightarrow> attempt_validate attempt = Inr () \<Longrightarrow>
    worker_resources_new cpu memory disk = Inr resources \<Longrightarrow> doc_reserve d r = Inr d' \<Longrightarrow> catalog_step d d'"
| step_transition: "doc_replace_attempt d attempt_id revision action = Inr d' \<Longrightarrow> catalog_step d d'"
| step_retire: "doc_retire_complete d attempt_id revision = Inr d' \<Longrightarrow> catalog_step d d'"
| step_bind_identity: "doc_bind_vm_identity_after_clone d attempt_id revision identity = Inr d' \<Longrightarrow> catalog_step d d'"

inductive catalog_reachable :: "catalog_document \<Rightarrow> bool" where
  catalog_created: "catalog_reachable catalog_empty"
| catalog_stepped: "catalog_reachable d \<Longrightarrow> catalog_step d d' \<Longrightarrow> catalog_reachable d'"

definition catalog_inv :: "catalog_document \<Rightarrow> bool" where
  "catalog_inv d \<longleftrightarrow> catalog_validate d = Inr () \<and>
     (\<forall>a\<in>set (catalog_attempts d). attempt_validate a = Inr ()) \<and>
     (\<forall>r\<in>set (cd_active d). resources_bounded (rs_resources r))"

lemma run_action_step: "run_action s a = Inr s' \<Longrightarrow> attempt_step s s'"
  by (cases a) (auto simp: begin_provisioning_def intro: attempt_step.intros)

lemma run_action_advances:
  "run_action s a = Inr s' \<Longrightarrow> attempt_validate s = Inr () \<Longrightarrow> s' \<noteq> s \<Longrightarrow> attempt_advance s s'"
  using run_action_step attempt_step_advances by blast

lemma bind_advances_attempt:
  "bind_vm_identity_after_clone s i = Inr s' \<Longrightarrow> attempt_validate s = Inr () \<Longrightarrow> attempt_advance s s'"
  using attempt_step_advances [OF step_bind] by (force simp: bind_vm_identity_after_clone_def attempt_revision_next_ok Let_def split: if_splits)

section \<open>The operations on a document\<close>

lemma position_split:
  assumes "position P xs = Some i"
  shows "\<exists>pre x post. xs = pre @ x # post \<and> length pre = i \<and> P x \<and> xs ! i = x"
  using assms id_take_nth_drop [of i xs]
  by (intro exI [of _ "take i xs"] exI [of _ "xs ! i"] exI [of _ "drop (Suc i) xs"])
    (auto simp: position_Some)

lemma set_attempt_ok:
  assumes "cd_active d = pre @ r # post"
  shows "doc_set_attempt d (length pre) s = Inr d' \<longleftrightarrow>
    cat_rev d < 1000000000000 \<and>
    d' = d\<lparr>cd_revision := DisposableAttemptCatalogRevision (cat_rev d + 1),
           cd_active := pre @ r\<lparr>rs_attempt := s\<rparr> # post\<rparr> \<and>
    catalog_validate d' = Inr ()"
  using assms by (auto simp: doc_set_attempt_def catalog_revision_next_ok Let_def)

lemma apply_action_ok: "apply_action s a = Inr s' \<longleftrightarrow> run_action s a = Inr s'"
  by (simp add: apply_action_def)

lemma replace_attempt_ok:
  assumes "doc_replace_attempt d i rv a = Inr d'"
  shows "\<exists>pre r post s'. cd_active d = pre @ r # post \<and> rs_id r = i \<and> as_revision (rs_attempt r) = rv \<and>
    run_action (rs_attempt r) a = Inr s' \<and>
    (s' = rs_attempt r \<and> d' = d \<or> s' \<noteq> rs_attempt r \<and> doc_set_attempt d (length pre) s' = Inr d')"
proof -
  obtain k where k: "position (\<lambda>r. rs_id r = i) (cd_active d) = Some k"
    using assms by (auto simp: doc_replace_attempt_def)
  obtain pre r post where "cd_active d = pre @ r # post" "length pre = k" "rs_id r = i" "cd_active d ! k = r"
    using position_split [OF k] by blast
  with k assms show ?thesis
    by (intro exI [of _ pre] exI [of _ r] exI [of _ post])
      (auto simp: doc_replace_attempt_def Let_def apply_action_ok split: if_splits)
qed

lemma bind_identity_ok:
  assumes "doc_bind_vm_identity_after_clone d i rv identity = Inr d'"
  shows "\<exists>pre r post s'. cd_active d = pre @ r # post \<and> rs_id r = i \<and> as_revision (rs_attempt r) = rv \<and>
    bind_vm_identity_after_clone (rs_attempt r) identity = Inr s' \<and> doc_set_attempt d (length pre) s' = Inr d'"
proof -
  obtain k where k: "position (\<lambda>r. rs_id r = i) (cd_active d) = Some k"
    using assms by (auto simp: doc_bind_vm_identity_after_clone_def)
  obtain pre r post where "cd_active d = pre @ r # post" "length pre = k" "rs_id r = i" "cd_active d ! k = r"
    using position_split [OF k] by blast
  with k assms show ?thesis
    by (intro exI [of _ pre] exI [of _ r] exI [of _ post])
      (auto simp: doc_bind_vm_identity_after_clone_def Let_def split: if_splits)
qed

text \<open>The replay history after one more entry.\<close>

definition pushed_history :: "attempt_state list \<Rightarrow> attempt_state \<Rightarrow> attempt_state list" where
  "pushed_history ts a = (if MAX_DISPOSABLE_ATTEMPT_TOMBSTONES < length ts + 1 then tl (ts @ [a]) else ts @ [a])"

lemma retire_ok:
  assumes "doc_retire_complete d i rv = Inr d'"
  shows "\<exists>pre r post. cd_active d = pre @ r # post \<and> rs_id r = i \<and> as_revision (rs_attempt r) = rv \<and>
    as_phase (rs_attempt r) = Complete \<and> cat_rev d < 1000000000000 \<and>
    d' = d\<lparr>cd_revision := DisposableAttemptCatalogRevision (cat_rev d + 1), cd_active := pre @ post,
           cd_tombstones := pushed_history (cd_tombstones d) (rs_attempt r)\<rparr> \<and>
    catalog_validate d' = Inr ()"
proof -
  obtain k where k: "position (\<lambda>r. rs_id r = i) (cd_active d) = Some k"
    using assms by (auto simp: doc_retire_complete_def)
  obtain pre r post where "cd_active d = pre @ r # post" "length pre = k" "rs_id r = i" "cd_active d ! k = r"
    using position_split [OF k] by blast
  with k assms show ?thesis
    by (intro exI [of _ pre] exI [of _ r] exI [of _ post])
      (auto simp: doc_retire_complete_def Let_def pushed_history_def catalog_revision_next_ok split: if_splits)
qed

lemma reserve_new_ok:
  assumes "doc_reserve d r = Inr d'" and "d' \<noteq> d"
  shows "find_active d (rs_id r) = None \<and> find_tombstone d (rs_id r) = None \<and>
    length (cd_active d) < MAX_ACTIVE_DISPOSABLE_ATTEMPTS \<and> cat_rev d < 1000000000000 \<and>
    d' = d\<lparr>cd_revision := DisposableAttemptCatalogRevision (cat_rev d + 1), cd_active := cd_active d @ [r]\<rparr> \<and>
    catalog_validate d' = Inr ()"
  using assms
  by (auto simp: doc_reserve_def Let_def catalog_revision_next_ok not_le split: option.splits if_splits)

section \<open>The invariant\<close>

lemma pushed_history_subset: "set (pushed_history ts a) \<subseteq> insert a (set ts)"
  by (cases ts) (auto simp: pushed_history_def)

lemma set_attempt_inv:
  assumes inv: "catalog_inv d" and split: "cd_active d = pre @ r # post" and valid: "attempt_validate s = Inr ()"
    and set: "doc_set_attempt d (length pre) s = Inr d'"
  shows "catalog_inv d'"
  using inv valid set split by (auto simp: catalog_inv_def set_attempt_ok [OF split])

lemma step_inv:
  assumes "catalog_step d d'" and inv: "catalog_inv d"
  shows "catalog_inv d'"
  using assms(1)
proof cases
  case (step_reserve attempt resources template r cpu memory disk)
  then have "attempt_validate (rs_attempt r) = Inr ()" "resources_bounded (rs_resources r)"
    by (auto simp: reservation_new_def resources_bounded_def worker_resources_new_ok split: if_splits)
  then show ?thesis
    using inv reserve_new_ok [OF step_reserve(4)] by (cases "d' = d") (auto simp: catalog_inv_def)
next
  case (step_transition i rv a)
  from replace_attempt_ok [OF this] obtain pre r post s' where split: "cd_active d = pre @ r # post"
    and run: "run_action (rs_attempt r) a = Inr s'"
    and d': "s' = rs_attempt r \<and> d' = d \<or> s' \<noteq> rs_attempt r \<and> doc_set_attempt d (length pre) s' = Inr d'" by blast
  have "attempt_validate (rs_attempt r) = Inr ()" using inv split by (simp add: catalog_inv_def)
  with d' run_action_advances [OF run] show ?thesis
    using inv set_attempt_inv [OF inv split] by (auto simp: attempt_advance_def)
next
  case (step_retire i rv)
  from retire_ok [OF this] obtain pre r post where "cd_active d = pre @ r # post" "catalog_validate d' = Inr ()"
    "d' = d\<lparr>cd_revision := DisposableAttemptCatalogRevision (cat_rev d + 1), cd_active := pre @ post,
           cd_tombstones := pushed_history (cd_tombstones d) (rs_attempt r)\<rparr>" by blast
  with inv pushed_history_subset [of "cd_tombstones d" "rs_attempt r"] show ?thesis
    by (auto simp: catalog_inv_def)
next
  case (step_bind_identity i rv identity)
  from bind_identity_ok [OF this] obtain pre r post s' where split: "cd_active d = pre @ r # post"
    and run: "bind_vm_identity_after_clone (rs_attempt r) identity = Inr s'"
    and d': "doc_set_attempt d (length pre) s' = Inr d'" by blast
  have "attempt_validate (rs_attempt r) = Inr ()" using inv split by (simp add: catalog_inv_def)
  with bind_advances_attempt [OF run] show ?thesis
    using set_attempt_inv [OF inv split _ d'] by (simp add: attempt_advance_def)
qed

lemma empty_inv: "catalog_inv catalog_empty"
  by (simp add: catalog_inv_def catalog_validate_ok catalog_empty_def revision_consistent_def represented_def
      within_envelope_def MAX_DISPOSABLE_ATTEMPT_TOMBSTONES_def)

lemma reachable_inv: "catalog_reachable d \<Longrightarrow> catalog_inv d"
  by (induction rule: catalog_reachable.induct) (auto intro: empty_inv step_inv)

section \<open>Nothing legal is refused\<close>

lemma sum_list_pos: "xs \<noteq> [] \<Longrightarrow> \<forall>x\<in>set xs. 1 \<le> f x \<Longrightarrow> 1 \<le> (\<Sum>x\<leftarrow>xs. f x :: nat)"
  by (cases xs) auto

lemma usage_cong:
  assumes "map rs_resources (live rs) = map rs_resources (live rs')"
  shows "usage_of rs = usage_of rs'"
proof -
  have "(\<Sum>r\<leftarrow>live rs. f (rs_resources r)) = (\<Sum>r\<leftarrow>live rs'. f (rs_resources r))" for f :: "_ \<Rightarrow> nat"
    using arg_cong [OF assms, of "\<lambda>us. sum_list (map f us)"] by (simp add: comp_def)
  then show ?thesis using arg_cong [OF assms, of length] by (simp add: usage_of_def)
qed

lemma envelope_cong:
  "map rs_resources (live rs) = map rs_resources (live rs') \<Longrightarrow> within_envelope rs = within_envelope rs'"
  using usage_cong [of rs rs'] by (auto simp: within_envelope_def dest: arg_cong [of _ _ length])

lemma envelope_remove:
  assumes env: "within_envelope (pre @ r # post)" and bounded: "\<forall>x\<in>set (pre @ post). resources_bounded (rs_resources x)"
  shows "within_envelope (pre @ post)"
proof (cases "live (pre @ post) = []")
  case False
  let ?l = "live (pre @ post)"
  have low: "\<forall>x\<in>set ?l. resources_bounded (rs_resources x)" using bounded by (auto simp: live_def)
  have "1 \<le> (\<Sum>x\<leftarrow>?l. wr_cpu_millis (rs_resources x))" "1 \<le> (\<Sum>x\<leftarrow>?l. wr_memory_bytes (rs_resources x))"
    "1 \<le> (\<Sum>x\<leftarrow>?l. wr_disk_bytes (rs_resources x))"
    by (rule sum_list_pos [OF False], use low in \<open>simp add: resources_bounded_def\<close>)+
  then show ?thesis
    using env False by (auto simp: within_envelope_def resources_bounded_def usage_of_def split: if_splits)
qed (simp add: within_envelope_def)

lemma position_here:
  assumes "sorted_wrt no_shared_identity (map rs_attempt (pre @ r # post) @ ts)"
  shows "position (\<lambda>x. rs_id x = rs_id r) (pre @ r # post) = Some (length pre)"
proof -
  have "rs_id x \<noteq> rs_id r" if "x \<in> set pre" for x
    using assms that by (auto simp: sorted_wrt_append no_shared_identity_def)
  then show ?thesis by (auto simp: position_Some nth_append)
qed

lemma run_action_keeps_vm: "run_action s a = Inr s' \<Longrightarrow> as_vm_identity s' = as_vm_identity s"
  by (cases a) (auto simp: begin_provisioning_def authorize_clone_def record_clone_started_def
      begin_unprovisioned_release_def complete_unprovisioned_def begin_registration_def advance_phase_def
      record_jit_generation_started_def record_registration_def record_runner_start_started_def
      record_runner_ready_def record_assigned_def record_running_def record_terminal_def begin_cleanup_def
      advance_cleanup_def advance_with_ok Let_def split: if_splits option.splits)

definition free_of_runner_and_job :: "attempt_state \<Rightarrow> attempt_state \<Rightarrow> bool" where
  "free_of_runner_and_job s b \<longleftrightarrow>
     options_apart (as_runner_id s) (as_runner_id b) \<and> options_apart (as_github_job_id s) (as_github_job_id b)"

lemma no_shared_after_action:
  assumes "run_action s a = Inr s'" and "attempt_validate s = Inr ()" and "no_shared_identity s b"
  shows "no_shared_identity s' b \<longleftrightarrow> free_of_runner_and_job s' b"
proof -
  have "same_attempt s s'"
    using run_action_advances [OF assms(1,2)] by (cases "s' = s") (auto simp: attempt_advance_def same_attempt_def)
  then show ?thesis using run_action_keeps_vm [OF assms(1)] assms(3)
    by (auto simp: same_attempt_def no_shared_identity_def free_of_runner_and_job_def)
qed

lemma inv_valid: "catalog_inv d \<Longrightarrow> catalog_validate d = Inr ()"
  by (simp add: catalog_inv_def)

lemma inv_represented: "catalog_inv d \<Longrightarrow> represented d \<le> cat_rev d"
  by (auto simp: catalog_inv_def catalog_validate_ok revision_consistent_def split: if_splits)

text \<open>One more entry of the history costs exactly one revision, or less when an entry is dropped.\<close>

lemma represented_split:
  assumes "cd_active d = pre @ r # post"
  shows "represented (d\<lparr>cd_revision := v, cd_active := pre @ r' # post\<rparr>) + rev_of (rs_attempt r) =
      represented d + rev_of (rs_attempt r')"
    and "represented (d\<lparr>cd_revision := v, cd_active := pre @ post, cd_tombstones := cd_tombstones d @ [rs_attempt r]\<rparr>) =
      represented d + 1"
  using assms by (simp_all add: represented_def)

lemma set_attempt_validates:
  assumes inv: "catalog_inv d" and split: "cd_active d = pre @ r # post"
    and adv: "attempt_advance (rs_attempt r) s"
    and apart: "\<forall>b\<in>set (map rs_attempt (pre @ post) @ cd_tombstones d). no_shared_identity s b"
    and room: "cat_rev d < 1000000000000"
  shows "catalog_validate (d\<lparr>cd_revision := DisposableAttemptCatalogRevision (cat_rev d + 1),
      cd_active := pre @ r\<lparr>rs_attempt := s\<rparr> # post\<rparr>) = Inr ()"
proof -
  let ?d = "d\<lparr>cd_revision := DisposableAttemptCatalogRevision (cat_rev d + 1), cd_active := pre @ r\<lparr>rs_attempt := s\<rparr> # post\<rparr>"
  note valid = inv_valid [OF inv, unfolded catalog_validate_ok]
  have s: "attempt_validate s = Inr ()" "rev_of s = rev_of (rs_attempt r) + 1"
    and rank: "phase_rank (as_phase (rs_attempt r)) \<le> phase_rank (as_phase s)"
    using adv by (auto simp: attempt_advance_def)
  have rep: "represented ?d = represented d + 1"
    using represented_split(1) [OF split, where r' = "r\<lparr>rs_attempt := s\<rparr>"] s(2) by simp
  have "within_envelope (cd_active ?d)"
  proof (cases "as_phase s = Complete \<longleftrightarrow> as_phase (rs_attempt r) = Complete")
    case True
    then have "within_envelope (cd_active ?d) = within_envelope (cd_active d)"
      using split by (intro envelope_cong) simp
    then show ?thesis using valid by simp
  next
    case False
    with rank have "as_phase s = Complete" by (cases "as_phase s") auto
    then have "within_envelope (cd_active ?d) = within_envelope (pre @ post)" by (intro envelope_cong) simp
    then show ?thesis using envelope_remove [of pre r post] valid split inv by (simp add: catalog_inv_def)
  qed
  moreover have "sorted_wrt no_shared_identity (catalog_attempts ?d)"
    using valid split apart no_shared_sym by (auto simp: sorted_wrt_append)
  moreover have "as_phase s = Reserved \<longrightarrow> rev_of s = 1"
    using s(1) by (auto simp: attempt_validate_ok_iff)
  ultimately show ?thesis
    using valid split rep room inv_represented [OF inv] unfolding catalog_validate_ok
    by (auto simp: revision_consistent_def)
qed

lemma others_apart:
  assumes "catalog_inv d" and "cd_active d = pre @ r # post"
  shows "\<forall>b\<in>set (map rs_attempt (pre @ post) @ cd_tombstones d). no_shared_identity (rs_attempt r) b"
    and "rs_attempt r \<notin> set (map rs_attempt (pre @ post) @ cd_tombstones d)"
proof -
  have w: "sorted_wrt no_shared_identity (map rs_attempt pre @ rs_attempt r # map rs_attempt post @ cd_tombstones d)"
    using inv_valid [OF assms(1)] assms(2) by (simp add: catalog_validate_ok)
  then show all: "\<forall>b\<in>set (map rs_attempt (pre @ post) @ cd_tombstones d). no_shared_identity (rs_attempt r) b"
    using no_shared_sym by (auto simp: sorted_wrt_append)
  then show "rs_attempt r \<notin> set (map rs_attempt (pre @ post) @ cd_tombstones d)"
    by (auto simp: no_shared_identity_def)
qed

lemma replace_here:
  assumes inv: "catalog_inv d" and split: "cd_active d = pre @ r # post"
    and run: "run_action (rs_attempt r) a = Inr s" and new: "s \<noteq> rs_attempt r"
  shows "doc_replace_attempt d (rs_id r) (as_revision (rs_attempt r)) a = doc_set_attempt d (length pre) s"
proof -
  have "position (\<lambda>x. rs_id x = rs_id r) (cd_active d) = Some (length pre)"
    using inv_valid [OF inv] split position_here [of pre r post "cd_tombstones d"] by (simp add: catalog_validate_ok)
  then show ?thesis using split run new
    by (simp add: doc_replace_attempt_def Let_def apply_action_def)
qed

lemma transition_iff:
  assumes inv: "catalog_inv d" and r: "r \<in> set (cd_active d)" and run: "run_action (rs_attempt r) a = Inr s"
    and new: "s \<noteq> rs_attempt r" and room: "cat_rev d < 1000000000000"
  shows "is_ok (doc_replace_attempt d (rs_id r) (as_revision (rs_attempt r)) a) \<longleftrightarrow>
    (\<forall>b\<in>set (catalog_attempts d). b \<noteq> rs_attempt r \<longrightarrow> free_of_runner_and_job s b)"
proof -
  obtain pre post where split: "cd_active d = pre @ r # post" using r by (meson split_list)
  let ?others = "set (map rs_attempt (pre @ post) @ cd_tombstones d)"
  have valid: "attempt_validate (rs_attempt r) = Inr ()" using inv split by (simp add: catalog_inv_def)
  have others: "(\<forall>b\<in>set (catalog_attempts d). b \<noteq> rs_attempt r \<longrightarrow> free_of_runner_and_job s b) \<longleftrightarrow>
      (\<forall>b\<in>?others. no_shared_identity s b)"
  proof -
    have "set (catalog_attempts d) = insert (rs_attempt r) ?others" using split by auto
    then have "(\<forall>b\<in>set (catalog_attempts d). b \<noteq> rs_attempt r \<longrightarrow> free_of_runner_and_job s b) \<longleftrightarrow>
        (\<forall>b\<in>?others. free_of_runner_and_job s b)"
      using others_apart(2) [OF inv split] by (metis insert_iff)
    also have "\<dots> \<longleftrightarrow> (\<forall>b\<in>?others. no_shared_identity s b)"
      using others_apart(1) [OF inv split] no_shared_after_action [OF run valid] by (intro ball_cong) blast+
    finally show ?thesis .
  qed
  let ?d = "d\<lparr>cd_revision := DisposableAttemptCatalogRevision (cat_rev d + 1), cd_active := pre @ r\<lparr>rs_attempt := s\<rparr> # post\<rparr>"
  have "is_ok (doc_set_attempt d (length pre) s) \<longleftrightarrow> catalog_validate ?d = Inr ()"
    unfolding is_ok_iff set_attempt_ok [OF split] using room by auto
  also have "\<dots> \<longleftrightarrow> (\<forall>b\<in>?others. no_shared_identity s b)"
  proof
    assume "catalog_validate ?d = Inr ()"
    then have "sorted_wrt no_shared_identity (map rs_attempt pre @ s # map rs_attempt post @ cd_tombstones d)"
      by (simp add: catalog_validate_ok)
    then show "\<forall>b\<in>?others. no_shared_identity s b"
      using no_shared_sym by (auto simp: sorted_wrt_append)
  qed (use set_attempt_validates [OF inv split run_action_advances [OF run valid new] _ room] in blast)
  finally show ?thesis using others replace_here [OF inv split run new] by simp
qed

lemma retire_validates:
  assumes inv: "catalog_inv d" and split: "cd_active d = pre @ r # post"
    and complete: "as_phase (rs_attempt r) = Complete" and room: "cat_rev d < 1000000000000"
  shows "catalog_validate (d\<lparr>cd_revision := DisposableAttemptCatalogRevision (cat_rev d + 1), cd_active := pre @ post,
      cd_tombstones := pushed_history (cd_tombstones d) (rs_attempt r)\<rparr>) = Inr ()"
proof -
  let ?ts = "cd_tombstones d"
  let ?d = "d\<lparr>cd_revision := DisposableAttemptCatalogRevision (cat_rev d + 1), cd_active := pre @ post,
      cd_tombstones := pushed_history ?ts (rs_attempt r)\<rparr>"
  note valid = inv_valid [OF inv, unfolded catalog_validate_ok]
  have env: "within_envelope (pre @ post)"
    using envelope_remove [of pre r post] valid split inv by (simp add: catalog_inv_def)
  have wrt: "sorted_wrt no_shared_identity (map rs_attempt (pre @ post) @ ?ts @ [rs_attempt r])"
    using valid split others_apart(1) [OF inv split] no_shared_sym by (auto simp: sorted_wrt_append)
  have apart: "sorted_wrt no_shared_identity (catalog_attempts ?d)"
    using wrt by (cases ?ts) (auto simp: pushed_history_def sorted_wrt_append)
  show ?thesis
  proof (cases "length ?ts < MAX_DISPOSABLE_ATTEMPT_TOMBSTONES")
    case True
    then have ts: "pushed_history ?ts (rs_attempt r) = ?ts @ [rs_attempt r]" by (simp add: pushed_history_def)
    have "represented ?d = represented d + 1" unfolding ts by (rule represented_split(2) [OF split])
    then show ?thesis using True valid split env apart ts complete room unfolding catalog_validate_ok
      by (auto simp: revision_consistent_def)
  next
    case False
    then have len: "length ?ts = MAX_DISPOSABLE_ATTEMPT_TOMBSTONES" using valid by simp
    then obtain t ts' where t: "?ts = t # ts'" by (cases ?ts) (auto simp: MAX_DISPOSABLE_ATTEMPT_TOMBSTONES_def)
    then have ts: "pushed_history ?ts (rs_attempt r) = ts' @ [rs_attempt r]" using len by (simp add: pushed_history_def)
    have "represented ?d \<le> represented d + 1" unfolding ts using split t by (simp add: represented_def)
    then show ?thesis using len valid split env apart ts t complete room inv_represented [OF inv]
      unfolding catalog_validate_ok by (auto simp: revision_consistent_def)
  qed
qed

lemma retire_succeeds:
  assumes inv: "catalog_inv d" and r: "r \<in> set (cd_active d)"
    and complete: "as_phase (rs_attempt r) = Complete" and room: "cat_rev d < 1000000000000"
  shows "\<exists>pre post. cd_active d = pre @ r # post \<and>
    doc_retire_complete d (rs_id r) (as_revision (rs_attempt r)) =
      Inr (d\<lparr>cd_revision := DisposableAttemptCatalogRevision (cat_rev d + 1), cd_active := pre @ post,
             cd_tombstones := pushed_history (cd_tombstones d) (rs_attempt r)\<rparr>)"
proof -
  obtain pre post where split: "cd_active d = pre @ r # post" using r by (meson split_list)
  have pos: "position (\<lambda>x. rs_id x = rs_id r) (cd_active d) = Some (length pre)"
    using inv_valid [OF inv] split position_here [of pre r post "cd_tombstones d"] by (simp add: catalog_validate_ok)
  have "catalog_revision_next (cd_revision d) = Inr (DisposableAttemptCatalogRevision (cat_rev d + 1))"
    using room by (simp add: catalog_revision_next_ok)
  with pos split complete retire_validates [OF inv split complete room] show ?thesis
    by (intro exI [of _ pre] exI [of _ post]) (auto simp: doc_retire_complete_def Let_def pushed_history_def)
qed

lemma find_None_iff_apart:
  "find_active d i = None \<longleftrightarrow> i \<notin> set (map rs_id (cd_active d))"
  "find_tombstone d i = None \<longleftrightarrow> i \<notin> set (map as_attempt_id (cd_tombstones d))"
  by (auto simp: find_active_def find_tombstone_def find_None_iff)

lemma reserve_iff:
  assumes inv: "catalog_inv d" and new: "reservation_new attempt resources template = Inr r"
    and fresh: "find_active d (rs_id r) = None" and room: "cat_rev d < 1000000000000"
  shows "is_ok (doc_reserve d r) \<longleftrightarrow>
    length (cd_active d) < MAX_ACTIVE_DISPOSABLE_ATTEMPTS \<and>
    (\<forall>b\<in>set (catalog_attempts d). no_shared_identity attempt b) \<and> within_envelope (cd_active d @ [r])"
proof -
  let ?d = "d\<lparr>cd_revision := DisposableAttemptCatalogRevision (cat_rev d + 1), cd_active := cd_active d @ [r]\<rparr>"
  have r: "rs_attempt r = attempt" "rev_of attempt = 1" using new by (auto simp: reservation_new_def split: if_splits)
  note valid = inv_valid [OF inv, unfolded catalog_validate_ok]
  have rep: "represented ?d = represented d + 1" using r by (simp add: represented_def)
  have ids: "sorted_wrt no_shared_identity (catalog_attempts ?d) \<longleftrightarrow>
      (\<forall>b\<in>set (catalog_attempts d). no_shared_identity attempt b)"
    using valid r no_shared_sym by (auto simp: sorted_wrt_append)
  have "catalog_validate ?d = Inr () \<longleftrightarrow>
    length (cd_active d) < MAX_ACTIVE_DISPOSABLE_ATTEMPTS \<and>
    (\<forall>b\<in>set (catalog_attempts d). no_shared_identity attempt b) \<and> within_envelope (cd_active d @ [r])"
    unfolding catalog_validate_ok ids rep revision_consistent_def
    using valid r room inv_represented [OF inv] by (auto simp: revision_consistent_def)
  moreover have "(\<forall>b\<in>set (catalog_attempts d). no_shared_identity attempt b) \<longrightarrow> find_tombstone d (rs_id r) = None"
    using r by (auto simp: find_None_iff_apart no_shared_identity_def)
  ultimately show ?thesis using fresh room
    by (auto simp: doc_reserve_def Let_def catalog_revision_next_ok)
qed

section \<open>Successors\<close>

lemma filter_zip_same: "filter (\<lambda>(a, b). a \<noteq> b) (zip xs xs) = []"
  by (induction xs) auto

lemma filter_zip_empty:
  "length xs = length ys \<Longrightarrow> filter (\<lambda>(a, b). a \<noteq> b) (zip xs ys) = [] \<longleftrightarrow> xs = ys"
  by (induction xs ys rule: list_induct2) auto

lemma filter_zip_single:
  "length xs = length ys \<Longrightarrow> filter (\<lambda>(a, b). a \<noteq> b) (zip xs ys) = [(x, y)] \<Longrightarrow>
     \<exists>pre post. xs = pre @ x # post \<and> ys = pre @ y # post \<and> x \<noteq> y"
proof (induction xs ys rule: list_induct2)
  case (Cons a as b bs)
  show ?case
  proof (cases "a = b")
    case True
    with Cons obtain pre post where "as = pre @ x # post" "bs = pre @ y # post" "x \<noteq> y" by auto
    with True show ?thesis by (intro exI [of _ "a # pre"] exI [of _ post]) simp
  next
    case False
    with Cons show ?thesis by (intro exI [of _ "[]"] exI [of _ as]) (auto simp: filter_zip_empty)
  qed
qed simp

lemma changed_pairs_single:
  assumes "length (cd_active d') = length (cd_active d)"
  shows "changed_pairs d' d = [(x, y)] \<longleftrightarrow>
    (\<exists>pre post. cd_active d' = pre @ x # post \<and> cd_active d = pre @ y # post \<and> x \<noteq> y)"
  using assms filter_zip_single [of "cd_active d'" "cd_active d" x y]
  by (auto simp: changed_pairs_def filter_zip_same)

definition catalog_operation :: "catalog_document \<Rightarrow> catalog_document \<Rightarrow> bool" where
  "catalog_operation d d' \<longleftrightarrow>
     (\<exists>r. doc_reserve d r = Inr d') \<or> (\<exists>i rv a. doc_replace_attempt d i rv a = Inr d') \<or>
     (\<exists>i rv. doc_retire_complete d i rv = Inr d')"

lemma single_case: "(case xs of [(n, p)] \<Rightarrow> Q n p | _ \<Rightarrow> False) \<longleftrightarrow> (\<exists>n p. xs = [(n, p)] \<and> Q n p)"
  by (auto split: list.splits)

lemma validate_successor_ok:
  "validate_successor_of d' d = Inr () \<longleftrightarrow>
     catalog_validate d = Inr () \<and> catalog_validate d' = Inr () \<and> cat_rev d < 1000000000000 \<and>
     cd_revision d' = DisposableAttemptCatalogRevision (cat_rev d + 1) \<and>
     (cd_active d' \<noteq> [] \<and> length (cd_active d') = length (cd_active d) + 1 \<and>
        doc_reserve d (last (cd_active d')) = Inr d' \<or>
      length (cd_active d') = length (cd_active d) \<and> cd_tombstones d' = cd_tombstones d \<and>
        (\<exists>n p. changed_pairs d' d = [(n, p)] \<and> rs_resources n = rs_resources p \<and>
           rs_prepared_template_identity n = rs_prepared_template_identity p \<and>
           (\<exists>a. run_action (rs_attempt p) a = Inr (rs_attempt n))) \<or>
      (\<exists>r\<in>set (cd_active d). doc_retire_complete d (rs_id r) (as_revision (rs_attempt r)) = Inr d'))"
  unfolding validate_successor_of_def Let_def single_case exact_successor_iff
  by (auto simp: catalog_revision_next_ok split: if_splits)

lemma set_attempt_changes:
  assumes split: "cd_active d = pre @ r # post" and set: "doc_set_attempt d (length pre) s = Inr d'"
    and new: "s \<noteq> rs_attempt r"
  shows "length (cd_active d') = length (cd_active d) \<and> cd_tombstones d' = cd_tombstones d \<and>
    changed_pairs d' d = [(r\<lparr>rs_attempt := s\<rparr>, r)] \<and> cat_rev d < 1000000000000 \<and>
    cd_revision d' = DisposableAttemptCatalogRevision (cat_rev d + 1) \<and> catalog_validate d' = Inr ()"
proof -
  note ok = set [unfolded set_attempt_ok [OF split]]
  have "r\<lparr>rs_attempt := s\<rparr> \<noteq> r" using new by (cases r) auto
  moreover have "length (cd_active d') = length (cd_active d)" using ok split by simp
  ultimately show ?thesis
    using ok split changed_pairs_single [of d' d] by auto
qed

lemma reservation_eq:
  "rs_resources n = rs_resources r \<Longrightarrow> rs_prepared_template_identity n = rs_prepared_template_identity r \<Longrightarrow>
   n = (r :: reservation)\<lparr>rs_attempt := rs_attempt n\<rparr>"
  by (cases n; cases r) simp

lemma set_attempt_by_change:
  assumes d: "catalog_validate d = Inr ()" and d': "catalog_validate d' = Inr ()" and room: "cat_rev d < 1000000000000"
    and rv: "cd_revision d' = DisposableAttemptCatalogRevision (cat_rev d + 1)"
    and ts: "cd_tombstones d' = cd_tombstones d"
    and split: "cd_active d' = pre @ n # post" "cd_active d = pre @ r # post"
    and same: "rs_resources n = rs_resources r" "rs_prepared_template_identity n = rs_prepared_template_identity r"
  shows "doc_set_attempt d (length pre) (rs_attempt n) = Inr d'"
proof -
  have "d' = d\<lparr>cd_revision := DisposableAttemptCatalogRevision (cat_rev d + 1),
      cd_active := pre @ r\<lparr>rs_attempt := rs_attempt n\<rparr> # post\<rparr>"
    using reservation_eq [OF same] rv ts split d d' by (cases d; cases d') (auto simp: catalog_validate_ok)
  with room d' show ?thesis unfolding set_attempt_ok [OF split(2)] by blast
qed

lemma operation_is_successor:
  assumes inv: "catalog_inv d" and operation: "catalog_operation d d'" and new: "d' \<noteq> d"
  shows "validate_successor_of d' d = Inr ()"
proof -
  note d = inv_valid [OF inv]
  from operation consider r where "doc_reserve d r = Inr d'"
    | i rv a where "doc_replace_attempt d i rv a = Inr d'"
    | i rv where "doc_retire_complete d i rv = Inr d'"
    by (auto simp: catalog_operation_def)
  then show ?thesis
  proof cases
    case 1
    with reserve_new_ok [OF 1 new] d show ?thesis by (auto simp: validate_successor_ok)
  next
    case 2
    from replace_attempt_ok [OF 2] new obtain pre r post s where split: "cd_active d = pre @ r # post"
      and run: "run_action (rs_attempt r) a = Inr s" and s: "s \<noteq> rs_attempt r" "doc_set_attempt d (length pre) s = Inr d'"
      by blast
    have "\<exists>n p. changed_pairs d' d = [(n, p)] \<and> rs_resources n = rs_resources p \<and>
           rs_prepared_template_identity n = rs_prepared_template_identity p \<and>
           (\<exists>a. run_action (rs_attempt p) a = Inr (rs_attempt n))"
      using set_attempt_changes [OF split s(2,1)] run by auto
    then show ?thesis using set_attempt_changes [OF split s(2,1)] d unfolding validate_successor_ok by blast
  next
    case 3
    from retire_ok [OF 3] obtain pre r post where r: "cd_active d = pre @ r # post" "rs_id r = i"
      "as_revision (rs_attempt r) = rv" and d': "catalog_validate d' = Inr ()" "cat_rev d < 1000000000000"
      "cd_revision d' = DisposableAttemptCatalogRevision (cat_rev d + 1)" by auto
    have "\<exists>r\<in>set (cd_active d). doc_retire_complete d (rs_id r) (as_revision (rs_attempt r)) = Inr d'"
      using r 3 by auto
    with d d' show ?thesis unfolding validate_successor_ok by blast
  qed
qed

lemma successor_is_operation:
  assumes inv: "catalog_inv d" and succ: "validate_successor_of d' d = Inr ()"
  shows "catalog_operation d d' \<and> d' \<noteq> d"
proof
  note ok = succ [unfolded validate_successor_ok]
  have "cat_rev d' = cat_rev d + 1" using ok by simp
  then show "d' \<noteq> d" by auto
  from ok consider "doc_reserve d (last (cd_active d')) = Inr d'"
    | n p a where "length (cd_active d') = length (cd_active d)" "cd_tombstones d' = cd_tombstones d"
        "changed_pairs d' d = [(n, p)]" "rs_resources n = rs_resources p"
        "rs_prepared_template_identity n = rs_prepared_template_identity p"
        "run_action (rs_attempt p) a = Inr (rs_attempt n)"
    | r where "doc_retire_complete d (rs_id r) (as_revision (rs_attempt r)) = Inr d'"
    by blast
  then show "catalog_operation d d'"
  proof cases
    case 2
    then obtain pre post where split: "cd_active d' = pre @ n # post" "cd_active d = pre @ p # post" and "n \<noteq> p"
      using changed_pairs_single [of d' d] by auto
    then have new: "rs_attempt n \<noteq> rs_attempt p" using reservation_eq [OF 2(4,5)] by (cases p) auto
    have "doc_set_attempt d (length pre) (rs_attempt n) = Inr d'"
      using set_attempt_by_change [OF _ _ _ _ 2(2) split 2(4,5)] ok by blast
    then show ?thesis using replace_here [OF inv split(2) 2(6) new] by (auto simp: catalog_operation_def)
  qed (auto simp: catalog_operation_def)
qed

lemma bind_is_recovery_successor:
  assumes inv: "catalog_inv d" and b: "doc_bind_vm_identity_after_clone d i rv identity = Inr d'"
  shows "validate_recovery_successor_of d' d = Inr ()"
proof -
  from bind_identity_ok [OF b] obtain pre r post s where split: "cd_active d = pre @ r # post"
    and run: "bind_vm_identity_after_clone (rs_attempt r) identity = Inr s"
    and set: "doc_set_attempt d (length pre) s = Inr d'" by blast
  have s: "s = (rs_attempt r)\<lparr>as_revision := DisposableAttemptRevision 4, as_vm_identity := Some identity\<rparr>"
    "as_phase (rs_attempt r) = CloneStarted" "rev_of (rs_attempt r) = 3" "as_vm_identity (rs_attempt r) = None"
    using run by (auto simp: bind_vm_identity_after_clone_def attempt_revision_next_ok Let_def split: if_splits)
  then have "s \<noteq> rs_attempt r" by (cases "rs_attempt r") auto
  note change = set_attempt_changes [OF split set this]
  show ?thesis
    using change s inv_valid [OF inv]
    by (auto simp: validate_recovery_successor_of_def catalog_revision_next_def catalog_revision_new_def
        MAX_DISPOSABLE_ATTEMPT_CATALOG_REVISION_def)
qed

lemma recovery_successor_ok:
  assumes "validate_recovery_successor_of d' d = Inr ()" and "validate_successor_of d' d \<noteq> Inr ()"
  shows "catalog_validate d = Inr () \<and> catalog_validate d' = Inr () \<and> cat_rev d < 1000000000000 \<and>
    cd_revision d' = DisposableAttemptCatalogRevision (cat_rev d + 1) \<and>
    length (cd_active d') = length (cd_active d) \<and> cd_tombstones d' = cd_tombstones d \<and>
    (\<exists>n p. changed_pairs d' d = [(n, p)] \<and> rs_resources n = rs_resources p \<and>
       rs_prepared_template_identity n = rs_prepared_template_identity p \<and>
       as_phase (rs_attempt p) = CloneStarted \<and> rev_of (rs_attempt p) = 3 \<and> as_vm_identity (rs_attempt p) = None \<and>
       as_phase (rs_attempt n) = CloneStarted \<and> rev_of (rs_attempt n) = 4 \<and> as_vm_identity (rs_attempt n) \<noteq> None \<and>
       same_attempt ((rs_attempt p)\<lparr>as_schema_version := as_schema_version (rs_attempt n)\<rparr>) (rs_attempt n) \<and>
       as_runner_id (rs_attempt n) = as_runner_id (rs_attempt p) \<and>
       as_github_job_id (rs_attempt n) = as_github_job_id (rs_attempt p) \<and>
       as_result (rs_attempt n) = as_result (rs_attempt p))"
proof -
  have "\<not> is_ok (validate_successor_of d' d)" using assms(2) by (auto simp: is_ok_iff)
  with assms(1) show ?thesis
    by (auto simp: validate_recovery_successor_of_def catalog_revision_next_ok same_attempt_def
        split: if_splits list.splits)
qed

lemma clone_bound_eq:
  assumes "attempt_validate p = Inr ()" and "attempt_validate n = Inr ()"
    and "as_phase p = CloneStarted" and "rev_of p = 3" and "as_vm_identity p = None"
    and "as_phase n = CloneStarted" and "rev_of n = 4" and "as_vm_identity n = Some identity"
    and "same_attempt (p\<lparr>as_schema_version := as_schema_version n\<rparr>) n"
    and "as_runner_id n = as_runner_id p" and "as_github_job_id n = as_github_job_id p" and "as_result n = as_result p"
  shows "bind_vm_identity_after_clone p identity = Inr n"
proof -
  have "as_revision n = DisposableAttemptRevision 4" using assms(7) by (metis attempt_revision.collapse)
  then have "n = p\<lparr>as_revision := DisposableAttemptRevision 4, as_vm_identity := Some identity\<rparr>"
    using assms by (cases n; cases p) (auto simp: attempt_validate_ok_iff same_attempt_def)
  with assms show ?thesis
    by (simp add: bind_vm_identity_after_clone_def attempt_revision_next_def attempt_revision_new_def
        MAX_DISPOSABLE_ATTEMPT_REVISION_def Let_def)
qed

lemma recovery_successor_is_bind:
  assumes inv: "catalog_inv d" and inv': "catalog_inv d'" and rec: "validate_recovery_successor_of d' d = Inr ()"
    and not: "validate_successor_of d' d \<noteq> Inr ()"
  shows "\<exists>i rv identity. doc_bind_vm_identity_after_clone d i rv identity = Inr d'"
proof -
  note ok = recovery_successor_ok [OF rec not]
  then obtain n p identity where change: "changed_pairs d' d = [(n, p)]" and same: "rs_resources n = rs_resources p"
      "rs_prepared_template_identity n = rs_prepared_template_identity p"
    and np: "as_phase (rs_attempt p) = CloneStarted" "rev_of (rs_attempt p) = 3" "as_vm_identity (rs_attempt p) = None"
      "as_phase (rs_attempt n) = CloneStarted" "rev_of (rs_attempt n) = 4" "as_vm_identity (rs_attempt n) = Some identity"
      "same_attempt ((rs_attempt p)\<lparr>as_schema_version := as_schema_version (rs_attempt n)\<rparr>) (rs_attempt n)"
      "as_runner_id (rs_attempt n) = as_runner_id (rs_attempt p)"
      "as_github_job_id (rs_attempt n) = as_github_job_id (rs_attempt p)"
      "as_result (rs_attempt n) = as_result (rs_attempt p)" by blast
  obtain pre post where split: "cd_active d' = pre @ n # post" "cd_active d = pre @ p # post"
    using changed_pairs_single [of d' d n p] change ok by blast
  have "bind_vm_identity_after_clone (rs_attempt p) identity = Inr (rs_attempt n)"
    using clone_bound_eq [OF _ _ np] inv inv' split by (simp add: catalog_inv_def)
  moreover have "doc_set_attempt d (length pre) (rs_attempt n) = Inr d'"
    using set_attempt_by_change [OF _ _ _ _ _ split same] ok by blast
  moreover have "position (\<lambda>x. rs_id x = rs_id p) (cd_active d) = Some (length pre)"
    using inv_valid [OF inv] split(2) position_here [of pre p post "cd_tombstones d"] by (simp add: catalog_validate_ok)
  ultimately have "doc_bind_vm_identity_after_clone d (rs_id p) (as_revision (rs_attempt p)) identity = Inr d'"
    using split(2) by (simp add: doc_bind_vm_identity_after_clone_def Let_def)
  then show ?thesis by blast
qed

section \<open>Replays\<close>

text \<open>The actions that report something that has happened, and may be reported again.\<close>

fun is_report :: "catalog_action \<Rightarrow> bool" where
  "is_report RecordJitGenerationStarted = True"
| "is_report (RecordRegistration r) = True"
| "is_report RecordRunnerStartStarted = True"
| "is_report (RecordRunnerReady r) = True"
| "is_report (RecordAssigned j) = True"
| "is_report (RecordRunning r j) = True"
| "is_report (RecordTerminal r j x) = True"
| "is_report BeginCleanup = True"
| "is_report (AdvanceCleanup p) = True"
| "is_report _ = False"

lemma jit_replay: "record_jit_generation_started s = Inr s' \<Longrightarrow> record_jit_generation_started s' = Inr s'"
  by (auto simp: record_jit_generation_started_def Let_def split: if_splits)

lemma registration_replay: "record_registration s r = Inr s' \<Longrightarrow> record_registration s' r = Inr s'"
  by (auto simp: record_registration_def validate_runner_ok validate_runner_def advance_with_ok split: if_splits)

lemma start_replay: "record_runner_start_started s = Inr s' \<Longrightarrow> record_runner_start_started s' = Inr s'"
  by (auto simp: record_runner_start_started_def Let_def split: if_splits)

lemma ready_phase:
  assumes "record_runner_ready s r = Inr s'"
  shows "as_runner_start_started s' \<and> as_phase s' \<in> {Waiting, Assigned, Running, Terminal}"
proof -
  have kept: "as_runner_start_started t' = as_runner_start_started t \<and> as_phase t' = p"
    if "advance_with t p i j x = Inr t'" for t p i j x t' using that by (simp add: advance_with_ok)
  show ?thesis using assms kept by (auto simp: record_runner_ready_def split: if_splits)
qed

lemma ready_replay:
  assumes "record_runner_ready s r = Inr s'" shows "record_runner_ready s' r = Inr s'"
  using ready_runner [OF assms] ready_phase [OF assms]
  by (auto simp: record_runner_ready_def validate_runner_def)

lemma assigned_replay: "record_assigned s j = Inr s' \<Longrightarrow> record_assigned s' j = Inr s'"
  by (auto simp: record_assigned_def validate_job_def advance_with_ok split: if_splits)

lemma running_phase:
  "record_running s r j = Inr s' \<Longrightarrow> as_runner_start_started s' \<and>
     as_phase s' \<in> {Running, Terminal, Destroying, Deregistering, Releasing, Complete}"
  by (auto simp: record_running_def advance_with_ok split: if_splits)

lemma running_replay:
  assumes "record_running s r j = Inr s'" shows "record_running s' r j = Inr s'"
  using running_runner_job [OF assms] running_phase [OF assms]
  by (auto simp: record_running_def validate_runner_def validate_job_def)

lemma terminal_replay:
  assumes "record_terminal s r j x = Inr s'" shows "record_terminal s' r j x = Inr s'"
proof -
  note job = terminal_job_result [OF assms]
  show ?thesis
  proof (cases r)
    case None
    with job show ?thesis by (simp add: record_terminal_def validate_job_def)
  next
    case (Some v)
    with terminal_runner [of s v j x s'] assms job show ?thesis
      by (simp add: record_terminal_def validate_job_def validate_runner_def)
  qed
qed

lemma begin_cleanup_replay: "begin_cleanup s = Inr s' \<Longrightarrow> begin_cleanup s' = Inr s'"
  by (auto simp: begin_cleanup_def advance_with_ok split: if_splits)

lemma advance_cleanup_replay: "advance_cleanup s p = Inr s' \<Longrightarrow> advance_cleanup s' p = Inr s'"
  by (auto simp: advance_cleanup_def advance_with_ok split: if_splits)

lemmas replays = jit_replay registration_replay start_replay ready_replay assigned_replay running_replay
  terminal_replay begin_cleanup_replay advance_cleanup_replay

section \<open>An example\<close>

definition example_reservation :: reservation where
  "example_reservation =
     \<lparr>rs_attempt = example_attempt,
      rs_resources = \<lparr>wr_cpu_millis = 2000, wr_memory_bytes = 4096, wr_disk_bytes = 8192\<rparr>,
      rs_prepared_template_identity = DisposablePreparedTemplateIdentity (Sha256Digest ''sha256:00'')\<rparr>"

definition example_catalog :: catalog_document where
  "example_catalog = catalog_empty\<lparr>cd_revision := DisposableAttemptCatalogRevision 2, cd_active := [example_reservation]\<rparr>"

lemma example_valid: "catalog_validate example_catalog = Inr ()"
  by (simp add: catalog_validate_ok example_catalog_def catalog_empty_def example_reservation_def
      revision_consistent_def represented_def within_envelope_def usage_of_def resources_bounded_def
      example_attempt_def attempt_reserved_def MAX_DISPOSABLE_ATTEMPT_TOMBSTONES_def
      MAX_ACTIVE_DISPOSABLE_ATTEMPTS_def MAX_WORKERS_def MAX_CPU_MILLIS_def MAX_BYTES_def)

lemma example_reserved: "doc_reserve catalog_empty example_reservation = Inr example_catalog"
proof -
  have "catalog_revision_next (DisposableAttemptCatalogRevision 1) = Inr (DisposableAttemptCatalogRevision 2)"
    by (simp add: catalog_revision_next_ok)
  with example_valid show ?thesis
    by (simp add: doc_reserve_def find_active_def find_tombstone_def catalog_empty_def
        MAX_ACTIVE_DISPOSABLE_ATTEMPTS_def example_catalog_def Let_def)
qed

lemma example_reachable: "catalog_reachable example_catalog"
proof (rule catalog_stepped [OF catalog_created])
  show "catalog_step catalog_empty example_catalog"
  proof (rule step_reserve [OF _ _ _ example_reserved])
    show "reservation_new example_attempt (rs_resources example_reservation)
        (rs_prepared_template_identity example_reservation) = Inr example_reservation"
      by (simp add: reservation_new_def example_reservation_def example_attempt_def attempt_reserved_def)
    show "attempt_validate example_attempt = Inr ()" by (simp add: example_attempt_def reserved_valid)
    show "worker_resources_new 2000 4096 8192 = Inr (rs_resources example_reservation)"
      by (simp add: worker_resources_new_def example_reservation_def MAX_CPU_MILLIS_def MAX_BYTES_def)
  qed
qed

text \<open>The example with its attempt completed before anything was provisioned.\<close>

definition completed_attempt :: attempt_state where
  "completed_attempt = example_attempt\<lparr>as_revision := DisposableAttemptRevision 2, as_phase := Complete\<rparr>"

definition completed_catalog :: catalog_document where
  "completed_catalog = catalog_empty\<lparr>cd_revision := DisposableAttemptCatalogRevision 3,
     cd_active := [example_reservation\<lparr>rs_attempt := completed_attempt\<rparr>]\<rparr>"

lemma completed_run: "run_action (rs_attempt example_reservation) CompleteUnprovisioned = Inr completed_attempt"
  by (simp add: completed_attempt_def example_reservation_def complete_unprovisioned_def advance_with_ok
      attempt_validate_ok_iff example_attempt_def attempt_reserved_def carries_evidence_def)

lemma completed_reachable: "catalog_reachable completed_catalog"
proof (rule catalog_stepped [OF example_reachable step_transition])
  have split: "cd_active example_catalog = [] @ example_reservation # []" by (simp add: example_catalog_def)
  have new: "completed_attempt \<noteq> rs_attempt example_reservation"
    by (simp add: completed_attempt_def example_reservation_def example_attempt_def attempt_reserved_def)
  have "catalog_validate completed_catalog = Inr ()"
    by (simp add: catalog_validate_ok completed_catalog_def catalog_empty_def completed_attempt_def
        revision_consistent_def represented_def within_envelope_def MAX_DISPOSABLE_ATTEMPT_TOMBSTONES_def
        MAX_ACTIVE_DISPOSABLE_ATTEMPTS_def)
  then have "doc_set_attempt example_catalog (length ([] :: reservation list)) completed_attempt = Inr completed_catalog"
    unfolding set_attempt_ok [OF split] by (simp add: completed_catalog_def example_catalog_def catalog_empty_def)
  then show "doc_replace_attempt example_catalog (rs_id example_reservation)
      (as_revision (rs_attempt example_reservation)) CompleteUnprovisioned = Inr completed_catalog"
    using replace_here [OF reachable_inv [OF example_reachable] split completed_run new] by simp
qed

section \<open>Properties\<close>

text \<open>
  C6. What holds of every catalog the operations can produce: each attempt in it is valid; no two
  attempts, replay history included, share an attempt, claim, VM, VM identity, runner name,
  runner request, runner or job; the host usage is computed without error, is the exact sum over
  the attempts that are not complete, and stays within the host envelope; and the revision
  accounts for every represented entry.
\<close>
theorem catalog_ownership_exclusive:
  assumes "catalog_reachable d"
  shows "(\<forall>a\<in>set (catalog_attempts d). attempt_validate a = Inr ()) \<and>
    (\<forall>i j. i < j \<and> j < length (catalog_attempts d) \<longrightarrow>
       no_shared_identity (catalog_attempts d ! i) (catalog_attempts d ! j)) \<and>
    host_usage d = Inr (usage_of (cd_active d)) \<and> within_envelope (cd_active d) \<and>
    represented d \<le> cat_rev d"
proof -
  note inv = reachable_inv [OF assms]
  have "sorted_wrt no_shared_identity (catalog_attempts d)" "within_envelope (cd_active d)"
    using inv_valid [OF inv] by (simp_all add: catalog_validate_ok)
  then show ?thesis using inv inv_represented [OF inv]
    by (auto simp: catalog_inv_def host_usage_eq dest: sorted_wrt_nth_less)
qed

theorem catalog_ownership_exclusive_witness: "host_usage example_catalog = Inr (usage_of [example_reservation])"
  using catalog_ownership_exclusive [OF example_reachable] by (simp add: example_catalog_def)

text \<open>
  C14. A store accepts exactly the catalog's own operations. For every reachable catalog the check
  of exact successors succeeds for a document exactly when it is a different document that one
  reservation, one transition or one retirement produces; the recovery check accepts in addition
  exactly the binding of a cloned VM's identity.
\<close>
theorem store_accepts_exactly_operations:
  assumes "catalog_reachable d"
  shows "(validate_successor_of d' d = Inr () \<longleftrightarrow> catalog_operation d d' \<and> d' \<noteq> d) \<and>
    (catalog_inv d' \<longrightarrow>
      (validate_recovery_successor_of d' d = Inr () \<longleftrightarrow>
        catalog_operation d d' \<and> d' \<noteq> d \<or> (\<exists>i rv identity. doc_bind_vm_identity_after_clone d i rv identity = Inr d')))"
proof -
  note inv = reachable_inv [OF assms]
  have ordinary: "validate_successor_of d' d = Inr () \<longleftrightarrow> catalog_operation d d' \<and> d' \<noteq> d"
    using operation_is_successor [OF inv] successor_is_operation [OF inv] by blast
  moreover have "validate_recovery_successor_of d' d = Inr ()" if "validate_successor_of d' d = Inr ()"
    using that by (simp add: validate_recovery_successor_of_def)
  ultimately show ?thesis
    using bind_is_recovery_successor [OF inv] recovery_successor_is_bind [OF inv] by blast
qed

theorem store_accepts_exactly_operations_witness: "validate_successor_of example_catalog catalog_empty = Inr ()"
proof -
  have "catalog_operation catalog_empty example_catalog \<and> example_catalog \<noteq> catalog_empty"
    using example_reserved by (auto simp: catalog_operation_def example_catalog_def catalog_empty_def)
  with store_accepts_exactly_operations [OF catalog_created] show ?thesis by blast
qed







text \<open>
  A report may be delivered twice: whatever state an attempt is in, a report it accepted is
  accepted again by the state it led to and changes nothing.
\<close>
theorem attempt_reports_idempotent:
  assumes "run_action s a = Inr s'" and "is_report a"
  shows "run_action s' a = Inr s'"
  using assms by (cases a) (auto intro: replays)

theorem attempt_reports_idempotent_witness:
  "run_action (completed_attempt\<lparr>as_phase := Complete\<rparr>) (AdvanceCleanup Complete) = Inr completed_attempt"
  using attempt_reports_idempotent [of completed_attempt "AdvanceCleanup Complete" completed_attempt]
  by (simp add: completed_attempt_def advance_cleanup_def)

end
