(* ===== verification/Attempt_Store.thy ===== *)
theory Attempt_Store
  imports Catalog_History
begin

text \<open>
  The catalog client of \<open>src/disposable_attempt_catalog.rs\<close> over its store trait, and the
  in-memory store. The trait \<open>DisposableAttemptCatalogStore\<close> is the record
  \<open>attempt_catalog_store\<close> of its methods; a \<open>&mut self\<close> method returns its result with the
  store's next state. The locale \<open>attempt_store\<close> states what a store promises about the document
  it holds; \<open>reliable_attempt_store\<close> adds that a legal write is not refused.
\<close>

section \<open>Receipts and the store trait\<close>

datatype catalog_write_disposition = CatCreated | CatReplaced | CatSatisfied

record catalog_write_receipt =
  cw_disposition :: catalog_write_disposition
  cw_catalog_revision :: catalog_revision
  cw_attempt_revision :: "attempt_revision option"

definition write_receipt_new ::
  "catalog_write_disposition \<Rightarrow> catalog_revision \<Rightarrow> attempt_revision option \<Rightarrow> catalog_write_receipt" where
  "write_receipt_new disposition catalog_revision attempt_revision =
     \<lparr>cw_disposition = disposition, cw_catalog_revision = catalog_revision,
      cw_attempt_revision = attempt_revision\<rparr>"

record 's attempt_catalog_store =
  st_recover :: "'s \<Rightarrow> (catalog_error + unit) \<times> 's"
  st_load :: "'s \<Rightarrow> catalog_error + catalog_document option"
  st_create :: "'s \<Rightarrow> catalog_document \<Rightarrow> (catalog_error + catalog_write_receipt) \<times> 's"
  st_replace :: "'s \<Rightarrow> catalog_revision \<Rightarrow> catalog_document \<Rightarrow> (catalog_error + catalog_write_receipt) \<times> 's"

type_synonym catalog_published = "catalog_error + catalog_document \<times> catalog_write_receipt"

section \<open>The catalog over a store\<close>

definition satisfied :: "catalog_document \<Rightarrow> attempt_revision option \<Rightarrow> catalog_published" where
  "satisfied d rv = Inr (d, write_receipt_new CatSatisfied (cd_revision d) rv)"

definition catalog_load :: "'s attempt_catalog_store \<Rightarrow> 's \<Rightarrow> catalog_error + catalog_document" where
  "catalog_load st s =
     try_res (st_load st s) (\<lambda>found.
     try_res (ok_or found CatMissing) (\<lambda>document.
     try_res (catalog_validate document) (\<lambda>_. Inr document)))"

definition catalog_initialize :: "'s attempt_catalog_store \<Rightarrow> 's \<Rightarrow> catalog_published \<times> 's" where
  "catalog_initialize st s =
     (case st_recover st s of
        (Inl e, s1) \<Rightarrow> (Inl e, s1)
      | (Inr _, s1) \<Rightarrow>
          (case st_load st s1 of
             Inl e \<Rightarrow> (Inl e, s1)
           | Inr (Some current) \<Rightarrow> (try_res (catalog_validate current) (\<lambda>_. satisfied current None), s1)
           | Inr None \<Rightarrow>
               (case st_create st s1 catalog_empty of
                  (Inr receipt, s2) \<Rightarrow> (Inr (catalog_empty, receipt), s2)
                | (Inl e, s2) \<Rightarrow>
                    if e = CatAlreadyExists
                    then (try_res (st_load st s2) (\<lambda>found.
                          try_res (ok_or found e) (\<lambda>current.
                          try_res (catalog_validate current) (\<lambda>_. satisfied current None))), s2)
                    else (Inl e, s2))))"

definition require_catalog_revision :: "catalog_document \<Rightarrow> catalog_revision \<Rightarrow> catalog_error + unit" where
  "require_catalog_revision current expected = (if cd_revision current \<noteq> expected then Inl CatConflict else Inr ())"

text \<open>
  The shape the mutating calls share: recover, load, check the revision, compute the next
  document, and write it unless it is the current one.
\<close>

definition with_current ::
  "'s attempt_catalog_store \<Rightarrow> 's \<Rightarrow> catalog_revision \<Rightarrow> (catalog_document \<Rightarrow> 's \<Rightarrow> catalog_published \<times> 's) \<Rightarrow>
   catalog_published \<times> 's" where
  "with_current st s expected body =
     (case st_recover st s of
        (Inl e, s1) \<Rightarrow> (Inl e, s1)
      | (Inr _, s1) \<Rightarrow>
          (case try_res (catalog_load st s1) (\<lambda>current.
                try_res (require_catalog_revision current expected) (\<lambda>_. Inr current)) of
             Inl e \<Rightarrow> (Inl e, s1)
           | Inr current \<Rightarrow> body current s1))"

definition write_next ::
  "'s attempt_catalog_store \<Rightarrow> 's \<Rightarrow> catalog_revision \<Rightarrow> catalog_document \<Rightarrow> attempt_revision option \<Rightarrow>
   catalog_published \<times> 's" where
  "write_next st s expected next' rv =
     (let (result, s') = st_replace st s expected next'
      in (try_res result (\<lambda>receipt. Inr (next', receipt\<lparr>cw_attempt_revision := rv\<rparr>)), s'))"

definition catalog_reserve ::
  "'s attempt_catalog_store \<Rightarrow> 's \<Rightarrow> catalog_revision \<Rightarrow> reservation \<Rightarrow> catalog_published \<times> 's" where
  "catalog_reserve st s expected r =
     with_current st s expected (\<lambda>current s1.
       case doc_reserve current r of
         Inl e \<Rightarrow> (Inl e, s1)
       | Inr next' \<Rightarrow>
           if next' = current then (satisfied current (Some (as_revision (rs_attempt r))), s1)
           else write_next st s1 expected next' (Some (as_revision (rs_attempt r))))"

definition catalog_transition ::
  "'s attempt_catalog_store \<Rightarrow> 's \<Rightarrow> catalog_revision \<Rightarrow> disposable_attempt_id \<Rightarrow> attempt_revision \<Rightarrow>
   catalog_action \<Rightarrow> catalog_published \<times> 's" where
  "catalog_transition st s expected attempt_id expected_attempt action =
     with_current st s expected (\<lambda>current s1.
       case doc_replace_attempt current attempt_id expected_attempt action of
         Inl e \<Rightarrow> (Inl e, s1)
       | Inr next' \<Rightarrow>
           if next' = current then (satisfied current (Some expected_attempt), s1)
           else write_next st s1 expected next'
                  (map_option (\<lambda>r. as_revision (rs_attempt r)) (find_active next' attempt_id)))"

definition catalog_retire_complete ::
  "'s attempt_catalog_store \<Rightarrow> 's \<Rightarrow> catalog_revision \<Rightarrow> disposable_attempt_id \<Rightarrow> attempt_revision \<Rightarrow>
   catalog_published \<times> 's" where
  "catalog_retire_complete st s expected attempt_id expected_attempt =
     with_current st s expected (\<lambda>current s1.
       case doc_retire_complete current attempt_id expected_attempt of
         Inl e \<Rightarrow> (Inl e, s1)
       | Inr next' \<Rightarrow> write_next st s1 expected next' (Some expected_attempt))"

section \<open>The in-memory store\<close>

record memory_catalog_store =
  mc_document :: "catalog_document option"

definition memory_catalog_recover :: "memory_catalog_store \<Rightarrow> (catalog_error + unit) \<times> memory_catalog_store" where
  "memory_catalog_recover s = (Inr (), s)"

definition memory_catalog_load :: "memory_catalog_store \<Rightarrow> catalog_error + catalog_document option" where
  "memory_catalog_load s = Inr (mc_document s)"

definition memory_catalog_create ::
  "memory_catalog_store \<Rightarrow> catalog_document \<Rightarrow> (catalog_error + catalog_write_receipt) \<times> memory_catalog_store" where
  "memory_catalog_create s document =
     (if mc_document s \<noteq> None then (Inl CatAlreadyExists, s)
      else
        (case catalog_validate document of
           Inl e \<Rightarrow> (Inl e, s)
         | Inr _ \<Rightarrow>
             if document \<noteq> catalog_empty then (Inl CatConflict, s)
             else (Inr (write_receipt_new CatCreated (cd_revision document) None),
                   s\<lparr>mc_document := Some document\<rparr>)))"

definition memory_catalog_replace_if_revision ::
  "memory_catalog_store \<Rightarrow> catalog_revision \<Rightarrow> catalog_document \<Rightarrow>
   (catalog_error + catalog_write_receipt) \<times> memory_catalog_store" where
  "memory_catalog_replace_if_revision s expected document =
     (case mc_document s of
        None \<Rightarrow> (Inl CatMissing, s)
      | Some current \<Rightarrow>
          if cd_revision current \<noteq> expected then (Inl CatConflict, s)
          else
            (case validate_successor_of document current of
               Inl e \<Rightarrow> (Inl e, s)
             | Inr _ \<Rightarrow> (Inr (write_receipt_new CatReplaced (cd_revision document) None),
                         s\<lparr>mc_document := Some document\<rparr>)))"

definition memory_catalog :: "memory_catalog_store attempt_catalog_store" where
  "memory_catalog =
     \<lparr>st_recover = memory_catalog_recover, st_load = memory_catalog_load, st_create = memory_catalog_create,
      st_replace = memory_catalog_replace_if_revision\<rparr>"

section \<open>Histories of calls\<close>

datatype catalog_call =
    CallInitialize
  | CallReserve catalog_revision reservation
  | CallTransition catalog_revision disposable_attempt_id attempt_revision catalog_action
  | CallRetire catalog_revision disposable_attempt_id attempt_revision

fun catalog_call_step ::
  "'s attempt_catalog_store \<Rightarrow> 's \<Rightarrow> catalog_call \<Rightarrow> catalog_published \<times> 's" where
  "catalog_call_step st s CallInitialize = catalog_initialize st s"
| "catalog_call_step st s (CallReserve rv r) = catalog_reserve st s rv r"
| "catalog_call_step st s (CallTransition rv i arv a) = catalog_transition st s rv i arv a"
| "catalog_call_step st s (CallRetire rv i arv) = catalog_retire_complete st s rv i arv"

text \<open>The specification: what a call does to the one document, if it is legal.\<close>

fun catalog_spec :: "catalog_document option \<Rightarrow> catalog_call \<Rightarrow> catalog_document option" where
  "catalog_spec None CallInitialize = Some catalog_empty"
| "catalog_spec None _ = None"
| "catalog_spec (Some d) CallInitialize = Some d"
| "catalog_spec (Some d) (CallReserve rv r) =
     (if cd_revision d = rv then (case doc_reserve d r of Inl e \<Rightarrow> None | Inr d' \<Rightarrow> Some d') else None)"
| "catalog_spec (Some d) (CallTransition rv i arv a) =
     (if cd_revision d = rv then (case doc_replace_attempt d i arv a of Inl e \<Rightarrow> None | Inr d' \<Rightarrow> Some d') else None)"
| "catalog_spec (Some d) (CallRetire rv i arv) =
     (if cd_revision d = rv then (case doc_retire_complete d i arv of Inl e \<Rightarrow> None | Inr d' \<Rightarrow> Some d') else None)"

section \<open>The store contract\<close>

locale attempt_store =
  fixes st :: "'s attempt_catalog_store" and held :: "'s \<Rightarrow> catalog_document option"
  assumes recover_keeps: "st_recover st s = (x, s') \<Longrightarrow> held s' = held s"
    and load_held: "st_load st s = Inr found \<Longrightarrow> found = held s"
    and created: "st_create st s d = (Inr receipt, s') \<Longrightarrow> held s = None \<and> held s' = Some d"
    and create_refused: "st_create st s d = (Inl e, s') \<Longrightarrow> held s' = held s"
    and replaced: "st_replace st s rv d = (Inr receipt, s') \<Longrightarrow>
      held s' = Some d \<and> (\<exists>current. held s = Some current \<and> cd_revision current = rv)"
    and replace_refused: "st_replace st s rv d = (Inl e, s') \<Longrightarrow> held s' = held s"
begin

lemma write_next_published:
  "write_next st s rv d x = (Inr (d', receipt), s') \<Longrightarrow> d' = d \<and> held s' = Some d"
  by (auto simp: write_next_def Let_def split: prod.splits dest: replaced)

lemma write_next_refused: "write_next st s rv d x = (Inl e, s') \<Longrightarrow> held s' = held s"
  by (auto simp: write_next_def Let_def result_simps split: prod.splits dest: replace_refused)

lemma catalog_load_held: "catalog_load st s = Inr d \<Longrightarrow> held s = Some d \<and> catalog_validate d = Inr ()"
  by (auto simp: catalog_load_def dest: load_held)

lemma with_current_cases:
  assumes "with_current st s rv body = (x, s')"
  shows "(\<exists>e. x = Inl e) \<and> held s' = held s \<or>
    (\<exists>d s1. held s = Some d \<and> held s1 = held s \<and> cd_revision d = rv \<and> catalog_validate d = Inr () \<and> body d s1 = (x, s'))"
proof -
  obtain r s1 where rec: "st_recover st s = (r, s1)" by force
  note keep = recover_keeps [OF rec]
  show ?thesis
  proof (cases r)
    case (Inr u)
    show ?thesis
    proof (cases "catalog_load st s1")
      case (Inr d)
      with rec \<open>r = Inr u\<close> assms catalog_load_held [OF Inr] keep show ?thesis
        by (auto simp: with_current_def require_catalog_revision_def split: if_splits)
    qed (use rec Inr assms keep in \<open>auto simp: with_current_def\<close>)
  qed (use rec assms keep in \<open>auto simp: with_current_def\<close>)
qed

lemma initialize_published:
  assumes "catalog_initialize st s = (Inr (d, receipt), s')"
  shows "catalog_spec (held s) CallInitialize = Some d \<and> held s' = Some d"
proof -
  obtain s1 u where rec: "st_recover st s = (Inr u, s1)"
    using assms by (auto simp: catalog_initialize_def split: prod.splits sum.splits)
  note keep = recover_keeps [OF rec]
  obtain found where load: "st_load st s1 = Inr found"
    using assms rec by (auto simp: catalog_initialize_def split: prod.splits sum.splits)
  show ?thesis
  proof (cases found)
    case None
    obtain y s2 where create: "st_create st s1 catalog_empty = (y, s2)" by force
    have refused: "held s2 = held s1" if "y = Inl e" for e using create that create_refused by blast
    show ?thesis
    proof (cases y)
      case (Inl e)
      have False using assms rec load None create Inl refused [OF Inl] load_held [OF load]
        by (auto simp: catalog_initialize_def dest: load_held split: if_splits)
      then show ?thesis ..
    next
      case (Inr r)
      then show ?thesis using assms rec load keep None create created [of s1 catalog_empty r s2]
        by (simp add: catalog_initialize_def)
    qed
  next
    case (Some current)
    then show ?thesis using assms rec load keep load_held [OF load]
      by (auto simp: catalog_initialize_def satisfied_def)
  qed
qed

lemma initialize_refused:
  assumes "catalog_initialize st s = (Inl e, s')"
  shows "held s' = held s"
proof -
  obtain r s1 where rec: "st_recover st s = (r, s1)" by force
  obtain y s2 where create: "st_create st s1 catalog_empty = (y, s2)" by force
  have "held s2 = held s1" if "y = Inl e'" for e' using create that create_refused by blast
  then show ?thesis using assms rec create recover_keeps [OF rec]
    by (auto simp: catalog_initialize_def satisfied_def split: sum.splits option.splits if_splits)
qed

lemma call_published:
  assumes "catalog_call_step st s c = (Inr (d, receipt), s')"
  shows "catalog_spec (held s) c = Some d \<and> held s' = Some d"
proof (cases c)
  case CallInitialize
  then show ?thesis using assms initialize_published by simp
next
  case (CallReserve rv r)
  with assms show ?thesis
    by (auto simp: catalog_reserve_def satisfied_def split: sum.splits if_splits
        dest!: with_current_cases write_next_published)
next
  case (CallTransition rv i arv a)
  with assms show ?thesis
    by (auto simp: catalog_transition_def satisfied_def split: sum.splits if_splits
        dest!: with_current_cases write_next_published)
next
  case (CallRetire rv i arv)
  with assms show ?thesis
    by (auto simp: catalog_retire_complete_def split: sum.splits
        dest!: with_current_cases write_next_published)
qed

lemma call_refused: "catalog_call_step st s c = (Inl e, s') \<Longrightarrow> held s' = held s"
  by (cases c)
    (auto simp: catalog_reserve_def catalog_transition_def catalog_retire_complete_def satisfied_def
      split: sum.splits if_splits dest!: with_current_cases initialize_refused write_next_refused)

end

text \<open>A store that answers, and refuses no exact successor.\<close>

locale reliable_attempt_store = attempt_store +
  assumes recovers: "\<exists>s'. st_recover st s = (Inr (), s')"
    and loads: "\<exists>found. st_load st s = Inr found"
    and creates: "held s = None \<Longrightarrow> \<exists>receipt s'. st_create st s catalog_empty = (Inr receipt, s')"
    and replaces: "held s = Some current \<Longrightarrow> cd_revision current = rv \<Longrightarrow> validate_successor_of d current = Inr () \<Longrightarrow>
      \<exists>receipt s'. st_replace st s rv d = (Inr receipt, s')"
begin

lemma with_current_here:
  assumes "held s = Some d" and "catalog_validate d = Inr ()"
  shows "\<exists>s1. held s1 = Some d \<and> (\<forall>body. with_current st s (cd_revision d) body = body d s1)"
proof -
  obtain s1 where rec: "st_recover st s = (Inr (), s1)" using recovers by blast
  then have held: "held s1 = Some d" using recover_keeps assms(1) by metis
  moreover obtain found where "st_load st s1 = Inr found" using loads by blast
  ultimately have "st_load st s1 = Inr (Some d)" using load_held by auto
  then show ?thesis using rec held assms(2)
    by (intro exI [of _ s1]) (simp add: with_current_def catalog_load_def require_catalog_revision_def)
qed

lemma write_next_here:
  assumes "held s1 = Some d" and "catalog_inv d" and "catalog_operation d d'" and "d' \<noteq> d"
  shows "\<exists>receipt s'. write_next st s1 (cd_revision d) d' x = (Inr (d', receipt), s')"
  using replaces [OF assms(1) refl operation_is_successor [OF assms(2-4)]]
  by (auto simp: write_next_def)

lemma initialize_complete: "\<forall>d. held s = Some d \<longrightarrow> catalog_validate d = Inr () \<Longrightarrow>
   \<exists>d receipt s'. catalog_initialize st s = (Inr (d, receipt), s')"
proof -
  assume valid: "\<forall>d. held s = Some d \<longrightarrow> catalog_validate d = Inr ()"
  obtain s1 where rec: "st_recover st s = (Inr (), s1)" using recovers by blast
  then have held: "held s1 = held s" by (rule recover_keeps)
  obtain found where load: "st_load st s1 = Inr found" using loads by blast
  with load_held held have found: "found = held s" by auto
  show ?thesis
  proof (cases found)
    case None
    with found held creates [of s1] obtain receipt s' where "st_create st s1 catalog_empty = (Inr receipt, s')" by auto
    with rec load None show ?thesis by (simp add: catalog_initialize_def)
  next
    case (Some d)
    then have "catalog_validate d = Inr ()" using found valid by simp
    with rec load Some show ?thesis by (simp add: catalog_initialize_def satisfied_def)
  qed
qed

lemma call_complete:
  assumes inv: "\<forall>d. held s = Some d \<longrightarrow> catalog_inv d" and spec: "catalog_spec (held s) c = Some d'"
  shows "\<exists>receipt s'. catalog_call_step st s c = (Inr (d', receipt), s')"
proof (cases "c = CallInitialize")
  case True
  have "\<forall>d. held s = Some d \<longrightarrow> catalog_validate d = Inr ()" using inv inv_valid by blast
  from initialize_complete [OF this] obtain d receipt s' where "catalog_initialize st s = (Inr (d, receipt), s')" by blast
  with initialize_published [OF this] spec True show ?thesis by auto
next
  case False
  with spec obtain d where d: "held s = Some d" by (cases "held s"; cases c) auto
  with inv have inv_d: "catalog_inv d" by blast
  obtain s1 where s1: "held s1 = Some d" and here: "\<And>body. with_current st s (cd_revision d) body = body d s1"
    using with_current_here [OF d inv_valid [OF inv_d]] by blast
  note wr = write_next_here [OF s1 inv_d]
  show ?thesis
  proof (cases c)
    case (CallReserve rv r)
    with spec d have rv: "rv = cd_revision d" and ok: "doc_reserve d r = Inr d'" by (auto split: if_splits sum.splits)
    have op: "catalog_operation d d'" using ok by (auto simp: catalog_operation_def)
    show ?thesis using here wr [OF op] ok CallReserve rv
      by (cases "d' = d") (auto simp: catalog_reserve_def satisfied_def)
  next
    case (CallTransition rv i arv a)
    with spec d have rv: "rv = cd_revision d" and ok: "doc_replace_attempt d i arv a = Inr d'" by (auto split: if_splits sum.splits)
    have op: "catalog_operation d d'" using ok by (auto simp: catalog_operation_def)
    show ?thesis using here wr [OF op] ok CallTransition rv
      by (cases "d' = d") (auto simp: catalog_transition_def satisfied_def)
  next
    case (CallRetire rv i arv)
    with spec d have rv: "rv = cd_revision d" and ok: "doc_retire_complete d i arv = Inr d'" by (auto split: if_splits sum.splits)
    have op: "catalog_operation d d'" using ok by (auto simp: catalog_operation_def)
    have "d' \<noteq> d" using retire_ok [OF ok] by (cases d) auto
    then show ?thesis using here wr [OF op] ok CallRetire rv
      by (auto simp: catalog_retire_complete_def)
  qed (use False in simp)
qed

end

section \<open>The in-memory store keeps the contract\<close>

lemma memory_catalog_simps [simp]:
  "st_recover memory_catalog = memory_catalog_recover" "st_load memory_catalog = memory_catalog_load"
  "st_create memory_catalog = memory_catalog_create" "st_replace memory_catalog = memory_catalog_replace_if_revision"
  by (simp_all add: memory_catalog_def)

lemmas memory_catalog_defs = memory_catalog_recover_def memory_catalog_load_def memory_catalog_create_def
  memory_catalog_replace_if_revision_def

interpretation memory_attempts: reliable_attempt_store memory_catalog mc_document
  by unfold_locales
    (auto simp: memory_catalog_defs inv_valid [OF empty_inv] split: if_splits sum.splits option.splits)

text \<open>Calls whose reservations come from their constructor and a valid attempt.\<close>

fun proper_call :: "catalog_call \<Rightarrow> bool" where
  "proper_call (CallReserve rv r) \<longleftrightarrow>
     attempt_validate (rs_attempt r) = Inr () \<and> as_phase (rs_attempt r) = Reserved \<and> rev_of (rs_attempt r) = 1 \<and>
     resources_bounded (rs_resources r)"
| "proper_call _ \<longleftrightarrow> True"

lemma spec_reachable:
  assumes "catalog_spec held c = Some d'" and "\<forall>d. held = Some d \<longrightarrow> catalog_reachable d" and "proper_call c"
  shows "catalog_reachable d'"
proof (cases held)
  case None
  then show ?thesis using assms(1) by (cases c) (auto intro: catalog_created)
next
  case (Some d)
  with assms(2) have d: "catalog_reachable d" by simp
  show ?thesis
  proof (cases c)
    case (CallReserve rv r)
    obtain u where u: "worker_resources_new (wr_cpu_millis (rs_resources r)) (wr_memory_bytes (rs_resources r))
        (wr_disk_bytes (rs_resources r)) = Inr u" and eq: "u = rs_resources r"
      using CallReserve assms(3) by (auto simp: worker_resources_new_def resources_bounded_def)
    have "reservation_new (rs_attempt r) (rs_resources r) (rs_prepared_template_identity r) = Inr r"
      using CallReserve assms(3) by (simp add: reservation_new_def)
    moreover have "doc_reserve d r = Inr d'" using assms(1) Some CallReserve by (auto split: if_splits sum.splits)
    ultimately show ?thesis using CallReserve assms(3) u eq
      by (auto intro: catalog_stepped [OF d step_reserve])
  next
    case (CallTransition rv i arv a)
    then show ?thesis using assms(1) Some
      by (auto split: if_splits sum.splits intro: catalog_stepped [OF d step_transition])
  next
    case (CallRetire rv i arv)
    then show ?thesis using assms(1) Some
      by (auto split: if_splits sum.splits intro: catalog_stepped [OF d step_retire])
  qed (use assms(1) Some d in simp)
qed

fun catalog_run :: "memory_catalog_store \<Rightarrow> catalog_call list \<Rightarrow> memory_catalog_store" where
  "catalog_run s [] = s"
| "catalog_run s (c # cs) = catalog_run (snd (catalog_call_step memory_catalog s c)) cs"

definition held_reachable :: "memory_catalog_store \<Rightarrow> bool" where
  "held_reachable s \<longleftrightarrow> (\<forall>d. mc_document s = Some d \<longrightarrow> catalog_reachable d)"

lemma call_keeps_reachable:
  assumes "held_reachable s" and "proper_call c"
  shows "held_reachable (snd (catalog_call_step memory_catalog s c))"
proof -
  obtain x s' where call: "catalog_call_step memory_catalog s c = (x, s')" by force
  show ?thesis
  proof (cases x)
    case (Inl e)
    then show ?thesis using call memory_attempts.call_refused assms(1) by (auto simp: held_reachable_def)
  next
    case (Inr p)
    obtain d receipt where p: "p = (d, receipt)" by force
    have "catalog_spec (mc_document s) c = Some d \<and> mc_document s' = Some d"
      using call Inr p memory_attempts.call_published by blast
    with spec_reachable [of "mc_document s" c d] assms call show ?thesis by (auto simp: held_reachable_def)
  qed
qed

lemma run_keeps_reachable:
  "held_reachable s \<Longrightarrow> list_all proper_call cs \<Longrightarrow> held_reachable (catalog_run s cs)"
  by (induction cs arbitrary: s) (auto intro: call_keeps_reachable)

section \<open>Properties\<close>

text \<open>
  C5. The catalog over the in-memory store refines one atomically updated document. After any
  sequence of calls, initialisation included, a further call succeeds exactly when the
  specification allows it, returns the document the specification gives and leaves the store
  holding it; a refused call leaves the store unchanged. In particular every document the catalog
  computes is accepted by the store's check of exact successors.
\<close>
theorem attempt_catalog_refines_spec:
  assumes "list_all proper_call cs"
  defines "s \<equiv> catalog_run \<lparr>mc_document = None\<rparr> cs"
  shows "case catalog_call_step memory_catalog s c of
      (Inr (d, receipt), s') \<Rightarrow> catalog_spec (mc_document s) c = Some d \<and> mc_document s' = Some d
    | (Inl e, s') \<Rightarrow> catalog_spec (mc_document s) c = None \<and> mc_document s' = mc_document s"
proof -
  have "held_reachable s"
    unfolding s_def by (rule run_keeps_reachable [OF _ assms(1)]) (simp add: held_reachable_def)
  then have inv: "\<forall>d. mc_document s = Some d \<longrightarrow> catalog_inv d"
    by (auto simp: held_reachable_def intro: reachable_inv)
  have "catalog_spec (mc_document s) c = None" if "catalog_call_step memory_catalog s c = (Inl e, s')" for e s'
    using memory_attempts.call_complete [OF inv, of c] that by (cases "catalog_spec (mc_document s) c") force+
  then show ?thesis
    by (auto split: prod.splits sum.splits dest: memory_attempts.call_published memory_attempts.call_refused)
qed

theorem attempt_catalog_refines_spec_witness:
  "case catalog_call_step memory_catalog (catalog_run \<lparr>mc_document = None\<rparr> [CallInitialize])
       (CallReserve (DisposableAttemptCatalogRevision 1) example_reservation) of
     (Inr (d, receipt), s') \<Rightarrow> d = example_catalog \<and> mc_document s' = Some d
   | (Inl e, s') \<Rightarrow> False"
proof -
  let ?s = "catalog_run \<lparr>mc_document = None\<rparr> [CallInitialize]"
  have held: "mc_document ?s = Some catalog_empty"
    using empty_inv by (simp add: catalog_initialize_def memory_catalog_defs catalog_inv_def)
  have "catalog_spec (mc_document ?s) (CallReserve (DisposableAttemptCatalogRevision 1) example_reservation) =
      Some example_catalog"
    unfolding held using example_reserved by (simp add: catalog_empty_def)
  with attempt_catalog_refines_spec [of "[CallInitialize]"
      "CallReserve (DisposableAttemptCatalogRevision 1) example_reservation"]
  show ?thesis by (auto split: prod.splits sum.splits)
qed

end
