(* ===== verification/Reconciler.thy ===== *)
theory Reconciler
  imports Attempt_Store
begin

text \<open>
  The pure reconciler of one disposable worker, \<open>reconcile_attempt\<close> of
  \<open>src/disposable_worker_reconciler.rs\<close>: from the durable attempt and one observation of the
  world to the single next action. The arms of the \<open>match\<close> on the phase are the definitions
  \<open>on_*\<close>, in the order of the code; \<open>unreachable!()\<close> is the error \<open>ReconcilerPanic\<close>.
\<close>

section \<open>Input and actions\<close>

record reconcile_input =
  ri_now :: epoch_millis
  ri_attempt :: attempt_state
  ri_vm :: disposable_vm_observation
  ri_vm_identity :: "disposable_vm_identity option"
  ri_runner :: scale_set_runner_observation
  ri_job_event :: "scale_set_job_event option"
  ri_capacity_reserved :: bool
  ri_cancellation_requested :: bool

datatype observation_target = TargetVm | TargetRunner

datatype worker_action =
    Persist catalog_action
  | Observe observation_target
  | CheckpointAndCloneVm
  | DiscardIncompleteVm
  | CheckpointAndGenerateJit
  | Wait
  | DestroyVm
  | DeleteRunner scale_set_runner_reference
  | ReleaseCapacity
  | NoOp
  | Blocked string

type_synonym reconciled = "reconciler_error + worker_action"

section \<open>Validation of observations\<close>

text \<open>\<open>validate_transition\<close> runs the same operation the catalog will run.\<close>

definition validate_transition :: "attempt_state \<Rightarrow> catalog_action \<Rightarrow> reconciler_error + catalog_action" where
  "validate_transition attempt transition =
     try_res (map_err (\<lambda>e. if e \<noteq> IdentityDrift then InvalidAttemptTransition else GithubJobIdentityDrift)
               (run_action attempt transition)) (\<lambda>_. Inr transition)"

definition validate_vm_observation ::
  "attempt_state \<Rightarrow> disposable_vm_observation \<Rightarrow> disposable_vm_identity option \<Rightarrow> reconciler_error + unit" where
  "validate_vm_observation attempt observation observed_identity =
     (let identity_required = (observation = VmStopped \<or> observation = VmReady)
      in if identity_required \<noteq> (observed_identity \<noteq> None) then Inl InvalidVmObservation
         else
           (case (as_vm_identity attempt, observed_identity) of
              (Some current, Some observed) \<Rightarrow> if current \<noteq> observed then Inl VmIdentityDrift else Inr ()
            | _ \<Rightarrow> Inr ()))"

fun observed_runner :: "scale_set_runner_observation \<Rightarrow> scale_set_runner_reference option" where
  "observed_runner (RegistrationOnly runner) = Some runner"
| "observed_runner (IdleReady runner) = Some runner"
| "observed_runner _ = None"

definition validate_runner_observation ::
  "attempt_state \<Rightarrow> scale_set_runner_observation \<Rightarrow> reconciler_error + unit" where
  "validate_runner_observation attempt observation =
     (case observed_runner observation of
        None \<Rightarrow> Inr ()
      | Some runner \<Rightarrow>
          if rr_name runner \<noteq> as_runner_name attempt
             \<or> (case as_runner_id attempt of None \<Rightarrow> False | Some i \<Rightarrow> i \<noteq> rr_id runner)
          then Inl RunnerIdentityDrift else Inr ())"

fun event_transition :: "scale_set_job_event \<Rightarrow> catalog_action" where
  "event_transition (JobStarted runner job_id) = RecordRunning runner job_id"
| "event_transition (JobCompleted runner job_id result) = RecordTerminal runner job_id result"

definition plan_job_event :: "attempt_state \<Rightarrow> scale_set_job_event \<Rightarrow> reconciler_error + worker_action option" where
  "plan_job_event attempt event =
     (let before = as_revision attempt
      in try_res (validate_transition attempt (event_transition event)) (\<lambda>transition.
         try_res
           (case transition of
              RecordRunning runner job_id \<Rightarrow>
                map_err (\<lambda>_. InvalidJobEvent) (record_running attempt runner job_id)
            | RecordTerminal runner job_id result \<Rightarrow>
                map_err (\<lambda>_. InvalidJobEvent) (record_terminal attempt runner job_id result)
            | _ \<Rightarrow> Inl ReconcilerPanic) (\<lambda>after.
         Inr (if as_revision after \<noteq> before then Some (Persist transition) else None))))"

section \<open>The arms of the phase match\<close>

definition on_reserved :: "reconcile_input \<Rightarrow> bool \<Rightarrow> reconciled" where
  "on_reserved i cleanup =
     (if cleanup then Inr (Persist BeginUnprovisionedRelease)
      else
        (case ri_vm i of
           VmUnknown \<Rightarrow> Inr (Observe TargetVm)
         | VmAbsent \<Rightarrow> Inr (Persist AuthorizeClone)
         | VmStopped \<Rightarrow> Inr (Blocked ''vm_exists_before_clone_authorization'')
         | VmReady \<Rightarrow> Inr (Blocked ''vm_exists_before_clone_authorization'')
         | VmConflicting \<Rightarrow> Inl ReconcilerPanic))"

definition on_unprovisioned_releasing :: "reconcile_input \<Rightarrow> reconciled" where
  "on_unprovisioned_releasing i = (if ri_capacity_reserved i then Inr ReleaseCapacity else Inl ReconcilerPanic)"

definition on_clone_authorized :: "reconcile_input \<Rightarrow> bool \<Rightarrow> reconciled" where
  "on_clone_authorized i cleanup =
     (if cleanup then Inr (Persist BeginUnprovisionedRelease)
      else
        (case ri_vm i of
           VmUnknown \<Rightarrow> Inr (Observe TargetVm)
         | VmAbsent \<Rightarrow> Inr CheckpointAndCloneVm
         | VmStopped \<Rightarrow> Inr (Blocked ''vm_changed_before_clone_start'')
         | VmReady \<Rightarrow> Inr (Blocked ''vm_changed_before_clone_start'')
         | VmConflicting \<Rightarrow> Inl ReconcilerPanic))"

definition on_clone_started :: "reconcile_input \<Rightarrow> bool \<Rightarrow> reconciled" where
  "on_clone_started i cleanup =
     (if cleanup then Inr (Persist BeginCleanup)
      else
        (case ri_vm i of
           VmUnknown \<Rightarrow> Inr (Observe TargetVm)
         | VmAbsent \<Rightarrow> Inr (Persist BeginCleanup)
         | VmStopped \<Rightarrow> Inr DiscardIncompleteVm
         | VmReady \<Rightarrow> Inr (Persist BeginRegistration)
         | VmConflicting \<Rightarrow> Inl ReconcilerPanic))"

text \<open>\<open>Registering | Assigned\<close> while the runner start is not yet checkpointed.\<close>

definition on_runner_not_started :: "reconcile_input \<Rightarrow> reconciled" where
  "on_runner_not_started i =
     (let attempt = ri_attempt i
      in if ri_vm i = VmUnknown then Inr (Observe TargetVm)
         else if ri_vm i = VmAbsent \<or> ri_vm i = VmStopped then Inr (Persist BeginCleanup)
         else
           (case ri_runner i of
              RunnerUnknown \<Rightarrow> Inr (Observe TargetRunner)
            | RunnerAbsent \<Rightarrow>
                if \<not> as_jit_generation_started attempt then Inr CheckpointAndGenerateJit
                else if as_runner_id attempt = None then Inr (Blocked ''jit_generation_outcome_unknown'')
                else Inr (Persist BeginCleanup)
            | RunnerConflicting \<Rightarrow> Inl ReconcilerPanic
            | observed \<Rightarrow>
                (case observed_runner observed of
                   None \<Rightarrow> Inl ReconcilerPanic
                 | Some runner \<Rightarrow>
                     if as_jit_generation_started attempt \<and> as_runner_id attempt = None
                     then try_res (validate_transition attempt (RecordRegistration runner)) (\<lambda>t. Inr (Persist t))
                     else if as_jit_generation_started attempt then Inr (Persist BeginCleanup)
                     else Inr (Blocked ''runner_exists_before_jit_checkpoint''))))"

definition on_registering_started :: "reconcile_input \<Rightarrow> reconciled" where
  "on_registering_started i =
     (case ri_runner i of
        RunnerUnknown \<Rightarrow> Inr (Observe TargetRunner)
      | RunnerAbsent \<Rightarrow> Inr (Persist BeginCleanup)
      | RegistrationOnly runner \<Rightarrow> Inr (Persist BeginCleanup)
      | IdleReady runner \<Rightarrow>
          try_res (validate_transition (ri_attempt i) (RecordRunnerReady runner)) (\<lambda>t. Inr (Persist t))
      | RunnerConflicting \<Rightarrow> Inl ReconcilerPanic)"

text \<open>\<open>Waiting | Assigned | Running\<close>.\<close>

definition on_working :: "reconcile_input \<Rightarrow> bool \<Rightarrow> reconciled" where
  "on_working i cleanup =
     (if cleanup then Inr (Persist BeginCleanup)
      else if ri_vm i = VmUnknown then Inr (Observe TargetVm)
      else if ri_vm i = VmAbsent \<or> ri_vm i = VmStopped then Inr (Persist BeginCleanup)
      else
        (case ri_runner i of
           RunnerUnknown \<Rightarrow> Inr (Observe TargetRunner)
         | RunnerAbsent \<Rightarrow> Inr (Persist BeginCleanup)
         | RegistrationOnly runner \<Rightarrow> Inr (Persist BeginCleanup)
         | IdleReady runner \<Rightarrow>
             if as_runner_id (ri_attempt i) = None
             then try_res (validate_transition (ri_attempt i) (RecordRunnerReady runner)) (\<lambda>t. Inr (Persist t))
             else Inr Wait
         | RunnerConflicting \<Rightarrow> Inl ReconcilerPanic))"

definition unbound_vm :: "reconcile_input \<Rightarrow> bool" where
  "unbound_vm i \<longleftrightarrow> ri_vm_identity i \<noteq> None \<and> as_vm_identity (ri_attempt i) = None"

definition on_destroying :: "reconcile_input \<Rightarrow> reconciled" where
  "on_destroying i =
     (if unbound_vm i then Inr (Blocked ''unbound_vm_recovery_required'')
      else
        (case ri_vm i of
           VmUnknown \<Rightarrow> Inr (Observe TargetVm)
         | VmStopped \<Rightarrow> Inr DestroyVm
         | VmReady \<Rightarrow> Inr DestroyVm
         | VmAbsent \<Rightarrow> Inr (Persist (AdvanceCleanup Deregistering))
         | VmConflicting \<Rightarrow> Inl ReconcilerPanic))"

definition on_deregistering :: "reconcile_input \<Rightarrow> reconciled" where
  "on_deregistering i =
     (if unbound_vm i then Inr (Blocked ''unbound_vm_recovery_required'')
      else if ri_vm i = VmUnknown then Inr (Observe TargetVm)
      else if ri_vm i = VmStopped \<or> ri_vm i = VmReady then Inr DestroyVm
      else
        (case ri_runner i of
           RunnerUnknown \<Rightarrow> Inr (Observe TargetRunner)
         | RunnerAbsent \<Rightarrow> Inr (Persist (AdvanceCleanup Releasing))
         | RunnerConflicting \<Rightarrow> Inl ReconcilerPanic
         | observed \<Rightarrow>
             (case observed_runner observed of
                None \<Rightarrow> Inl ReconcilerPanic
              | Some runner \<Rightarrow>
                  if as_runner_id (ri_attempt i) = None \<and> as_jit_generation_started (ri_attempt i)
                  then try_res (validate_transition (ri_attempt i) (RecordRegistration runner)) (\<lambda>t. Inr (Persist t))
                  else if as_runner_id (ri_attempt i) = None
                  then Inr (Blocked ''runner_exists_before_jit_checkpoint'')
                  else Inr (DeleteRunner runner))))"

definition on_releasing :: "reconcile_input \<Rightarrow> reconciled" where
  "on_releasing i =
     (if unbound_vm i then Inr (Blocked ''unbound_vm_recovery_required'')
      else if ri_vm i = VmUnknown then Inr (Observe TargetVm)
      else if ri_vm i = VmStopped \<or> ri_vm i = VmReady then Inr DestroyVm
      else if ri_runner i = RunnerUnknown then Inr (Observe TargetRunner)
      else
        (case observed_runner (ri_runner i) of
           Some runner \<Rightarrow>
             if as_runner_id (ri_attempt i) = None
             then try_res (validate_transition (ri_attempt i) (RecordRegistration runner)) (\<lambda>t. Inr (Persist t))
             else Inr (DeleteRunner runner)
         | None \<Rightarrow>
             if ri_runner i = RunnerAbsent
             then (if ri_capacity_reserved i then Inr ReleaseCapacity else Inr (Persist (AdvanceCleanup Complete)))
             else Inl ReconcilerPanic))"

definition on_complete :: "reconcile_input \<Rightarrow> reconciled" where
  "on_complete i =
     (if ri_capacity_reserved i then Inr (Blocked ''completed_attempt_retains_capacity'')
      else if ri_vm i = VmUnknown \<or> ri_runner i = RunnerUnknown
      then Inr (Blocked ''completed_attempt_external_state_unknown'')
      else if ri_vm i \<noteq> VmAbsent \<or> ri_runner i \<noteq> RunnerAbsent
      then Inr (Blocked ''completed_attempt_retains_external_state'')
      else Inr NoOp)"

definition reconcile_phase :: "reconcile_input \<Rightarrow> bool \<Rightarrow> reconciled" where
  "reconcile_phase i cleanup =
     (case as_phase (ri_attempt i) of
        Reserved \<Rightarrow> on_reserved i cleanup
      | UnprovisionedReleasing \<Rightarrow> on_unprovisioned_releasing i
      | Provisioning \<Rightarrow> Inr (Blocked ''legacy_provisioning_recovery_required'')
      | CloneAuthorized \<Rightarrow> on_clone_authorized i cleanup
      | CloneStarted \<Rightarrow> on_clone_started i cleanup
      | Registering \<Rightarrow>
          if cleanup then Inr (Persist BeginCleanup)
          else if \<not> as_runner_start_started (ri_attempt i) then on_runner_not_started i
          else on_registering_started i
      | Assigned \<Rightarrow>
          if \<not> as_runner_start_started (ri_attempt i)
          then (if cleanup then Inr (Persist BeginCleanup) else on_runner_not_started i)
          else on_working i cleanup
      | Waiting \<Rightarrow> on_working i cleanup
      | Running \<Rightarrow> on_working i cleanup
      | Terminal \<Rightarrow> Inr (Persist BeginCleanup)
      | Destroying \<Rightarrow> on_destroying i
      | Deregistering \<Rightarrow> on_deregistering i
      | Releasing \<Rightarrow> on_releasing i
      | Complete \<Rightarrow> on_complete i)"

definition reconcile_attempt :: "reconcile_input \<Rightarrow> reconciled" where
  "reconcile_attempt i =
     (let cleanup = (ri_cancellation_requested i \<or> epoch_get (as_not_after (ri_attempt i)) < epoch_get (ri_now i));
          attempt = ri_attempt i
      in if ri_vm i = VmConflicting then Inr (Blocked ''conflicting_vm_identity'')
         else
           try_res (validate_vm_observation attempt (ri_vm i) (ri_vm_identity i)) (\<lambda>_.
           if ri_runner i = RunnerConflicting then Inr (Blocked ''conflicting_runner_identity'')
           else
             try_res (validate_runner_observation attempt (ri_runner i)) (\<lambda>_.
             if as_phase attempt = CloneStarted \<and> as_vm_identity attempt = None
             then Inr (Blocked ''unbound_vm_recovery_required'')
             else
               try_res (case ri_job_event i of None \<Rightarrow> Inr None | Some event \<Rightarrow> plan_job_event attempt event)
                 (\<lambda>planned.
                    case planned of
                      Some action \<Rightarrow> Inr action
                    | None \<Rightarrow>
                        if \<not> ri_capacity_reserved i
                           \<and> as_phase attempt \<in> {Reserved, CloneAuthorized, UnprovisionedReleasing}
                        then Inr (Persist CompleteUnprovisioned)
                        else if \<not> ri_capacity_reserved i
                           \<and> as_phase attempt \<in> {CloneStarted, Registering, Waiting, Assigned, Running, Terminal}
                        then Inr (Persist BeginCleanup)
                        else reconcile_phase i cleanup))))"

section \<open>Lemmas\<close>

lemmas arm_defs = on_reserved_def on_unprovisioned_releasing_def on_clone_authorized_def on_clone_started_def
  on_runner_not_started_def on_registering_started_def on_working_def on_destroying_def on_deregistering_def
  on_releasing_def on_complete_def

lemma validate_transition_ok:
  "validate_transition s t = Inr t' \<longleftrightarrow> t' = t \<and> (\<exists>s'. run_action s t = Inr s')"
  by (auto simp: validate_transition_def)

lemma validate_transition_error:
  "validate_transition s t = Inl e \<Longrightarrow> e \<in> {InvalidAttemptTransition, GithubJobIdentityDrift}"
  by (auto simp: validate_transition_def result_simps)

text \<open>What the two observation checks and the first guards leave.\<close>

definition observation_ok :: "reconcile_input \<Rightarrow> bool" where
  "observation_ok i \<longleftrightarrow>
     ri_vm i \<noteq> VmConflicting \<and> ri_runner i \<noteq> RunnerConflicting \<and>
     (ri_vm_identity i \<noteq> None \<longleftrightarrow> ri_vm i = VmStopped \<or> ri_vm i = VmReady) \<and>
     (as_vm_identity (ri_attempt i) \<noteq> None \<and> ri_vm_identity i \<noteq> None \<longrightarrow>
        ri_vm_identity i = as_vm_identity (ri_attempt i)) \<and>
     (\<forall>r. observed_runner (ri_runner i) = Some r \<longrightarrow>
        rr_name r = as_runner_name (ri_attempt i) \<and>
        (as_runner_id (ri_attempt i) = None \<or> as_runner_id (ri_attempt i) = Some (rr_id r))) \<and>
     \<not> (as_phase (ri_attempt i) = CloneStarted \<and> as_vm_identity (ri_attempt i) = None)"

definition cleanup_due :: "reconcile_input \<Rightarrow> bool" where
  "cleanup_due i \<longleftrightarrow> ri_cancellation_requested i \<or> epoch_get (as_not_after (ri_attempt i)) < epoch_get (ri_now i)"

lemma vm_observation_ok:
  "validate_vm_observation a vm x = Inr u \<longleftrightarrow>
     (x \<noteq> None \<longleftrightarrow> vm = VmStopped \<or> vm = VmReady) \<and> (as_vm_identity a \<noteq> None \<and> x \<noteq> None \<longrightarrow> x = as_vm_identity a)"
  by (auto simp: validate_vm_observation_def Let_def split: if_splits option.splits)

lemma runner_observation_ok:
  "validate_runner_observation a ob = Inr u \<longleftrightarrow>
     (\<forall>r. observed_runner ob = Some r \<longrightarrow>
        rr_name r = as_runner_name a \<and> (as_runner_id a = None \<or> as_runner_id a = Some (rr_id r)))"
  by (auto simp: validate_runner_observation_def split: if_splits option.splits)

definition planned_event :: "reconcile_input \<Rightarrow> reconciler_error + worker_action option" where
  "planned_event i = (case ri_job_event i of None \<Rightarrow> Inr None | Some event \<Rightarrow> plan_job_event (ri_attempt i) event)"

definition before_clone :: "disposable_attempt_phase \<Rightarrow> bool" where
  "before_clone p \<longleftrightarrow> p \<in> {Reserved, CloneAuthorized, UnprovisionedReleasing}"

definition before_cleanup :: "disposable_attempt_phase \<Rightarrow> bool" where
  "before_cleanup p \<longleftrightarrow> p \<in> {CloneStarted, Registering, Waiting, Assigned, Running, Terminal}"

lemma reconcile_observed:
  assumes "observation_ok i"
  shows "reconcile_attempt i =
    try_res (planned_event i) (\<lambda>planned.
      case planned of
        Some action \<Rightarrow> Inr action
      | None \<Rightarrow>
          if \<not> ri_capacity_reserved i \<and> before_clone (as_phase (ri_attempt i)) then Inr (Persist CompleteUnprovisioned)
          else if \<not> ri_capacity_reserved i \<and> before_cleanup (as_phase (ri_attempt i)) then Inr (Persist BeginCleanup)
          else reconcile_phase i (cleanup_due i))"
proof -
  have "ri_vm i \<noteq> VmConflicting" "ri_runner i \<noteq> RunnerConflicting"
    "validate_vm_observation (ri_attempt i) (ri_vm i) (ri_vm_identity i) = Inr ()"
    "validate_runner_observation (ri_attempt i) (ri_runner i) = Inr ()"
    "\<not> (as_phase (ri_attempt i) = CloneStarted \<and> as_vm_identity (ri_attempt i) = None)"
    using assms by (simp_all add: observation_ok_def vm_observation_ok runner_observation_ok)
  then show ?thesis
    unfolding reconcile_attempt_def Let_def cleanup_due_def planned_event_def before_clone_def before_cleanup_def
    by (simp only: if_False try_res_simps)
qed

lemma reconcile_rejected:
  assumes "\<not> observation_ok i"
  shows "(\<exists>code. reconcile_attempt i = Inr (Blocked code)) \<or>
    reconcile_attempt i \<in> {Inl InvalidVmObservation, Inl VmIdentityDrift, Inl RunnerIdentityDrift}"
proof (cases "validate_vm_observation (ri_attempt i) (ri_vm i) (ri_vm_identity i)")
  case (Inl e)
  then have "e \<in> {InvalidVmObservation, VmIdentityDrift}"
    by (auto simp: validate_vm_observation_def Let_def split: if_splits option.splits)
  with Inl show ?thesis by (auto simp: reconcile_attempt_def Let_def)
next
  case v: (Inr u)
  show ?thesis
  proof (cases "validate_runner_observation (ri_attempt i) (ri_runner i)")
    case (Inl e)
    then have "e = RunnerIdentityDrift" by (auto simp: validate_runner_observation_def split: if_splits option.splits)
    with Inl v show ?thesis by (simp add: reconcile_attempt_def Let_def)
  next
    case (Inr w)
    then have "ri_vm i = VmConflicting \<or> ri_runner i = RunnerConflicting \<or>
        as_phase (ri_attempt i) = CloneStarted \<and> as_vm_identity (ri_attempt i) = None"
      using assms v by (auto simp: observation_ok_def vm_observation_ok runner_observation_ok)
    with Inr v show ?thesis by (auto simp: reconcile_attempt_def Let_def)
  qed
qed

text \<open>How an action comes about.\<close>

lemma reconcile_cases:
  assumes "reconcile_attempt i = Inr x"
  obtains code where "x = Blocked code"
  | ev where "observation_ok i" "ri_job_event i = Some ev" "plan_job_event (ri_attempt i) ev = Inr (Some x)"
  | "observation_ok i" "\<not> ri_capacity_reserved i" "x = Persist CompleteUnprovisioned" "before_clone (as_phase (ri_attempt i))"
  | "observation_ok i" "\<not> ri_capacity_reserved i" "x = Persist BeginCleanup" "before_cleanup (as_phase (ri_attempt i))"
  | "observation_ok i" "reconcile_phase i (cleanup_due i) = Inr x"
      "ri_capacity_reserved i \<or> \<not> before_clone (as_phase (ri_attempt i)) \<and> \<not> before_cleanup (as_phase (ri_attempt i))"
proof (cases "observation_ok i")
  case True
  note eq = assms [unfolded reconcile_observed [OF True]]
  then obtain planned where planned: "planned_event i = Inr planned" by auto
  show thesis
  proof (cases planned)
    case None
    let ?before = "\<not> ri_capacity_reserved i \<and> before_clone (as_phase (ri_attempt i))"
    let ?work = "\<not> ri_capacity_reserved i \<and> before_cleanup (as_phase (ri_attempt i))"
    from eq planned None have rest: "(if ?before then Inr (Persist CompleteUnprovisioned)
        else if ?work then Inr (Persist BeginCleanup) else reconcile_phase i (cleanup_due i)) = Inr x" by simp
    consider ?before | "\<not> ?before" ?work | "\<not> ?before" "\<not> ?work" by blast
    then show thesis
    proof cases
      case 1
      with rest have "x = Persist CompleteUnprovisioned" by simp
      with that(3) True 1 show thesis by blast
    next
      case 2
      with rest have "x = Persist BeginCleanup" by simp
      with that(4) True 2 show thesis by blast
    next
      case 3
      from rest have "reconcile_phase i (cleanup_due i) = Inr x" by (simp only: 3 if_False)
      with that(5) True 3 show thesis by blast
    qed
  next
    case (Some a)
    with eq planned have "plan_job_event (ri_attempt i) (the (ri_job_event i)) = Inr (Some x)" "ri_job_event i \<noteq> None"
      by (auto simp: planned_event_def split: option.splits)
    with that(2) True show thesis by auto
  qed
next
  case False
  from reconcile_rejected [OF this] assms that(1) show thesis by auto
qed

lemma plan_job_event_ok:
  assumes "plan_job_event s ev = Inr (Some x)"
  shows "\<exists>s'. x = Persist (event_transition ev) \<and> run_action s (event_transition ev) = Inr s' \<and> as_revision s' \<noteq> as_revision s"
  using assms
  by (cases ev) (auto simp: plan_job_event_def Let_def validate_transition_ok split: if_splits)

lemma plan_job_event_no_panic: "plan_job_event s ev \<noteq> Inl ReconcilerPanic"
  by (cases ev) (auto simp: plan_job_event_def Let_def result_simps validate_transition_ok dest: validate_transition_error)

lemma record_no_panic:
  "try_res (validate_transition s t) (\<lambda>t. Inr (Persist t)) \<noteq> Inl ReconcilerPanic"
  by (auto simp: result_simps dest: validate_transition_error)

lemma arms_no_panic:
  assumes "ri_vm i \<noteq> VmConflicting" and "ri_runner i \<noteq> RunnerConflicting"
  shows "on_reserved i c \<noteq> Inl ReconcilerPanic" and "on_clone_authorized i c \<noteq> Inl ReconcilerPanic"
    and "on_clone_started i c \<noteq> Inl ReconcilerPanic" and "on_destroying i \<noteq> Inl ReconcilerPanic"
    and "on_complete i \<noteq> Inl ReconcilerPanic"
    and "on_runner_not_started i \<noteq> Inl ReconcilerPanic" and "on_registering_started i \<noteq> Inl ReconcilerPanic"
    and "on_working i c \<noteq> Inl ReconcilerPanic" and "on_deregistering i \<noteq> Inl ReconcilerPanic"
    and "on_releasing i \<noteq> Inl ReconcilerPanic"
proof -
  show "on_reserved i c \<noteq> Inl ReconcilerPanic" "on_clone_authorized i c \<noteq> Inl ReconcilerPanic"
    "on_clone_started i c \<noteq> Inl ReconcilerPanic" "on_destroying i \<noteq> Inl ReconcilerPanic"
    "on_complete i \<noteq> Inl ReconcilerPanic"
    using assms(1) by (cases "ri_vm i"; simp add: arm_defs)+
  show "on_runner_not_started i \<noteq> Inl ReconcilerPanic" "on_registering_started i \<noteq> Inl ReconcilerPanic"
    "on_working i c \<noteq> Inl ReconcilerPanic" "on_deregistering i \<noteq> Inl ReconcilerPanic"
    "on_releasing i \<noteq> Inl ReconcilerPanic"
    using assms(2) by (cases "ri_runner i"; simp add: arm_defs Let_def record_no_panic)+
qed

lemma phase_no_panic:
  assumes "observation_ok i" and "ri_capacity_reserved i \<or> as_phase (ri_attempt i) \<noteq> UnprovisionedReleasing"
  shows "reconcile_phase i c \<noteq> Inl ReconcilerPanic"
proof -
  have "ri_vm i \<noteq> VmConflicting" "ri_runner i \<noteq> RunnerConflicting" using assms(1) by (simp_all add: observation_ok_def)
  from arms_no_panic [OF this] assms(2) show ?thesis
    by (cases "as_phase (ri_attempt i)") (simp_all add: reconcile_phase_def on_unprovisioned_releasing_def)
qed

lemma reconcile_no_panic: "reconcile_attempt i \<noteq> Inl ReconcilerPanic"
proof (cases "observation_ok i")
  case True
  have "planned_event i \<noteq> Inl ReconcilerPanic"
    by (simp add: planned_event_def plan_job_event_no_panic split: option.splits)
  moreover have "reconcile_phase i c \<noteq> Inl ReconcilerPanic"
    if "\<not> (\<not> ri_capacity_reserved i \<and> before_clone (as_phase (ri_attempt i)))" for c
    using phase_no_panic [OF True] that by (auto simp: before_clone_def)
  ultimately show ?thesis
    unfolding reconcile_observed [OF True] by (auto simp: result_simps split: option.splits if_splits)
next
  case False
  from reconcile_rejected [OF this] show ?thesis by auto
qed

section \<open>When an action is justified\<close>

text \<open>The observed VM is the one the attempt is bound to.\<close>

definition bound_vm_observed :: "reconcile_input \<Rightarrow> bool" where
  "bound_vm_observed i \<longleftrightarrow> ri_vm_identity i \<noteq> None \<and> ri_vm_identity i = as_vm_identity (ri_attempt i)"

fun action_justified :: "reconcile_input \<Rightarrow> worker_action \<Rightarrow> bool" where
  "action_justified i DestroyVm \<longleftrightarrow>
     as_phase (ri_attempt i) \<in> {Destroying, Deregistering, Releasing} \<and> bound_vm_observed i"
| "action_justified i (DeleteRunner r) \<longleftrightarrow>
     as_phase (ri_attempt i) \<in> {Deregistering, Releasing} \<and> ri_vm i = VmAbsent \<and>
     observed_runner (ri_runner i) = Some r \<and> rr_name r = as_runner_name (ri_attempt i) \<and>
     as_runner_id (ri_attempt i) = Some (rr_id r)"
| "action_justified i ReleaseCapacity \<longleftrightarrow>
     ri_capacity_reserved i \<and>
     (as_phase (ri_attempt i) = UnprovisionedReleasing \<or>
      as_phase (ri_attempt i) = Releasing \<and> ri_vm i = VmAbsent \<and> ri_runner i = RunnerAbsent)"
| "action_justified i CheckpointAndCloneVm \<longleftrightarrow>
     as_phase (ri_attempt i) = CloneAuthorized \<and> ri_vm i = VmAbsent \<and> ri_capacity_reserved i \<and> \<not> cleanup_due i"
| "action_justified i DiscardIncompleteVm \<longleftrightarrow>
     as_phase (ri_attempt i) = CloneStarted \<and> ri_vm i = VmStopped \<and> bound_vm_observed i \<and>
     ri_capacity_reserved i \<and> \<not> cleanup_due i"
| "action_justified i CheckpointAndGenerateJit \<longleftrightarrow>
     as_phase (ri_attempt i) \<in> {Registering, Assigned} \<and> \<not> as_jit_generation_started (ri_attempt i) \<and>
     ri_vm i = VmReady \<and> bound_vm_observed i \<and> ri_runner i = RunnerAbsent \<and>
     ri_capacity_reserved i \<and> \<not> cleanup_due i"
| "action_justified i (Persist CompleteUnprovisioned) \<longleftrightarrow>
     before_clone (as_phase (ri_attempt i)) \<and> \<not> ri_capacity_reserved i"
| "action_justified i (Persist (AdvanceCleanup p)) \<longleftrightarrow>
     ri_vm i = VmAbsent \<and>
     (p = Complete \<longrightarrow> as_phase (ri_attempt i) = Releasing \<and> ri_runner i = RunnerAbsent \<and> \<not> ri_capacity_reserved i)"
| "action_justified i NoOp \<longleftrightarrow>
     as_phase (ri_attempt i) = Complete \<and> ri_vm i = VmAbsent \<and> ri_runner i = RunnerAbsent \<and> \<not> ri_capacity_reserved i"
| "action_justified i _ \<longleftrightarrow> True"

lemma persist_recorded_justified:
  "try_res (validate_transition s (RecordRegistration r)) (\<lambda>t. Inr (Persist t)) = Inr x \<Longrightarrow> action_justified i x"
  "try_res (validate_transition s (RecordRunnerReady r)) (\<lambda>t. Inr (Persist t)) = Inr x \<Longrightarrow> action_justified i x"
  by (auto simp: validate_transition_ok)

lemma bound_vm:
  assumes "observation_ok i" and "ri_vm i = VmStopped \<or> ri_vm i = VmReady" and "as_vm_identity (ri_attempt i) \<noteq> None"
  shows "bound_vm_observed i"
  using assms by (auto simp: observation_ok_def bound_vm_observed_def)

lemma not_started_justified:
  assumes ok: "observation_ok i" and valid: "attempt_validate (ri_attempt i) = Inr ()" and "ri_capacity_reserved i"
    and "\<not> cleanup_due i" and phase: "as_phase (ri_attempt i) \<in> {Registering, Assigned}"
    and x: "on_runner_not_started i = Inr x"
  shows "action_justified i x"
proof -
  have vm: "as_vm_identity (ri_attempt i) \<noteq> None"
    using valid phase by (auto simp: attempt_validate_ok_iff)
  show ?thesis
  proof (cases "ri_vm i = VmReady")
    case True
    with bound_vm [OF ok] vm have "bound_vm_observed i" by blast
    with True assms show ?thesis
      by (cases "ri_runner i") (auto simp: on_runner_not_started_def Let_def validate_transition_ok split: if_splits)
  next
    case False
    with x ok show ?thesis by (cases "ri_vm i") (auto simp: on_runner_not_started_def Let_def observation_ok_def)
  qed
qed

lemma working_justified:
  assumes "on_registering_started i = Inr x \<or> on_working i c = Inr x"
  shows "action_justified i x"
  using assms
  by (cases "ri_runner i") (auto simp: on_registering_started_def on_working_def validate_transition_ok split: if_splits)

lemma cleanup_justified:
  assumes ok: "observation_ok i"
  shows "as_phase (ri_attempt i) = Destroying \<Longrightarrow> on_destroying i = Inr x \<Longrightarrow> action_justified i x"
    and "as_phase (ri_attempt i) = Deregistering \<Longrightarrow> on_deregistering i = Inr x \<Longrightarrow> action_justified i x"
    and "as_phase (ri_attempt i) = Releasing \<Longrightarrow> on_releasing i = Inr x \<Longrightarrow> action_justified i x"
proof -
  have bound: "bound_vm_observed i" if "\<not> unbound_vm i" "ri_vm i = VmStopped \<or> ri_vm i = VmReady"
    using bound_vm [OF ok that(2)] that ok by (auto simp: unbound_vm_def observation_ok_def)
  have runner: "rr_name r = as_runner_name (ri_attempt i) \<and> (as_runner_id (ri_attempt i) = None \<or> as_runner_id (ri_attempt i) = Some (rr_id r))"
    if "observed_runner (ri_runner i) = Some r" for r using ok that by (simp add: observation_ok_def)
  show "as_phase (ri_attempt i) = Destroying \<Longrightarrow> on_destroying i = Inr x \<Longrightarrow> action_justified i x"
    using bound by (cases "ri_vm i") (auto simp: on_destroying_def split: if_splits)
  show "as_phase (ri_attempt i) = Deregistering \<Longrightarrow> on_deregistering i = Inr x \<Longrightarrow> action_justified i x"
    using bound runner ok
    by (cases "ri_vm i"; cases "ri_runner i")
      (auto simp: on_deregistering_def validate_transition_ok observation_ok_def split: if_splits)
  show "as_phase (ri_attempt i) = Releasing \<Longrightarrow> on_releasing i = Inr x \<Longrightarrow> action_justified i x"
    using bound runner ok
    by (cases "ri_vm i"; cases "ri_runner i")
      (auto simp: on_releasing_def validate_transition_ok observation_ok_def split: if_splits)
qed

lemma phase_justified:
  assumes ok: "observation_ok i" and valid: "attempt_validate (ri_attempt i) = Inr ()"
    and x: "reconcile_phase i (cleanup_due i) = Inr x"
    and reserved: "ri_capacity_reserved i \<or>
      \<not> before_clone (as_phase (ri_attempt i)) \<and> \<not> before_cleanup (as_phase (ri_attempt i))"
  shows "action_justified i x"
proof (cases "as_phase (ri_attempt i)")
  case CloneStarted
  then have "as_vm_identity (ri_attempt i) \<noteq> None" using ok by (simp add: observation_ok_def)
  with CloneStarted x reserved bound_vm [OF ok] show ?thesis
    by (cases "ri_vm i")
      (auto simp: reconcile_phase_def on_clone_started_def before_cleanup_def split: if_splits)
next
  case Registering
  with x not_started_justified [OF ok valid] working_justified [of i x] reserved show ?thesis
    by (auto simp: reconcile_phase_def before_cleanup_def split: if_splits)
next
  case Assigned
  with x not_started_justified [OF ok valid] working_justified [of i x] reserved show ?thesis
    by (auto simp: reconcile_phase_def before_cleanup_def split: if_splits)
qed (use x reserved working_justified cleanup_justified [OF ok] ok in
    \<open>auto simp: reconcile_phase_def on_reserved_def on_unprovisioned_releasing_def on_clone_authorized_def
      on_complete_def before_clone_def before_cleanup_def observation_ok_def
      split: if_splits disposable_vm_observation.splits\<close>)

text \<open>What the reconciler persists, the attempt accepts.\<close>

definition accepted :: "attempt_state \<Rightarrow> worker_action \<Rightarrow> bool" where
  "accepted s x \<longleftrightarrow> (\<forall>t. x = Persist t \<longrightarrow> (\<exists>s'. run_action s t = Inr s' \<and> attempt_advance s s'))"

lemma advance_accepted:
  assumes "attempt_validate s = Inr ()" and "run_action s t = Inr s'" and "as_phase s' \<noteq> as_phase s"
  shows "accepted s (Persist t)"
  using run_action_advances [OF assms(2,1)] assms by (auto simp: accepted_def)

lemma not_persist_accepted [simp]:
  "accepted s (Observe t)" "accepted s CheckpointAndCloneVm" "accepted s DiscardIncompleteVm"
  "accepted s CheckpointAndGenerateJit" "accepted s Wait" "accepted s DestroyVm" "accepted s (DeleteRunner r)"
  "accepted s ReleaseCapacity" "accepted s NoOp" "accepted s (Blocked code)"
  by (simp_all add: accepted_def)

lemma begin_cleanup_accepted:
  assumes "attempt_validate s = Inr ()" and "rev_of s < 1000000000000" and "before_cleanup (as_phase s)"
    and "\<not> (as_phase s = CloneStarted \<and> as_vm_identity s = None)"
  shows "accepted s (Persist BeginCleanup)"
proof -
  have "as_vm_identity s \<noteq> None" using assms by (auto simp: before_cleanup_def attempt_validate_ok_iff)
  then show ?thesis
    using begin_cleanup_succeeds [OF assms(1) _ assms(2)] assms(1,3)
    by (auto simp: before_cleanup_def intro: advance_accepted)
qed

lemma advance_cleanup_accepted:
  assumes "attempt_validate s = Inr ()" and "rev_of s < 1000000000000"
    and "(as_phase s, p) \<in> {(Destroying, Deregistering), (Deregistering, Releasing), (Releasing, Complete)}"
  shows "accepted s (Persist (AdvanceCleanup p))"
  using advance_cleanup_succeeds [OF assms] assms by (auto intro: advance_accepted)

lemma complete_unprovisioned_accepted:
  assumes "attempt_validate s = Inr ()" and "rev_of s < 1000000000000" and "before_clone (as_phase s)"
  shows "accepted s (Persist CompleteUnprovisioned)"
  using complete_unprovisioned_succeeds [OF assms(1,2)] assms(1,3)
  by (auto simp: before_clone_def intro: advance_accepted)

lemma advanced_accepted:
  assumes "attempt_validate s = Inr ()" and "run_action s t = advance_with s p r j x" and "p \<noteq> as_phase s"
    and "rev_of s < 1000000000000"
    and "attempt_validate (s\<lparr>as_revision := DisposableAttemptRevision (rev_of s + 1), as_runner_id := r,
        as_phase := p, as_github_job_id := j, as_result := x\<rparr>) = Inr ()"
  shows "accepted s (Persist t)"
proof -
  have "run_action s t = Inr (s\<lparr>as_revision := DisposableAttemptRevision (rev_of s + 1), as_runner_id := r,
        as_phase := p, as_github_job_id := j, as_result := x\<rparr>)"
    using assms(2,4,5) by (simp add: advance_with_ok)
  from advance_accepted [OF assms(1) this] assms(3) show ?thesis by simp
qed

lemma early_accepted:
  assumes valid: "attempt_validate s = Inr ()"
  shows "as_phase s = Reserved \<Longrightarrow> accepted s (Persist AuthorizeClone)"
    and "as_phase s \<in> {Reserved, CloneAuthorized} \<Longrightarrow> accepted s (Persist BeginUnprovisionedRelease)"
    and "as_phase s = CloneStarted \<Longrightarrow> as_vm_identity s \<noteq> None \<Longrightarrow> accepted s (Persist BeginRegistration)"
proof -
  note v = valid [unfolded attempt_validate_ok_iff]
  show "accepted s (Persist AuthorizeClone)" if "as_phase s = Reserved"
    by (rule advanced_accepted [OF valid, where p = CloneAuthorized and r = "as_runner_id s" and j = "as_github_job_id s"
          and x = "as_result s"])
      (use that v in \<open>simp_all add: attempt_validate_ok_iff carries_evidence_def authorize_clone_def advance_phase_def\<close>)
  show "accepted s (Persist BeginUnprovisionedRelease)" if "as_phase s \<in> {Reserved, CloneAuthorized}"
    by (rule advanced_accepted [OF valid, where p = UnprovisionedReleasing and r = None and j = None and x = None])
      (use that v in \<open>auto simp: attempt_validate_ok_iff carries_evidence_def begin_unprovisioned_release_def\<close>)
  show "accepted s (Persist BeginRegistration)" if "as_phase s = CloneStarted" "as_vm_identity s \<noteq> None"
    by (rule advanced_accepted [OF valid, where p = Registering and r = "as_runner_id s" and j = "as_github_job_id s"
          and x = "as_result s"])
      (use that v in \<open>auto simp: attempt_validate_ok_iff begin_registration_def advance_phase_def\<close>)
qed

lemma registration_accepted:
  assumes "attempt_validate s = Inr ()" and "as_runner_id s = None"
    and "try_res (validate_transition s (RecordRegistration r)) (\<lambda>t. Inr (Persist t)) = Inr x"
  shows "accepted s x"
proof -
  obtain s' where s': "record_registration s r = Inr s'" and x: "x = Persist (RecordRegistration r)"
    using assms(3) by (auto simp: validate_transition_ok)
  then have "s' \<noteq> s" using registration_runner [OF s'] assms(2) by auto
  with run_action_advances [of s "RecordRegistration r" s'] s' x assms(1) show ?thesis by (simp add: accepted_def)
qed

lemma ready_accepted:
  assumes "attempt_validate s = Inr ()" and "as_phase s = Registering"
    and "try_res (validate_transition s (RecordRunnerReady r)) (\<lambda>t. Inr (Persist t)) = Inr x"
  shows "accepted s x"
proof -
  obtain s' where s': "record_runner_ready s r = Inr s'" and x: "x = Persist (RecordRunnerReady r)"
    using assms(3) by (auto simp: validate_transition_ok)
  then have "s' \<noteq> s" using ready_phase [OF s'] assms(2) by auto
  with run_action_advances [of s "RecordRunnerReady r" s'] s' x assms(1) show ?thesis by (simp add: accepted_def)
qed

lemma event_accepted:
  assumes "attempt_validate s = Inr ()" and "plan_job_event s ev = Inr (Some x)"
  shows "accepted s x"
proof -
  obtain s' where "x = Persist (event_transition ev)" "run_action s (event_transition ev) = Inr s'" "as_revision s' \<noteq> as_revision s"
    using plan_job_event_ok [OF assms(2)] by blast
  with run_action_advances [OF this(2) assms(1)] show ?thesis by (auto simp: accepted_def)
qed

lemma working_has_runner:
  assumes "attempt_validate s = Inr ()"
    and "as_phase s \<in> {Waiting, Running} \<or> as_phase s = Assigned \<and> as_runner_start_started s"
  shows "as_runner_id s \<noteq> None"
  using assms by (auto simp: attempt_validate_ok_iff)

lemma working_accepted:
  assumes valid: "attempt_validate (ri_attempt i) = Inr ()"
    and phase: "as_phase (ri_attempt i) \<in> {Waiting, Running} \<or> as_phase (ri_attempt i) = Assigned \<and> as_runner_start_started (ri_attempt i)"
    and cleanup: "accepted (ri_attempt i) (Persist BeginCleanup)" and x: "on_working i c = Inr x"
  shows "accepted (ri_attempt i) x"
  using x cleanup working_has_runner [OF valid phase]
  by (cases "ri_runner i") (auto simp: on_working_def split: if_splits)

lemma not_started_accepted:
  assumes valid: "attempt_validate (ri_attempt i) = Inr ()"
    and cleanup: "accepted (ri_attempt i) (Persist BeginCleanup)" and x: "on_runner_not_started i = Inr x"
  shows "accepted (ri_attempt i) x"
  using x cleanup registration_accepted [OF valid]
  by (cases "ri_runner i") (auto simp: on_runner_not_started_def Let_def split: if_splits)

lemma registering_started_accepted:
  assumes valid: "attempt_validate (ri_attempt i) = Inr ()" and phase: "as_phase (ri_attempt i) = Registering"
    and cleanup: "accepted (ri_attempt i) (Persist BeginCleanup)" and x: "on_registering_started i = Inr x"
  shows "accepted (ri_attempt i) x"
  using x cleanup ready_accepted [OF valid phase]
  by (cases "ri_runner i") (auto simp: on_registering_started_def)

lemma cleanup_accepted:
  assumes valid: "attempt_validate (ri_attempt i) = Inr ()" and small: "rev_of (ri_attempt i) < 1000000000000"
  shows "as_phase (ri_attempt i) = Destroying \<Longrightarrow> on_destroying i = Inr x \<Longrightarrow> accepted (ri_attempt i) x"
    and "as_phase (ri_attempt i) = Deregistering \<Longrightarrow> on_deregistering i = Inr x \<Longrightarrow> accepted (ri_attempt i) x"
    and "as_phase (ri_attempt i) = Releasing \<Longrightarrow> on_releasing i = Inr x \<Longrightarrow> accepted (ri_attempt i) x"
proof -
  note adv = advance_cleanup_accepted [OF valid small] and reg = registration_accepted [OF valid]
  show "as_phase (ri_attempt i) = Destroying \<Longrightarrow> on_destroying i = Inr x \<Longrightarrow> accepted (ri_attempt i) x"
    using adv by (cases "ri_vm i") (auto simp: on_destroying_def split: if_splits)
  show "as_phase (ri_attempt i) = Deregistering \<Longrightarrow> on_deregistering i = Inr x \<Longrightarrow> accepted (ri_attempt i) x"
    using adv reg by (cases "ri_runner i") (auto simp: on_deregistering_def split: if_splits)
  show "as_phase (ri_attempt i) = Releasing \<Longrightarrow> on_releasing i = Inr x \<Longrightarrow> accepted (ri_attempt i) x"
    using adv reg by (cases "ri_runner i") (auto simp: on_releasing_def split: if_splits)
qed

lemma phase_accepted:
  assumes valid: "attempt_validate (ri_attempt i) = Inr ()" and small: "rev_of (ri_attempt i) < 1000000000000"
    and bound: "\<not> (as_phase (ri_attempt i) = CloneStarted \<and> as_vm_identity (ri_attempt i) = None)"
    and x: "reconcile_phase i c = Inr x"
  shows "accepted (ri_attempt i) x"
proof -
  let ?s = "ri_attempt i"
  have cl: "accepted ?s (Persist BeginCleanup)" if "before_cleanup (as_phase ?s)"
    using begin_cleanup_accepted [OF valid small that bound] .
  show ?thesis
  proof (cases "as_phase ?s")
    case Reserved
    then have "accepted ?s (Persist AuthorizeClone)" "accepted ?s (Persist BeginUnprovisionedRelease)"
      using early_accepted(1,2) [OF valid] by simp_all
    with Reserved x show ?thesis
      by (cases "ri_vm i") (auto simp: reconcile_phase_def on_reserved_def split: if_splits)
  next
    case CloneAuthorized
    then have "accepted ?s (Persist BeginUnprovisionedRelease)" using early_accepted(2) [OF valid] by simp
    with CloneAuthorized x show ?thesis
      by (cases "ri_vm i") (auto simp: reconcile_phase_def on_clone_authorized_def split: if_splits)
  next
    case CloneStarted
    then have "accepted ?s (Persist BeginRegistration)" "accepted ?s (Persist BeginCleanup)"
      using early_accepted(3) [OF valid] bound cl by (simp_all add: before_cleanup_def)
    with CloneStarted x show ?thesis
      by (cases "ri_vm i") (auto simp: reconcile_phase_def on_clone_started_def split: if_splits)
  next
    case Registering
    then have c: "accepted ?s (Persist BeginCleanup)" using cl by (simp add: before_cleanup_def)
    from Registering x c not_started_accepted [OF valid c, of x] registering_started_accepted [OF valid Registering c, of x]
    show ?thesis by (auto simp: reconcile_phase_def split: if_splits)
  next
    case Assigned
    then have c: "accepted ?s (Persist BeginCleanup)" using cl by (simp add: before_cleanup_def)
    from Assigned x c not_started_accepted [OF valid c, of x] working_accepted [OF valid _ c, of "c" x]
    show ?thesis by (auto simp: reconcile_phase_def split: if_splits)
  next
    case Waiting
    then have c: "accepted ?s (Persist BeginCleanup)" using cl by (simp add: before_cleanup_def)
    with working_accepted [OF valid _ c] Waiting x show ?thesis by (simp add: reconcile_phase_def)
  next
    case Running
    then have c: "accepted ?s (Persist BeginCleanup)" using cl by (simp add: before_cleanup_def)
    with working_accepted [OF valid _ c] Running x show ?thesis by (simp add: reconcile_phase_def)
  next
    case Terminal
    then show ?thesis using cl x by (simp add: reconcile_phase_def before_cleanup_def)
  next
    case Destroying
    then show ?thesis using cleanup_accepted(1) [OF valid small Destroying, of x] x by (simp add: reconcile_phase_def)
  next
    case Deregistering
    then show ?thesis using cleanup_accepted(2) [OF valid small Deregistering, of x] x by (simp add: reconcile_phase_def)
  next
    case Releasing
    then show ?thesis using cleanup_accepted(3) [OF valid small Releasing, of x] x by (simp add: reconcile_phase_def)
  qed (use x in \<open>auto simp: reconcile_phase_def on_unprovisioned_releasing_def on_complete_def split: if_splits\<close>)
qed

section \<open>Examples\<close>

definition example_identity :: disposable_vm_identity where
  "example_identity = DisposableVmIdentity (Sha256Digest ''sha256:00'')"

definition example_input :: "attempt_state \<Rightarrow> disposable_vm_observation \<Rightarrow> disposable_vm_identity option \<Rightarrow> reconcile_input" where
  "example_input s vm identity =
     \<lparr>ri_now = EpochMillis 5, ri_attempt = s, ri_vm = vm, ri_vm_identity = identity, ri_runner = RunnerAbsent,
      ri_job_event = None, ri_capacity_reserved = True, ri_cancellation_requested = False\<rparr>"

definition destroying_attempt :: attempt_state where
  "destroying_attempt = example_attempt\<lparr>as_revision := DisposableAttemptRevision 5, as_phase := Destroying,
     as_vm_identity := Some example_identity\<rparr>"

lemmas example_defs = example_input_def example_attempt_def attempt_reserved_def destroying_attempt_def
  reconcile_attempt_def validate_vm_observation_def validate_runner_observation_def reconcile_phase_def Let_def

section \<open>Properties\<close>

text \<open>
  C21. The reconciler never panics: for every input whatsoever none of its \<open>unreachable!()\<close> arms is
  reached.
\<close>
theorem reconciler_never_panics: "reconcile_attempt i \<noteq> Inl ReconcilerPanic"
  by (rule reconcile_no_panic)



text \<open>
  C15. Progress: whatever transition the reconciler asks to persist for a reachable attempt, the
  attempt accepts it, and it is a real advance: valid, one revision further, with a later phase or
  more evidence. So no reconciliation loop can persist the same state forever.
\<close>
theorem reconciler_persists_progress:
  assumes "attempt_reachable (ri_attempt i)" and "reconcile_attempt i = Inr (Persist t)"
  shows "\<exists>s'. run_action (ri_attempt i) t = Inr s' \<and> attempt_advance (ri_attempt i) s'"
proof -
  have valid: "attempt_validate (ri_attempt i) = Inr ()" and small: "rev_of (ri_attempt i) < 1000000000000"
    using reachable_valid_paid [OF assms(1)] reachable_revision_le [OF assms(1)] by simp_all
  from assms(2) have "accepted (ri_attempt i) (Persist t)"
  proof (cases rule: reconcile_cases)
    case (2 ev)
    with event_accepted [OF valid] show ?thesis by blast
  next
    case 3
    with complete_unprovisioned_accepted [OF valid small] show ?thesis by blast
  next
    case 4
    with begin_cleanup_accepted [OF valid small] show ?thesis by (simp add: observation_ok_def)
  next
    case 5
    with phase_accepted [OF valid small] show ?thesis by (simp add: observation_ok_def)
  qed simp
  then show ?thesis by (simp add: accepted_def)
qed

theorem reconciler_persists_progress_witness:
  "\<exists>s'. run_action example_attempt AuthorizeClone = Inr s' \<and> attempt_advance example_attempt s'"
proof -
  have "attempt_reachable (ri_attempt (example_input example_attempt VmAbsent None))"
    by (simp add: example_input_def example_attempt_def attempt_created)
  moreover have "reconcile_attempt (example_input example_attempt VmAbsent None) = Inr (Persist AuthorizeClone)"
    by (simp add: example_defs on_reserved_def)
  ultimately show ?thesis
    using reconciler_persists_progress [of "example_input example_attempt VmAbsent None" AuthorizeClone]
    by (simp add: example_input_def)
qed

end
