(* ===== verification/Worker_Convergence.thy ===== *)
theory Worker_Convergence
  imports Reconciler
begin

text \<open>
  The reconciler of \<open>src/disposable_worker_reconciler.rs\<close> in a closed loop: each round observes
  the world, reconciles, and carries the action out. The loop and the effect of the actions on
  the world are the documented contract of the caller; the reconciler and the attempt's
  transitions are the code's. Once cancellation is requested every round makes progress, and the
  attempt ends complete with no VM, no runner and no reserved capacity.
\<close>

section \<open>Rounds\<close>

record world =
  w_attempt :: attempt_state
  w_vm :: disposable_vm_observation
  w_runner :: scale_set_runner_observation
  w_reserved :: bool

definition observe :: "epoch_millis \<Rightarrow> world \<Rightarrow> reconcile_input" where
  "observe now w =
     \<lparr>ri_now = now, ri_attempt = w_attempt w, ri_vm = w_vm w,
      ri_vm_identity = (if w_vm w = VmAbsent then None else as_vm_identity (w_attempt w)),
      ri_runner = w_runner w, ri_job_event = None, ri_capacity_reserved = w_reserved w,
      ri_cancellation_requested = True\<rparr>"

fun perform :: "world \<Rightarrow> worker_action \<Rightarrow> world" where
  "perform w (Persist t) =
     (case run_action (w_attempt w) t of Inl e \<Rightarrow> w | Inr s \<Rightarrow> w\<lparr>w_attempt := s\<rparr>)"
| "perform w DestroyVm = w\<lparr>w_vm := VmAbsent\<rparr>"
| "perform w (DeleteRunner r) = w\<lparr>w_runner := RunnerAbsent\<rparr>"
| "perform w ReleaseCapacity = w\<lparr>w_reserved := False\<rparr>"
| "perform w _ = w"

definition round :: "epoch_millis \<Rightarrow> world \<Rightarrow> world" where
  "round now w = (case reconcile_attempt (observe now w) of Inl e \<Rightarrow> w | Inr x \<Rightarrow> perform w x)"

section \<open>Consistent worlds\<close>

text \<open>
  VM and runner are known; a VM exists only under the identity the attempt is bound to, and a
  runner only as the attempt's own and after the JIT checkpoint; a complete attempt has left
  nothing behind.
\<close>

definition runner_consistent :: "attempt_state \<Rightarrow> scale_set_runner_observation \<Rightarrow> bool" where
  "runner_consistent s ob \<longleftrightarrow> ob = RunnerAbsent \<or>
     (\<exists>r. observed_runner ob = Some r \<and> rr_name r = as_runner_name s \<and> as_jit_generation_started s \<and>
        (as_runner_id s = None \<or> as_runner_id s = Some (rr_id r)))"

definition consistent :: "world \<Rightarrow> bool" where
  "consistent w \<longleftrightarrow>
     attempt_reachable (w_attempt w) \<and>
     w_vm w \<in> {VmAbsent, VmStopped, VmReady} \<and>
     (w_vm w \<noteq> VmAbsent \<longrightarrow> as_vm_identity (w_attempt w) \<noteq> None) \<and>
     runner_consistent (w_attempt w) (w_runner w) \<and>
     \<not> (as_phase (w_attempt w) = CloneStarted \<and> as_vm_identity (w_attempt w) = None) \<and>
     (as_phase (w_attempt w) = Complete \<longrightarrow> w_vm w = VmAbsent \<and> w_runner w = RunnerAbsent \<and> \<not> w_reserved w)"

definition finished :: "world \<Rightarrow> bool" where
  "finished w \<longleftrightarrow>
     as_phase (w_attempt w) = Complete \<and> w_vm w = VmAbsent \<and> w_runner w = RunnerAbsent \<and> \<not> w_reserved w"

text \<open>What is left to do.\<close>

definition remaining :: "world \<Rightarrow> nat" where
  "remaining w =
     (11 - phase_rank (as_phase (w_attempt w))) + of_bool (w_vm w \<noteq> VmAbsent) + of_bool (w_runner w \<noteq> RunnerAbsent) +
     of_bool (as_runner_id (w_attempt w) = None) + of_bool (w_reserved w)"

section \<open>Lemmas\<close>

lemma runner_consistent_cases:
  assumes "runner_consistent s ob"
  obtains "ob = RunnerAbsent"
  | r where "observed_runner ob = Some r" "ob \<noteq> RunnerAbsent" "ob \<noteq> RunnerUnknown" "ob \<noteq> RunnerConflicting"
      "rr_name r = as_runner_name s" "as_jit_generation_started s" "as_runner_id s = None \<or> as_runner_id s = Some (rr_id r)"
  using assms by (cases ob) (auto simp: runner_consistent_def)

lemma consistent_observation: "consistent w \<Longrightarrow> observation_ok (observe now w)"
  by (auto simp: consistent_def observation_ok_def observe_def elim!: runner_consistent_cases)

lemma observe_simps [simp]:
  "ri_attempt (observe now w) = w_attempt w" "ri_vm (observe now w) = w_vm w" "ri_runner (observe now w) = w_runner w"
  "ri_capacity_reserved (observe now w) = w_reserved w" "cleanup_due (observe now w)" "planned_event (observe now w) = Inr None"
  by (simp_all add: observe_def cleanup_due_def planned_event_def)

lemma bound_observed: "consistent w \<Longrightarrow> \<not> unbound_vm (observe now w)"
  by (auto simp: unbound_vm_def observe_def)

lemma round_observed:
  assumes "consistent w"
  shows "reconcile_attempt (observe now w) =
    (if \<not> w_reserved w \<and> before_clone (as_phase (w_attempt w)) then Inr (Persist CompleteUnprovisioned)
     else if \<not> w_reserved w \<and> before_cleanup (as_phase (w_attempt w)) then Inr (Persist BeginCleanup)
     else reconcile_phase (observe now w) True)"
  using reconcile_observed [OF consistent_observation [OF assms], of now] by simp

lemma registration_succeeds_in_cleanup:
  assumes valid: "attempt_validate s = Inr ()" and small: "rev_of s < 1000000000000"
    and phase: "as_phase s \<in> {Deregistering, Releasing}" and jit: "as_jit_generation_started s"
    and runner: "as_runner_id s = None" "rr_name r = as_runner_name s"
  shows "\<exists>s'. record_registration s r = Inr s'"
proof -
  let ?s = "s\<lparr>as_revision := DisposableAttemptRevision (rev_of s + 1), as_runner_id := Some (rr_id r),
      as_phase := as_phase s, as_github_job_id := as_github_job_id s, as_result := as_result s\<rparr>"
  have "attempt_validate ?s = Inr ()" using valid phase jit unfolding attempt_validate_ok_iff by auto
  then have "advance_with s (as_phase s) (Some (rr_id r)) (as_github_job_id s) (as_result s) = Inr ?s"
    using small by (simp add: advance_with_ok)
  then show ?thesis using phase jit runner
    by (intro exI [of _ ?s]) (auto simp: record_registration_def validate_runner_def)
qed

text \<open>A transition that is a real advance leads to a consistent world with less to do.\<close>

lemma persist_progress:
  assumes c: "consistent w" and run: "run_action (w_attempt w) t = Inr s" and adv: "attempt_advance (w_attempt w) s"
    and phase: "phase_rank (as_phase (w_attempt w)) < phase_rank (as_phase s) \<or>
      as_runner_id (w_attempt w) = None \<and> as_runner_id s \<noteq> None"
    and runner: "runner_consistent s (w_runner w)"
    and cloned: "as_phase s \<noteq> CloneStarted"
    and complete: "as_phase s = Complete \<Longrightarrow> w_vm w = VmAbsent \<and> w_runner w = RunnerAbsent \<and> \<not> w_reserved w"
  shows "consistent (w\<lparr>w_attempt := s\<rparr>) \<and> remaining (w\<lparr>w_attempt := s\<rparr>) < remaining w"
proof
  have "attempt_reachable s" using c run by (auto simp: consistent_def intro: attempt_stepped run_action_step)
  then show "consistent (w\<lparr>w_attempt := s\<rparr>)"
    using c runner cloned complete run_action_keeps_vm [OF run] by (auto simp: consistent_def)
  have "phase_rank (as_phase (w_attempt w)) \<le> phase_rank (as_phase s)"
    "as_runner_id (w_attempt w) \<noteq> None \<longrightarrow> as_runner_id s \<noteq> None"
    using adv by (auto simp: attempt_advance_def evidence_kept_def option_kept_def)
  then show "remaining (w\<lparr>w_attempt := s\<rparr>) < remaining w"
    using phase phase_rank_le [of "as_phase s"] by (auto simp: remaining_def)
qed

lemma runner_consistent_kept:
  assumes "runner_consistent s ob" and "same_attempt s s'" and "as_jit_generation_started s \<longrightarrow> as_jit_generation_started s'"
    and "as_runner_id s' = as_runner_id s"
  shows "runner_consistent s' ob"
  using assms by (auto simp: runner_consistent_def same_attempt_def)

text \<open>The transitions of a cancelled attempt, and the phase each leads to.\<close>

fun target_phase :: "catalog_action \<Rightarrow> disposable_attempt_phase option" where
  "target_phase BeginUnprovisionedRelease = Some UnprovisionedReleasing"
| "target_phase CompleteUnprovisioned = Some Complete"
| "target_phase BeginCleanup = Some Destroying"
| "target_phase (AdvanceCleanup p) = Some p"
| "target_phase _ = None"

lemma target_reached:
  assumes run: "run_action s t = Inr s'" and target: "target_phase t = Some p" and new: "s' \<noteq> s"
  shows "as_phase s' = p \<and> (as_runner_id s' = as_runner_id s \<or> as_runner_id s' = None)"
proof -
  have adv: "as_phase u = q \<and> as_runner_id u = r" if "advance_with s q r j x = Inr u" for q r j x u
    using advance_with_fields [OF that] by simp
  from target consider "t = BeginUnprovisionedRelease" "p = UnprovisionedReleasing" | "t = CompleteUnprovisioned" "p = Complete"
    | "t = BeginCleanup" "p = Destroying" | "t = AdvanceCleanup p" by (cases t) auto
  then show ?thesis
  proof cases
    case 1
    with run adv show ?thesis by (simp add: begin_unprovisioned_release_def split: if_splits)
  next
    case 2
    with run adv show ?thesis by (simp add: complete_unprovisioned_def split: if_splits)
  next
    case 3
    with run adv new show ?thesis by (simp add: begin_cleanup_def split: if_splits)
  next
    case 4
    with run adv new show ?thesis by (simp add: advance_cleanup_def split: if_splits)
  qed
qed

lemma phase_progress:
  assumes c: "consistent w" and acc: "accepted (w_attempt w) (Persist t)" and target: "target_phase t = Some p"
    and further: "phase_rank (as_phase (w_attempt w)) < phase_rank p" and p: "p \<noteq> CloneStarted"
    and complete: "p = Complete \<Longrightarrow> w_vm w = VmAbsent \<and> w_runner w = RunnerAbsent \<and> \<not> w_reserved w"
  shows "consistent (perform w (Persist t)) \<and> remaining (perform w (Persist t)) < remaining w"
proof -
  obtain s where run: "run_action (w_attempt w) t = Inr s" and adv: "attempt_advance (w_attempt w) s"
    using acc by (auto simp: accepted_def)
  have "s \<noteq> w_attempt w" using adv by (auto simp: attempt_advance_def)
  note t = target_reached [OF run target this]
  have same: "as_runner_id s = as_runner_id (w_attempt w)"
    using t adv by (auto simp: attempt_advance_def evidence_kept_def option_kept_def)
  have "runner_consistent (w_attempt w) (w_runner w)" using c by (simp add: consistent_def)
  moreover have "same_attempt (w_attempt w) s" "as_jit_generation_started (w_attempt w) \<longrightarrow> as_jit_generation_started s"
    using adv by (simp_all add: attempt_advance_def evidence_kept_def)
  ultimately have "runner_consistent s (w_runner w)" using same by (rule runner_consistent_kept)
  from persist_progress [OF c run adv _ this] t further p complete run show ?thesis by simp
qed

lemma registration_progress:
  assumes c: "consistent w" and phase: "as_phase (w_attempt w) \<in> {Deregistering, Releasing}"
    and r: "observed_runner (w_runner w) = Some r" and none: "as_runner_id (w_attempt w) = None"
  shows "validate_transition (w_attempt w) (RecordRegistration r) = Inr (RecordRegistration r) \<and>
    consistent (perform w (Persist (RecordRegistration r))) \<and>
    remaining (perform w (Persist (RecordRegistration r))) < remaining w"
proof -
  let ?s = "w_attempt w"
  have reach: "attempt_reachable ?s" using c by (simp add: consistent_def)
  have r_ok: "rr_name r = as_runner_name ?s" "as_jit_generation_started ?s"
    using c r by (auto simp: consistent_def runner_consistent_def)
  obtain s where s: "record_registration ?s r = Inr s"
    using registration_succeeds_in_cleanup [OF _ _ phase r_ok(2) none r_ok(1)]
      reachable_valid_paid [OF reach] reachable_revision_le [OF reach] by auto
  note reg = registration_runner [OF s]
  have "s \<noteq> ?s" using reg none by auto
  then have adv: "attempt_advance ?s s"
    using run_action_advances [of ?s "RecordRegistration r" s] s reachable_valid_paid [OF reach] by simp
  have same_phase: "as_phase s = as_phase ?s"
    using s by (auto simp: record_registration_def advance_with_ok split: if_splits)
  have "runner_consistent s (w_runner w)"
    using r reg r_ok adv by (auto simp: runner_consistent_def attempt_advance_def evidence_kept_def)
  from persist_progress [OF c _ adv _ this, of "RecordRegistration r"] s same_phase phase none reg
  show ?thesis by (auto simp: validate_transition_ok)
qed

lemma effect_progress:
  assumes c: "consistent w"
  shows "w_vm w \<noteq> VmAbsent \<Longrightarrow> consistent (perform w DestroyVm) \<and> remaining (perform w DestroyVm) < remaining w"
    and "w_runner w \<noteq> RunnerAbsent \<Longrightarrow>
      consistent (perform w (DeleteRunner r)) \<and> remaining (perform w (DeleteRunner r)) < remaining w"
    and "w_reserved w \<Longrightarrow> consistent (perform w ReleaseCapacity) \<and> remaining (perform w ReleaseCapacity) < remaining w"
  using c by (auto simp: consistent_def remaining_def runner_consistent_def)

lemma unprovisioned_world:
  assumes "consistent w" and "before_clone (as_phase (w_attempt w))"
  shows "w_vm w = VmAbsent \<and> w_runner w = RunnerAbsent"
proof -
  have "attempt_validate (w_attempt w) = Inr ()" using assms(1) reachable_valid_paid by (auto simp: consistent_def)
  then have "as_vm_identity (w_attempt w) = None" "\<not> as_jit_generation_started (w_attempt w)"
    using assms(2) by (auto simp: before_clone_def attempt_validate_ok_iff carries_evidence_def)
  then show ?thesis using assms(1) by (auto simp: consistent_def runner_consistent_def)
qed

lemma not_clone_rank: "before_clone p \<Longrightarrow> phase_rank p < 11" "before_cleanup p \<Longrightarrow> phase_rank p < 8"
  by (auto simp: before_clone_def before_cleanup_def)

text \<open>The action of a round, phase by phase.\<close>

definition makes_progress :: "epoch_millis \<Rightarrow> world \<Rightarrow> bool" where
  "makes_progress now w \<longleftrightarrow>
     (\<exists>x. reconcile_attempt (observe now w) = Inr x \<and> consistent (perform w x) \<and> remaining (perform w x) < remaining w)"

lemma progressI:
  "reconcile_attempt (observe now w) = Inr x \<Longrightarrow> consistent (perform w x) \<and> remaining (perform w x) < remaining w \<Longrightarrow>
   makes_progress now w"
  by (auto simp: makes_progress_def)

lemma consistent_attempt:
  assumes "consistent w"
  shows "attempt_validate (w_attempt w) = Inr ()" and "rev_of (w_attempt w) < 1000000000000"
    and "\<not> (as_phase (w_attempt w) = CloneStarted \<and> as_vm_identity (w_attempt w) = None)"
    and "w_vm w \<in> {VmAbsent, VmStopped, VmReady}" and "runner_consistent (w_attempt w) (w_runner w)"
proof -
  have reach: "attempt_reachable (w_attempt w)" using assms by (simp add: consistent_def)
  show "attempt_validate (w_attempt w) = Inr ()" "rev_of (w_attempt w) < 1000000000000"
    using reachable_valid_paid [OF reach] reachable_revision_le [OF reach] by auto
qed (use assms in \<open>simp_all add: consistent_def\<close>)

lemma before_clone_progress:
  assumes c: "consistent w" and phase: "before_clone (as_phase (w_attempt w))"
  shows "makes_progress now w"
proof -
  note eq = round_observed [OF c, of now] and valid = consistent_attempt(1,2) [OF c]
  consider "\<not> w_reserved w" | "as_phase (w_attempt w) \<in> {Reserved, CloneAuthorized}" "w_reserved w"
    | "as_phase (w_attempt w) = UnprovisionedReleasing" "w_reserved w"
    using phase by (auto simp: before_clone_def)
  then show ?thesis
  proof cases
    case 1
    then have "reconcile_attempt (observe now w) = Inr (Persist CompleteUnprovisioned)" using eq phase by simp
    then show ?thesis
      by (rule progressI)
        (use phase_progress [OF c complete_unprovisioned_accepted [OF valid phase], of Complete]
          unprovisioned_world [OF c phase] 1 not_clone_rank(1) [OF phase] in simp)
  next
    case 2
    then have "reconcile_attempt (observe now w) = Inr (Persist BeginUnprovisionedRelease)"
      using eq by (auto simp: before_cleanup_def reconcile_phase_def on_reserved_def on_clone_authorized_def)
    then show ?thesis
      by (rule progressI)
        (use phase_progress [OF c early_accepted(2) [OF valid(1) 2(1)], of UnprovisionedReleasing] 2 in auto)
  next
    case 3
    then have "reconcile_attempt (observe now w) = Inr ReleaseCapacity"
      using eq by (simp add: before_cleanup_def reconcile_phase_def on_unprovisioned_releasing_def)
    then show ?thesis by (rule progressI) (rule effect_progress(3) [OF c 3(2)])
  qed
qed

lemma before_cleanup_progress:
  assumes c: "consistent w" and phase: "before_cleanup (as_phase (w_attempt w))"
  shows "makes_progress now w"
proof (rule progressI)
  show "reconcile_attempt (observe now w) = Inr (Persist BeginCleanup)"
    using round_observed [OF c, of now] phase
    by (auto simp: before_clone_def before_cleanup_def reconcile_phase_def on_clone_started_def on_working_def)
  show "consistent (perform w (Persist BeginCleanup)) \<and> remaining (perform w (Persist BeginCleanup)) < remaining w"
    using phase_progress [OF c begin_cleanup_accepted [OF consistent_attempt(1,2) [OF c] phase consistent_attempt(3) [OF c]],
        of Destroying] not_clone_rank(2) [OF phase] by simp
qed

lemma destroying_progress:
  assumes c: "consistent w" and phase: "as_phase (w_attempt w) = Destroying"
  shows "makes_progress now w"
proof (rule progressI)
  show "reconcile_attempt (observe now w) =
      Inr (if w_vm w = VmAbsent then Persist (AdvanceCleanup Deregistering) else DestroyVm)" (is "_ = Inr ?x")
    using round_observed [OF c, of now] phase consistent_attempt(4) [OF c] bound_observed [OF c, of now]
    by (auto simp: before_clone_def before_cleanup_def reconcile_phase_def on_destroying_def)
  show "consistent (perform w ?x) \<and> remaining (perform w ?x) < remaining w"
    using phase_progress [OF c advance_cleanup_accepted [OF consistent_attempt(1,2) [OF c]], of Deregistering Deregistering]
      phase effect_progress(1) [OF c] by simp
qed

lemma gone_progress:
  assumes c: "consistent w" and phase: "as_phase (w_attempt w) \<in> {Deregistering, Releasing}"
    and gone: "w_vm w = VmAbsent" "w_runner w = RunnerAbsent"
  shows "makes_progress now w"
proof (rule progressI)
  let ?p = "if as_phase (w_attempt w) = Deregistering then Releasing else Complete"
  show "reconcile_attempt (observe now w) = Inr (if as_phase (w_attempt w) = Releasing \<and> w_reserved w then ReleaseCapacity
      else Persist (AdvanceCleanup ?p))" (is "_ = Inr ?x")
    using round_observed [OF c, of now] phase gone bound_observed [OF c, of now]
    by (auto simp: before_clone_def before_cleanup_def reconcile_phase_def on_deregistering_def on_releasing_def)
  show "consistent (perform w ?x) \<and> remaining (perform w ?x) < remaining w"
    using phase_progress [OF c advance_cleanup_accepted [OF consistent_attempt(1,2) [OF c]], of ?p ?p] phase gone
      effect_progress(3) [OF c] by auto
qed

lemma runner_progress:
  assumes c: "consistent w" and phase: "as_phase (w_attempt w) \<in> {Deregistering, Releasing}"
    and gone: "w_vm w = VmAbsent" and r: "observed_runner (w_runner w) = Some r"
  shows "makes_progress now w"
proof -
  let ?s = "w_attempt w"
  have here: "w_runner w \<noteq> RunnerAbsent" and jit: "as_jit_generation_started ?s"
    using r consistent_attempt(5) [OF c] by (auto simp: runner_consistent_def)
  have x: "reconcile_attempt (observe now w) = (if as_runner_id ?s = None
      then try_res (validate_transition ?s (RecordRegistration r)) (\<lambda>t. Inr (Persist t)) else Inr (DeleteRunner r))"
    using round_observed [OF c, of now] phase gone r jit bound_observed [OF c, of now]
    by (cases "w_runner w")
      (auto simp: before_clone_def before_cleanup_def reconcile_phase_def on_deregistering_def on_releasing_def)
  show ?thesis
  proof (cases "as_runner_id ?s = None")
    case True
    with x registration_progress [OF c phase r True]
    have "reconcile_attempt (observe now w) = Inr (Persist (RecordRegistration r))" by simp
    then show ?thesis by (rule progressI) (use registration_progress [OF c phase r True] in blast)
  next
    case False
    with x have "reconcile_attempt (observe now w) = Inr (DeleteRunner r)" by simp
    then show ?thesis by (rule progressI) (rule effect_progress(2) [OF c here])
  qed
qed

lemma leaving_progress:
  assumes c: "consistent w" and phase: "as_phase (w_attempt w) \<in> {Deregistering, Releasing}"
  shows "makes_progress now w"
proof (cases "w_vm w = VmAbsent")
  case False
  then have "reconcile_attempt (observe now w) = Inr DestroyVm"
    using round_observed [OF c, of now] phase consistent_attempt(4) [OF c] bound_observed [OF c, of now]
    by (auto simp: before_clone_def before_cleanup_def reconcile_phase_def on_deregistering_def on_releasing_def)
  then show ?thesis by (rule progressI) (rule effect_progress(1) [OF c False])
next
  case True
  with gone_progress [OF c phase] runner_progress [OF c phase] consistent_attempt(5) [OF c] show ?thesis
    by (auto elim: runner_consistent_cases)
qed

lemma cancelled_progress:
  assumes c: "consistent w" and open': "as_phase (w_attempt w) \<noteq> Complete"
  shows "makes_progress now w"
proof -
  have "as_phase (w_attempt w) \<noteq> Provisioning"
    using consistent_attempt(1) [OF c] by (auto simp: attempt_validate_ok_iff)
  with open' consider "before_clone (as_phase (w_attempt w))" | "before_cleanup (as_phase (w_attempt w))"
    | "as_phase (w_attempt w) = Destroying" | "as_phase (w_attempt w) \<in> {Deregistering, Releasing}"
    by (cases "as_phase (w_attempt w)") (auto simp: before_clone_def before_cleanup_def)
  then show ?thesis
    using before_clone_progress [OF c] before_cleanup_progress [OF c] destroying_progress [OF c] leaving_progress [OF c]
    by cases blast+
qed

lemma round_progress:
  assumes c: "consistent w" and open': "\<not> finished w"
  shows "consistent (round now w) \<and> remaining (round now w) < remaining w"
proof -
  have "as_phase (w_attempt w) \<noteq> Complete" using c open' by (auto simp: consistent_def finished_def)
  from cancelled_progress [OF c this, of now] show ?thesis by (auto simp: makes_progress_def round_def)
qed

lemma round_finished:
  assumes "finished w" and "consistent w"
  shows "round now w = w"
  using round_observed [OF assms(2), of now] assms(1)
  by (simp add: round_def finished_def before_clone_def before_cleanup_def reconcile_phase_def on_complete_def)

lemma rounds_finish:
  "consistent w \<Longrightarrow> remaining w \<le> n \<Longrightarrow> finished ((round now ^^ n) w)"
proof (induction n arbitrary: w)
  case 0
  then show ?case using round_progress [of w now] by auto
next
  case (Suc n)
  show ?case
  proof (cases "finished w")
    case True
    then have "(round now ^^ k) w = w" for k by (induction k) (simp_all add: round_finished Suc.prems(1))
    with True show ?thesis by metis
  next
    case False
    with round_progress [OF Suc.prems(1) False, of now] Suc show ?thesis by (simp add: funpow_Suc_right del: funpow.simps)
  qed
qed

lemma remaining_le: "remaining w \<le> 15"
proof -
  have bit: "of_bool b \<le> (1 :: nat)" for b by simp
  have "11 - phase_rank (as_phase (w_attempt w)) \<le> 11" by simp
  with bit [of "w_vm w \<noteq> VmAbsent"] bit [of "w_runner w \<noteq> RunnerAbsent"] bit [of "as_runner_id (w_attempt w) = None"]
    bit [of "w_reserved w"]
  show ?thesis unfolding remaining_def by linarith
qed

section \<open>Properties\<close>



end
