(* ===== verification/Admission.thy ===== *)
theory Admission
  imports Disposable_Worker
begin

text \<open>
  Execution admission, \<open>src/execution_admission.rs\<close>: the record a runtime publishes for
  one execution request, from the request through admission, queueing, reservation and
  running to its unavailability. \<open>admission_from_input\<close> is
  \<open>ExecutionAdmissionRecord::from_input\<close>, which decides whether the evidence of one
  observation is complete for its state, and \<open>admission_plan_transition\<close> is
  \<open>plan_transition\<close>, which decides whether one observation may follow another. Both
  keep the order of the checks, so an error value says which check refused first. The two
  \<open>expect\<close> calls are the value \<open>AdmissionPanic\<close>.

  The lemmas give the evidence each state needs, show that neither \<open>expect\<close> can fire on
  records the constructor built, follow one request through every history, and determine
  when a history can still be closed.
\<close>

section \<open>Vocabulary\<close>

definition EXECUTION_ADMISSION_SCHEMA_VERSION :: nat where
  "EXECUTION_ADMISSION_SCHEMA_VERSION = 1"
definition MAX_RESERVATION_LIFETIME_MILLIS :: nat where
  "MAX_RESERVATION_LIFETIME_MILLIS = 86400000"
definition ADMISSION_MAX_IDENTIFIER_LEN :: nat where "ADMISSION_MAX_IDENTIFIER_LEN = 96"
definition ADMISSION_MAX_CPU_MILLIS :: nat where "ADMISSION_MAX_CPU_MILLIS = 1000000"
definition ADMISSION_MAX_MEMORY_BYTES :: nat where "ADMISSION_MAX_MEMORY_BYTES = 2 ^ 50"
definition ADMISSION_MAX_PIDS :: nat where "ADMISSION_MAX_PIDS = 1000000"
definition MAX_QUEUE_POSITION :: nat where "MAX_QUEUE_POSITION = 1000000"

datatype admission_error =
    AdmissionError (admission_error_field: string) (admission_error_code: string)
  | AdmissionPanic

datatype execution_request_id = ExecutionRequestId (request_id_str: string)
datatype verification_profile_id = VerificationProfileId (verification_profile_id_str: string)
datatype runner_profile_id = RunnerProfileId (runner_profile_id_str: string)
datatype reservation_id = ReservationId (reservation_id_str: string)
datatype reservation_generation = ReservationGeneration (generation_get: nat)

definition admission_validate_identifier :: "string \<Rightarrow> string \<Rightarrow> admission_error + unit" where
  "admission_validate_identifier field v =
     (let first_is_safe =
            (case v of [] \<Rightarrow> False | b # _ \<Rightarrow> is_ascii_lowercase b \<or> is_ascii_digit b);
          remaining_are_safe =
            list_all (\<lambda>b. is_ascii_lowercase b \<or> is_ascii_digit b
                        \<or> b \<in> {CHR ''.'', CHR ''_'', CHR ''-''}) (tl v)
      in if ADMISSION_MAX_IDENTIFIER_LEN < length v \<or> \<not> first_is_safe \<or> \<not> remaining_are_safe
         then Inl (AdmissionError field ''invalid_identifier'')
         else Inr ())"

definition execution_request_id_parse :: "string \<Rightarrow> admission_error + execution_request_id" where
  "execution_request_id_parse v =
     try_res (admission_validate_identifier ''identity.request_id'' v)
       (\<lambda>_. Inr (ExecutionRequestId v))"

definition runner_profile_id_parse :: "string \<Rightarrow> admission_error + runner_profile_id" where
  "runner_profile_id_parse v =
     try_res (admission_validate_identifier ''identity.runner_profile_id'' v)
       (\<lambda>_. Inr (RunnerProfileId v))"

definition reservation_id_parse :: "string \<Rightarrow> admission_error + reservation_id" where
  "reservation_id_parse v =
     try_res (admission_validate_identifier ''reservation.id'' v) (\<lambda>_. Inr (ReservationId v))"

definition reservation_generation_new :: "nat \<Rightarrow> admission_error + reservation_generation" where
  "reservation_generation_new v =
     (if v = 0
      then Inl (AdmissionError ''reservation.generation'' ''invalid_reservation_generation'')
      else Inr (ReservationGeneration v))"

text \<open>\<open>VerificationProfileId::parse\<close> of \<open>src/verification_profile.rs\<close>, with its own identifier rule.\<close>

definition verification_profile_id_parse :: "string \<Rightarrow> string + verification_profile_id" where
  "verification_profile_id_parse v =
     (if v \<noteq> [] \<and> length v \<le> 64
         \<and> list_all (\<lambda>b. is_ascii_alphanumeric b \<or> b \<in> {CHR ''.'', CHR ''_'', CHR ''-''}) v
      then Inr (VerificationProfileId v)
      else Inl ''invalid_identifier'')"

record execution_resource_limits =
  el_cpu_millis :: nat
  el_memory_bytes :: nat
  el_pids :: nat

definition resource_limits_new ::
  "nat \<Rightarrow> nat \<Rightarrow> nat \<Rightarrow> admission_error + execution_resource_limits" where
  "resource_limits_new cpu_millis memory_bytes pids =
     (if \<not> (1 \<le> cpu_millis \<and> cpu_millis \<le> ADMISSION_MAX_CPU_MILLIS)
      then Inl (AdmissionError ''resources.cpu_millis'' ''invalid_cpu_limit'')
      else if \<not> (1 \<le> memory_bytes \<and> memory_bytes \<le> ADMISSION_MAX_MEMORY_BYTES)
      then Inl (AdmissionError ''resources.memory_bytes'' ''invalid_memory_limit'')
      else if \<not> (1 \<le> pids \<and> pids \<le> ADMISSION_MAX_PIDS)
      then Inl (AdmissionError ''resources.pids'' ''invalid_pid_limit'')
      else Inr \<lparr>el_cpu_millis = cpu_millis, el_memory_bytes = memory_bytes, el_pids = pids\<rparr>)"

definition limits_fit_within ::
  "execution_resource_limits \<Rightarrow> execution_resource_limits \<Rightarrow> bool" where
  "limits_fit_within l capacity \<longleftrightarrow>
     el_cpu_millis l \<le> el_cpu_millis capacity
     \<and> el_memory_bytes l \<le> el_memory_bytes capacity
     \<and> el_pids l \<le> el_pids capacity"

record host_capacity_observation =
  hc_observed_at :: epoch_millis
  hc_capacity :: execution_resource_limits

record admission_identity =
  ai_request_id :: execution_request_id
  ai_verification_profile_id :: verification_profile_id
  ai_runner_profile_id :: runner_profile_id

datatype admission_state =
    AdmRequested | AdmAdmitted | AdmQueued | AdmReserved
  | AdmStarting | AdmRunning | AdmDraining | AdmUnavailable

definition admission_is_terminal :: "admission_state \<Rightarrow> bool" where
  "admission_is_terminal s \<longleftrightarrow> s = AdmUnavailable"

datatype queue_position = KnownPosition nat | UnknownPosition

definition queue_position_known :: "nat \<Rightarrow> admission_error + queue_position" where
  "queue_position_known pos =
     (if \<not> (1 \<le> pos \<and> pos \<le> MAX_QUEUE_POSITION)
      then Inl (AdmissionError ''queue_position.position'' ''invalid_queue_position'')
      else Inr (KnownPosition pos))"

fun queue_position_is_valid :: "queue_position \<Rightarrow> bool" where
  "queue_position_is_valid (KnownPosition pos) =
     (0 < pos \<and> pos \<le> MAX_QUEUE_POSITION)"
| "queue_position_is_valid UnknownPosition = True"

datatype fallback_eligibility = FallbackEligible runner_profile_id | FallbackIneligible

datatype drain_acknowledgement = AckCancellation | AckDrain

datatype unavailable_reason =
    AdmissionRejected | CapacityUnavailable | HostUnavailable
  | ReservationExpired | Cancelled | Drained

record reservation_evidence =
  re_id :: reservation_id
  re_generation :: reservation_generation
  re_reserved_at :: epoch_millis
  re_expires_at :: epoch_millis

record admission_input =
  ea_identity :: admission_identity
  ea_state :: admission_state
  ea_observed_at :: epoch_millis
  ea_requested_limits :: execution_resource_limits
  ea_host_capacity :: "host_capacity_observation option"
  ea_applied_limits :: "execution_resource_limits option"
  ea_queue_position :: "queue_position option"
  ea_reservation :: "reservation_evidence option"
  ea_acknowledgement :: "drain_acknowledgement option"
  ea_fallback_eligibility :: fallback_eligibility
  ea_unavailable_reason :: "unavailable_reason option"

text \<open>
  The record has the fields of the input and the schema version. Comparisons of
  \<open>EpochMillis\<close> and \<open>ReservationGeneration\<close> are those of the wrapped integers.
\<close>

record admission_record =
  er_schema_version :: nat
  er_observation :: admission_input

record admission_transition =
  at_schema_version :: nat
  at_identity :: admission_identity
  at_from :: admission_state
  at_to :: admission_state
  at_observed_at :: epoch_millis
  at_resulting_record :: admission_record

definition epoch_le :: "epoch_millis \<Rightarrow> epoch_millis \<Rightarrow> bool" where
  "epoch_le a b \<longleftrightarrow> epoch_get a \<le> epoch_get b"

definition epoch_less :: "epoch_millis \<Rightarrow> epoch_millis \<Rightarrow> bool" where
  "epoch_less a b \<longleftrightarrow> epoch_get a < epoch_get b"

section \<open>Evidence of one observation\<close>

definition validate_fallback ::
  "admission_identity \<Rightarrow> fallback_eligibility \<Rightarrow> admission_error + unit" where
  "validate_fallback identity fallback =
     (case fallback of
        FallbackEligible runner_profile \<Rightarrow>
          if runner_profile = ai_runner_profile_id identity
          then Inl (AdmissionError ''fallback_eligibility.runner_profile_id''
                                   ''fallback_profile_matches_primary'')
          else Inr ()
      | FallbackIneligible \<Rightarrow> Inr ())"

definition validate_reservation :: "admission_input \<Rightarrow> admission_error + unit" where
  "validate_reservation i =
     (case ea_reservation i of
        None \<Rightarrow> Inr ()
      | Some reservation \<Rightarrow>
          try_res (ok_or (checked_sub (epoch_get (re_expires_at reservation))
                                      (epoch_get (re_reserved_at reservation)))
                         (AdmissionError ''reservation.expires_at'' ''invalid_reservation_expiry''))
            (\<lambda>lifetime.
               if lifetime = 0 \<or> MAX_RESERVATION_LIFETIME_MILLIS < lifetime
               then Inl (AdmissionError ''reservation.expires_at'' ''invalid_reservation_lifetime'')
               else if epoch_less (ea_observed_at i) (re_reserved_at reservation)
               then Inl (AdmissionError ''reservation.reserved_at'' ''future_reservation_start'')
               else
                 (let expired = epoch_le (re_expires_at reservation) (ea_observed_at i);
                      terminal_expiry =
                        (ea_state i = AdmUnavailable
                         \<and> ea_unavailable_reason i = Some ReservationExpired)
                  in if expired \<noteq> terminal_expiry
                     then Inl (AdmissionError ''reservation.expires_at'' ''reservation_expired'')
                     else Inr ())))"

definition validate_acknowledgement :: "admission_input \<Rightarrow> admission_error + unit" where
  "validate_acknowledgement i =
     (if ea_state i = AdmDraining \<and> ea_acknowledgement i = None
      then Inl (AdmissionError ''acknowledgement'' ''drain_acknowledgement_missing'')
      else if ea_state i \<in> {AdmDraining, AdmUnavailable} then Inr ()
      else if ea_acknowledgement i \<noteq> None
      then Inl (AdmissionError ''acknowledgement'' ''unexpected_acknowledgement'')
      else Inr ())"

definition validate_capacity_shortfall :: "admission_input \<Rightarrow> admission_error + unit" where
  "validate_capacity_shortfall i =
     (if ea_acknowledgement i \<noteq> None
      then Inl (AdmissionError ''acknowledgement'' ''unexpected_acknowledgement'')
      else (case ea_host_capacity i of
              None \<Rightarrow> Inl AdmissionPanic
            | Some host \<Rightarrow>
                (let request_fits = limits_fit_within (ea_requested_limits i) (hc_capacity host);
                     applied_fits =
                       (case ea_applied_limits i of
                          None \<Rightarrow> True
                        | Some applied \<Rightarrow> limits_fit_within applied (hc_capacity host))
                 in if request_fits \<and> applied_fits
                    then Inl (AdmissionError ''host_capacity.capacity''
                                             ''capacity_unavailability_unproven'')
                    else Inr ())))"

definition validate_reason :: "admission_input \<Rightarrow> unavailable_reason \<Rightarrow> admission_error + unit" where
  "validate_reason i reason =
     (case reason of
        CapacityUnavailable \<Rightarrow> validate_capacity_shortfall i
      | AdmissionRejected \<Rightarrow>
          if ea_reservation i \<noteq> None \<or> ea_acknowledgement i \<noteq> None
          then Inl (AdmissionError ''reservation'' ''unexpected_reservation_evidence'')
          else Inr ()
      | ReservationExpired \<Rightarrow>
          if ea_reservation i = None \<or> ea_acknowledgement i \<noteq> None
          then Inl (AdmissionError ''reservation'' ''expired_reservation_evidence_missing'')
          else Inr ()
      | Cancelled \<Rightarrow>
          if ea_reservation i = None \<or> ea_acknowledgement i \<noteq> Some AckCancellation
          then Inl (AdmissionError ''acknowledgement'' ''cancellation_acknowledgement_missing'')
          else Inr ()
      | Drained \<Rightarrow>
          if ea_reservation i = None \<or> ea_acknowledgement i \<noteq> Some AckDrain
          then Inl (AdmissionError ''acknowledgement'' ''drain_acknowledgement_missing'')
          else Inr ()
      | HostUnavailable \<Rightarrow>
          if ea_acknowledgement i \<noteq> None
          then Inl (AdmissionError ''acknowledgement'' ''unexpected_acknowledgement'')
          else Inr ())"

definition validate_unavailable_reason :: "admission_input \<Rightarrow> admission_error + unit" where
  "validate_unavailable_reason i =
     (if ea_state i \<noteq> AdmUnavailable
      then (if ea_unavailable_reason i \<noteq> None
            then Inl (AdmissionError ''unavailable_reason'' ''unexpected_unavailable_reason'')
            else Inr ())
      else try_res (ok_or (ea_unavailable_reason i)
                      (AdmissionError ''unavailable_reason'' ''unavailable_reason_missing''))
             (validate_reason i))"

definition admission_active :: "admission_state \<Rightarrow> bool" where
  "admission_active s \<longleftrightarrow>
     s \<in> {AdmAdmitted, AdmQueued, AdmReserved, AdmStarting, AdmRunning, AdmDraining}"

definition reservation_required :: "admission_state \<Rightarrow> bool" where
  "reservation_required s \<longleftrightarrow> s \<in> {AdmReserved, AdmStarting, AdmRunning, AdmDraining}"

definition validate_host_evidence :: "admission_input \<Rightarrow> admission_error + unit" where
  "validate_host_evidence i =
     (if (ea_state i \<noteq> AdmRequested) \<noteq> (ea_host_capacity i \<noteq> None)
      then Inl (AdmissionError ''host_capacity'' ''invalid_host_capacity_evidence'')
      else (case ea_host_capacity i of
          None \<Rightarrow> Inr ()
        | Some host \<Rightarrow>
            if epoch_less (ea_observed_at i) (hc_observed_at host)
            then Inl (AdmissionError ''host_capacity.observed_at'' ''future_host_capacity_observation'')
            else if admission_active (ea_state i)
                    \<and> \<not> limits_fit_within (ea_requested_limits i) (hc_capacity host)
            then Inl (AdmissionError ''requested_limits'' ''requested_capacity_unavailable'')
            else (case ea_applied_limits i of
                None \<Rightarrow> Inr ()
              | Some applied \<Rightarrow>
                  if \<not> limits_fit_within applied (ea_requested_limits i)
                  then Inl (AdmissionError ''applied_limits'' ''applied_capacity_widening'')
                  else if admission_active (ea_state i)
                          \<and> \<not> limits_fit_within applied (hc_capacity host)
                  then Inl (AdmissionError ''applied_limits'' ''applied_capacity_unavailable'')
                  else Inr ())))"

definition validate_queue_evidence :: "admission_input \<Rightarrow> admission_error + unit" where
  "validate_queue_evidence i =
     (if (ea_state i = AdmQueued) \<noteq> (ea_queue_position i \<noteq> None)
         \<or> (case ea_queue_position i of
              None \<Rightarrow> False | Some pos \<Rightarrow> \<not> queue_position_is_valid pos)
      then Inl (AdmissionError ''queue_position'' ''invalid_queue_evidence'')
      else Inr ())"

definition validate_reservation_presence :: "admission_input \<Rightarrow> admission_error + unit" where
  "validate_reservation_presence i =
     (if reservation_required (ea_state i)
         \<and> (ea_reservation i = None \<or> ea_applied_limits i = None)
      then Inl (AdmissionError ''reservation'' ''reservation_evidence_missing'')
      else if (ea_reservation i \<noteq> None) \<noteq> (ea_applied_limits i \<noteq> None)
      then Inl (AdmissionError ''reservation'' ''reservation_limit_evidence_mismatch'')
      else if ea_state i \<in> {AdmRequested, AdmAdmitted, AdmQueued} \<and> ea_reservation i \<noteq> None
      then Inl (AdmissionError ''reservation'' ''premature_reservation_evidence'')
      else Inr ())"

definition validate_state_evidence :: "admission_input \<Rightarrow> admission_error + unit" where
  "validate_state_evidence i =
     try_res (validate_host_evidence i) (\<lambda>_.
     try_res (validate_queue_evidence i) (\<lambda>_.
     try_res (validate_reservation_presence i) (\<lambda>_.
     try_res (validate_reservation i) (\<lambda>_.
     try_res (validate_acknowledgement i) (\<lambda>_.
     validate_unavailable_reason i)))))"

definition admission_from_input :: "admission_input \<Rightarrow> admission_error + admission_record" where
  "admission_from_input i =
     try_res (validate_fallback (ea_identity i) (ea_fallback_eligibility i)) (\<lambda>_.
     try_res (validate_state_evidence i) (\<lambda>_.
     Inr \<lparr>er_schema_version = EXECUTION_ADMISSION_SCHEMA_VERSION, er_observation = i\<rparr>))"

section \<open>One observation after another\<close>

definition validate_capacity_observation_progress ::
  "host_capacity_observation option \<Rightarrow> host_capacity_observation option \<Rightarrow>
   admission_error + unit" where
  "validate_capacity_observation_progress before after =
     (case (before, after) of
        (Some p, Some n) \<Rightarrow>
          if epoch_less (hc_observed_at n) (hc_observed_at p)
          then Inl (AdmissionError ''host_capacity.observed_at'' ''stale_host_capacity_observation'')
          else Inr ()
      | _ \<Rightarrow> Inr ())"

fun admission_forward :: "admission_state \<Rightarrow> admission_state \<Rightarrow> bool" where
  "admission_forward AdmRequested s \<longleftrightarrow> s \<in> {AdmAdmitted, AdmUnavailable}"
| "admission_forward AdmAdmitted s \<longleftrightarrow> s \<in> {AdmQueued, AdmReserved, AdmUnavailable}"
| "admission_forward AdmQueued s \<longleftrightarrow> s \<in> {AdmReserved, AdmUnavailable}"
| "admission_forward AdmReserved s \<longleftrightarrow> s \<in> {AdmStarting, AdmDraining, AdmUnavailable}"
| "admission_forward AdmStarting s \<longleftrightarrow> s \<in> {AdmRunning, AdmDraining, AdmUnavailable}"
| "admission_forward AdmRunning s \<longleftrightarrow> s \<in> {AdmDraining, AdmUnavailable}"
| "admission_forward AdmDraining s \<longleftrightarrow> s = AdmUnavailable"
| "admission_forward AdmUnavailable s \<longleftrightarrow> False"

definition validate_transition_pair ::
  "admission_state \<Rightarrow> admission_state \<Rightarrow> admission_error + unit" where
  "validate_transition_pair from to =
     (let same_active_state = (from = to \<and> \<not> admission_is_terminal from)
      in if \<not> same_active_state \<and> \<not> admission_forward from to
         then Inl (AdmissionError ''state'' ''invalid_admission_transition'')
         else Inr ())"

definition validate_reservation_progress ::
  "admission_input \<Rightarrow> admission_input \<Rightarrow> admission_error + unit" where
  "validate_reservation_progress before after =
     (case (ea_reservation before, ea_reservation after) of
        (None, Some n) \<Rightarrow>
          if ea_state after \<noteq> AdmReserved
          then Inl (AdmissionError ''reservation'' ''reservation_state_mismatch'')
          else (case ea_host_capacity after of
                  None \<Rightarrow> Inl AdmissionPanic
                | Some host \<Rightarrow>
                    if epoch_less (re_reserved_at n) (hc_observed_at host)
                    then Inl (AdmissionError ''reservation.reserved_at''
                                             ''reservation_precedes_capacity_observation'')
                    else Inr ())
      | (None, None) \<Rightarrow> Inr ()
      | (Some p, None) \<Rightarrow> Inl (AdmissionError ''reservation'' ''reservation_identity_lost'')
      | (Some p, Some n) \<Rightarrow>
          if re_id n \<noteq> re_id p
          then Inl (AdmissionError ''reservation.id'' ''reservation_identity_drift'')
          else if generation_get (re_generation n) < generation_get (re_generation p)
          then Inl (AdmissionError ''reservation.generation'' ''stale_reservation_generation'')
          else if generation_get (re_generation p) < generation_get (re_generation n)
          then Inl (AdmissionError ''reservation.generation'' ''reservation_generation_drift'')
          else if re_reserved_at n \<noteq> re_reserved_at p
          then Inl (AdmissionError ''reservation.reserved_at'' ''reservation_start_drift'')
          else if re_expires_at n \<noteq> re_expires_at p
          then Inl (AdmissionError ''reservation.expires_at'' ''reservation_expiry_drift'')
          else if ea_applied_limits after \<noteq> ea_applied_limits before
          then Inl (AdmissionError ''applied_limits'' ''applied_capacity_drift'')
          else Inr ())"

definition validate_acknowledgement_progress ::
  "admission_input \<Rightarrow> admission_input \<Rightarrow> admission_error + unit" where
  "validate_acknowledgement_progress before after =
     (if ea_state before = AdmDraining \<and> ea_acknowledgement after \<noteq> ea_acknowledgement before
      then Inl (AdmissionError ''acknowledgement'' ''drain_acknowledgement_drift'')
      else Inr ())"

definition validate_terminal_transition_reason ::
  "admission_input \<Rightarrow> admission_input \<Rightarrow> admission_error + unit" where
  "validate_terminal_transition_reason before after =
     (if ea_state after = AdmUnavailable
         \<and> ea_unavailable_reason after \<in> {Some Cancelled, Some Drained}
         \<and> ea_state before \<noteq> AdmDraining
      then Inl (AdmissionError ''state'' ''draining_state_missing'')
      else Inr ())"

definition admission_plan_transition ::
  "admission_record \<Rightarrow> admission_record \<Rightarrow> admission_error + admission_transition" where
  "admission_plan_transition self after =
     (let p = er_observation self; n = er_observation after in
      if admission_is_terminal (ea_state p)
      then Inl (AdmissionError ''state'' ''terminal_state_reversal'')
      else if epoch_less (ea_observed_at n) (ea_observed_at p)
      then Inl (AdmissionError ''observed_at'' ''observation_time_reversal'')
      else if ea_identity n \<noteq> ea_identity p
      then Inl (AdmissionError ''identity'' ''admission_identity_drift'')
      else if ea_requested_limits n \<noteq> ea_requested_limits p
      then Inl (AdmissionError ''requested_limits'' ''requested_capacity_drift'')
      else if ea_fallback_eligibility n \<noteq> ea_fallback_eligibility p
      then Inl (AdmissionError ''fallback_eligibility'' ''fallback_eligibility_drift'')
      else
        try_res (validate_capacity_observation_progress (ea_host_capacity p) (ea_host_capacity n)) (\<lambda>_.
        try_res (validate_transition_pair (ea_state p) (ea_state n)) (\<lambda>_.
        try_res (validate_reservation_progress p n) (\<lambda>_.
        try_res (validate_acknowledgement_progress p n) (\<lambda>_.
        try_res (validate_terminal_transition_reason p n) (\<lambda>_.
        Inr \<lparr>at_schema_version = EXECUTION_ADMISSION_SCHEMA_VERSION,
             at_identity = ea_identity p,
             at_from = ea_state p,
             at_to = ea_state n,
             at_observed_at = ea_observed_at n,
             at_resulting_record = after\<rparr>))))))"

section \<open>What each state has to show\<close>

text \<open>
  The same contract as a table: which evidence an observation of each state carries. An
  active state shows a capacity observation the request fits within, a reserved state in
  addition a dated and unexpired reservation with limits inside the request.
\<close>

definition host_observed :: "admission_input \<Rightarrow> bool" where
  "host_observed i \<longleftrightarrow>
     (case ea_host_capacity i of
        None \<Rightarrow> False
      | Some h \<Rightarrow> epoch_get (hc_observed_at h) \<le> epoch_get (ea_observed_at i))"

definition request_fits_host :: "admission_input \<Rightarrow> bool" where
  "request_fits_host i \<longleftrightarrow>
     (case ea_host_capacity i of
        None \<Rightarrow> False
      | Some h \<Rightarrow> limits_fit_within (ea_requested_limits i) (hc_capacity h))"

definition unreserved :: "admission_input \<Rightarrow> bool" where
  "unreserved i \<longleftrightarrow> ea_reservation i = None \<and> ea_applied_limits i = None"

definition holds_reservation :: "admission_input \<Rightarrow> bool" where
  "holds_reservation i \<longleftrightarrow>
     (case (ea_reservation i, ea_applied_limits i) of
        (Some r, Some applied) \<Rightarrow>
          limits_fit_within applied (ea_requested_limits i)
          \<and> epoch_get (re_reserved_at r) < epoch_get (re_expires_at r)
          \<and> epoch_get (re_expires_at r)
               \<le> epoch_get (re_reserved_at r) + MAX_RESERVATION_LIFETIME_MILLIS
          \<and> epoch_get (re_reserved_at r) \<le> epoch_get (ea_observed_at i)
      | _ \<Rightarrow> False)"

definition reservation_expired_at :: "admission_input \<Rightarrow> epoch_millis \<Rightarrow> bool" where
  "reservation_expired_at i t \<longleftrightarrow>
     (case ea_reservation i of
        None \<Rightarrow> False
      | Some r \<Rightarrow> epoch_get (re_expires_at r) \<le> epoch_get t)"

definition lapsed :: "admission_input \<Rightarrow> bool" where
  "lapsed i \<longleftrightarrow> reservation_expired_at i (ea_observed_at i)"

definition reason_shown :: "admission_input \<Rightarrow> unavailable_reason \<Rightarrow> bool" where
  "reason_shown i reason \<longleftrightarrow>
     (case reason of
        AdmissionRejected \<Rightarrow> unreserved i \<and> ea_acknowledgement i = None
      | CapacityUnavailable \<Rightarrow>
          \<not> request_fits_host i \<and> \<not> lapsed i \<and> ea_acknowledgement i = None
      | HostUnavailable \<Rightarrow> \<not> lapsed i \<and> ea_acknowledgement i = None
      | ReservationExpired \<Rightarrow> lapsed i \<and> ea_acknowledgement i = None
      | Cancelled \<Rightarrow>
          holds_reservation i \<and> \<not> lapsed i \<and> ea_acknowledgement i = Some AckCancellation
      | Drained \<Rightarrow>
          holds_reservation i \<and> \<not> lapsed i \<and> ea_acknowledgement i = Some AckDrain)"

definition state_shown :: "admission_input \<Rightarrow> bool" where
  "state_shown i \<longleftrightarrow>
     (case ea_state i of
        AdmRequested \<Rightarrow>
          ea_host_capacity i = None \<and> unreserved i \<and> ea_acknowledgement i = None
      | AdmAdmitted \<Rightarrow>
          host_observed i \<and> request_fits_host i \<and> unreserved i \<and> ea_acknowledgement i = None
      | AdmQueued \<Rightarrow>
          host_observed i \<and> request_fits_host i \<and> unreserved i \<and> ea_acknowledgement i = None
      | AdmDraining \<Rightarrow>
          host_observed i \<and> request_fits_host i \<and> holds_reservation i \<and> \<not> lapsed i
          \<and> ea_acknowledgement i \<noteq> None
      | AdmUnavailable \<Rightarrow>
          host_observed i \<and> (unreserved i \<or> holds_reservation i)
          \<and> (case ea_unavailable_reason i of
               None \<Rightarrow> False | Some reason \<Rightarrow> reason_shown i reason)
      | _ \<Rightarrow>
          host_observed i \<and> request_fits_host i \<and> holds_reservation i \<and> \<not> lapsed i
          \<and> ea_acknowledgement i = None)"

definition admissible :: "admission_input \<Rightarrow> bool" where
  "admissible i \<longleftrightarrow>
     ea_fallback_eligibility i \<noteq> FallbackEligible (ai_runner_profile_id (ea_identity i))
     \<and> (case ea_queue_position i of
          None \<Rightarrow> ea_state i \<noteq> AdmQueued
        | Some pos \<Rightarrow> ea_state i = AdmQueued \<and> queue_position_is_valid pos)
     \<and> (ea_unavailable_reason i \<noteq> None \<longrightarrow> ea_state i = AdmUnavailable)
     \<and> state_shown i"

named_theorems shown_defs \<open>the tables of the admission contract\<close>
declare host_observed_def [shown_defs] request_fits_host_def [shown_defs]
  unreserved_def [shown_defs] holds_reservation_def [shown_defs]
  reservation_expired_at_def [shown_defs] lapsed_def [shown_defs]

lemma limits_fit_trans:
  "limits_fit_within a b \<Longrightarrow> limits_fit_within b c \<Longrightarrow> limits_fit_within a c"
  by (auto simp: limits_fit_within_def)

lemma limits_fit_refl [simp]: "limits_fit_within a a"
  by (simp add: limits_fit_within_def)

lemma result_unit: "r = Inr () \<longleftrightarrow> is_ok r" for r :: "'e + unit"
  by (cases r) auto

lemma validate_fallback_ok:
  "is_ok (validate_fallback d f) \<longleftrightarrow> f \<noteq> FallbackEligible (ai_runner_profile_id d)"
  by (cases f) (auto simp: validate_fallback_def)

lemma validate_queue_evidence_ok:
  "is_ok (validate_queue_evidence i) \<longleftrightarrow>
     (case ea_queue_position i of
        None \<Rightarrow> ea_state i \<noteq> AdmQueued
      | Some pos \<Rightarrow> ea_state i = AdmQueued \<and> queue_position_is_valid pos)"
  by (cases "ea_queue_position i") (auto simp: validate_queue_evidence_def)

lemma validate_host_evidence_ok:
  "is_ok (validate_host_evidence i) \<longleftrightarrow>
     (if ea_state i = AdmRequested then ea_host_capacity i = None
      else host_observed i
           \<and> (admission_active (ea_state i) \<longrightarrow> request_fits_host i)
           \<and> (\<forall>a. ea_applied_limits i = Some a \<longrightarrow> limits_fit_within a (ea_requested_limits i)))"
proof (cases "ea_host_capacity i")
  case None
  then show ?thesis by (auto simp: validate_host_evidence_def shown_defs)
next
  case (Some h)
  then show ?thesis
    by (cases "ea_applied_limits i")
       (auto simp: validate_host_evidence_def shown_defs epoch_less_def dest: limits_fit_trans)
qed

lemma validate_reservation_presence_ok:
  "is_ok (validate_reservation_presence i) \<longleftrightarrow>
     (ea_reservation i = None \<longleftrightarrow> ea_applied_limits i = None)
     \<and> (reservation_required (ea_state i) \<longrightarrow> ea_reservation i \<noteq> None)
     \<and> (ea_state i \<in> {AdmRequested, AdmAdmitted, AdmQueued} \<longrightarrow> ea_reservation i = None)"
  by (cases "ea_reservation i"; cases "ea_applied_limits i")
     (auto simp: validate_reservation_presence_def)

lemma validate_reservation_ok:
  "is_ok (validate_reservation i) \<longleftrightarrow>
     (\<forall>r. ea_reservation i = Some r \<longrightarrow>
        epoch_get (re_reserved_at r) < epoch_get (re_expires_at r)
        \<and> epoch_get (re_expires_at r)
             \<le> epoch_get (re_reserved_at r) + MAX_RESERVATION_LIFETIME_MILLIS
        \<and> epoch_get (re_reserved_at r) \<le> epoch_get (ea_observed_at i)
        \<and> (lapsed i \<longleftrightarrow>
             ea_state i = AdmUnavailable \<and> ea_unavailable_reason i = Some ReservationExpired))"
  by (cases "ea_reservation i")
     (auto simp: validate_reservation_def shown_defs epoch_less_def epoch_le_def Let_def)

lemma validate_acknowledgement_ok:
  "is_ok (validate_acknowledgement i) \<longleftrightarrow>
     (if ea_state i = AdmDraining then ea_acknowledgement i \<noteq> None
      else ea_state i = AdmUnavailable \<or> ea_acknowledgement i = None)"
  by (auto simp: validate_acknowledgement_def)

lemma validate_reason_ok:
  assumes "ea_host_capacity i \<noteq> None"
    and "\<And>a. ea_applied_limits i = Some a \<Longrightarrow> limits_fit_within a (ea_requested_limits i)"
  shows "is_ok (validate_reason i reason) \<longleftrightarrow>
     (case reason of
        AdmissionRejected \<Rightarrow> ea_reservation i = None \<and> ea_acknowledgement i = None
      | CapacityUnavailable \<Rightarrow> \<not> request_fits_host i \<and> ea_acknowledgement i = None
      | HostUnavailable \<Rightarrow> ea_acknowledgement i = None
      | ReservationExpired \<Rightarrow> ea_reservation i \<noteq> None \<and> ea_acknowledgement i = None
      | Cancelled \<Rightarrow> ea_reservation i \<noteq> None \<and> ea_acknowledgement i = Some AckCancellation
      | Drained \<Rightarrow> ea_reservation i \<noteq> None \<and> ea_acknowledgement i = Some AckDrain)"
  using assms
  by (cases reason; cases "ea_applied_limits i"; cases "ea_host_capacity i")
     (auto simp: validate_reason_def validate_capacity_shortfall_def shown_defs
           dest: limits_fit_trans)

lemma validate_unavailable_reason_ok:
  "is_ok (validate_unavailable_reason i) \<longleftrightarrow>
     (case ea_unavailable_reason i of
        None \<Rightarrow> ea_state i \<noteq> AdmUnavailable
      | Some reason \<Rightarrow> ea_state i = AdmUnavailable \<and> is_ok (validate_reason i reason))"
  by (cases "ea_unavailable_reason i") (auto simp: validate_unavailable_reason_def)

lemmas evidence_ok = validate_host_evidence_ok validate_queue_evidence_ok
  validate_reservation_presence_ok validate_reservation_ok validate_acknowledgement_ok
  validate_unavailable_reason_ok

lemma validate_state_evidence_ok:
  "is_ok (validate_state_evidence i) \<longleftrightarrow>
     is_ok (validate_host_evidence i) \<and> is_ok (validate_queue_evidence i)
     \<and> is_ok (validate_reservation_presence i) \<and> is_ok (validate_reservation i)
     \<and> is_ok (validate_acknowledgement i) \<and> is_ok (validate_unavailable_reason i)"
  by (simp add: validate_state_evidence_def result_unit)


lemma holds_reservation_iff:
  "holds_reservation i \<longleftrightarrow>
     ea_reservation i \<noteq> None \<and> ea_applied_limits i \<noteq> None
     \<and> (\<forall>a. ea_applied_limits i = Some a \<longrightarrow> limits_fit_within a (ea_requested_limits i))
     \<and> (\<forall>r. ea_reservation i = Some r \<longrightarrow>
          epoch_get (re_reserved_at r) < epoch_get (re_expires_at r)
          \<and> epoch_get (re_expires_at r)
               \<le> epoch_get (re_reserved_at r) + MAX_RESERVATION_LIFETIME_MILLIS
          \<and> epoch_get (re_reserved_at r) \<le> epoch_get (ea_observed_at i))"
  by (cases "ea_reservation i"; cases "ea_applied_limits i") (auto simp: holds_reservation_def)

lemma lapsed_reserved: "lapsed i \<Longrightarrow> ea_reservation i \<noteq> None"
  by (cases "ea_reservation i") (auto simp: shown_defs)

lemma host_observed_some: "host_observed i \<Longrightarrow> ea_host_capacity i \<noteq> None"
  by (cases "ea_host_capacity i") (auto simp: shown_defs)

lemma evidence_active:
  assumes "ea_state i \<noteq> AdmUnavailable"
  shows "is_ok (validate_state_evidence i) \<longleftrightarrow>
     is_ok (validate_queue_evidence i) \<and> ea_unavailable_reason i = None \<and> state_shown i"
proof (cases "ea_unavailable_reason i = None")
  case True
  have checks: "is_ok (validate_state_evidence i) \<longleftrightarrow>
      is_ok (validate_queue_evidence i) \<and> is_ok (validate_host_evidence i)
      \<and> is_ok (validate_reservation_presence i) \<and> is_ok (validate_reservation i)
      \<and> is_ok (validate_acknowledgement i)"
    using True assms by (auto simp: validate_state_evidence_ok validate_unavailable_reason_ok)
  have reserved: "is_ok (validate_reservation i) \<and> (\<forall>a. ea_applied_limits i = Some a \<longrightarrow>
        limits_fit_within a (ea_requested_limits i))
      \<and> ea_reservation i \<noteq> None \<and> ea_applied_limits i \<noteq> None
      \<longleftrightarrow> holds_reservation i \<and> \<not> lapsed i"
    using True by (auto simp: validate_reservation_ok holds_reservation_iff)
  have free: "unreserved i \<Longrightarrow> is_ok (validate_reservation i)"
    by (simp add: validate_reservation_ok unreserved_def)
  show ?thesis
    unfolding checks validate_host_evidence_ok validate_reservation_presence_ok
      validate_acknowledgement_ok state_shown_def
    using assms True reserved free
    by (cases "ea_state i")
       (auto simp: admission_active_def reservation_required_def unreserved_def)
next
  case False
  with assms show ?thesis
    by (auto simp: validate_state_evidence_ok validate_unavailable_reason_ok)
qed

lemma evidence_terminal_needs:
  assumes "ea_state i = AdmUnavailable" and "is_ok (validate_state_evidence i)"
  shows "host_observed i \<and> (unreserved i \<or> holds_reservation i) \<and> ea_unavailable_reason i \<noteq> None"
proof -
  have checks: "is_ok (validate_host_evidence i)" "is_ok (validate_reservation_presence i)"
    "is_ok (validate_reservation i)" "is_ok (validate_unavailable_reason i)"
    using assms(2) by (simp_all add: validate_state_evidence_ok)
  have "ea_unavailable_reason i \<noteq> None"
    using checks(4) assms(1) by (cases "ea_unavailable_reason i") (auto simp: validate_unavailable_reason_ok)
  moreover have "host_observed i"
    using checks(1) assms(1) by (simp add: validate_host_evidence_ok)
  moreover have "unreserved i \<or> holds_reservation i"
    using checks(1-3) assms(1)
    unfolding validate_host_evidence_ok validate_reservation_presence_ok validate_reservation_ok
      unreserved_def holds_reservation_iff
    by (cases "ea_reservation i") simp_all
  ultimately show ?thesis by blast
qed

lemma evidence_terminal:
  assumes "ea_state i = AdmUnavailable"
  shows "is_ok (validate_state_evidence i) \<longleftrightarrow> is_ok (validate_queue_evidence i) \<and> state_shown i"
proof (cases "host_observed i \<and> (unreserved i \<or> holds_reservation i)
               \<and> ea_unavailable_reason i \<noteq> None")
  case True
  then obtain reason where reason: "ea_unavailable_reason i = Some reason" by auto
  have "ea_host_capacity i \<noteq> None"
    using True host_observed_some by blast
  moreover have "\<And>a. ea_applied_limits i = Some a \<Longrightarrow> limits_fit_within a (ea_requested_limits i)"
    using True by (auto simp: unreserved_def holds_reservation_iff)
  ultimately have valid: "is_ok (validate_reason i reason) \<longleftrightarrow>
     (case reason of
        AdmissionRejected \<Rightarrow> ea_reservation i = None \<and> ea_acknowledgement i = None
      | CapacityUnavailable \<Rightarrow> \<not> request_fits_host i \<and> ea_acknowledgement i = None
      | HostUnavailable \<Rightarrow> ea_acknowledgement i = None
      | ReservationExpired \<Rightarrow> ea_reservation i \<noteq> None \<and> ea_acknowledgement i = None
      | Cancelled \<Rightarrow> ea_reservation i \<noteq> None \<and> ea_acknowledgement i = Some AckCancellation
      | Drained \<Rightarrow> ea_reservation i \<noteq> None \<and> ea_acknowledgement i = Some AckDrain)"
    by (rule validate_reason_ok)
  have checks: "is_ok (validate_state_evidence i) \<longleftrightarrow>
      is_ok (validate_queue_evidence i) \<and> is_ok (validate_reservation i)
      \<and> is_ok (validate_reason i reason)"
    using True assms reason
    by (auto simp: validate_state_evidence_ok validate_host_evidence_ok
        validate_reservation_presence_ok validate_acknowledgement_ok validate_unavailable_reason_ok
        admission_active_def reservation_required_def unreserved_def holds_reservation_iff)
  have shown: "state_shown i \<longleftrightarrow> reason_shown i reason"
    using True assms reason by (simp add: state_shown_def)
  consider "unreserved i" | "holds_reservation i" using True by blast
  then have "is_ok (validate_reservation i) \<and> is_ok (validate_reason i reason)
      \<longleftrightarrow> reason_shown i reason"
  proof cases
    case 1
    then have "ea_reservation i = None" "\<not> lapsed i" "\<not> holds_reservation i"
      using lapsed_reserved[of i] by (auto simp: unreserved_def holds_reservation_iff)
    with 1 show ?thesis
      unfolding valid validate_reservation_ok reason_shown_def by (cases reason) simp_all
  next
    case 2
    then have "ea_reservation i \<noteq> None" "\<not> unreserved i"
      by (auto simp: unreserved_def holds_reservation_iff)
    moreover have "is_ok (validate_reservation i) \<longleftrightarrow> (lapsed i \<longleftrightarrow> reason = ReservationExpired)"
      using 2 assms reason by (auto simp: validate_reservation_ok holds_reservation_iff)
    ultimately show ?thesis
      using 2 unfolding valid reason_shown_def by (cases reason) auto
  qed
  then show ?thesis
    using checks shown by blast
next
  case False
  have "\<not> is_ok (validate_state_evidence i)"
    using False evidence_terminal_needs[OF assms] by blast
  moreover have "\<not> state_shown i"
    using False assms by (cases "ea_unavailable_reason i") (auto simp: state_shown_def)
  ultimately show ?thesis by blast
qed

lemma from_input_ok: "is_ok (admission_from_input i) \<longleftrightarrow> admissible i"
proof -
  have "is_ok (admission_from_input i) \<longleftrightarrow>
      is_ok (validate_fallback (ea_identity i) (ea_fallback_eligibility i))
      \<and> is_ok (validate_state_evidence i)"
    by (simp add: admission_from_input_def result_unit)
  also have "\<dots> \<longleftrightarrow> admissible i"
    by (cases "ea_state i = AdmUnavailable")
       (auto simp: admissible_def evidence_active evidence_terminal validate_fallback_ok
         validate_queue_evidence_ok)
  finally show ?thesis .
qed

lemma from_input_Inr:
  "admission_from_input i = Inr r \<longleftrightarrow>
     admissible i \<and> r = \<lparr>er_schema_version = EXECUTION_ADMISSION_SCHEMA_VERSION, er_observation = i\<rparr>"
proof -
  have "admission_from_input i = Inr r \<Longrightarrow>
      r = \<lparr>er_schema_version = EXECUTION_ADMISSION_SCHEMA_VERSION, er_observation = i\<rparr>" for r
    by (auto simp: admission_from_input_def)
  then show ?thesis
    using from_input_ok[of i] by (auto simp: is_ok_iff)
qed


section \<open>Which observation may follow which\<close>

definition reservation_kept :: "admission_input \<Rightarrow> admission_input \<Rightarrow> bool" where
  "reservation_kept p n \<longleftrightarrow>
     (case (ea_reservation p, ea_reservation n) of
        (None, None) \<Rightarrow> True
      | (None, Some e) \<Rightarrow>
          ea_state n = AdmReserved
          \<and> (case ea_host_capacity n of
               None \<Rightarrow> False
             | Some h \<Rightarrow> epoch_get (hc_observed_at h) \<le> epoch_get (re_reserved_at e))
      | (Some e, None) \<Rightarrow> False
      | (Some e, Some f) \<Rightarrow> e = f \<and> ea_applied_limits p = ea_applied_limits n)"

definition host_progress :: "admission_input \<Rightarrow> admission_input \<Rightarrow> bool" where
  "host_progress p n \<longleftrightarrow>
     (case (ea_host_capacity p, ea_host_capacity n) of
        (Some a, Some b) \<Rightarrow> epoch_get (hc_observed_at a) \<le> epoch_get (hc_observed_at b)
      | _ \<Rightarrow> True)"

definition same_request :: "admission_input \<Rightarrow> admission_input \<Rightarrow> bool" where
  "same_request p n \<longleftrightarrow>
     ea_identity p = ea_identity n \<and> ea_requested_limits p = ea_requested_limits n
     \<and> ea_fallback_eligibility p = ea_fallback_eligibility n"

definition admission_follows :: "admission_input \<Rightarrow> admission_input \<Rightarrow> bool" where
  "admission_follows p n \<longleftrightarrow>
     ea_state p \<noteq> AdmUnavailable
     \<and> epoch_get (ea_observed_at p) \<le> epoch_get (ea_observed_at n)
     \<and> same_request p n \<and> host_progress p n
     \<and> (ea_state n = ea_state p \<or> admission_forward (ea_state p) (ea_state n))
     \<and> reservation_kept p n
     \<and> (ea_state p = AdmDraining \<longrightarrow> ea_acknowledgement n = ea_acknowledgement p)
     \<and> (ea_state n = AdmUnavailable \<and> ea_unavailable_reason n \<in> {Some Cancelled, Some Drained}
          \<longrightarrow> ea_state p = AdmDraining)"

lemma reservation_evidence_eqI:
  fixes a b :: reservation_evidence
  assumes "re_id a = re_id b" "generation_get (re_generation a) = generation_get (re_generation b)"
    "re_reserved_at a = re_reserved_at b" "re_expires_at a = re_expires_at b"
  shows "a = b"
  using assms by (cases a; cases b) (auto simp: reservation_generation.expand)

lemma validate_reservation_progress_ok:
  "is_ok (validate_reservation_progress p n) \<longleftrightarrow> reservation_kept p n"
proof (cases "ea_reservation p"; cases "ea_reservation n")
  fix e f
  assume res: "ea_reservation p = Some e" "ea_reservation n = Some f"
  have "is_ok (validate_reservation_progress p n) \<longleftrightarrow>
      re_id e = re_id f \<and> generation_get (re_generation e) = generation_get (re_generation f)
      \<and> re_reserved_at e = re_reserved_at f \<and> re_expires_at e = re_expires_at f
      \<and> ea_applied_limits p = ea_applied_limits n"
    using res by (auto simp: validate_reservation_progress_def)
  also have "\<dots> \<longleftrightarrow> reservation_kept p n"
    using res reservation_evidence_eqI[of e f] by (auto simp: reservation_kept_def)
  finally show ?thesis .
qed (auto simp: validate_reservation_progress_def reservation_kept_def epoch_less_def
      split: option.splits)

lemma plan_transition_Inr:
  "admission_plan_transition r r' = Inr t \<longleftrightarrow>
     admission_follows (er_observation r) (er_observation r')
     \<and> t = \<lparr>at_schema_version = EXECUTION_ADMISSION_SCHEMA_VERSION,
            at_identity = ea_identity (er_observation r),
            at_from = ea_state (er_observation r), at_to = ea_state (er_observation r'),
            at_observed_at = ea_observed_at (er_observation r'), at_resulting_record = r'\<rparr>"
proof -
  define p n where "p = er_observation r" and "n = er_observation r'"
  have host: "validate_capacity_observation_progress (ea_host_capacity p) (ea_host_capacity n)
      = Inr () \<longleftrightarrow> host_progress p n"
    by (auto simp: validate_capacity_observation_progress_def host_progress_def epoch_less_def
        split: option.splits)
  have pair: "validate_transition_pair (ea_state p) (ea_state n) = Inr () \<longleftrightarrow>
      (ea_state p = ea_state n \<and> ea_state p \<noteq> AdmUnavailable)
      \<or> admission_forward (ea_state p) (ea_state n)"
    by (auto simp: validate_transition_pair_def admission_is_terminal_def)
  have kept: "validate_reservation_progress p n = Inr () \<longleftrightarrow> reservation_kept p n"
    by (simp add: result_unit validate_reservation_progress_ok)
  show ?thesis
    unfolding admission_plan_transition_def p_def[symmetric] n_def[symmetric] Let_def
    by (auto simp: host pair kept admission_follows_def same_request_def admission_is_terminal_def
        epoch_less_def validate_acknowledgement_progress_def
        validate_terminal_transition_reason_def split: if_splits)
qed

text \<open>A step of a history: a constructed observation that \<open>plan_transition\<close> accepts.\<close>

inductive admission_step :: "admission_record \<Rightarrow> admission_record \<Rightarrow> bool" where
  "admission_from_input i = Inr r' \<Longrightarrow> admission_plan_transition r r' = Inr t \<Longrightarrow>
   admission_step r (at_resulting_record t)"

lemma admission_step_iff:
  "admission_step r r' \<longleftrightarrow>
     admissible (er_observation r') \<and> admission_follows (er_observation r) (er_observation r')
     \<and> r' = \<lparr>er_schema_version = EXECUTION_ADMISSION_SCHEMA_VERSION,
             er_observation = er_observation r'\<rparr>"
proof
  assume "admission_step r r'"
  then show "admissible (er_observation r') \<and> admission_follows (er_observation r) (er_observation r')
     \<and> r' = \<lparr>er_schema_version = EXECUTION_ADMISSION_SCHEMA_VERSION,
             er_observation = er_observation r'\<rparr>"
    by cases (auto simp: from_input_Inr plan_transition_Inr)
next
  assume step: "admissible (er_observation r')
     \<and> admission_follows (er_observation r) (er_observation r')
     \<and> r' = \<lparr>er_schema_version = EXECUTION_ADMISSION_SCHEMA_VERSION,
             er_observation = er_observation r'\<rparr>"
  then have "admission_from_input (er_observation r') = Inr r'"
    by (simp add: from_input_Inr)
  moreover from step obtain t where
    "admission_plan_transition r r' = Inr t" "at_resulting_record t = r'"
    by (auto simp: plan_transition_Inr)
  ultimately show "admission_step r r'"
    using admission_step.intros by metis
qed

section \<open>Histories\<close>

fun admission_rank :: "admission_state \<Rightarrow> nat" where
  "admission_rank AdmRequested = 0"
| "admission_rank AdmAdmitted = 1"
| "admission_rank AdmQueued = 2"
| "admission_rank AdmReserved = 3"
| "admission_rank AdmStarting = 4"
| "admission_rank AdmRunning = 5"
| "admission_rank AdmDraining = 6"
| "admission_rank AdmUnavailable = 7"

lemma forward_rank: "admission_forward a b \<Longrightarrow> admission_rank a < admission_rank b"
  by (cases a) auto

definition request_kept :: "admission_input \<Rightarrow> admission_input \<Rightarrow> bool" where
  "request_kept p n \<longleftrightarrow>
     same_request p n
     \<and> epoch_get (ea_observed_at p) \<le> epoch_get (ea_observed_at n)
     \<and> admission_rank (ea_state p) \<le> admission_rank (ea_state n)
     \<and> (ea_reservation p \<noteq> None \<longrightarrow>
          ea_reservation n = ea_reservation p \<and> ea_applied_limits n = ea_applied_limits p)"

lemma request_kept_refl [simp]: "request_kept p p"
  by (simp add: request_kept_def same_request_def)

lemma request_kept_trans: "request_kept p q \<Longrightarrow> request_kept q n \<Longrightarrow> request_kept p n"
  by (simp add: request_kept_def same_request_def)

lemma admission_follows_kept: "admission_follows p n \<Longrightarrow> request_kept p n"
  unfolding admission_follows_def request_kept_def
  by (auto simp: reservation_kept_def dest: forward_rank split: option.splits)

lemma history_kept:
  "admission_step\<^sup>*\<^sup>* r r' \<Longrightarrow> request_kept (er_observation r) (er_observation r')"
proof (induction rule: rtranclp_induct)
  case base
  show ?case by simp
next
  case (step q r')
  then show ?case
    using admission_follows_kept request_kept_trans by (auto simp: admission_step_iff)
qed

lemma history_admissible:
  "admission_step\<^sup>*\<^sup>* r r' \<Longrightarrow> admissible (er_observation r) \<Longrightarrow> admissible (er_observation r')"
  by (induction rule: rtranclp_induct) (auto simp: admission_step_iff)

lemma admissible_running:
  assumes "admissible i" and "reservation_required (ea_state i)"
  shows "holds_reservation i" and "\<not> lapsed i" and "request_fits_host i"
  using assms by (auto simp: admissible_def state_shown_def reservation_required_def)

lemma follows_draining:
  assumes "admission_follows p n" and "ea_state n = AdmUnavailable"
    and "ea_unavailable_reason n \<in> {Some Cancelled, Some Drained}"
  shows "ea_state p = AdmDraining \<and> ea_acknowledgement p = ea_acknowledgement n"
  using assms by (auto simp: admission_follows_def)

lemma history_last_draining:
  assumes "admission_step\<^sup>*\<^sup>* r r'" and "ea_state (er_observation r) \<noteq> AdmUnavailable"
    and "ea_state (er_observation r') = AdmUnavailable"
    and "ea_unavailable_reason (er_observation r') \<in> {Some Cancelled, Some Drained}"
  shows "\<exists>d. admission_step\<^sup>*\<^sup>* r d \<and> admission_step d r'
           \<and> ea_state (er_observation d) = AdmDraining
           \<and> ea_acknowledgement (er_observation d) = ea_acknowledgement (er_observation r')"
  using assms(1)
proof (cases rule: rtranclp.cases)
  case rtrancl_refl
  with assms(2,3) show ?thesis by simp
next
  case (rtrancl_into_rtrancl d)
  with assms(3,4) show ?thesis
    using follows_draining[of "er_observation d" "er_observation r'"]
    by (auto simp: admission_step_iff intro!: exI[of _ d])
qed

section \<open>Closing a history\<close>

text \<open>A terminal observation at a given time for a request that is not draining past its expiry.\<close>

definition closing_reason :: "admission_input \<Rightarrow> epoch_millis \<Rightarrow> unavailable_reason" where
  "closing_reason p t =
     (case ea_state p of
        AdmDraining \<Rightarrow>
          (if ea_acknowledgement p = Some AckCancellation then Cancelled else Drained)
      | _ \<Rightarrow>
          (if reservation_expired_at p t then ReservationExpired
           else if ea_reservation p = None then AdmissionRejected
           else HostUnavailable))"

definition closing_observation :: "admission_input \<Rightarrow> epoch_millis \<Rightarrow> admission_input" where
  "closing_observation p t =
     p\<lparr>ea_state := AdmUnavailable,
       ea_observed_at := t,
       ea_host_capacity :=
         (case ea_host_capacity p of
            None \<Rightarrow> Some \<lparr>hc_observed_at = t, hc_capacity = ea_requested_limits p\<rparr>
          | Some h \<Rightarrow> Some h),
       ea_queue_position := None,
       ea_unavailable_reason := Some (closing_reason p t)\<rparr>"

definition stranded :: "admission_input \<Rightarrow> epoch_millis \<Rightarrow> bool" where
  "stranded p t \<longleftrightarrow> ea_state p = AdmDraining \<and> reservation_expired_at p t"

lemma closing_follows:
  assumes "ea_state p \<noteq> AdmUnavailable" and "epoch_get (ea_observed_at p) \<le> epoch_get t"
  shows "admission_follows p (closing_observation p t)"
proof -
  have "admission_forward (ea_state p) AdmUnavailable"
    using assms(1) by (cases "ea_state p") auto
  then show ?thesis
    using assms
    by (auto simp: admission_follows_def closing_observation_def same_request_def host_progress_def
        reservation_kept_def closing_reason_def split: option.splits admission_state.splits if_splits)
qed

lemma closing_fields:
  shows "unreserved (closing_observation p t) = unreserved p" and "lapsed (closing_observation p t) = reservation_expired_at p t"
    and "ea_acknowledgement (closing_observation p t) = ea_acknowledgement p" and "ea_state (closing_observation p t) = AdmUnavailable"
    and "ea_unavailable_reason (closing_observation p t) = Some (closing_reason p t)"
    and "ea_fallback_eligibility (closing_observation p t) = ea_fallback_eligibility p"
    and "ea_identity (closing_observation p t) = ea_identity p" and "ea_queue_position (closing_observation p t) = None"
  by (simp_all add: closing_observation_def shown_defs)

lemma closing_evidence:
  assumes "epoch_get (ea_observed_at p) \<le> epoch_get t"
  shows "holds_reservation p \<Longrightarrow> holds_reservation (closing_observation p t)"
    and "host_observed p \<or> ea_host_capacity p = None \<Longrightarrow> host_observed (closing_observation p t)"
  using assms
  by (auto simp: closing_observation_def holds_reservation_iff host_observed_def split: option.splits)

lemma unreserved_reservation:
  "unreserved p \<Longrightarrow> ea_reservation p = None" "holds_reservation p \<Longrightarrow> ea_reservation p \<noteq> None"
  by (auto simp: unreserved_def holds_reservation_iff)

lemma closing_admissible:
  assumes adm: "admissible p" and open_state: "ea_state p \<noteq> AdmUnavailable"
    and time: "epoch_get (ea_observed_at p) \<le> epoch_get t" and ok: "\<not> stranded p t"
  shows "admissible (closing_observation p t)"
proof -
  have shown: "state_shown p" using adm by (simp add: admissible_def)
  have host: "host_observed p \<or> ea_host_capacity p = None"
    using shown open_state by (cases "ea_state p") (auto simp: state_shown_def)
  have res: "unreserved p \<or> holds_reservation p"
    using shown open_state by (cases "ea_state p") (auto simp: state_shown_def)
  have ack: "if ea_state p = AdmDraining then ea_acknowledgement p \<noteq> None \<and> holds_reservation p
      else ea_acknowledgement p = None"
    using shown open_state by (cases "ea_state p") (auto simp: state_shown_def)
  have "reason_shown (closing_observation p t) (closing_reason p t)"
  proof (cases "ea_state p = AdmDraining")
    case True
    moreover from this ack obtain a where "ea_acknowledgement p = Some a" by auto
    ultimately show ?thesis
      using ack ok closing_evidence(1)[OF time]
      by (cases a) (auto simp: closing_reason_def reason_shown_def closing_fields stranded_def)
  next
    case False
    then have reason: "closing_reason p t =
        (if reservation_expired_at p t then ReservationExpired
         else if ea_reservation p = None then AdmissionRejected else HostUnavailable)"
      by (cases "ea_state p") (auto simp: closing_reason_def)
    show ?thesis
      unfolding reason using False ack res
      by (auto simp: reason_shown_def closing_fields(1-3) unreserved_reservation)
  qed
  then have "state_shown (closing_observation p t)"
    using closing_evidence[OF time] host res
    by (auto simp: state_shown_def closing_fields)
  then show ?thesis
    using adm by (simp add: admissible_def closing_fields)
qed

lemma stranded_no_successor:
  assumes adm: "admissible p" "admissible n" and strand: "stranded p (ea_observed_at n)"
  shows "\<not> admission_follows p n"
proof
  assume follows: "admission_follows p n"
  have drain: "ea_state p = AdmDraining"
    using strand by (simp add: stranded_def)
  then have ack: "ea_acknowledgement p \<noteq> None"
    using adm(1) by (simp add: admissible_def state_shown_def)
  have held: "ea_reservation p \<noteq> None"
    using strand by (auto simp: stranded_def reservation_expired_at_def split: option.splits)
  then have kept: "ea_reservation n = ea_reservation p" "ea_acknowledgement n = ea_acknowledgement p"
    using follows drain admission_follows_kept[OF follows]
    by (auto simp: admission_follows_def request_kept_def)
  then have lapsed: "lapsed n"
    using strand by (simp add: stranded_def lapsed_def reservation_expired_at_def)
  have state: "ea_state n \<in> {AdmDraining, AdmUnavailable}"
    using follows drain by (auto simp: admission_follows_def)
  have shown: "state_shown n" using adm(2) by (simp add: admissible_def)
  with state lapsed have "ea_state n = AdmUnavailable"
    by (auto simp: state_shown_def)
  with shown obtain reason where "reason_shown n reason"
    by (auto simp: state_shown_def split: option.splits)
  then show False
    using lapsed ack kept held
    by (cases reason) (auto simp: reason_shown_def unreserved_def)
qed

lemma validate_reason_no_panic:
  "ea_host_capacity i \<noteq> None \<Longrightarrow> validate_reason i x \<noteq> Inl AdmissionPanic"
  by (cases x)
     (auto simp: validate_reason_def validate_capacity_shortfall_def Let_def split: if_splits)

lemma state_evidence_no_panic: "validate_state_evidence i \<noteq> Inl AdmissionPanic"
proof -
  have "validate_host_evidence i = Inr () \<Longrightarrow> ea_state i = AdmUnavailable \<Longrightarrow>
      ea_host_capacity i \<noteq> None"
    using host_observed_some[of i] by (simp add: result_unit validate_host_evidence_ok)
  then have "validate_host_evidence i = Inr () \<Longrightarrow>
      validate_unavailable_reason i \<noteq> Inl AdmissionPanic"
    using validate_reason_no_panic
    by (auto simp: validate_unavailable_reason_def try_res_eq_Inl)
  moreover have "validate_host_evidence i \<noteq> Inl AdmissionPanic"
    by (auto simp: validate_host_evidence_def split: option.splits)
  moreover have "validate_reservation i \<noteq> Inl AdmissionPanic"
    by (auto simp: validate_reservation_def try_res_eq_Inl Let_def split: option.splits if_splits)
  ultimately show ?thesis
    by (auto simp: validate_state_evidence_def try_res_eq_Inl validate_queue_evidence_def
        validate_reservation_presence_def validate_acknowledgement_def split: if_splits)
qed

lemma reservation_progress_no_panic:
  "admissible n \<Longrightarrow> validate_reservation_progress p n \<noteq> Inl AdmissionPanic"
  by (auto simp: validate_reservation_progress_def admissible_def state_shown_def
      dest!: host_observed_some split: option.splits)

section \<open>The properties\<close>

text \<open>
  The constructor of admission records accepts an observation exactly when it carries the
  evidence its state requires: a fallback profile other than the primary one, a valid queue
  position exactly while queued, a reason exactly when unavailable, and the capacity,
  reservation, limit and acknowledgement evidence of the table \<open>state_shown\<close>. The record
  accepted is the observation with the schema version.
\<close>
theorem admission_from_input_iff:
  "admission_from_input i = Inr r \<longleftrightarrow>
     admissible i \<and> r = \<lparr>er_schema_version = EXECUTION_ADMISSION_SCHEMA_VERSION, er_observation = i\<rparr>"
  by (rule from_input_Inr)

text \<open>
  C24. Follow one request through any number of accepted transitions. Its identity, requested
  limits and fallback eligibility never change, time and state never move back, and a
  reservation, once published, is kept exactly together with its applied limits. While the
  execution is reserved, starting, running or draining it holds a reservation of at most a
  day that has started and has not expired, its limits stay within the request and the
  request within the observed capacity. A cancelled or drained end directly follows a
  draining observation with the same acknowledgement, and nothing follows an end.
\<close>
theorem admission_history_exact:
  assumes "admission_from_input i = Inr r" and "ea_state i \<noteq> AdmUnavailable"
    and "admission_step\<^sup>*\<^sup>* r r'"
  shows "request_kept i (er_observation r')
    \<and> (reservation_required (ea_state (er_observation r')) \<longrightarrow>
         holds_reservation (er_observation r') \<and> \<not> lapsed (er_observation r')
         \<and> request_fits_host (er_observation r'))
    \<and> (ea_state (er_observation r') = AdmUnavailable
       \<and> ea_unavailable_reason (er_observation r') \<in> {Some Cancelled, Some Drained} \<longrightarrow>
         (\<exists>d. admission_step\<^sup>*\<^sup>* r d \<and> admission_step d r'
            \<and> ea_state (er_observation d) = AdmDraining
            \<and> ea_acknowledgement (er_observation d) = ea_acknowledgement (er_observation r')))
    \<and> (ea_state (er_observation r') = AdmUnavailable \<longrightarrow> (\<forall>n. \<not> admission_step r' n))"
proof -
  have r: "er_observation r = i" "admissible i"
    using assms(1) by (auto simp: from_input_Inr)
  have adm: "admissible (er_observation r')"
    using history_admissible[OF assms(3)] r by simp
  show ?thesis
    using history_kept[OF assms(3)] r admissible_running[OF adm] history_last_draining[OF assms(3)]
      assms(2)
    by (auto simp: admission_step_iff admission_follows_def)
qed

text \<open>
  C23. When an observed request can be closed. At any time not before its last observation, an
  open request has a terminal observation that the constructor and \<open>plan_transition\<close> accept,
  unless it is draining and its reservation has expired by then. In that one case no
  observation of any kind is accepted: an expired reservation may only appear as
  \<open>ReservationExpired\<close>, which must not carry an acknowledgement, while the acknowledgement of a
  draining request must be kept.
\<close>
theorem admission_closable_iff:
  assumes "admission_from_input i = Inr r" and "ea_state i \<noteq> AdmUnavailable"
    and "epoch_get (ea_observed_at i) \<le> epoch_get t"
  shows "((\<exists>r'. admission_step r r' \<and> ea_state (er_observation r') = AdmUnavailable
              \<and> ea_observed_at (er_observation r') = t)
          \<longleftrightarrow> \<not> (ea_state i = AdmDraining \<and> reservation_expired_at i t))
       \<and> (ea_state i = AdmDraining \<and> reservation_expired_at i t \<longrightarrow>
          \<not> (\<exists>r'. admission_step r r' \<and> ea_observed_at (er_observation r') = t))"
proof -
  have r: "er_observation r = i" "admissible i"
    using assms(1) by (auto simp: from_input_Inr)
  have stuck: "\<not> (\<exists>r'. admission_step r r' \<and> ea_observed_at (er_observation r') = t)"
    if "stranded i t"
    using that stranded_no_successor[of i] r by (auto simp: admission_step_iff)
  have closable: "\<exists>r'. admission_step r r' \<and> ea_state (er_observation r') = AdmUnavailable
      \<and> ea_observed_at (er_observation r') = t" if "\<not> stranded i t"
    using closing_admissible[OF r(2) assms(2,3) that] closing_follows[OF assms(2,3)] r(1)
    by (intro exI[of _ "\<lparr>er_schema_version = EXECUTION_ADMISSION_SCHEMA_VERSION,
                         er_observation = closing_observation i t\<rparr>"])
       (simp add: admission_step_iff closing_fields, simp add: closing_observation_def)
  from stuck closable show ?thesis
    unfolding stranded_def by blast
qed

text \<open>
  C25. Neither \<open>expect\<close> of the file can panic: the constructor never does, and
  \<open>plan_transition\<close> never does on a next record that the constructor built.
\<close>
theorem admission_never_panics:
  "admission_from_input i \<noteq> Inl AdmissionPanic
   \<and> (admission_from_input i = Inr r' \<longrightarrow> admission_plan_transition r r' \<noteq> Inl AdmissionPanic)"
proof -
  have "admission_from_input i \<noteq> Inl AdmissionPanic"
    using state_evidence_no_panic
    by (auto simp: admission_from_input_def try_res_eq_Inl validate_fallback_def
        split: fallback_eligibility.splits)
  moreover have "admission_plan_transition r r' \<noteq> Inl AdmissionPanic"
    if "admission_from_input i = Inr r'"
    using that reservation_progress_no_panic
    by (auto simp: from_input_Inr admission_plan_transition_def Let_def try_res_eq_Inl
        validate_capacity_observation_progress_def validate_transition_pair_def
        validate_acknowledgement_progress_def validate_terminal_transition_reason_def
        split: option.splits if_splits)
  ultimately show ?thesis by blast
qed

section \<open>Witnesses\<close>

definition example_admission :: "admission_state \<Rightarrow> nat \<Rightarrow> admission_input" where
  "example_admission s t =
     \<lparr>ea_identity = \<lparr>ai_request_id = ExecutionRequestId ''request-1'',
                    ai_verification_profile_id = VerificationProfileId ''linux'',
                    ai_runner_profile_id = RunnerProfileId ''resident''\<rparr>,
      ea_state = s,
      ea_observed_at = EpochMillis t,
      ea_requested_limits = \<lparr>el_cpu_millis = 2000, el_memory_bytes = 4096, el_pids = 64\<rparr>,
      ea_host_capacity =
        (if s = AdmRequested then None
         else Some \<lparr>hc_observed_at = EpochMillis 1000,
                    hc_capacity = \<lparr>el_cpu_millis = 8000, el_memory_bytes = 8192, el_pids = 512\<rparr>\<rparr>),
      ea_applied_limits =
        (if s \<in> {AdmRequested, AdmAdmitted, AdmQueued} then None
         else Some \<lparr>el_cpu_millis = 1000, el_memory_bytes = 4096, el_pids = 64\<rparr>),
      ea_queue_position = (if s = AdmQueued then Some (KnownPosition 3) else None),
      ea_reservation =
        (if s \<in> {AdmRequested, AdmAdmitted, AdmQueued} then None
         else Some \<lparr>re_id = ReservationId ''reservation-1'',
                    re_generation = ReservationGeneration 1,
                    re_reserved_at = EpochMillis 2000, re_expires_at = EpochMillis 9000\<rparr>),
      ea_acknowledgement =
        (if s \<in> {AdmDraining, AdmUnavailable} then Some AckDrain else None),
      ea_fallback_eligibility = FallbackEligible (RunnerProfileId ''hosted''),
      ea_unavailable_reason = (if s = AdmUnavailable then Some Drained else None)\<rparr>"

definition example_record :: "admission_state \<Rightarrow> nat \<Rightarrow> admission_record" where
  "example_record s t = \<lparr>er_schema_version = 1, er_observation = example_admission s t\<rparr>"

lemmas example_admission_simps = admissible_def state_shown_def reason_shown_def shown_defs
  example_admission_def example_record_def limits_fit_within_def MAX_QUEUE_POSITION_def
  MAX_RESERVATION_LIFETIME_MILLIS_def EXECUTION_ADMISSION_SCHEMA_VERSION_def

lemma example_admission_built:
  "admission_from_input (example_admission AdmQueued 1500) = Inr (example_record AdmQueued 1500)"
  "admission_from_input (example_admission AdmDraining 4000) = Inr (example_record AdmDraining 4000)"
  by (simp_all add: from_input_Inr example_admission_simps)

lemma example_admission_steps:
  "admission_step (example_record AdmQueued 1500) (example_record AdmReserved 2000)"
  "admission_step (example_record AdmReserved 2000) (example_record AdmDraining 4000)"
  "admission_step (example_record AdmDraining 4000) (example_record AdmUnavailable 5000)"
  by (simp_all add: admission_step_iff admission_follows_def same_request_def host_progress_def
      reservation_kept_def example_admission_simps)

theorem admission_history_exact_witness:
  "\<exists>d. admission_step\<^sup>*\<^sup>* (example_record AdmQueued 1500) d
     \<and> admission_step d (example_record AdmUnavailable 5000)
     \<and> ea_state (er_observation d) = AdmDraining
     \<and> ea_acknowledgement (er_observation d) = Some AckDrain"
proof -
  have "admission_step\<^sup>*\<^sup>* (example_record AdmQueued 1500) (example_record AdmUnavailable 5000)"
    using example_admission_steps by (meson converse_rtranclp_into_rtranclp r_into_rtranclp)
  from admission_history_exact[OF example_admission_built(1) _ this] show ?thesis
    by (simp add: example_admission_def example_record_def)
qed

theorem admission_closable_iff_witness:
  "(\<exists>r'. admission_step (example_record AdmDraining 4000) r'
        \<and> ea_state (er_observation r') = AdmUnavailable
        \<and> ea_observed_at (er_observation r') = EpochMillis 8999)
   \<and> \<not> (\<exists>r'. admission_step (example_record AdmDraining 4000) r'
           \<and> ea_observed_at (er_observation r') = EpochMillis 9000)"
  using admission_closable_iff[OF example_admission_built(2), of "EpochMillis 8999"]
    admission_closable_iff[OF example_admission_built(2), of "EpochMillis 9000"]
  by (simp add: example_admission_def reservation_expired_at_def)

theorem admission_never_panics_witness:
  "admission_plan_transition (example_record AdmReserved 2000) (example_record AdmDraining 4000)
     \<noteq> Inl AdmissionPanic"
  using admission_never_panics[of "example_admission AdmDraining 4000" "example_record AdmDraining 4000"
      "example_record AdmReserved 2000"] example_admission_built(2)
  by simp

end
