(* ===== verification/Store_Io.thy ===== *)
theory Store_Io
  imports Glaeda_Base
begin

text \<open>
  The file layer of \<open>src/unix_personal_worker_store.rs\<close>: how one document of the private store
  directory is read, staged beside its final name, and published by a rename.

  The operating system is the record \<open>world\<close>: the directory as the running process sees it, the
  directory a power loss would leave, the directory updates not yet made durable, and the inodes
  with whether their bytes are durable. Every system call consumes one entry of a fault schedule,
  which lets it succeed, fail with an error number, or be the moment at which the power is lost.
  \<open>reboot\<close> is the restart: any of the pending directory updates may have reached the disk and any
  prefix of the bytes of a file that was not synchronised.
\<close>

section \<open>Errors\<close>

datatype store_error_kind =
    StoreInvalidDocument | StoreRevisionConflict | StoreBusy | StoreMissing | StoreIo
  | StoreUnsafeFilesystem | StoreVersionIncompatible | StoreCorruptState

datatype errno = EXIST | NOENT | LOOP | NOTDIR | ISDIR | AGAIN | OtherErrno

fun map_lock_open_error :: "errno \<Rightarrow> store_error_kind" where
  "map_lock_open_error e = (if e \<in> {LOOP, NOTDIR, ISDIR} then StoreUnsafeFilesystem else StoreIo)"

fun map_existing_initialization_lock_open_error :: "errno \<Rightarrow> store_error_kind" where
  "map_existing_initialization_lock_open_error e =
     (if e \<in> {NOENT, LOOP, NOTDIR, ISDIR} then StoreUnsafeFilesystem else StoreIo)"

fun map_document_open_error :: "errno \<Rightarrow> store_error_kind" where
  "map_document_open_error e = (if e \<in> {LOOP, NOTDIR, ISDIR} then StoreUnsafeFilesystem else StoreIo)"

fun map_stage_create_error :: "errno \<Rightarrow> store_error_kind" where
  "map_stage_create_error e =
     (if e = EXIST then StoreCorruptState
      else if e \<in> {LOOP, NOTDIR, ISDIR} then StoreUnsafeFilesystem else StoreIo)"

fun map_publish_error :: "errno \<Rightarrow> bool \<Rightarrow> store_error_kind" where
  "map_publish_error e no_replace =
     (if e = EXIST \<and> no_replace then StoreRevisionConflict
      else if e \<in> {LOOP, NOTDIR, ISDIR} then StoreUnsafeFilesystem else StoreIo)"

section \<open>The operating system\<close>

type_synonym identity = "nat \<times> nat"

record inode =
  ino_regular :: bool
  ino_links :: nat
  ino_mode :: nat
  ino_owner :: identity
  ino_bytes :: string
  ino_synced :: bool

record directory_stat =
  dst_directory :: bool
  dst_mode :: nat
  dst_owner :: identity

datatype fault = Succeeds | Fails errno nat | PowerLoss

type_synonym directory_map = "string \<Rightarrow> nat option"
type_synonym directory_update = "(string \<times> nat option) list"

text \<open>
  \<open>w_new\<close> is the inode the process creates (its identity, and the mode its umask leaves);
  \<open>w_armed\<close> says which \<open>StagedDocument\<close> guards of the process are armed.
\<close>

record world =
  w_inodes :: "nat \<Rightarrow> inode"
  w_fresh :: nat
  w_new :: inode
  w_dir :: directory_map
  w_disk :: directory_map
  w_pending :: "directory_update list"
  w_stat :: directory_stat
  w_armed :: "string \<Rightarrow> bool"
  w_faults :: "fault list"

datatype 'e halt = Failed 'e | PowerLost

type_synonym ('e, 'a) io = "world \<Rightarrow> ('e halt + 'a) \<times> world"

definition ret :: "'a \<Rightarrow> ('e, 'a) io" where
  "ret x w = (Inr x, w)"

definition fail :: "'e \<Rightarrow> ('e, 'a) io" where
  "fail k w = (Inl (Failed k), w)"

definition io_try :: "('e, 'a) io \<Rightarrow> ('a \<Rightarrow> ('e, 'b) io) \<Rightarrow> ('e, 'b) io" where
  "io_try m k w = (case m w of (Inl h, w') \<Rightarrow> (Inl h, w') | (Inr x, w') \<Rightarrow> k x w')"

definition io_result :: "'e + 'a \<Rightarrow> ('e, 'a) io" where
  "io_result r = (case r of Inl k \<Rightarrow> fail k | Inr x \<Rightarrow> ret x)"

definition io_map_err :: "('e \<Rightarrow> 'f) \<Rightarrow> ('e, 'a) io \<Rightarrow> ('f, 'a) io" where
  "io_map_err f m w =
     (case m w of
        (Inl (Failed k), w') \<Rightarrow> (Inl (Failed (f k)), w')
      | (Inl PowerLost, w') \<Rightarrow> (Inl PowerLost, w')
      | (Inr x, w') \<Rightarrow> (Inr x, w'))"

fun apply_update :: "directory_update \<Rightarrow> directory_map \<Rightarrow> directory_map" where
  "apply_update [] d = d"
| "apply_update ((n, i) # rest) d = apply_update rest (d(n := i))"

text \<open>
  A call fails with \<open>EXIST\<close> or \<open>NOENT\<close> only for what the directory holds; the schedule chooses among
  the other error numbers.
\<close>

definition injected :: "errno \<Rightarrow> errno" where
  "injected e = (if e = EXIST \<or> e = NOENT then OtherErrno else e)"

definition syscall ::
  "(nat \<Rightarrow> world \<Rightarrow> world) \<Rightarrow> (world \<Rightarrow> (errno + 'a) \<times> world) \<Rightarrow> ('e, errno + 'a) io" where
  "syscall failing act w =
     (let w' = w\<lparr>w_faults := tl (w_faults w)\<rparr> in
      case w_faults w of
        Fails e k # _ \<Rightarrow> (Inr (Inl (injected e)), failing k w')
      | PowerLoss # _ \<Rightarrow> (Inl PowerLost, w')
      | _ \<Rightarrow> (case act w' of (r, w'') \<Rightarrow> (Inr r, w'')))"

abbreviation unchanged :: "nat \<Rightarrow> world \<Rightarrow> world" where
  "unchanged \<equiv> (\<lambda>_ w. w)"

definition sys_open :: "string \<Rightarrow> ('e, errno + nat) io" where
  "sys_open n = syscall unchanged (\<lambda>w.
     (case w_dir w n of None \<Rightarrow> (Inl NOENT, w) | Some i \<Rightarrow> (Inr i, w)))"

definition sys_create :: "string \<Rightarrow> ('e, errno + nat) io" where
  "sys_create n = syscall unchanged (\<lambda>w.
     (case w_dir w n of
        Some _ \<Rightarrow> (Inl EXIST, w)
      | None \<Rightarrow>
          let i = w_fresh w in
          (Inr i, w\<lparr>w_inodes := (w_inodes w)(i := (w_new w)\<lparr>ino_bytes := [], ino_synced := False\<rparr>),
                    w_fresh := i + 1, w_dir := (w_dir w)(n := Some i),
                    w_pending := w_pending w @ [[(n, Some i)]]\<rparr>)))"

definition sys_fchmod :: "nat \<Rightarrow> nat \<Rightarrow> ('e, errno + unit) io" where
  "sys_fchmod i mode = syscall unchanged (\<lambda>w.
     (Inr (), w\<lparr>w_inodes := (w_inodes w)(i := (w_inodes w i)\<lparr>ino_mode := mode\<rparr>)\<rparr>))"

definition sys_fstat :: "nat \<Rightarrow> ('e, errno + inode) io" where
  "sys_fstat i = syscall unchanged (\<lambda>w. (Inr (w_inodes w i), w))"

definition sys_fstat_directory :: "('e, errno + directory_stat) io" where
  "sys_fstat_directory = syscall unchanged (\<lambda>w. (Inr (w_stat w), w))"

definition append_bytes :: "nat \<Rightarrow> string \<Rightarrow> world \<Rightarrow> world" where
  "append_bytes i bytes w =
     w\<lparr>w_inodes := (w_inodes w)(i := (w_inodes w i)
         \<lparr>ino_bytes := ino_bytes (w_inodes w i) @ bytes, ino_synced := False\<rparr>)\<rparr>"

text \<open>A failing \<open>write_all\<close> may have written a prefix.\<close>

definition sys_write_all :: "nat \<Rightarrow> string \<Rightarrow> ('e, errno + unit) io" where
  "sys_write_all i bytes =
     syscall (\<lambda>k. append_bytes i (take k bytes)) (\<lambda>w. (Inr (), append_bytes i bytes w))"

definition sys_read :: "nat \<Rightarrow> nat \<Rightarrow> ('e, errno + string) io" where
  "sys_read i limit = syscall unchanged (\<lambda>w. (Inr (take limit (ino_bytes (w_inodes w i))), w))"

definition sys_fsync :: "nat \<Rightarrow> ('e, errno + unit) io" where
  "sys_fsync i = syscall unchanged (\<lambda>w.
     (Inr (), w\<lparr>w_inodes := (w_inodes w)(i := (w_inodes w i)\<lparr>ino_synced := True\<rparr>)\<rparr>))"

definition sys_fsync_directory :: "('e, errno + unit) io" where
  "sys_fsync_directory = syscall unchanged (\<lambda>w.
     (Inr (), w\<lparr>w_disk := w_dir w, w_pending := []\<rparr>))"

definition sys_rename :: "string \<Rightarrow> string \<Rightarrow> bool \<Rightarrow> ('e, errno + unit) io" where
  "sys_rename source target no_replace = syscall unchanged (\<lambda>w.
     (case w_dir w source of
        None \<Rightarrow> (Inl NOENT, w)
      | Some i \<Rightarrow>
          if no_replace \<and> w_dir w target \<noteq> None then (Inl EXIST, w)
          else
            let update = [(target, Some i), (source, None)] in
            (Inr (), w\<lparr>w_dir := apply_update update (w_dir w),
                       w_pending := w_pending w @ [update]\<rparr>)))"

definition sys_unlink :: "string \<Rightarrow> ('e, errno + unit) io" where
  "sys_unlink n = syscall unchanged (\<lambda>w.
     (case w_dir w n of
        None \<Rightarrow> (Inl NOENT, w)
      | Some _ \<Rightarrow> (Inr (), w\<lparr>w_dir := (w_dir w)(n := None), w_pending := w_pending w @ [[(n, None)]]\<rparr>)))"

text \<open>The lock is held by another process exactly when the schedule makes the call fail with \<open>AGAIN\<close>.\<close>

definition sys_flock :: "('e, errno + unit) io" where
  "sys_flock = syscall unchanged (\<lambda>w. (Inr (), w))"

text \<open>
  The restart after a power loss: \<open>keep\<close> chooses the pending directory updates that reached the disk,
  \<open>kept\<close> how many bytes of each file that was not synchronised. What a process that dies alone leaves
  is the restart that keeps everything.
\<close>

definition surviving_directory :: "bool list \<Rightarrow> world \<Rightarrow> directory_map" where
  "surviving_directory keep w =
     fold apply_update (map snd (filter fst (zip keep (w_pending w)))) (w_disk w)"

definition surviving_inode :: "nat \<Rightarrow> inode \<Rightarrow> inode" where
  "surviving_inode n f =
     (if ino_synced f then f else f\<lparr>ino_bytes := take n (ino_bytes f), ino_synced := True\<rparr>)"

definition reboot :: "bool list \<Rightarrow> (nat \<Rightarrow> nat) \<Rightarrow> fault list \<Rightarrow> world \<Rightarrow> world" where
  "reboot keep kept faults w =
     w\<lparr>w_inodes := \<lambda>i. surviving_inode (kept i) (w_inodes w i),
       w_dir := surviving_directory keep w, w_disk := surviving_directory keep w, w_pending := [],
       w_armed := \<lambda>_. False, w_faults := faults\<rparr>"

section \<open>Store operations\<close>

definition MANAGED_DIRECTORY_MODE :: nat where "MANAGED_DIRECTORY_MODE = 488"
definition PRIVATE_FILE_MODE :: nat where "PRIVATE_FILE_MODE = 384"
definition STORE_LOCK_FILE :: string where "STORE_LOCK_FILE = ''store.lock''"

definition or_else :: "('e, errno + 'a) io \<Rightarrow> (errno \<Rightarrow> 'e) \<Rightarrow> ('e, 'a) io" where
  "or_else call err = io_try call (\<lambda>r. io_result (map_err err r))"

abbreviation or_io :: "(store_error_kind, errno + 'a) io \<Rightarrow> (store_error_kind, 'a) io" where
  "or_io call \<equiv> or_else call (\<lambda>_. StoreIo)"

definition inspect_directory :: "identity option \<Rightarrow> (store_error_kind, directory_stat) io" where
  "inspect_directory expected_owner =
     io_try (or_io sys_fstat_directory) (\<lambda>stat.
     if \<not> dst_directory stat then fail StoreUnsafeFilesystem
     else if dst_mode stat \<noteq> MANAGED_DIRECTORY_MODE then fail StoreUnsafeFilesystem
     else if expected_owner \<noteq> None \<and> expected_owner \<noteq> Some (dst_owner stat) then fail StoreUnsafeFilesystem
     else ret stat)"

definition inspect_private_file :: "nat \<Rightarrow> identity \<Rightarrow> nat option \<Rightarrow> (store_error_kind, unit) io" where
  "inspect_private_file i owner expected_size =
     io_try (or_io (sys_fstat i)) (\<lambda>stat.
     if \<not> ino_regular stat then fail StoreUnsafeFilesystem
     else if ino_links stat \<noteq> 1 then fail StoreUnsafeFilesystem
     else if ino_mode stat \<noteq> PRIVATE_FILE_MODE then fail StoreUnsafeFilesystem
     else if owner \<noteq> ino_owner stat then fail StoreUnsafeFilesystem
     else if expected_size \<noteq> None \<and> expected_size \<noteq> Some (length (ino_bytes stat))
     then fail StoreCorruptState
     else ret ())"

definition synchronize_directory :: "(store_error_kind, unit) io" where
  "synchronize_directory = or_io sys_fsync_directory"

definition acquire_mutation_lock :: "identity \<Rightarrow> (store_error_kind, unit) io" where
  "acquire_mutation_lock owner =
     io_try (or_else (sys_open STORE_LOCK_FILE) map_lock_open_error) (\<lambda>lock.
     io_try (inspect_private_file lock owner (Some 0)) (\<lambda>_.
     or_else sys_flock (\<lambda>e. if e = AGAIN then StoreBusy else StoreIo)))"

definition acquire_read_lock :: "identity \<Rightarrow> (store_error_kind, unit) io" where
  "acquire_read_lock owner =
     io_try (or_else (sys_open STORE_LOCK_FILE) map_existing_initialization_lock_open_error) (\<lambda>lock.
     io_try (inspect_private_file lock owner (Some 0)) (\<lambda>_.
     or_else sys_flock (\<lambda>e. if e = AGAIN then StoreBusy else StoreIo)))"

definition read_named_bytes_bounded :: "identity \<Rightarrow> string \<Rightarrow> nat \<Rightarrow> (store_error_kind, string option) io" where
  "read_named_bytes_bounded owner n max_bytes =
     io_try (inspect_directory (Some owner)) (\<lambda>_.
     io_try (sys_open n) (\<lambda>opened.
     case opened of
       Inl e \<Rightarrow> if e = NOENT then ret None else fail (map_document_open_error e)
     | Inr i \<Rightarrow>
         io_try (inspect_private_file i owner None) (\<lambda>_.
         io_try (or_io (sys_read i (max_bytes + 1))) (\<lambda>bytes.
         if max_bytes < length bytes then fail StoreCorruptState else ret (Some bytes)))))"

text \<open>
  \<open>StagedDocument\<close>: dropping an armed guard unlinks the staged name and ignores the result.
  \<open>on_error\<close> is the drop when the guard's owner returns early, \<open>guarded\<close> the drop at the end of the
  owner's scope.
\<close>

definition arm :: "string \<Rightarrow> bool \<Rightarrow> ('e, unit) io" where
  "arm n armed w = (Inr (), w\<lparr>w_armed := (w_armed w)(n := armed)\<rparr>)"

definition drop_staged :: "string \<Rightarrow> ('e, unit) io" where
  "drop_staged n w =
     (if w_armed w n
      then io_try (arm n False) (\<lambda>_. io_try (sys_unlink n) (\<lambda>_. ret ())) w
      else ret () w)"

definition on_error :: "string \<Rightarrow> ('e, 'a) io \<Rightarrow> ('e, 'a) io" where
  "on_error n body w =
     (case body w of
        (Inl (Failed k), w') \<Rightarrow> io_try (drop_staged n) (\<lambda>_. fail k) w'
      | result \<Rightarrow> result)"

definition guarded :: "string \<Rightarrow> ('e, 'a) io \<Rightarrow> ('e, 'a) io" where
  "guarded n body = io_try (on_error n body) (\<lambda>x. io_try (drop_staged n) (\<lambda>_. ret x))"

definition stage_named_bytes :: "identity \<Rightarrow> string \<Rightarrow> string \<Rightarrow> (store_error_kind, unit) io" where
  "stage_named_bytes owner staged_name encoded =
     io_try (or_else (sys_create staged_name) map_stage_create_error) (\<lambda>i.
     io_try (arm staged_name True) (\<lambda>_.
     on_error staged_name (
       io_try (or_io (sys_fchmod i PRIVATE_FILE_MODE)) (\<lambda>_.
       io_try (inspect_private_file i owner (Some 0)) (\<lambda>_.
       io_try (or_io (sys_write_all i encoded)) (\<lambda>_.
       io_try (or_io (sys_fsync i)) (\<lambda>_.
       inspect_private_file i owner (Some (length encoded)))))))))"

definition publish_named_staged :: "string \<Rightarrow> string \<Rightarrow> bool \<Rightarrow> (store_error_kind, unit) io" where
  "publish_named_staged staged_name current_name no_replace =
     io_try (or_else (sys_rename staged_name current_name no_replace)
       (\<lambda>e. map_publish_error e no_replace)) (\<lambda>_.
     io_try (arm staged_name False) (\<lambda>_.
     synchronize_directory))"

text \<open>
  Reading an existing stage again, requiring the expected document, and synchronising it: the body
  of \<open>synchronize_existing_staged\<close>, \<open>synchronize_existing_catalog_stage\<close> and
  \<open>synchronize_existing_scale_set_delivery_stage\<close>, which differ in the decoder and in
  the error the store's own errors are converted to.
\<close>

definition synchronize_existing ::
  "identity \<Rightarrow> (store_error_kind \<Rightarrow> 'e) \<Rightarrow> string \<Rightarrow> nat \<Rightarrow> (string \<Rightarrow> 'e + unit) \<Rightarrow> ('e, unit) io" where
  "synchronize_existing owner convert n max_bytes expect =
     io_try (or_else (sys_open n) (\<lambda>e. convert (map_document_open_error e))) (\<lambda>i.
     io_try (io_map_err convert (inspect_private_file i owner None)) (\<lambda>_.
     io_try (or_else (sys_read i (max_bytes + 1)) (\<lambda>_. convert StoreIo)) (\<lambda>bytes.
     if max_bytes < length bytes then fail (convert StoreCorruptState)
     else
       io_try (io_result (expect bytes)) (\<lambda>_.
       io_try (or_else (sys_fsync i) (\<lambda>_. convert StoreIo)) (\<lambda>_.
       io_map_err convert (inspect_private_file i owner (Some (length bytes))))))))"

text \<open>Removing a stage: a name that is already gone is as good as removed.\<close>

definition remove_stage :: "string \<Rightarrow> (store_error_kind, unit) io" where
  "remove_stage n =
     io_try (sys_unlink n) (\<lambda>r.
     case r of
       Inr _ \<Rightarrow> synchronize_directory
     | Inl e \<Rightarrow> if e = NOENT then ret () else fail StoreIo)"

end
