(* ===== verification/Delivery.thy ===== *)
theory Delivery
  imports Disposable_Worker
begin

text \<open>
  One durable Runner Scale Set message, \<open>src/github_scale_set_delivery.rs\<close>: how a polled
  message of \<open>src/github_scale_set_bridge.rs\<close> becomes the retained delivery, the validation
  of deliveries, the typed lifecycle events read back from one, and its canonical document.
  serde is a parameter. An error is its \<open>ScaleSetDeliveryErrorKind\<close>.
\<close>

section \<open>What the bridge reports\<close>

record scale_set_statistics =
  st_available_jobs :: nat
  st_acquired_jobs :: nat
  st_assigned_jobs :: nat
  st_running_jobs :: nat
  st_registered_runners :: nat
  st_busy_runners :: nat
  st_idle_runners :: nat

record bridge_job_evidence =
  bj_runner_request_id :: nat
  bj_repository :: string
  bj_owner :: string
  bj_job_id :: scale_set_job_id
  bj_workflow_run_id :: nat
  bj_request_labels :: "string list"

datatype bridge_event =
    BridgeAvailable bridge_job_evidence
  | BridgeAssigned bridge_job_evidence
  | BridgeStarted bridge_job_evidence scale_set_runner_reference
  | BridgeCompleted bridge_job_evidence "scale_set_runner_reference option" scale_set_job_result

datatype bridge_poll =
    PollIdle scale_set_statistics
  | PollMessage nat scale_set_statistics "bridge_event list"

section \<open>The retained delivery\<close>

definition SCALE_SET_DELIVERY_SCHEMA_VERSION :: nat where "SCALE_SET_DELIVERY_SCHEMA_VERSION = 1"
definition MAX_SCALE_SET_DELIVERY_BYTES :: nat where "MAX_SCALE_SET_DELIVERY_BYTES = 128 * 1024"
definition MAX_SCALE_SET_DELIVERY_EVENTS :: nat where "MAX_SCALE_SET_DELIVERY_EVENTS = 50"
definition MAX_SCALE_SET_DELIVERY_LABELS :: nat where "MAX_SCALE_SET_DELIVERY_LABELS = 32"
definition MAX_TOKEN_BYTES :: nat where "MAX_TOKEN_BYTES = 100"

datatype delivery_error =
  DeliveryInvalidDocument | DeliveryVersionIncompatible | DeliveryDocumentTooLarge
  | DeliveryNonCanonical | CorruptEvidence

record delivery_statistics =
  ds_available_jobs :: nat
  ds_acquired_jobs :: nat
  ds_assigned_jobs :: nat
  ds_running_jobs :: nat
  ds_registered_runners :: nat
  ds_busy_runners :: nat
  ds_idle_runners :: nat

record delivery_job =
  dj_runner_request_id :: nat
  dj_repository :: string
  dj_owner :: string
  dj_job_id :: string
  dj_workflow_run_id :: nat
  dj_request_labels :: "string list"

record delivery_runner =
  dr_id :: nat
  dr_name :: string

datatype delivery_event =
    EventAvailable delivery_job
  | EventAssigned delivery_job
  | EventStarted delivery_job delivery_runner
  | EventCompleted delivery_job "delivery_runner option" string

record scale_set_delivery =
  dl_schema_version :: nat
  dl_message_id :: nat
  dl_statistics :: delivery_statistics
  dl_available_request_ids :: "nat list"
  dl_events :: "delivery_event list"

text \<open>The typed projection that consumers read back.\<close>

record job_evidence =
  je_runner_request_id :: scale_set_runner_request_id
  je_repository :: string
  je_owner :: string
  je_job_id :: scale_set_job_id
  je_workflow_run_id :: nat
  je_request_labels :: "string list"

datatype lifecycle_event =
    LifecycleAvailable job_evidence
  | LifecycleAssigned job_evidence
  | LifecycleStarted job_evidence scale_set_runner_reference
  | LifecycleCompleted job_evidence "scale_set_runner_reference option" scale_set_job_result

section \<open>Validation\<close>

definition bounded_token :: "string \<Rightarrow> nat \<Rightarrow> bool" where
  "bounded_token v maximum \<longleftrightarrow>
     v \<noteq> [] \<and> length v \<le> maximum \<and> list_all (\<lambda>b. 33 \<le> byte b \<and> byte b \<le> 126) v"

definition parse_runner_request_id :: "nat \<Rightarrow> delivery_error + scale_set_runner_request_id" where
  "parse_runner_request_id v = map_err (\<lambda>_. CorruptEvidence) (runner_request_id_new v)"

definition statistics_validate :: "delivery_statistics \<Rightarrow> delivery_error + unit" where
  "statistics_validate s =
     try_res (ok_or (checked_add_u32 (ds_busy_runners s) (ds_idle_runners s)) CorruptEvidence)
       (\<lambda>classified.
          if ds_assigned_jobs s < ds_running_jobs s
             \<or> ds_registered_runners s < ds_busy_runners s
             \<or> ds_registered_runners s < ds_idle_runners s
             \<or> ds_registered_runners s < classified
          then Inl CorruptEvidence else Inr ())"

definition delivery_job_validate :: "delivery_job \<Rightarrow> delivery_error + unit" where
  "delivery_job_validate job =
     try_res (parse_runner_request_id (dj_runner_request_id job)) (\<lambda>_.
     try_res (map_err (\<lambda>_. CorruptEvidence) (job_id_parse (dj_job_id job))) (\<lambda>_.
     if dj_workflow_run_id job = 0
        \<or> \<not> bounded_token (dj_repository job) MAX_TOKEN_BYTES
        \<or> \<not> bounded_token (dj_owner job) MAX_TOKEN_BYTES
        \<or> MAX_SCALE_SET_DELIVERY_LABELS < length (dj_request_labels job)
        \<or> list_ex (\<lambda>label. \<not> bounded_token label MAX_TOKEN_BYTES) (dj_request_labels job)
     then Inl CorruptEvidence else Inr ()))"

definition delivery_runner_validate :: "delivery_runner \<Rightarrow> delivery_error + unit" where
  "delivery_runner_validate runner =
     try_res (map_err (\<lambda>_. CorruptEvidence) (runner_id_new (dr_id runner))) (\<lambda>_.
     try_res (map_err (\<lambda>_. CorruptEvidence) (runner_name_parse (dr_name runner))) (\<lambda>_. Inr ()))"

fun delivery_event_validate :: "delivery_event \<Rightarrow> delivery_error + unit" where
  "delivery_event_validate (EventAvailable job) = delivery_job_validate job"
| "delivery_event_validate (EventAssigned job) = delivery_job_validate job"
| "delivery_event_validate (EventStarted job runner) =
     try_res (delivery_job_validate job) (\<lambda>_. delivery_runner_validate runner)"
| "delivery_event_validate (EventCompleted job runner result) =
     try_res (delivery_job_validate job) (\<lambda>_.
     try_res (map_err (\<lambda>_. CorruptEvidence) (job_result_parse result)) (\<lambda>parsed.
     (case runner of
        Some r \<Rightarrow> try_res (delivery_runner_validate r) (\<lambda>_. Inr ())
      | None \<Rightarrow> if job_result_str parsed \<noteq> ''canceled'' then Inl CorruptEvidence else Inr ())))"

text \<open>The loop over the events, with the available requests seen so far.\<close>

fun available_loop ::
  "nat list \<Rightarrow> scale_set_runner_request_id set \<Rightarrow> delivery_event list \<Rightarrow> delivery_error + nat list" where
  "available_loop expected seen [] = Inr expected"
| "available_loop expected seen (event # events) =
     try_res (delivery_event_validate event) (\<lambda>_.
     (case event of
        EventAvailable job \<Rightarrow>
          try_res (parse_runner_request_id (dj_runner_request_id job)) (\<lambda>request_id.
          if request_id \<in> seen then Inl CorruptEvidence
          else available_loop (expected @ [dj_runner_request_id job]) (insert request_id seen) events)
      | _ \<Rightarrow> available_loop expected seen events))"

definition available_request_ids ::
  "scale_set_delivery \<Rightarrow> delivery_error + scale_set_runner_request_id list" where
  "available_request_ids d = collect_results parse_runner_request_id (dl_available_request_ids d)"

definition delivery_validate :: "scale_set_delivery \<Rightarrow> delivery_error + unit" where
  "delivery_validate d =
     (if dl_schema_version d \<noteq> SCALE_SET_DELIVERY_SCHEMA_VERSION \<or> dl_message_id d = 0
         \<or> MAX_SCALE_SET_DELIVERY_EVENTS < length (dl_events d)
         \<or> MAX_SCALE_SET_DELIVERY_EVENTS < length (dl_available_request_ids d)
      then Inl CorruptEvidence
      else
        try_res (statistics_validate (dl_statistics d)) (\<lambda>_.
        try_res (available_loop [] {} (dl_events d)) (\<lambda>expected_available.
        if expected_available \<noteq> dl_available_request_ids d then Inl CorruptEvidence
        else try_res (available_request_ids d) (\<lambda>_. Inr ()))))"

section \<open>From the bridge and back to typed events\<close>

definition statistics_from_bridge :: "scale_set_statistics \<Rightarrow> delivery_statistics" where
  "statistics_from_bridge s =
     \<lparr>ds_available_jobs = st_available_jobs s, ds_acquired_jobs = st_acquired_jobs s,
      ds_assigned_jobs = st_assigned_jobs s, ds_running_jobs = st_running_jobs s,
      ds_registered_runners = st_registered_runners s, ds_busy_runners = st_busy_runners s,
      ds_idle_runners = st_idle_runners s\<rparr>"

definition job_from_bridge :: "bridge_job_evidence \<Rightarrow> delivery_job" where
  "job_from_bridge j =
     \<lparr>dj_runner_request_id = bj_runner_request_id j, dj_repository = bj_repository j,
      dj_owner = bj_owner j, dj_job_id = job_id_str (bj_job_id j),
      dj_workflow_run_id = bj_workflow_run_id j, dj_request_labels = bj_request_labels j\<rparr>"

definition runner_from_bridge :: "scale_set_runner_reference \<Rightarrow> delivery_runner" where
  "runner_from_bridge r =
     \<lparr>dr_id = runner_id_get (rr_id r), dr_name = runner_name_str (rr_name r)\<rparr>"

fun event_from_bridge :: "bridge_event \<Rightarrow> delivery_event" where
  "event_from_bridge (BridgeAvailable job) = EventAvailable (job_from_bridge job)"
| "event_from_bridge (BridgeAssigned job) = EventAssigned (job_from_bridge job)"
| "event_from_bridge (BridgeStarted job runner) =
     EventStarted (job_from_bridge job) (runner_from_bridge runner)"
| "event_from_bridge (BridgeCompleted job runner result) =
     EventCompleted (job_from_bridge job) (map_option runner_from_bridge runner)
       (job_result_str result)"

text \<open>The loop that retains the events and collects the available requests.\<close>

fun retain_loop :: "nat list \<Rightarrow> delivery_event list \<Rightarrow> bridge_event list \<Rightarrow> nat list \<times> delivery_event list" where
  "retain_loop available retained [] = (available, retained)"
| "retain_loop available retained (event # events) =
     (let r = event_from_bridge event
      in retain_loop
           (case r of EventAvailable job \<Rightarrow> available @ [dj_runner_request_id job] | _ \<Rightarrow> available)
           (retained @ [r]) events)"

fun delivery_from_bridge_poll :: "bridge_poll \<Rightarrow> delivery_error + scale_set_delivery option" where
  "delivery_from_bridge_poll (PollIdle statistics) = Inr None"
| "delivery_from_bridge_poll (PollMessage message_id statistics events) =
     (case retain_loop [] [] events of
        (available, retained) \<Rightarrow>
          let d = \<lparr>dl_schema_version = SCALE_SET_DELIVERY_SCHEMA_VERSION, dl_message_id = message_id,
                   dl_statistics = statistics_from_bridge statistics,
                   dl_available_request_ids = available, dl_events = retained\<rparr>
          in try_res (delivery_validate d) (\<lambda>_. Inr (Some d)))"

definition to_job_evidence :: "delivery_job \<Rightarrow> delivery_error + job_evidence" where
  "to_job_evidence job =
     try_res (delivery_job_validate job) (\<lambda>_.
     try_res (parse_runner_request_id (dj_runner_request_id job)) (\<lambda>request_id.
     try_res (map_err (\<lambda>_. CorruptEvidence) (job_id_parse (dj_job_id job))) (\<lambda>job_id.
     Inr \<lparr>je_runner_request_id = request_id, je_repository = dj_repository job,
          je_owner = dj_owner job, je_job_id = job_id,
          je_workflow_run_id = dj_workflow_run_id job,
          je_request_labels = dj_request_labels job\<rparr>)))"

definition to_runner_reference :: "delivery_runner \<Rightarrow> delivery_error + scale_set_runner_reference" where
  "to_runner_reference runner =
     try_res (delivery_runner_validate runner) (\<lambda>_.
     try_res (map_err (\<lambda>_. CorruptEvidence) (runner_id_new (dr_id runner))) (\<lambda>id.
     try_res (map_err (\<lambda>_. CorruptEvidence) (runner_name_parse (dr_name runner))) (\<lambda>name.
     Inr \<lparr>rr_id = id, rr_name = name\<rparr>)))"

text \<open>The match of \<open>to_lifecycle_event\<close>, after its validation.\<close>

fun lifecycle_of :: "delivery_event \<Rightarrow> delivery_error + lifecycle_event" where
  "lifecycle_of (EventAvailable job) =
     try_res (to_job_evidence job) (\<lambda>j. Inr (LifecycleAvailable j))"
| "lifecycle_of (EventAssigned job) =
     try_res (to_job_evidence job) (\<lambda>j. Inr (LifecycleAssigned j))"
| "lifecycle_of (EventStarted job runner) =
     try_res (to_job_evidence job) (\<lambda>j.
     try_res (to_runner_reference runner) (\<lambda>r. Inr (LifecycleStarted j r)))"
| "lifecycle_of (EventCompleted job runner result) =
     try_res (to_job_evidence job) (\<lambda>j.
     try_res (case runner of
                None \<Rightarrow> Inr None
              | Some r \<Rightarrow> try_res (to_runner_reference r) (\<lambda>x. Inr (Some x))) (\<lambda>r.
     try_res (map_err (\<lambda>_. CorruptEvidence) (job_result_parse result)) (\<lambda>parsed.
     Inr (LifecycleCompleted j r parsed))))"

definition to_lifecycle_event :: "delivery_event \<Rightarrow> delivery_error + lifecycle_event" where
  "to_lifecycle_event event = try_res (delivery_event_validate event) (\<lambda>_. lifecycle_of event)"

definition retained_events :: "scale_set_delivery \<Rightarrow> delivery_error + lifecycle_event list" where
  "retained_events d =
     try_res (delivery_validate d) (\<lambda>_. collect_results to_lifecycle_event (dl_events d))"

section \<open>The canonical document\<close>

definition encode_scale_set_delivery ::
  "(scale_set_delivery \<Rightarrow> 'j + string) \<Rightarrow> scale_set_delivery \<Rightarrow> delivery_error + string" where
  "encode_scale_set_delivery to_json d =
     try_res (delivery_validate d) (\<lambda>_.
     try_res (map_err (\<lambda>_. DeliveryInvalidDocument) (to_json d)) (\<lambda>bytes.
     if MAX_SCALE_SET_DELIVERY_BYTES < length bytes then Inl DeliveryDocumentTooLarge
     else Inr bytes))"

definition decode_scale_set_delivery ::
  "(scale_set_delivery \<Rightarrow> 'j + string) \<Rightarrow> (string \<Rightarrow> 'j + nat) \<Rightarrow> (string \<Rightarrow> 'j + scale_set_delivery) \<Rightarrow>
   string \<Rightarrow> delivery_error + scale_set_delivery" where
  "decode_scale_set_delivery to_json version_json from_json bytes =
     (if MAX_SCALE_SET_DELIVERY_BYTES < length bytes then Inl DeliveryDocumentTooLarge
      else
        try_res (map_err (\<lambda>_. DeliveryInvalidDocument) (version_json bytes)) (\<lambda>version.
        if version \<noteq> SCALE_SET_DELIVERY_SCHEMA_VERSION then Inl DeliveryVersionIncompatible
        else
          try_res (map_err (\<lambda>_. DeliveryInvalidDocument) (from_json bytes)) (\<lambda>d.
          try_res (delivery_validate d) (\<lambda>_.
          try_res (encode_scale_set_delivery to_json d) (\<lambda>canonical.
          if canonical \<noteq> bytes then Inl DeliveryNonCanonical else Inr d)))))"

section \<open>Lemmas\<close>

text \<open>The derived \<open>Ord\<close> of request identifiers: that of the wrapped integer.\<close>

instantiation scale_set_runner_request_id :: linorder
begin

definition less_eq_request_id_def:
  "(a :: scale_set_runner_request_id) \<le> b \<longleftrightarrow> runner_request_id_get a \<le> runner_request_id_get b"
definition less_request_id_def:
  "(a :: scale_set_runner_request_id) < b \<longleftrightarrow> runner_request_id_get a < runner_request_id_get b"

instance
  by standard (auto simp: less_eq_request_id_def less_request_id_def scale_set_runner_request_id.expand)

end

text \<open>The requests a list of events makes available, in order.\<close>

fun event_available :: "delivery_event \<Rightarrow> nat option" where
  "event_available (EventAvailable job) = Some (dj_runner_request_id job)"
| "event_available _ = None"

definition available_of :: "delivery_event list \<Rightarrow> nat list" where
  "available_of events = List.map_filter event_available events"

lemma available_of_simps [simp]:
  "available_of [] = []"
  "available_of (e # es) = (case event_available e of None \<Rightarrow> available_of es | Some n \<Rightarrow> n # available_of es)"
  by (simp_all add: available_of_def map_filter_simps split: option.splits)

lemma parse_runner_request_id_ok [simp]:
  "parse_runner_request_id v = Inr r \<longleftrightarrow> 0 < v \<and> r = ScaleSetRunnerRequestId v"
  by (auto simp: parse_runner_request_id_def runner_request_id_new_def)

lemma available_loop_ok:
  "available_loop expected seen events = Inr xs \<longleftrightarrow>
     (\<forall>e \<in> set events. delivery_event_validate e = Inr ())
     \<and> xs = expected @ available_of events
     \<and> distinct (available_of events) \<and> list_all (\<lambda>v. 0 < v) (available_of events)
     \<and> ScaleSetRunnerRequestId ` set (available_of events) \<inter> seen = {}"
proof (induction events arbitrary: expected seen)
  case Nil
  show ?case by auto
next
  case (Cons e es)
  show ?case
  proof (cases e)
    case (EventAvailable job)
    then show ?thesis using Cons by auto
  qed (use Cons in auto)
qed

lemma available_request_ids_ok:
  "available_request_ids d = Inr ids \<longleftrightarrow>
     list_all (\<lambda>v. 0 < v) (dl_available_request_ids d)
     \<and> ids = map ScaleSetRunnerRequestId (dl_available_request_ids d)"
proof -
  have "collect_results parse_runner_request_id xs = Inr ys \<longleftrightarrow>
      list_all (\<lambda>v. 0 < v) xs \<and> ys = map ScaleSetRunnerRequestId xs" for xs ys
    by (induction xs arbitrary: ys) auto
  then show ?thesis by (simp add: available_request_ids_def)
qed

lemma delivery_validate_ok:
  "delivery_validate d = Inr () \<longleftrightarrow>
     dl_schema_version d = SCALE_SET_DELIVERY_SCHEMA_VERSION \<and> dl_message_id d \<noteq> 0
     \<and> length (dl_events d) \<le> MAX_SCALE_SET_DELIVERY_EVENTS
     \<and> length (dl_available_request_ids d) \<le> MAX_SCALE_SET_DELIVERY_EVENTS
     \<and> statistics_validate (dl_statistics d) = Inr ()
     \<and> (\<forall>e \<in> set (dl_events d). delivery_event_validate e = Inr ())
     \<and> dl_available_request_ids d = available_of (dl_events d)
     \<and> distinct (dl_available_request_ids d) \<and> list_all (\<lambda>v. 0 < v) (dl_available_request_ids d)"
  by (auto simp: delivery_validate_def available_loop_ok available_request_ids_ok)

lemma delivery_available_bound:
  "delivery_validate d = Inr () \<Longrightarrow> length (dl_available_request_ids d) \<le> MAX_SCALE_SET_DELIVERY_EVENTS"
  by (subst (asm) delivery_validate_ok) blast

lemma delivery_available:
  assumes "delivery_validate d = Inr ()"
  shows "\<exists>ids. available_request_ids d = Inr ids \<and> distinct ids
           \<and> ids = map ScaleSetRunnerRequestId (available_of (dl_events d))"
  using assms by (auto simp: delivery_validate_ok available_request_ids_ok distinct_map inj_on_def)

lemma to_job_evidence_total:
  "delivery_job_validate job = Inr () \<Longrightarrow>
     \<exists>j. to_job_evidence job = Inr j \<and> runner_request_id_get (je_runner_request_id j) = dj_runner_request_id job"
  by (auto simp: to_job_evidence_def delivery_job_validate_def)

lemma to_runner_reference_total:
  "delivery_runner_validate r = Inr () \<Longrightarrow> \<exists>x. to_runner_reference r = Inr x"
  by (auto simp: to_runner_reference_def delivery_runner_validate_def)

lemma lifecycle_total:
  assumes "delivery_event_validate e = Inr ()"
  shows "\<exists>l. to_lifecycle_event e = Inr l"
proof (cases e)
  case (EventCompleted job runner result)
  then show ?thesis
    using assms to_job_evidence_total[of job] to_runner_reference_total
    by (cases runner) (fastforce simp: to_lifecycle_event_def)+
qed (use assms to_job_evidence_total to_runner_reference_total in \<open>fastforce simp: to_lifecycle_event_def\<close>)+

text \<open>Every valid delivery reads back in full: typed events for all retained ones.\<close>

lemma retained_events_total:
  assumes "delivery_validate d = Inr ()"
  shows "\<exists>es. retained_events d = Inr es \<and> length es = length (dl_events d)"
proof -
  have "\<exists>es. collect_results to_lifecycle_event xs = Inr es \<and> length es = length xs"
    if "\<forall>e \<in> set xs. delivery_event_validate e = Inr ()" for xs
    using that
  proof (induction xs)
    case (Cons x xs)
    then obtain l es where "to_lifecycle_event x = Inr l" "collect_results to_lifecycle_event xs = Inr es"
      "length es = length xs"
      using lifecycle_total[of x] by auto
    then show ?case by simp
  qed simp
  moreover have "\<forall>e \<in> set (dl_events d). delivery_event_validate e = Inr ()"
    using assms by (simp add: delivery_validate_ok)
  ultimately show ?thesis
    using assms by (simp add: retained_events_def)
qed

lemma delivery_from_bridge_valid:
  "delivery_from_bridge_poll p = Inr (Some d) \<Longrightarrow> delivery_validate d = Inr ()"
  by (cases p) (auto simp: Let_def split: prod.splits)

lemma delivery_roundtrip:
  assumes "encode_scale_set_delivery to_json d = Inr bytes"
    and "from_json bytes = Inr d" and "version_json bytes = Inr (dl_schema_version d)"
  shows "decode_scale_set_delivery to_json version_json from_json bytes = Inr d"
proof -
  have valid: "delivery_validate d = Inr ()" "length bytes \<le> MAX_SCALE_SET_DELIVERY_BYTES"
    using assms(1) by (auto simp: encode_scale_set_delivery_def split: if_splits)
  then have "dl_schema_version d = SCALE_SET_DELIVERY_SCHEMA_VERSION"
    by (simp add: delivery_validate_ok)
  with valid show ?thesis
    using assms by (simp add: decode_scale_set_delivery_def)
qed

end
