(* ===== verification/Catalog_Codec.thy ===== *)
theory Catalog_Codec
  imports Attempt_Codec Catalog_History
begin

text \<open>
  The durable document of the attempt catalog, \<open>src/disposable_attempt_catalog/codec.rs\<close>, and
  the lookups of \<open>src/disposable_attempt_catalog_job_lookup.rs\<close>. The JSON layer (serde) is a
  record of functions: for the attempt documents, for the untyped \<open>Value\<close> an attempt document
  is embedded as, and for the catalog document.
\<close>

section \<open>Lookups\<close>

definition find_active_by_runner_request_id ::
  "catalog_document \<Rightarrow> scale_set_runner_request_id \<Rightarrow> reservation option" where
  "find_active_by_runner_request_id d request_id =
     find (\<lambda>r. as_runner_request_id (rs_attempt r) = request_id) (cd_active d)"

definition find_tombstone_by_runner_request_id ::
  "catalog_document \<Rightarrow> scale_set_runner_request_id \<Rightarrow> attempt_state option" where
  "find_tombstone_by_runner_request_id d request_id =
     find (\<lambda>a. as_runner_request_id a = request_id) (cd_tombstones d)"

definition find_active_by_job_id :: "catalog_document \<Rightarrow> scale_set_job_id \<Rightarrow> reservation option" where
  "find_active_by_job_id d job_id =
     find (\<lambda>r. as_github_job_id (rs_attempt r) = Some job_id) (cd_active d)"

definition find_tombstone_by_job_id :: "catalog_document \<Rightarrow> scale_set_job_id \<Rightarrow> attempt_state option" where
  "find_tombstone_by_job_id d job_id =
     find (\<lambda>a. as_github_job_id a = Some job_id) (cd_tombstones d)"

section \<open>The wire document\<close>

definition MAX_DISPOSABLE_ATTEMPT_CATALOG_DOCUMENT_BYTES :: nat where
  "MAX_DISPOSABLE_ATTEMPT_CATALOG_DOCUMENT_BYTES = 1048576"

record resource_wire =
  rw_cpu_millis :: nat
  rw_memory_bytes :: nat
  rw_disk_bytes :: nat

record 'v reservation_wire =
  vw_attempt :: 'v
  vw_resources :: resource_wire
  vw_prepared_template_digest :: string

record 'v catalog_wire =
  cw_schema_version :: nat
  cw_revision :: nat
  cw_active :: "'v reservation_wire list"
  cw_tombstones :: "'v list"

datatype catalog_codec_error =
  CodecInvalidDocument | CodecVersionIncompatible | CodecDocumentTooLarge | CodecNonCanonical
  | CodecCorruptState

record ('j, 'v) catalog_json =
  cj_attempt_to_json :: "attempt_wire \<Rightarrow> 'j + string"
  cj_attempt_version :: "string \<Rightarrow> 'j + nat"
  cj_attempt_from_json :: "string \<Rightarrow> 'j + attempt_wire"
  cj_value_from_slice :: "string \<Rightarrow> 'j + 'v"
  cj_value_to_vec :: "'v \<Rightarrow> 'j + string"
  cj_catalog_to_vec :: "'v catalog_wire \<Rightarrow> 'j + string"
  cj_catalog_version :: "string \<Rightarrow> 'j + nat"
  cj_catalog_from_slice :: "string \<Rightarrow> 'j + 'v catalog_wire"

definition template_identity_parse :: "string \<Rightarrow> unit + prepared_template_identity" where
  "template_identity_parse v =
     try_res (map_err (\<lambda>_. ()) (sha256_digest_parse v)) (\<lambda>d. Inr (DisposablePreparedTemplateIdentity d))"

definition template_identity_str :: "prepared_template_identity \<Rightarrow> string" where
  "template_identity_str t = sha256_str (template_digest t)"

definition encode_attempt_value ::
  "('j, 'v) catalog_json \<Rightarrow> attempt_state \<Rightarrow> catalog_codec_error + 'v" where
  "encode_attempt_value json attempt =
     try_res (map_err (\<lambda>_. CodecCorruptState)
       (encode_disposable_attempt_state (cj_attempt_to_json json) attempt)) (\<lambda>encoded.
     map_err (\<lambda>_. CodecCorruptState) (cj_value_from_slice json encoded))"

definition decode_attempt_value ::
  "('j, 'v) catalog_json \<Rightarrow> 'v \<Rightarrow> catalog_codec_error + attempt_state" where
  "decode_attempt_value json v =
     try_res (map_err (\<lambda>_. CodecInvalidDocument) (cj_value_to_vec json v)) (\<lambda>encoded.
     map_err (\<lambda>e. if e = VersionIncompatible then CodecVersionIncompatible else CodecCorruptState)
       (decode_disposable_attempt_state (cj_attempt_version json) (cj_attempt_from_json json) encoded))"

definition encode_reservation ::
  "('j, 'v) catalog_json \<Rightarrow> reservation \<Rightarrow> catalog_codec_error + 'v reservation_wire" where
  "encode_reservation json r =
     try_res (encode_attempt_value json (rs_attempt r)) (\<lambda>attempt.
     Inr \<lparr>vw_attempt = attempt,
          vw_resources = \<lparr>rw_cpu_millis = wr_cpu_millis (rs_resources r),
                          rw_memory_bytes = wr_memory_bytes (rs_resources r),
                          rw_disk_bytes = wr_disk_bytes (rs_resources r)\<rparr>,
          vw_prepared_template_digest = template_identity_str (rs_prepared_template_identity r)\<rparr>)"

definition decode_reservation ::
  "('j, 'v) catalog_json \<Rightarrow> 'v reservation_wire \<Rightarrow> catalog_codec_error + reservation" where
  "decode_reservation json w =
     try_res (decode_attempt_value json (vw_attempt w)) (\<lambda>attempt.
     try_res (map_err (\<lambda>_. CodecCorruptState)
       (worker_resources_new (rw_cpu_millis (vw_resources w)) (rw_memory_bytes (vw_resources w))
          (rw_disk_bytes (vw_resources w)))) (\<lambda>resources.
     try_res (map_err (\<lambda>_. CodecCorruptState)
       (template_identity_parse (vw_prepared_template_digest w))) (\<lambda>template.
     Inr \<lparr>rs_attempt = attempt, rs_resources = resources,
          rs_prepared_template_identity = template\<rparr>)))"

definition encode_disposable_attempt_catalog ::
  "('j, 'v) catalog_json \<Rightarrow> catalog_document \<Rightarrow> catalog_codec_error + string" where
  "encode_disposable_attempt_catalog json d =
     try_res (map_err (\<lambda>_. CodecCorruptState) (catalog_validate d)) (\<lambda>_.
     try_res (collect_results (encode_reservation json) (cd_active d)) (\<lambda>active.
     try_res (collect_results (encode_attempt_value json) (cd_tombstones d)) (\<lambda>tombstones.
     let wire = \<lparr>cw_schema_version = cd_schema_version d, cw_revision = cat_rev d,
                 cw_active = active, cw_tombstones = tombstones\<rparr>
     in try_res (map_err (\<lambda>_. CodecInvalidDocument) (cj_catalog_to_vec json wire)) (\<lambda>encoded.
        if MAX_DISPOSABLE_ATTEMPT_CATALOG_DOCUMENT_BYTES < length encoded
        then Inl CodecDocumentTooLarge
        else Inr encoded))))"

definition decode_catalog_wire ::
  "('j, 'v) catalog_json \<Rightarrow> 'v catalog_wire \<Rightarrow> catalog_codec_error + catalog_document" where
  "decode_catalog_wire json wire =
     (if MAX_ACTIVE_DISPOSABLE_ATTEMPTS < length (cw_active wire)
         \<or> MAX_DISPOSABLE_ATTEMPT_TOMBSTONES < length (cw_tombstones wire)
      then Inl CodecCorruptState
      else
        try_res (map_err (\<lambda>_. CodecCorruptState) (catalog_revision_new (cw_revision wire))) (\<lambda>revision.
        try_res (collect_results (decode_reservation json) (cw_active wire)) (\<lambda>active.
        try_res (collect_results (decode_attempt_value json) (cw_tombstones wire)) (\<lambda>tombstones.
        let d = \<lparr>cd_schema_version = DISPOSABLE_ATTEMPT_CATALOG_SCHEMA_VERSION,
                 cd_revision = revision, cd_active = active, cd_tombstones = tombstones\<rparr>
        in try_res (map_err (\<lambda>_. CodecCorruptState) (catalog_validate d)) (\<lambda>_. Inr d)))))"

definition decode_disposable_attempt_catalog ::
  "('j, 'v) catalog_json \<Rightarrow> string \<Rightarrow> catalog_codec_error + catalog_document" where
  "decode_disposable_attempt_catalog json bytes =
     (if MAX_DISPOSABLE_ATTEMPT_CATALOG_DOCUMENT_BYTES < length bytes
      then Inl CodecDocumentTooLarge
      else
        try_res (map_err (\<lambda>_. CodecInvalidDocument) (cj_catalog_version json bytes)) (\<lambda>version.
        if version \<noteq> DISPOSABLE_ATTEMPT_CATALOG_SCHEMA_VERSION then Inl CodecVersionIncompatible
        else
          try_res (map_err (\<lambda>_. CodecInvalidDocument) (cj_catalog_from_slice json bytes)) (\<lambda>wire.
          try_res (decode_catalog_wire json wire) (\<lambda>d.
          try_res (encode_disposable_attempt_catalog json d) (\<lambda>canonical.
          if canonical \<noteq> bytes then Inl CodecNonCanonical else Inr d)))))"

section \<open>Lemmas\<close>

text \<open>
  What the codec relies on serde for: reading back gives what was written, an attempt document
  embedded as a \<open>Value\<close> and written again still reads as the same attempt and is no longer
  (a \<open>Value\<close> may order the keys differently).
\<close>

definition attempt_json_faithful :: "('j, 'v) catalog_json \<Rightarrow> attempt_state \<Rightarrow> bool" where
  "attempt_json_faithful json s \<longleftrightarrow>
     (\<forall>bytes v. cj_attempt_to_json json (attempt_to_wire s) = Inr bytes \<and>
        cj_value_from_slice json bytes = Inr v \<longrightarrow>
        (\<exists>bytes'. cj_value_to_vec json v = Inr bytes' \<and> length bytes' \<le> length bytes \<and>
           cj_attempt_from_json json bytes' = Inr (attempt_to_wire s) \<and>
           cj_attempt_version json bytes' = Inr (as_schema_version s)))"

definition catalog_json_faithful :: "('j, 'v) catalog_json \<Rightarrow> bool" where
  "catalog_json_faithful json \<longleftrightarrow>
     (\<forall>wire bytes. cj_catalog_to_vec json wire = Inr bytes \<longrightarrow>
        cj_catalog_from_slice json bytes = Inr wire
        \<and> cj_catalog_version json bytes = Inr (cw_schema_version wire))"

text \<open>The values of a document are results of their constructors, as the private fields ensure.\<close>

definition reservation_parsed :: "reservation \<Rightarrow> bool" where
  "reservation_parsed r \<longleftrightarrow>
     attempt_parsed (rs_attempt r)
     \<and> worker_resources_new (wr_cpu_millis (rs_resources r)) (wr_memory_bytes (rs_resources r))
          (wr_disk_bytes (rs_resources r)) = Inr (rs_resources r)
     \<and> template_identity_parse (template_identity_str (rs_prepared_template_identity r))
          = Inr (rs_prepared_template_identity r)"

definition catalog_parsed :: "catalog_document \<Rightarrow> bool" where
  "catalog_parsed d \<longleftrightarrow>
     catalog_revision_new (cat_rev d) = Inr (cd_revision d)
     \<and> list_all reservation_parsed (cd_active d) \<and> list_all attempt_parsed (cd_tombstones d)"

lemma attempt_value_inverse:
  assumes "attempt_json_faithful json s" and "attempt_parsed s"
    and "encode_attempt_value json s = Inr v"
  shows "decode_attempt_value json v = Inr s"
proof -
  obtain bytes where valid: "attempt_validate s = Inr ()"
    and bytes: "cj_attempt_to_json json (attempt_to_wire s) = Inr bytes"
      "length bytes \<le> MAX_DISPOSABLE_ATTEMPT_STATE_BYTES" "cj_value_from_slice json bytes = Inr v"
    using assms(3)
    by (auto simp: encode_attempt_value_def encode_disposable_attempt_state_def split: if_splits)
  then obtain bytes' where "cj_value_to_vec json v = Inr bytes'"
    and "cj_attempt_from_json json bytes' = Inr (attempt_to_wire s)"
    and "cj_attempt_version json bytes' = Inr (as_schema_version s)"
    and "length bytes' \<le> MAX_DISPOSABLE_ATTEMPT_STATE_BYTES"
    using assms(1) unfolding attempt_json_faithful_def by fastforce
  then show ?thesis
    using decode_of_wire[OF valid assms(2)] by (simp add: decode_attempt_value_def)
qed

lemma reservation_inverse:
  assumes "attempt_json_faithful json (rs_attempt r)" and "reservation_parsed r"
    and "encode_reservation json r = Inr w"
  shows "decode_reservation json w = Inr r"
proof -
  from assms(3) obtain v where v: "encode_attempt_value json (rs_attempt r) = Inr v"
    and w: "w = \<lparr>vw_attempt = v,
          vw_resources = \<lparr>rw_cpu_millis = wr_cpu_millis (rs_resources r),
                          rw_memory_bytes = wr_memory_bytes (rs_resources r),
                          rw_disk_bytes = wr_disk_bytes (rs_resources r)\<rparr>,
          vw_prepared_template_digest = template_identity_str (rs_prepared_template_identity r)\<rparr>"
    by (auto simp: encode_reservation_def)
  have "decode_attempt_value json v = Inr (rs_attempt r)"
    using attempt_value_inverse[OF assms(1) _ v] assms(2) by (simp add: reservation_parsed_def)
  then show ?thesis
    using assms(2) by (cases r) (simp add: decode_reservation_def w reservation_parsed_def)
qed

lemma decode_catalog_wire_inverse:
  assumes faithful: "\<And>s. s \<in> set (catalog_attempts d) \<Longrightarrow> attempt_json_faithful json s"
    and parsed: "catalog_parsed d" and valid: "catalog_validate d = Inr ()"
    and active: "collect_results (encode_reservation json) (cd_active d) = Inr active"
    and tombstones: "collect_results (encode_attempt_value json) (cd_tombstones d) = Inr tombstones"
  shows "decode_catalog_wire json \<lparr>cw_schema_version = cd_schema_version d, cw_revision = cat_rev d,
           cw_active = active, cw_tombstones = tombstones\<rparr> = Inr d"
proof -
  have "collect_results (decode_reservation json) active = Inr (cd_active d)"
    by (rule collect_results_inverse[OF active])
       (use faithful parsed in \<open>auto simp: catalog_parsed_def list_all_iff intro: reservation_inverse\<close>)
  moreover have "collect_results (decode_attempt_value json) tombstones = Inr (cd_tombstones d)"
    by (rule collect_results_inverse[OF tombstones])
       (use faithful parsed in \<open>auto simp: catalog_parsed_def list_all_iff intro: attempt_value_inverse\<close>)
  moreover have "cd_schema_version d = DISPOSABLE_ATTEMPT_CATALOG_SCHEMA_VERSION"
    "length (cd_active d) \<le> MAX_ACTIVE_DISPOSABLE_ATTEMPTS"
    "length (cd_tombstones d) \<le> MAX_DISPOSABLE_ATTEMPT_TOMBSTONES"
    using valid by (simp_all add: catalog_validate_ok)
  ultimately show ?thesis
    using parsed valid collect_results_length[OF active] collect_results_length[OF tombstones]
    by (cases d) (simp add: decode_catalog_wire_def catalog_parsed_def)
qed

lemma catalog_decode_of_encode:
  assumes catalog: "catalog_json_faithful json"
    and attempts: "\<And>s. s \<in> set (catalog_attempts d) \<Longrightarrow> attempt_json_faithful json s"
    and parsed: "catalog_parsed d"
    and enc: "encode_disposable_attempt_catalog json d = Inr bytes"
  shows "decode_disposable_attempt_catalog json bytes = Inr d"
proof -
  from enc obtain active tombstones where
    valid: "catalog_validate d = Inr ()" and
    active: "collect_results (encode_reservation json) (cd_active d) = Inr active" and
    tombstones: "collect_results (encode_attempt_value json) (cd_tombstones d) = Inr tombstones" and
    bytes: "cj_catalog_to_vec json \<lparr>cw_schema_version = cd_schema_version d, cw_revision = cat_rev d,
      cw_active = active, cw_tombstones = tombstones\<rparr> = Inr bytes" and
    len: "length bytes \<le> MAX_DISPOSABLE_ATTEMPT_CATALOG_DOCUMENT_BYTES"
    by (auto simp: encode_disposable_attempt_catalog_def Let_def split: if_splits)
  have "decode_catalog_wire json \<lparr>cw_schema_version = cd_schema_version d, cw_revision = cat_rev d,
      cw_active = active, cw_tombstones = tombstones\<rparr> = Inr d"
    by (intro decode_catalog_wire_inverse attempts parsed valid active tombstones)
  moreover have "cd_schema_version d = DISPOSABLE_ATTEMPT_CATALOG_SCHEMA_VERSION"
    using valid by (simp add: catalog_validate_ok)
  ultimately show ?thesis
    using bytes len catalog enc
    by (simp add: decode_disposable_attempt_catalog_def catalog_json_faithful_def)
qed

lemma catalog_encode_of_decode:
  "decode_disposable_attempt_catalog json bytes = Inr d \<Longrightarrow>
     encode_disposable_attempt_catalog json d = Inr bytes"
  by (auto simp: decode_disposable_attempt_catalog_def split: if_splits)

section \<open>Properties\<close>

text \<open>
  C17. The durable catalog document is exact. With a JSON layer that reads back what it wrote, the
  bytes decode to a catalog exactly when they are the encoding of that catalog: nothing that was
  written is refused, no second byte string stands for the same catalog, and a catalog whose
  invariants fail is neither written nor read.
\<close>
theorem catalog_codec_exact:
  fixes json :: "('j, 'v) catalog_json"
  assumes catalog: "catalog_json_faithful json"
    and attempts: "\<forall>s \<in> set (catalog_attempts d). attempt_json_faithful json s"
    and parsed: "catalog_parsed d"
  shows "(decode_disposable_attempt_catalog json bytes = Inr d
          \<longleftrightarrow> encode_disposable_attempt_catalog json d = Inr bytes)
       \<and> (encode_disposable_attempt_catalog json d = Inr bytes \<longrightarrow> catalog_validate d = Inr ())"
proof -
  have "catalog_validate d = Inr ()" if "encode_disposable_attempt_catalog json d = Inr bytes"
    using that by (auto simp: encode_disposable_attempt_catalog_def)
  then show ?thesis
    using catalog_decode_of_encode[OF catalog _ parsed] catalog_encode_of_decode attempts by metis
qed

text \<open>A JSON layer that knows the documents of one catalog, for the witness.\<close>

definition sample_reservation :: reservation where
  "sample_reservation = example_reservation\<lparr>rs_prepared_template_identity :=
     DisposablePreparedTemplateIdentity (Sha256Digest (''sha256:'' @ replicate 64 (CHR ''0'')))\<rparr>"

definition sample_catalog :: catalog_document where
  "sample_catalog = example_catalog\<lparr>cd_active := [sample_reservation]\<rparr>"

definition sample_wire :: "string catalog_wire" where
  "sample_wire =
     \<lparr>cw_schema_version = 7, cw_revision = 2,
      cw_active = [\<lparr>vw_attempt = ''a'',
        vw_resources = \<lparr>rw_cpu_millis = 2000, rw_memory_bytes = 4096, rw_disk_bytes = 8192\<rparr>,
        vw_prepared_template_digest = ''sha256:'' @ replicate 64 (CHR ''0'')\<rparr>],
      cw_tombstones = []\<rparr>"

definition sample_json :: "(unit, string) catalog_json" where
  "sample_json =
     \<lparr>cj_attempt_to_json = (\<lambda>w. Inr ''a''),
      cj_attempt_version = (\<lambda>_. Inr 6),
      cj_attempt_from_json = (\<lambda>_. Inr (attempt_to_wire example_attempt)),
      cj_value_from_slice = (\<lambda>b. Inr b),
      cj_value_to_vec = (\<lambda>v. Inr v),
      cj_catalog_to_vec = (\<lambda>w. if w = sample_wire then Inr ''c'' else Inl ()),
      cj_catalog_version = (\<lambda>_. Inr 7),
      cj_catalog_from_slice = (\<lambda>_. Inr sample_wire)\<rparr>"

lemma sample_parsed: "catalog_parsed sample_catalog"
  by (simp add: catalog_parsed_def sample_catalog_def example_catalog_def catalog_empty_def
      catalog_revision_new_def MAX_DISPOSABLE_ATTEMPT_CATALOG_REVISION_def reservation_parsed_def
      sample_reservation_def example_reservation_def example_attempt_parsed worker_resources_new_def
      MAX_CPU_MILLIS_def MAX_BYTES_def template_identity_parse_def template_identity_str_def
      sha256_digest_parse_def byte_simps list_all_iff is_lower_hex_def)

lemma sample_encoded: "encode_disposable_attempt_catalog sample_json sample_catalog = Inr ''c''"
proof -
  have "catalog_validate sample_catalog = Inr ()"
    by (simp add: catalog_validate_ok sample_catalog_def example_catalog_def sample_reservation_def catalog_empty_def example_reservation_def
        revision_consistent_def represented_def within_envelope_def usage_of_def resources_bounded_def
        example_attempt_def attempt_reserved_def MAX_DISPOSABLE_ATTEMPT_TOMBSTONES_def
        MAX_ACTIVE_DISPOSABLE_ATTEMPTS_def MAX_WORKERS_def MAX_CPU_MILLIS_def MAX_BYTES_def)
  then show ?thesis
    by (simp add: encode_disposable_attempt_catalog_def sample_catalog_def example_catalog_def
        catalog_empty_def encode_reservation_def encode_attempt_value_def sample_json_def
        encode_disposable_attempt_state_def sample_reservation_def example_reservation_def
        example_attempt_valid MAX_DISPOSABLE_ATTEMPT_STATE_BYTES_def sample_wire_def
        template_identity_str_def DISPOSABLE_ATTEMPT_CATALOG_SCHEMA_VERSION_def
        MAX_DISPOSABLE_ATTEMPT_CATALOG_DOCUMENT_BYTES_def)
qed

theorem catalog_codec_exact_witness:
  "decode_disposable_attempt_catalog sample_json ''c'' = Inr sample_catalog"
proof -
  have "catalog_json_faithful sample_json"
    by (simp add: catalog_json_faithful_def sample_json_def sample_wire_def)
  moreover have "\<forall>s \<in> set (catalog_attempts sample_catalog). attempt_json_faithful sample_json s"
    by (simp add: attempt_json_faithful_def sample_json_def sample_catalog_def example_catalog_def
        catalog_empty_def sample_reservation_def example_reservation_def example_attempt_schema
        DISPOSABLE_ATTEMPT_STATE_SCHEMA_VERSION_def)
  ultimately show ?thesis
    using catalog_codec_exact[OF _ _ sample_parsed] sample_encoded by blast
qed

end
