(* ===== verification/Delivery_Recovery.thy ===== *)
theory Delivery_Recovery
  imports Delivery Catalog_Codec
begin

text \<open>
  The recovery state of one delivery, \<open>src/github_scale_set_delivery_state.rs\<close>: which step of
  reconciling, acknowledging, replaying and settling a Runner Scale Set message has been made
  durable, bound to the catalogs before and after it by digest. \<open>recovery_validate\<close> and
  \<open>resolution_validate\<close> are mutually recursive as in the code, with a termination proof.

  serde, SHA-256 and the hexadecimal rendering of its result are the parameters of the record
  \<open>recovery_env\<close>.
\<close>

section \<open>Data\<close>

definition SCALE_SET_DELIVERY_RECOVERY_SCHEMA_VERSION :: nat where
  "SCALE_SET_DELIVERY_RECOVERY_SCHEMA_VERSION = 4"
definition MAX_DELIVERY_RECOVERY_REVISION :: nat where
  "MAX_DELIVERY_RECOVERY_REVISION = 1000000000000"
definition CATALOG_BINDING_DOMAIN :: string where
  "CATALOG_BINDING_DOMAIN = ''smolrunner.scale-set-catalog-binding.v1'' @ [char_of (0 :: nat)]"

datatype recovery_error =
  RecoveryInvalidDocument | RecoveryVersionIncompatible | RecoveryDocumentTooLarge
  | RecoveryNonCanonical | RecoveryCorruptState | RecoveryConflict

record ('j, 'v) recovery_env =
  env_catalog_json :: "('j, 'v) catalog_json"
  env_delivery_to_json :: "scale_set_delivery \<Rightarrow> 'j + string"
  env_sha256_hex :: "string \<Rightarrow> string"

type_synonym request_ids = "scale_set_runner_request_id list"

record lifecycle_resolution =
  lx_base_revision :: nat
  lx_delivery :: scale_set_delivery
  lx_acquired :: request_ids
  lx_prior_catalog :: catalog_document
  lx_catalog_revision :: catalog_revision
  lx_catalog_digest :: sha256_digest

datatype settlement_proof =
    ProofAcknowledged
  | ProofAcquisitionRecovery
  | ProofLifecycleEvidence lifecycle_resolution

datatype recovery_phase =
    Reconciled
  | AcknowledgementStarted
  | Acknowledged request_ids
  | AcquisitionRecoveryObserved request_ids
  | LifecycleReconciled lifecycle_resolution
  | LifecycleAcknowledgementStarted lifecycle_resolution
  | LifecycleAcknowledged lifecycle_resolution
  | SettlementPrepared settlement_proof request_ids catalog_document catalog_revision sha256_digest

record recovery_state =
  rec_schema_version :: nat
  rec_revision :: nat
  rec_prior_catalog_revision :: catalog_revision
  rec_prior_catalog_digest :: sha256_digest
  rec_catalog_revision :: catalog_revision
  rec_catalog_digest :: sha256_digest
  rec_delivery :: scale_set_delivery
  rec_phase :: recovery_phase

section \<open>Binding a catalog by digest\<close>

definition to_be_bytes :: "nat \<Rightarrow> string" where
  "to_be_bytes n = map (\<lambda>i. char_of (n div 256 ^ (7 - i) mod 256)) [0..<8]"

definition catalog_digest ::
  "('j, 'v) recovery_env \<Rightarrow> catalog_document \<Rightarrow> recovery_error + sha256_digest" where
  "catalog_digest env catalog =
     try_res (map_err (\<lambda>_. RecoveryCorruptState)
       (encode_disposable_attempt_catalog (env_catalog_json env) catalog)) (\<lambda>bytes.
     if \<not> length bytes < 2 ^ 64 then Inl RecoveryCorruptState
     else map_err (\<lambda>_. RecoveryCorruptState)
            (sha256_digest_parse (''sha256:''
               @ env_sha256_hex env (CATALOG_BINDING_DOMAIN @ to_be_bytes (length bytes) @ bytes))))"

definition matches_prior_catalog ::
  "('j, 'v) recovery_env \<Rightarrow> recovery_state \<Rightarrow> catalog_document \<Rightarrow> bool" where
  "matches_prior_catalog env s catalog \<longleftrightarrow>
     rec_prior_catalog_revision s = cd_revision catalog
     \<and> catalog_digest env catalog = Inr (rec_prior_catalog_digest s)"

definition matches_catalog ::
  "('j, 'v) recovery_env \<Rightarrow> recovery_state \<Rightarrow> catalog_document \<Rightarrow> bool" where
  "matches_catalog env s catalog \<longleftrightarrow>
     rec_catalog_revision s = cd_revision catalog
     \<and> catalog_digest env catalog = Inr (rec_catalog_digest s)"

definition matches_catalog_digest :: "recovery_state \<Rightarrow> catalog_revision \<Rightarrow> sha256_digest \<Rightarrow> bool" where
  "matches_catalog_digest s revision digest \<longleftrightarrow>
     rec_catalog_revision s = revision \<and> rec_catalog_digest s = digest"

section \<open>Acquired requests\<close>

text \<open>
  The loop that checks each acquired request against the available ones; iterating a
  \<open>BTreeSet\<close> gives its elements in order.
\<close>

fun acquired_loop ::
  "scale_set_runner_request_id set \<Rightarrow> scale_set_runner_request_id set \<Rightarrow> request_ids \<Rightarrow>
   recovery_error + request_ids" where
  "acquired_loop available seen [] = Inr (sorted_list_of_set seen)"
| "acquired_loop available seen (request_id # rest) =
     (if request_id \<notin> available \<or> request_id \<in> seen then Inl RecoveryConflict
      else acquired_loop available (insert request_id seen) rest)"

definition validated_acquired :: "recovery_state \<Rightarrow> request_ids \<Rightarrow> recovery_error + request_ids" where
  "validated_acquired s acquired =
     try_res (map_err (\<lambda>_. RecoveryCorruptState) (available_request_ids (rec_delivery s)))
       (\<lambda>available. acquired_loop (set available) {} acquired)"

section \<open>Releasing a reservation that was never provisioned\<close>

text \<open>
  The three catalog operations that take a reserved attempt to the replay history, as both the
  resolution check and the settlement run them; the arguments are the caller's errors.
\<close>

definition release_unprovisioned ::
  "'e \<Rightarrow> 'e \<Rightarrow> catalog_document \<Rightarrow> scale_set_runner_request_id \<Rightarrow> reservation \<Rightarrow> 'e + catalog_document" where
  "release_unprovisioned conflict missing d request_id reservation =
     (let attempt_id = rs_id reservation in
      try_res (map_err (\<lambda>_. conflict)
        (doc_replace_attempt d attempt_id (as_revision (rs_attempt reservation))
           BeginUnprovisionedRelease)) (\<lambda>releasing.
      try_res (ok_or (find_active_by_runner_request_id releasing request_id) missing) (\<lambda>releasing_attempt.
      try_res (map_err (\<lambda>_. conflict)
        (doc_replace_attempt releasing attempt_id (as_revision (rs_attempt releasing_attempt))
           CompleteUnprovisioned)) (\<lambda>complete.
      try_res (ok_or (find_active_by_runner_request_id complete request_id) missing) (\<lambda>complete_attempt.
      map_err (\<lambda>_. conflict)
        (doc_retire_complete complete attempt_id (as_revision (rs_attempt complete_attempt))))))))"

section \<open>Validation\<close>

fun lifecycle_job :: "lifecycle_event \<Rightarrow> job_evidence option" where
  "lifecycle_job (LifecycleAvailable job) = None"
| "lifecycle_job (LifecycleAssigned job) = Some job"
| "lifecycle_job (LifecycleStarted job runner) = Some job"
| "lifecycle_job (LifecycleCompleted job runner result) = Some job"

fun available_job :: "scale_set_runner_request_id \<Rightarrow> lifecycle_event list \<Rightarrow> job_evidence option" where
  "available_job request_id [] = None"
| "available_job request_id (LifecycleAvailable job # events) =
     (if je_runner_request_id job = request_id then Some job else available_job request_id events)"
| "available_job request_id (_ # events) = available_job request_id events"

text \<open>The loop that replays the lifecycle events on the prior catalog.\<close>

fun reconstruct_loop ::
  "lifecycle_event list \<Rightarrow> catalog_document \<Rightarrow> scale_set_runner_request_id set \<Rightarrow> lifecycle_event list \<Rightarrow>
   recovery_error + catalog_document \<times> scale_set_runner_request_id set" where
  "reconstruct_loop original d acquired [] = Inr (d, acquired)"
| "reconstruct_loop original d acquired (event # events) =
     try_res (ok_or (lifecycle_job event) RecoveryCorruptState) (\<lambda>job.
     try_res (ok_or (available_job (je_runner_request_id job) original) RecoveryCorruptState) (\<lambda>original_job.
     if original_job \<noteq> job then Inl RecoveryCorruptState
     else
       try_res (ok_or (find_active_by_runner_request_id d (je_runner_request_id job)) RecoveryCorruptState)
         (\<lambda>reservation.
       if as_phase (rs_attempt reservation) \<noteq> Reserved then Inl RecoveryCorruptState
       else
         let acquired' = insert (je_runner_request_id job) acquired in
         (case event of
            LifecycleAssigned _ \<Rightarrow> reconstruct_loop original d acquired' events
          | LifecycleCompleted _ None result \<Rightarrow>
              if job_result_str result = ''canceled''
              then try_res (release_unprovisioned RecoveryCorruptState RecoveryCorruptState d
                              (je_runner_request_id job) reservation)
                     (\<lambda>d'. reconstruct_loop original d' acquired' events)
              else Inl RecoveryCorruptState
          | _ \<Rightarrow> Inl RecoveryCorruptState))))"

definition checked_sum :: "nat \<Rightarrow> nat \<Rightarrow> recovery_error + nat" where
  "checked_sum a b = ok_or (checked_add_u64 a b) RecoveryCorruptState"

definition acquired_exact :: "recovery_state \<Rightarrow> request_ids \<Rightarrow> recovery_error + unit" where
  "acquired_exact s acquired =
     try_res (validated_acquired s acquired) (\<lambda>sorted.
     if sorted = acquired then Inr () else Inl RecoveryCorruptState)"

definition lifecycle_offset :: "recovery_phase \<Rightarrow> nat option" where
  "lifecycle_offset phase =
     (case phase of
        LifecycleReconciled _ \<Rightarrow> Some 1
      | LifecycleAcknowledgementStarted _ \<Rightarrow> Some 2
      | LifecycleAcknowledged _ \<Rightarrow> Some 3
      | _ \<Rightarrow> None)"

definition resolution_shape :: "lifecycle_resolution \<Rightarrow> recovery_state \<Rightarrow> recovery_error + unit" where
  "resolution_shape r s =
     try_res (ok_or (lifecycle_offset (rec_phase s)) RecoveryCorruptState) (\<lambda>expected_revision.
     try_res (checked_sum (lx_base_revision r) expected_revision) (\<lambda>revision.
     if rec_revision s \<noteq> revision \<or> lx_base_revision r \<noteq> 3
        \<or> dl_message_id (lx_delivery r) \<le> dl_message_id (rec_delivery s)
     then Inl RecoveryCorruptState
     else
       try_res (map_err (\<lambda>_. RecoveryCorruptState) (available_request_ids (lx_delivery r))) (\<lambda>available.
       if available \<noteq> [] \<or> lx_acquired r = []
          \<or> \<not> matches_catalog_digest s (lx_catalog_revision r) (lx_catalog_digest r)
          \<or> catalog_revision_get (lx_catalog_revision r) < cat_rev (lx_prior_catalog r)
       then Inl RecoveryCorruptState else Inr ())))"

definition resolution_replay ::
  "('j, 'v) recovery_env \<Rightarrow> lifecycle_resolution \<Rightarrow> recovery_state \<Rightarrow> recovery_error + unit" where
  "resolution_replay env r s =
     try_res (acquired_exact s (lx_acquired r)) (\<lambda>_.
     try_res (map_err (\<lambda>_. RecoveryCorruptState) (retained_events (rec_delivery s))) (\<lambda>original.
     try_res (map_err (\<lambda>_. RecoveryCorruptState) (retained_events (lx_delivery r))) (\<lambda>lifecycle.
     try_res (reconstruct_loop original (lx_prior_catalog r) {} lifecycle) (\<lambda>(reconstructed, acquired).
     if sorted_list_of_set acquired \<noteq> lx_acquired r \<or> \<not> matches_catalog env s reconstructed
     then Inl RecoveryCorruptState else Inr ()))))"

fun phase_weight :: "recovery_phase \<Rightarrow> nat" where
  "phase_weight (LifecycleReconciled _) = 2"
| "phase_weight (LifecycleAcknowledgementStarted _) = 2"
| "phase_weight (LifecycleAcknowledged _) = 2"
| "phase_weight (SettlementPrepared _ _ _ _ _) = 3"
| "phase_weight _ = 0"

function recovery_validate :: "('j, 'v) recovery_env \<Rightarrow> recovery_state \<Rightarrow> recovery_error + unit"
  and resolution_validate ::
    "('j, 'v) recovery_env \<Rightarrow> lifecycle_resolution \<Rightarrow> recovery_state \<Rightarrow> recovery_error + unit" where
  "recovery_validate env s =
     (if rec_schema_version s \<noteq> SCALE_SET_DELIVERY_RECOVERY_SCHEMA_VERSION
         \<or> \<not> (1 \<le> rec_revision s \<and> rec_revision s \<le> MAX_DELIVERY_RECOVERY_REVISION)
         \<or> catalog_revision_get (rec_catalog_revision s) < catalog_revision_get (rec_prior_catalog_revision s)
         \<or> (rec_prior_catalog_revision s = rec_catalog_revision s
              \<and> rec_prior_catalog_digest s \<noteq> rec_catalog_digest s)
      then Inl RecoveryCorruptState
      else
        try_res (map_err (\<lambda>_. RecoveryCorruptState)
          (encode_scale_set_delivery (env_delivery_to_json env) (rec_delivery s))) (\<lambda>_.
        (case rec_phase s of
           Reconciled \<Rightarrow> if rec_revision s = 1 then Inr () else Inl RecoveryCorruptState
         | AcknowledgementStarted \<Rightarrow> if rec_revision s = 2 then Inr () else Inl RecoveryCorruptState
         | Acknowledged acquired \<Rightarrow>
             if rec_revision s = 3 then acquired_exact s acquired else Inl RecoveryCorruptState
         | AcquisitionRecoveryObserved acquired \<Rightarrow>
             if 3 \<le> rec_revision s \<and> (acquired \<noteq> [] \<or> rec_revision s = 3)
             then acquired_exact s acquired else Inl RecoveryCorruptState
         | LifecycleReconciled r \<Rightarrow> resolution_validate env r s
         | LifecycleAcknowledgementStarted r \<Rightarrow> resolution_validate env r s
         | LifecycleAcknowledged r \<Rightarrow> resolution_validate env r s
         | SettlementPrepared proof acquired prior_catalog revision digest \<Rightarrow>
             try_res (acquired_exact s acquired) (\<lambda>_.
             if \<not> matches_catalog env s prior_catalog then Inl RecoveryCorruptState
             else if proof = ProofAcquisitionRecovery \<and> acquired = [] then Inl RecoveryCorruptState
             else if (proof = ProofAcknowledged \<and> rec_revision s \<noteq> 4)
                     \<or> (proof = ProofAcquisitionRecovery \<and> rec_revision s < 4)
             then Inl RecoveryCorruptState
             else
               try_res
                 (case proof of
                    ProofLifecycleEvidence r \<Rightarrow>
                      if acquired \<noteq> lx_acquired r then Inl RecoveryCorruptState
                      else
                        try_res (checked_sum (lx_base_revision r) 4) (\<lambda>expected.
                        if rec_revision s \<noteq> expected then Inl RecoveryCorruptState
                        else recovery_validate env
                               (s\<lparr>rec_revision := rec_revision s - 1,
                                  rec_phase := LifecycleAcknowledged r\<rparr>))
                  | _ \<Rightarrow> Inr ()) (\<lambda>_.
               if catalog_revision_get revision < catalog_revision_get (rec_catalog_revision s)
                  \<or> (revision = rec_catalog_revision s \<and> digest \<noteq> rec_catalog_digest s)
               then Inl RecoveryCorruptState else Inr ())))))"
| "resolution_validate env r s =
     try_res (resolution_shape r s) (\<lambda>_.
     try_res (catalog_digest env (lx_prior_catalog r)) (\<lambda>prior_digest.
     let predecessor =
       s\<lparr>rec_revision := lx_base_revision r,
         rec_catalog_revision := cd_revision (lx_prior_catalog r),
         rec_catalog_digest := prior_digest,
         rec_phase := AcquisitionRecoveryObserved []\<rparr>
     in try_res (recovery_validate env predecessor) (\<lambda>_.
        if \<not> matches_catalog env predecessor (lx_prior_catalog r) then Inl RecoveryCorruptState
        else resolution_replay env r s)))"
  by pat_completeness auto

termination
  by (relation "measure (\<lambda>x. case x of Inl (env, s) \<Rightarrow> phase_weight (rec_phase s) | Inr (env, r, s) \<Rightarrow> 1)")
     auto

declare recovery_validate.simps [simp del] resolution_validate.simps [simp del]

section \<open>Operations\<close>

definition next_revision :: "recovery_state \<Rightarrow> recovery_error + nat" where
  "next_revision s =
     ok_or (case checked_add_u64 (rec_revision s) 1 of
              None \<Rightarrow> None
            | Some revision \<Rightarrow> if revision \<le> MAX_DELIVERY_RECOVERY_REVISION then Some revision else None)
       RecoveryConflict"

definition recovery_successor ::
  "('j, 'v) recovery_env \<Rightarrow> recovery_state \<Rightarrow> recovery_phase \<Rightarrow> recovery_error + recovery_state" where
  "recovery_successor env s phase =
     try_res (next_revision s) (\<lambda>revision.
     let s' = s\<lparr>rec_revision := revision, rec_phase := phase\<rparr>
     in try_res (recovery_validate env s') (\<lambda>_. Inr s'))"

definition recovery_successor_with_catalog ::
  "('j, 'v) recovery_env \<Rightarrow> recovery_state \<Rightarrow> recovery_phase \<Rightarrow> catalog_document \<Rightarrow>
   recovery_error + recovery_state" where
  "recovery_successor_with_catalog env s phase catalog =
     try_res (next_revision s) (\<lambda>revision.
     try_res (catalog_digest env catalog) (\<lambda>digest.
     let s' = s\<lparr>rec_revision := revision, rec_catalog_revision := cd_revision catalog,
                rec_catalog_digest := digest, rec_phase := phase\<rparr>
     in try_res (recovery_validate env s') (\<lambda>_. Inr s')))"

definition recovery_reconciled ::
  "('j, 'v) recovery_env \<Rightarrow> scale_set_delivery \<Rightarrow> catalog_document \<Rightarrow> catalog_document \<Rightarrow>
   recovery_error + recovery_state" where
  "recovery_reconciled env delivery prior_catalog catalog =
     try_res (catalog_digest env prior_catalog) (\<lambda>prior_digest.
     try_res (catalog_digest env catalog) (\<lambda>digest.
     let s = \<lparr>rec_schema_version = SCALE_SET_DELIVERY_RECOVERY_SCHEMA_VERSION, rec_revision = 1,
              rec_prior_catalog_revision = cd_revision prior_catalog,
              rec_prior_catalog_digest = prior_digest,
              rec_catalog_revision = cd_revision catalog, rec_catalog_digest = digest,
              rec_delivery = delivery, rec_phase = Reconciled\<rparr>
     in try_res (recovery_validate env s) (\<lambda>_. Inr s)))"

definition begin_ack :: "('j, 'v) recovery_env \<Rightarrow> recovery_state \<Rightarrow> recovery_error + recovery_state" where
  "begin_ack env s =
     (case rec_phase s of
        Reconciled \<Rightarrow> recovery_successor env s AcknowledgementStarted
      | AcknowledgementStarted \<Rightarrow> Inr s
      | _ \<Rightarrow> Inl RecoveryConflict)"

definition record_ack_response ::
  "('j, 'v) recovery_env \<Rightarrow> recovery_state \<Rightarrow> request_ids \<Rightarrow> recovery_error + recovery_state" where
  "record_ack_response env s acquired =
     try_res (validated_acquired s acquired) (\<lambda>sorted.
     (case rec_phase s of
        AcknowledgementStarted \<Rightarrow> recovery_successor env s (Acknowledged sorted)
      | Acknowledged current \<Rightarrow> if current = sorted then Inr s else Inl RecoveryConflict
      | _ \<Rightarrow> Inl RecoveryConflict))"

text \<open>The loop that adds the newly acquired requests to those observed before.\<close>

fun merge_loop :: "scale_set_runner_request_id set \<Rightarrow> request_ids \<Rightarrow> request_ids \<Rightarrow> request_ids" where
  "merge_loop seen observed [] = observed"
| "merge_loop seen observed (request_id # rest) =
     (if request_id \<in> seen then merge_loop seen observed rest
      else merge_loop (insert request_id seen) (observed @ [request_id]) rest)"

definition record_recovery_acquire ::
  "('j, 'v) recovery_env \<Rightarrow> recovery_state \<Rightarrow> request_ids \<Rightarrow> recovery_error + recovery_state" where
  "record_recovery_acquire env s acquired =
     try_res (case rec_phase s of
                AcknowledgementStarted \<Rightarrow> Inr []
              | AcquisitionRecoveryObserved observed \<Rightarrow> Inr observed
              | _ \<Rightarrow> Inl RecoveryConflict) (\<lambda>observed.
     try_res (validated_acquired s acquired) (\<lambda>newly_acquired.
     let phase = AcquisitionRecoveryObserved (sort (merge_loop (set observed) observed newly_acquired))
     in if rec_phase s = phase then Inr s else recovery_successor env s phase))"

definition lifecycle_requests :: "lifecycle_event list \<Rightarrow> scale_set_runner_request_id set" where
  "lifecycle_requests events =
     set (List.map_filter (\<lambda>e. map_option je_runner_request_id (lifecycle_job e)) events)"

definition prepare_lifecycle_resolution ::
  "('j, 'v) recovery_env \<Rightarrow> recovery_state \<Rightarrow> scale_set_delivery \<Rightarrow> request_ids \<Rightarrow> catalog_document \<Rightarrow>
   catalog_document \<Rightarrow> recovery_error + recovery_state" where
  "prepare_lifecycle_resolution env s delivery acquired prior_catalog target_catalog =
     (if rec_phase s \<noteq> AcquisitionRecoveryObserved [] \<or> \<not> matches_catalog env s prior_catalog
         \<or> dl_message_id delivery \<le> dl_message_id (rec_delivery s)
      then Inl RecoveryConflict
      else
        try_res (map_err (\<lambda>_. RecoveryCorruptState) (available_request_ids delivery)) (\<lambda>available.
        if available \<noteq> [] then Inl RecoveryConflict
        else
          try_res (validated_acquired s acquired) (\<lambda>sorted.
          if sorted = [] then Inl RecoveryConflict
          else
            try_res (map_err (\<lambda>_. RecoveryCorruptState) (retained_events delivery)) (\<lambda>events.
            if list_ex (\<lambda>request_id. request_id \<notin> lifecycle_requests events) sorted
            then Inl RecoveryConflict
            else
              try_res (catalog_digest env target_catalog) (\<lambda>digest.
              let resolution =
                \<lparr>lx_base_revision = rec_revision s, lx_delivery = delivery, lx_acquired = sorted,
                 lx_prior_catalog = prior_catalog, lx_catalog_revision = cd_revision target_catalog,
                 lx_catalog_digest = digest\<rparr>
              in recovery_successor_with_catalog env s (LifecycleReconciled resolution) target_catalog)))))"

definition begin_lifecycle_ack ::
  "('j, 'v) recovery_env \<Rightarrow> recovery_state \<Rightarrow> recovery_error + recovery_state" where
  "begin_lifecycle_ack env s =
     (case rec_phase s of
        LifecycleReconciled r \<Rightarrow> recovery_successor env s (LifecycleAcknowledgementStarted r)
      | LifecycleAcknowledgementStarted r \<Rightarrow> Inr s
      | _ \<Rightarrow> Inl RecoveryConflict)"

definition record_lifecycle_ack ::
  "('j, 'v) recovery_env \<Rightarrow> recovery_state \<Rightarrow> recovery_error + recovery_state" where
  "record_lifecycle_ack env s =
     (case rec_phase s of
        LifecycleAcknowledgementStarted r \<Rightarrow> recovery_successor env s (LifecycleAcknowledged r)
      | LifecycleAcknowledged r \<Rightarrow> Inr s
      | _ \<Rightarrow> Inl RecoveryConflict)"

definition recovery_lifecycle_resolution :: "recovery_state \<Rightarrow> lifecycle_resolution option" where
  "recovery_lifecycle_resolution s =
     (case rec_phase s of
        LifecycleReconciled r \<Rightarrow> Some r
      | LifecycleAcknowledgementStarted r \<Rightarrow> Some r
      | LifecycleAcknowledged r \<Rightarrow> Some r
      | _ \<Rightarrow> None)"

definition is_lifecycle_resolution_of ::
  "('j, 'v) recovery_env \<Rightarrow> recovery_state \<Rightarrow> recovery_state \<Rightarrow> catalog_document \<Rightarrow> bool" where
  "is_lifecycle_resolution_of env s predecessor prior_catalog \<longleftrightarrow>
     (case recovery_lifecycle_resolution s of
        None \<Rightarrow> False
      | Some r \<Rightarrow>
          lx_base_revision r = rec_revision predecessor
          \<and> matches_catalog env predecessor prior_catalog
          \<and> lx_prior_catalog r = prior_catalog
          \<and> rec_prior_catalog_revision s = rec_prior_catalog_revision predecessor
          \<and> rec_prior_catalog_digest s = rec_prior_catalog_digest predecessor
          \<and> rec_delivery s = rec_delivery predecessor)"

definition prepare_settlement_binding ::
  "('j, 'v) recovery_env \<Rightarrow> recovery_state \<Rightarrow> catalog_document \<Rightarrow> catalog_revision \<Rightarrow> sha256_digest \<Rightarrow>
   recovery_error + recovery_state" where
  "prepare_settlement_binding env s prior_catalog revision digest =
     try_res (case rec_phase s of
                Acknowledged acquired \<Rightarrow> Inr (ProofAcknowledged, acquired)
              | AcquisitionRecoveryObserved acquired \<Rightarrow>
                  if acquired \<noteq> [] then Inr (ProofAcquisitionRecovery, acquired)
                  else Inl RecoveryConflict
              | LifecycleAcknowledged r \<Rightarrow> Inr (ProofLifecycleEvidence r, lx_acquired r)
              | _ \<Rightarrow> Inl RecoveryConflict) (\<lambda>(proof, acquired).
     recovery_successor env s (SettlementPrepared proof acquired prior_catalog revision digest))"

definition prepare_settlement ::
  "('j, 'v) recovery_env \<Rightarrow> recovery_state \<Rightarrow> catalog_document \<Rightarrow> catalog_document \<Rightarrow>
   recovery_error + recovery_state" where
  "prepare_settlement env s prior_catalog target_catalog =
     (if \<not> matches_catalog env s prior_catalog then Inl RecoveryConflict
      else
        try_res (catalog_digest env target_catalog) (\<lambda>digest.
        prepare_settlement_binding env s prior_catalog (cd_revision target_catalog) digest))"

definition matches_settlement_catalog ::
  "('j, 'v) recovery_env \<Rightarrow> recovery_state \<Rightarrow> catalog_document \<Rightarrow> bool" where
  "matches_settlement_catalog env s catalog \<longleftrightarrow>
     (case rec_phase s of
        SettlementPrepared proof acquired prior_catalog revision expected \<Rightarrow>
          revision = cd_revision catalog \<and> catalog_digest env catalog = Inr expected
      | _ \<Rightarrow> False)"

definition settlement_acquired :: "recovery_state \<Rightarrow> request_ids option" where
  "settlement_acquired s =
     (case rec_phase s of
        SettlementPrepared proof acquired prior_catalog revision digest \<Rightarrow> Some acquired
      | _ \<Rightarrow> None)"

definition settlement_prior_catalog :: "recovery_state \<Rightarrow> catalog_document option" where
  "settlement_prior_catalog s =
     (case rec_phase s of
        SettlementPrepared proof acquired prior_catalog revision digest \<Rightarrow> Some prior_catalog
      | _ \<Rightarrow> None)"

section \<open>Lemmas on the parts\<close>

lemma acquired_loop_ok:
  "acquired_loop available seen ids = Inr xs \<longleftrightarrow>
     distinct ids \<and> set ids \<subseteq> available \<and> set ids \<inter> seen = {}
     \<and> xs = sorted_list_of_set (seen \<union> set ids)"
  by (induction ids arbitrary: seen) auto

text \<open>The requests the delivery makes available.\<close>

definition available_set :: "scale_set_delivery \<Rightarrow> scale_set_runner_request_id set" where
  "available_set d = ScaleSetRunnerRequestId ` set (dl_available_request_ids d)"

lemma validated_acquired_ok:
  "validated_acquired s ids = Inr xs \<longleftrightarrow>
     list_all (\<lambda>v. 0 < v) (dl_available_request_ids (rec_delivery s))
     \<and> distinct ids \<and> set ids \<subseteq> available_set (rec_delivery s) \<and> xs = sort ids"
proof -
  have "distinct ids \<Longrightarrow> sorted_list_of_set (set ids) = sort ids"
    by (simp add: sorted_list_of_set_sort_remdups distinct_remdups_id)
  then show ?thesis
    by (auto simp: validated_acquired_def acquired_loop_ok available_request_ids_ok available_set_def)
qed

lemma acquired_exact_ok:
  "acquired_exact s ids = Inr () \<longleftrightarrow>
     list_all (\<lambda>v. 0 < v) (dl_available_request_ids (rec_delivery s))
     \<and> sorted ids \<and> distinct ids \<and> set ids \<subseteq> available_set (rec_delivery s)"
proof -
  have "sort ids = ids \<longleftrightarrow> sorted ids" by (metis sorted_sort sorted_sort_id)
  then show ?thesis by (auto simp: acquired_exact_def validated_acquired_ok)
qed

lemma merge_loop_all:
  "set observed = seen \<Longrightarrow> set (merge_loop seen observed ids) = set observed \<union> set ids"
proof (induction ids arbitrary: seen observed)
  case (Cons x ids)
  show ?case
  proof (cases "x \<in> seen")
    case False
    then show ?thesis using Cons.IH[of "observed @ [x]" "insert x seen"] Cons.prems by simp
  qed (use Cons in auto)
qed simp

lemma merge_loop_distinct:
  "distinct observed \<Longrightarrow> set observed = seen \<Longrightarrow> distinct (merge_loop seen observed ids)"
  by (induction ids arbitrary: seen observed) auto

lemma next_revision_ok:
  "next_revision s = Inr n \<longleftrightarrow> n = rec_revision s + 1 \<and> n \<le> MAX_DELIVERY_RECOVERY_REVISION"
  by (auto simp: next_revision_def MAX_DELIVERY_RECOVERY_REVISION_def split: option.splits if_splits)

lemma recovery_successor_Inr:
  "recovery_successor env s phase = Inr s' \<longleftrightarrow>
     s' = s\<lparr>rec_revision := rec_revision s + 1, rec_phase := phase\<rparr>
     \<and> rec_revision s + 1 \<le> MAX_DELIVERY_RECOVERY_REVISION \<and> recovery_validate env s' = Inr ()"
  by (auto simp: recovery_successor_def next_revision_ok Let_def)

lemma recovery_successor_with_catalog_ok:
  "recovery_successor_with_catalog env s phase c = Inr s' \<longleftrightarrow>
     (\<exists>digest. catalog_digest env c = Inr digest
        \<and> s' = s\<lparr>rec_revision := rec_revision s + 1, rec_catalog_revision := cd_revision c,
                rec_catalog_digest := digest, rec_phase := phase\<rparr>)
     \<and> rec_revision s + 1 \<le> MAX_DELIVERY_RECOVERY_REVISION \<and> recovery_validate env s' = Inr ()"
  by (auto simp: recovery_successor_with_catalog_def next_revision_ok Let_def)

text \<open>What a valid recovery state shows, by phase.\<close>

lemma valid_delivery:
  "recovery_validate env s = Inr () \<Longrightarrow> delivery_validate (rec_delivery s) = Inr ()"
  by (subst (asm) recovery_validate.simps)
     (auto simp: encode_scale_set_delivery_def split: if_splits)

lemma resolution_shape_ok:
  "resolution_shape r s = Inr () \<Longrightarrow>
     lx_base_revision r = 3 \<and> (\<exists>k. lifecycle_offset (rec_phase s) = Some k \<and> rec_revision s = 3 + k)
     \<and> dl_message_id (rec_delivery s) < dl_message_id (lx_delivery r)
     \<and> dl_available_request_ids (lx_delivery r) = [] \<and> lx_acquired r \<noteq> []"
  by (auto simp: resolution_shape_def checked_sum_def available_request_ids_ok split: if_splits)

lemma resolution_validate_ok:
  assumes "resolution_validate env r s = Inr ()"
  shows "resolution_shape r s = Inr ()" and "acquired_exact s (lx_acquired r) = Inr ()"
  using assms
  by (subst (asm) resolution_validate.simps,
      auto simp: Let_def resolution_replay_def split: if_splits)+

lemma valid_phase:
  assumes "recovery_validate env s = Inr ()"
  shows "case rec_phase s of
      Reconciled \<Rightarrow> rec_revision s = 1
    | AcknowledgementStarted \<Rightarrow> rec_revision s = 2
    | Acknowledged acquired \<Rightarrow> rec_revision s = 3 \<and> acquired_exact s acquired = Inr ()
    | AcquisitionRecoveryObserved acquired \<Rightarrow>
        3 \<le> rec_revision s \<and> (acquired = [] \<longrightarrow> rec_revision s = 3) \<and> acquired_exact s acquired = Inr ()
    | LifecycleReconciled r \<Rightarrow> resolution_validate env r s = Inr ()
    | LifecycleAcknowledgementStarted r \<Rightarrow> resolution_validate env r s = Inr ()
    | LifecycleAcknowledged r \<Rightarrow> resolution_validate env r s = Inr ()
    | SettlementPrepared proof acquired prior_catalog revision digest \<Rightarrow>
        acquired_exact s acquired = Inr () \<and> matches_catalog env s prior_catalog"
  using assms
  by (subst (asm) recovery_validate.simps)
     (auto split: if_splits recovery_phase.splits settlement_proof.splits)

end
