(* ===== verification/Delivery_History.thy ===== *)
theory Delivery_History
  imports Delivery_Recovery
begin

text \<open>
  Histories of the recovery state of one delivery, \<open>src/github_scale_set_delivery_state.rs\<close>: the
  operations in the order they were made durable, what the trace of a history says about the
  evidence a settlement rests on, and how long a history can become.
\<close>

section \<open>Histories\<close>

datatype recovery_op =
    OpBeginAck
  | OpAckResponse request_ids
  | OpRecoveryAcquire request_ids
  | OpLifecycleResolution scale_set_delivery request_ids catalog_document catalog_document
  | OpBeginLifecycleAck
  | OpLifecycleAck
  | OpSettlement catalog_document catalog_document
  | OpSettlementBinding catalog_document catalog_revision sha256_digest

fun run_recovery_op ::
  "('j, 'v) recovery_env \<Rightarrow> recovery_state \<Rightarrow> recovery_op \<Rightarrow> recovery_error + recovery_state" where
  "run_recovery_op env s OpBeginAck = begin_ack env s"
| "run_recovery_op env s (OpAckResponse ids) = record_ack_response env s ids"
| "run_recovery_op env s (OpRecoveryAcquire ids) = record_recovery_acquire env s ids"
| "run_recovery_op env s (OpLifecycleResolution delivery ids prior target) =
     prepare_lifecycle_resolution env s delivery ids prior target"
| "run_recovery_op env s OpBeginLifecycleAck = begin_lifecycle_ack env s"
| "run_recovery_op env s OpLifecycleAck = record_lifecycle_ack env s"
| "run_recovery_op env s (OpSettlement prior target) = prepare_settlement env s prior target"
| "run_recovery_op env s (OpSettlementBinding prior revision digest) =
     prepare_settlement_binding env s prior revision digest"

inductive recovery_history :: "('j, 'v) recovery_env \<Rightarrow> recovery_op list \<Rightarrow> recovery_state \<Rightarrow> bool"
  for env where
  history_start: "recovery_reconciled env delivery prior catalog = Inr s \<Longrightarrow> recovery_history env [] s"
| history_step: "recovery_history env ops s \<Longrightarrow> run_recovery_op env s op = Inr s' \<Longrightarrow>
    recovery_history env (ops @ [op]) s'"

text \<open>The responses to the acknowledgement and the replayed acquisitions of a trace.\<close>

definition ack_responses :: "recovery_op list \<Rightarrow> request_ids set" where
  "ack_responses ops = {ids. OpAckResponse ids \<in> set ops}"

definition replays :: "recovery_op list \<Rightarrow> request_ids set" where
  "replays ops = {ids. OpRecoveryAcquire ids \<in> set ops}"

definition lifecycle_evidence :: "recovery_op list \<Rightarrow> lifecycle_resolution \<Rightarrow> bool" where
  "lifecycle_evidence ops r \<longleftrightarrow>
     OpBeginAck \<in> set ops \<and> ack_responses ops = {}
     \<and> replays ops = {[]} \<and> lx_acquired r \<noteq> []
     \<and> (\<exists>ids prior target. OpLifecycleResolution (lx_delivery r) ids prior target \<in> set ops
          \<and> sort ids = lx_acquired r)"

text \<open>What the trace says of the phase it leads to.\<close>

function phase_evidence :: "recovery_op list \<Rightarrow> recovery_phase \<Rightarrow> bool" where
  "phase_evidence ops Reconciled \<longleftrightarrow> ack_responses ops = {} \<and> replays ops = {}"
| "phase_evidence ops AcknowledgementStarted \<longleftrightarrow>
     OpBeginAck \<in> set ops \<and> ack_responses ops = {} \<and> replays ops = {}"
| "phase_evidence ops (Acknowledged acquired) \<longleftrightarrow>
     OpBeginAck \<in> set ops \<and> replays ops = {} \<and> ack_responses ops \<noteq> {}
     \<and> (\<forall>ids \<in> ack_responses ops. sort ids = acquired)"
| "phase_evidence ops (AcquisitionRecoveryObserved acquired) \<longleftrightarrow>
     OpBeginAck \<in> set ops \<and> ack_responses ops = {} \<and> replays ops \<noteq> {}
     \<and> set acquired = \<Union> (set ` replays ops)"
| "phase_evidence ops (LifecycleReconciled r) \<longleftrightarrow> lifecycle_evidence ops r"
| "phase_evidence ops (LifecycleAcknowledgementStarted r) \<longleftrightarrow>
     lifecycle_evidence ops r \<and> OpBeginLifecycleAck \<in> set ops"
| "phase_evidence ops (LifecycleAcknowledged r) \<longleftrightarrow>
     lifecycle_evidence ops r \<and> OpBeginLifecycleAck \<in> set ops \<and> OpLifecycleAck \<in> set ops"
| "phase_evidence ops (SettlementPrepared proof acquired prior revision digest) \<longleftrightarrow>
     (case proof of
        ProofAcknowledged \<Rightarrow> phase_evidence ops (Acknowledged acquired)
      | ProofAcquisitionRecovery \<Rightarrow>
          acquired \<noteq> [] \<and> phase_evidence ops (AcquisitionRecoveryObserved acquired)
      | ProofLifecycleEvidence r \<Rightarrow>
          acquired = lx_acquired r \<and> phase_evidence ops (LifecycleAcknowledged r))"
  by pat_completeness auto

termination
  by (relation "measure (\<lambda>(ops, phase). phase_weight phase)") auto

section \<open>Lemmas\<close>

lemma ack_responses_snoc [simp]:
  "ack_responses [] = {}"
  "ack_responses (ops @ [op]) =
     (case op of OpAckResponse ids \<Rightarrow> insert ids (ack_responses ops) | _ \<Rightarrow> ack_responses ops)"
  by (auto simp: ack_responses_def split: recovery_op.splits)

lemma replays_snoc [simp]:
  "replays [] = {}"
  "replays (ops @ [op]) =
     (case op of OpRecoveryAcquire ids \<Rightarrow> insert ids (replays ops) | _ \<Rightarrow> replays ops)"
  by (auto simp: replays_def split: recovery_op.splits)

lemma lifecycle_evidence_snoc:
  assumes "lifecycle_evidence ops r" and "ack_responses (ops @ [op]) = ack_responses ops"
    and "replays (ops @ [op]) = replays ops"
  shows "lifecycle_evidence (ops @ [op]) r"
proof -
  obtain ids prior target where
    "OpLifecycleResolution (lx_delivery r) ids prior target \<in> set ops" "sort ids = lx_acquired r"
    using assms(1) by (auto simp: lifecycle_evidence_def)
  then have "\<exists>ids prior target. OpLifecycleResolution (lx_delivery r) ids prior target \<in> set (ops @ [op])
      \<and> sort ids = lx_acquired r" by auto
  then show ?thesis using assms by (simp add: lifecycle_evidence_def)
qed

lemma begin_ack_evidence:
  assumes "phase_evidence ops (rec_phase s)" and "begin_ack env s = Inr s'"
  shows "phase_evidence (ops @ [OpBeginAck]) (rec_phase s')"
  using assms
  by (cases "rec_phase s") (auto simp: begin_ack_def recovery_successor_Inr)

lemma ack_response_evidence:
  assumes "phase_evidence ops (rec_phase s)" and "record_ack_response env s ids = Inr s'"
  shows "phase_evidence (ops @ [OpAckResponse ids]) (rec_phase s')"
  using assms
  by (cases "rec_phase s")
     (auto simp: record_ack_response_def recovery_successor_Inr validated_acquired_ok split: if_splits)

lemma replay_from:
  assumes "(case rec_phase s of
              AcknowledgementStarted \<Rightarrow> Inr []
            | AcquisitionRecoveryObserved observed \<Rightarrow> Inr observed
            | _ \<Rightarrow> Inl RecoveryConflict) = Inr observed"
  shows "rec_phase s = AcknowledgementStarted \<and> observed = []
         \<or> rec_phase s = AcquisitionRecoveryObserved observed"
  using assms by (cases "rec_phase s") simp_all

lemma record_recovery_acquire_ok:
  assumes "record_recovery_acquire env s ids = Inr s'"
  shows "\<exists>observed.
    (rec_phase s = AcknowledgementStarted \<and> observed = []
       \<or> rec_phase s = AcquisitionRecoveryObserved observed)
    \<and> distinct ids \<and> set ids \<subseteq> available_set (rec_delivery s)
    \<and> rec_phase s' = AcquisitionRecoveryObserved (sort (merge_loop (set observed) observed (sort ids)))
    \<and> (s' = s \<or> recovery_successor env s (rec_phase s') = Inr s')"
proof -
  obtain observed where observed: "(case rec_phase s of
              AcknowledgementStarted \<Rightarrow> Inr []
            | AcquisitionRecoveryObserved observed \<Rightarrow> Inr observed
            | _ \<Rightarrow> Inl RecoveryConflict) = Inr observed"
    and ids: "validated_acquired s ids = Inr (sort ids)" "distinct ids"
      "set ids \<subseteq> available_set (rec_delivery s)"
    and s': "(let phase = AcquisitionRecoveryObserved (sort (merge_loop (set observed) observed (sort ids)))
       in if rec_phase s = phase then Inr s else recovery_successor env s phase) = Inr s'"
    using assms unfolding record_recovery_acquire_def try_res_eq_Inr by (auto simp: validated_acquired_ok)
  then show ?thesis
    using replay_from[OF observed]
    by (intro exI[of _ observed]) (auto simp: Let_def recovery_successor_Inr split: if_splits)
qed

lemma replay_evidence:
  assumes "phase_evidence ops (rec_phase s)" and "record_recovery_acquire env s ids = Inr s'"
  shows "phase_evidence (ops @ [OpRecoveryAcquire ids]) (rec_phase s')"
proof -
  obtain observed where
    here: "rec_phase s = AcknowledgementStarted \<and> observed = []
           \<or> rec_phase s = AcquisitionRecoveryObserved observed"
    and there: "rec_phase s' =
      AcquisitionRecoveryObserved (sort (merge_loop (set observed) observed (sort ids)))"
    using record_recovery_acquire_ok[OF assms(2)] by blast
  define acquired where "acquired = sort (merge_loop (set observed) observed (sort ids))"
  have acquired: "set acquired = set observed \<union> set ids"
    by (simp add: acquired_def merge_loop_all)
  have "OpBeginAck \<in> set ops \<and> ack_responses ops = {} \<and> set observed = \<Union> (set ` replays ops)"
    using here assms(1) by (elim disjE conjE) simp_all
  then have "phase_evidence (ops @ [OpRecoveryAcquire ids]) (AcquisitionRecoveryObserved acquired)"
    using acquired by (simp add: Un_commute)
  then show ?thesis
    using there by (simp only: acquired_def)
qed

lemma resolution_evidence:
  assumes "phase_evidence ops (rec_phase s)"
    and "prepare_lifecycle_resolution env s delivery ids prior target = Inr s'"
  shows "phase_evidence (ops @ [OpLifecycleResolution delivery ids prior target]) (rec_phase s')"
proof -
  obtain r where here: "rec_phase s = AcquisitionRecoveryObserved []"
    and there: "rec_phase s' = LifecycleReconciled r"
    and r: "lx_delivery r = delivery" "lx_acquired r = sort ids" "sort ids \<noteq> []"
    using assms(2)
    by (auto simp: prepare_lifecycle_resolution_def validated_acquired_ok
        recovery_successor_with_catalog_ok Let_def split: if_splits)
  have "replays ops = {[]}"
    using assms(1) here by auto
  then have "lifecycle_evidence (ops @ [OpLifecycleResolution delivery ids prior target]) r"
    using assms(1) here r unfolding lifecycle_evidence_def by auto
  then show ?thesis using there by simp
qed

lemma begin_lifecycle_ack_evidence:
  assumes "phase_evidence ops (rec_phase s)" and "begin_lifecycle_ack env s = Inr s'"
  shows "phase_evidence (ops @ [OpBeginLifecycleAck]) (rec_phase s')"
  using assms lifecycle_evidence_snoc[of ops _ OpBeginLifecycleAck]
  by (cases "rec_phase s") (auto simp: begin_lifecycle_ack_def recovery_successor_Inr)

lemma lifecycle_ack_evidence:
  assumes "phase_evidence ops (rec_phase s)" and "record_lifecycle_ack env s = Inr s'"
  shows "phase_evidence (ops @ [OpLifecycleAck]) (rec_phase s')"
  using assms lifecycle_evidence_snoc[of ops _ OpLifecycleAck]
  by (cases "rec_phase s") (auto simp: record_lifecycle_ack_def recovery_successor_Inr)

lemma settlement_binding_phase:
  assumes "prepare_settlement_binding env s prior revision digest = Inr s'"
  shows "\<exists>proof acquired. rec_phase s' = SettlementPrepared proof acquired prior revision digest \<and>
    (case proof of
       ProofAcknowledged \<Rightarrow> rec_phase s = Acknowledged acquired
     | ProofAcquisitionRecovery \<Rightarrow> acquired \<noteq> [] \<and> rec_phase s = AcquisitionRecoveryObserved acquired
     | ProofLifecycleEvidence r \<Rightarrow> acquired = lx_acquired r \<and> rec_phase s = LifecycleAcknowledged r)"
  using assms
  by (auto simp: prepare_settlement_binding_def recovery_successor_Inr
      split: recovery_phase.splits if_splits)

lemma settlement_op_evidence:
  assumes "phase_evidence ops (rec_phase s)"
    and "prepare_settlement_binding env s prior revision digest = Inr s'"
    and "ack_responses (ops @ [op]) = ack_responses ops" and "replays (ops @ [op]) = replays ops"
  shows "phase_evidence (ops @ [op]) (rec_phase s')"
proof -
  obtain pf acquired where s': "rec_phase s' = SettlementPrepared pf acquired prior revision digest"
    and s: "case pf of
       ProofAcknowledged \<Rightarrow> rec_phase s = Acknowledged acquired
     | ProofAcquisitionRecovery \<Rightarrow> acquired \<noteq> [] \<and> rec_phase s = AcquisitionRecoveryObserved acquired
     | ProofLifecycleEvidence r \<Rightarrow> acquired = lx_acquired r \<and> rec_phase s = LifecycleAcknowledged r"
    using settlement_binding_phase[OF assms(2)] by blast
  show ?thesis
  proof (cases pf)
    case (ProofLifecycleEvidence r)
    then show ?thesis
      using s s' assms(1) lifecycle_evidence_snoc[OF _ assms(3,4)] by auto
  qed (use s s' assms in auto)
qed

lemma run_op_evidence:
  assumes "phase_evidence ops (rec_phase s)" and "run_recovery_op env s op = Inr s'"
  shows "phase_evidence (ops @ [op]) (rec_phase s')"
proof (cases op)
  case (OpSettlement prior target)
  then obtain revision digest where "prepare_settlement_binding env s prior revision digest = Inr s'"
    using assms(2) by (auto simp: prepare_settlement_def split: if_splits)
  from settlement_op_evidence[OF assms(1) this, of op] show ?thesis
    using OpSettlement by simp
next
  case (OpSettlementBinding prior revision digest)
  then have "prepare_settlement_binding env s prior revision digest = Inr s'"
    using assms(2) by simp
  from settlement_op_evidence[OF assms(1) this, of op] show ?thesis
    using OpSettlementBinding by simp
qed (use assms in \<open>simp_all add: begin_ack_evidence ack_response_evidence replay_evidence
    resolution_evidence begin_lifecycle_ack_evidence lifecycle_ack_evidence\<close>)

lemma history_evidence: "recovery_history env ops s \<Longrightarrow> phase_evidence ops (rec_phase s)"
proof (induction rule: recovery_history.induct)
  case (history_start delivery prior catalog s)
  then show ?case by (auto simp: recovery_reconciled_def Let_def)
next
  case (history_step ops s op s')
  then show ?case by (simp add: run_op_evidence)
qed

text \<open>An accepted operation leaves the state or moves it to a valid successor of the same delivery.\<close>

lemma run_op_successor:
  assumes "run_recovery_op env s op = Inr s'"
  shows "s' = s \<or> rec_revision s' = rec_revision s + 1 \<and> rec_delivery s' = rec_delivery s
           \<and> recovery_validate env s' = Inr ()"
proof (cases op)
  case OpBeginAck
  then show ?thesis using assms
    by (cases "rec_phase s") (auto simp: begin_ack_def recovery_successor_Inr)
next
  case (OpAckResponse ids)
  then show ?thesis using assms
    by (cases "rec_phase s") (auto simp: record_ack_response_def recovery_successor_Inr split: if_splits)
next
  case (OpRecoveryAcquire ids)
  then show ?thesis using assms record_recovery_acquire_ok[of env s ids s']
    by (auto simp: recovery_successor_Inr)
next
  case (OpLifecycleResolution delivery ids prior target)
  then show ?thesis using assms
    by (auto simp: prepare_lifecycle_resolution_def recovery_successor_with_catalog_ok Let_def
        split: if_splits)
next
  case OpBeginLifecycleAck
  then show ?thesis using assms
    by (cases "rec_phase s") (auto simp: begin_lifecycle_ack_def recovery_successor_Inr)
next
  case OpLifecycleAck
  then show ?thesis using assms
    by (cases "rec_phase s") (auto simp: record_lifecycle_ack_def recovery_successor_Inr)
next
  case (OpSettlement prior target)
  then show ?thesis using assms
    by (auto simp: prepare_settlement_def prepare_settlement_binding_def recovery_successor_Inr
        split: if_splits)
next
  case (OpSettlementBinding prior revision digest)
  then show ?thesis using assms
    by (auto simp: prepare_settlement_binding_def recovery_successor_Inr)
qed

lemma reconciled_ok:
  "recovery_reconciled env delivery prior catalog = Inr s \<Longrightarrow>
     recovery_validate env s = Inr () \<and> rec_revision s = 1 \<and> rec_delivery s = delivery
     \<and> rec_phase s = Reconciled"
  by (auto simp: recovery_reconciled_def Let_def)

lemma history_valid: "recovery_history env ops s \<Longrightarrow> recovery_validate env s = Inr ()"
proof (induction rule: recovery_history.induct)
  case (history_start delivery prior catalog s)
  then show ?case using reconciled_ok by blast
next
  case (history_step ops s op s')
  then show ?case using run_op_successor by blast
qed

lemma valid_lifecycle_settlement:
  assumes "recovery_validate env s = Inr ()"
    and "rec_phase s = SettlementPrepared (ProofLifecycleEvidence r) acquired prior revision digest"
  shows "rec_revision s = 7 \<and> dl_message_id (rec_delivery s) < dl_message_id (lx_delivery r)
         \<and> acquired = lx_acquired r"
proof -
  let ?t = "s\<lparr>rec_revision := rec_revision s - 1, rec_phase := LifecycleAcknowledged r\<rparr>"
  have t: "recovery_validate env ?t = Inr ()"
    and rest: "acquired = lx_acquired r" "rec_revision s = lx_base_revision r + 4"
    using assms by (subst (asm) recovery_validate.simps; auto simp: checked_sum_def split: if_splits)+
  then have "resolution_shape r ?t = Inr ()"
    using valid_phase[OF t] resolution_validate_ok(1) by fastforce
  from resolution_shape_ok[OF this] rest show ?thesis by simp
qed

section \<open>How long a history can become\<close>

definition revision_bound :: "recovery_state \<Rightarrow> bool" where
  "revision_bound s \<longleftrightarrow>
     (case rec_phase s of
        AcquisitionRecoveryObserved acquired \<Rightarrow> rec_revision s \<le> 3 + length acquired
      | SettlementPrepared proof acquired prior revision digest \<Rightarrow>
          rec_revision s \<le> max 7 (4 + length acquired)
      | _ \<Rightarrow> rec_revision s \<le> 6)"

lemma lifecycle_revision:
  assumes "resolution_validate env r s = Inr ()"
  shows "rec_revision s \<le> 6"
proof -
  from resolution_shape_ok[OF resolution_validate_ok(1)[OF assms]] obtain k where
    "lifecycle_offset (rec_phase s) = Some k" "rec_revision s = 3 + k" by blast
  then show ?thesis
    by (cases "rec_phase s") (auto simp: lifecycle_offset_def)
qed

lemma revision_bound_other:
  assumes "recovery_validate env s = Inr ()"
    and "\<And>a. rec_phase s \<noteq> AcquisitionRecoveryObserved a"
    and "\<And>p a c rv d. rec_phase s \<noteq> SettlementPrepared p a c rv d"
  shows "revision_bound s"
proof (cases "rec_phase s")
  case (AcquisitionRecoveryObserved a)
  then show ?thesis using assms(2) by blast
next
  case (SettlementPrepared p a c rv d)
  then show ?thesis using assms(3) by blast
qed (use valid_phase[OF assms(1)] lifecycle_revision[of env _ s] in \<open>auto simp: revision_bound_def\<close>)

lemma merge_longer:
  assumes "distinct observed"
  shows "length observed \<le> length (merge_loop (set observed) observed ids)"
    and "length (merge_loop (set observed) observed ids) = length observed \<Longrightarrow>
         sorted observed \<Longrightarrow> sort (merge_loop (set observed) observed ids) = observed"
proof -
  let ?m = "merge_loop (set observed) observed ids"
  have "distinct ?m" by (rule merge_loop_distinct[OF assms refl])
  then have m: "length ?m = card (set observed \<union> set ids)"
    by (metis distinct_card merge_loop_all)
  show "length observed \<le> length ?m"
    using assms by (simp add: m distinct_card[symmetric] card_mono)
  show "sort ?m = observed" if "length ?m = length observed" "sorted observed"
  proof -
    have "set observed \<union> set ids = set observed"
      using that(1) assms m by (intro card_subset_eq[symmetric]) (auto simp: distinct_card)
    then have "set ?m = set observed" by (simp add: merge_loop_all)
    then show ?thesis
      using \<open>distinct ?m\<close> assms that(2)
      by (metis sorted_distinct_set_unique distinct_sort set_sort sorted_sort)
  qed
qed

lemma replay_revision_bound:
  assumes valid: "recovery_validate env s = Inr ()" and bound: "revision_bound s"
    and step: "record_recovery_acquire env s ids = Inr s'" and new: "s' \<noteq> s"
  shows "revision_bound s'"
proof -
  from record_recovery_acquire_ok[OF step] obtain observed where
    here: "rec_phase s = AcknowledgementStarted \<and> observed = []
           \<or> rec_phase s = AcquisitionRecoveryObserved observed"
    and there: "rec_phase s' =
      AcquisitionRecoveryObserved (sort (merge_loop (set observed) observed (sort ids)))" by blast
  let ?m = "merge_loop (set observed) observed (sort ids)"
  have rev: "rec_revision s' = rec_revision s + 1"
    using run_op_successor[of env s "OpRecoveryAcquire ids" s'] step new by auto
  show ?thesis
  proof (cases "rec_phase s = AcknowledgementStarted")
    case True
    then have "rec_revision s = 2" using valid_phase[OF valid] by simp
    then show ?thesis using rev there by (simp add: revision_bound_def)
  next
    case False
    with here have phase: "rec_phase s = AcquisitionRecoveryObserved observed" by blast
    then have ex: "sorted observed" "distinct observed"
      using valid_phase[OF valid] by (auto simp: acquired_exact_ok)
    have "rec_phase s' \<noteq> rec_phase s"
    proof
      assume same: "rec_phase s' = rec_phase s"
      with step there phase have "s' = s"
        by (auto simp: record_recovery_acquire_def validated_acquired_ok Let_def split: if_splits)
      with new show False ..
    qed
    then have "length ?m \<noteq> length observed"
      using merge_longer(2)[OF ex(2) _ ex(1)] there phase by auto
    then have "length observed < length ?m"
      using merge_longer(1)[OF ex(2)] by (simp add: le_neq_implies_less)
    then show ?thesis
      using bound rev there phase by (simp add: revision_bound_def)
  qed
qed

lemma settlement_revision_bound:
  assumes valid: "recovery_validate env s = Inr ()" and bound: "revision_bound s"
    and step: "prepare_settlement_binding env s prior revision digest = Inr s'"
  shows "revision_bound s'"
proof -
  from settlement_binding_phase[OF step] obtain pf acquired where
    s': "rec_phase s' = SettlementPrepared pf acquired prior revision digest" and
    s: "case pf of
       ProofAcknowledged \<Rightarrow> rec_phase s = Acknowledged acquired
     | ProofAcquisitionRecovery \<Rightarrow> acquired \<noteq> [] \<and> rec_phase s = AcquisitionRecoveryObserved acquired
     | ProofLifecycleEvidence r \<Rightarrow> acquired = lx_acquired r \<and> rec_phase s = LifecycleAcknowledged r"
    by blast
  have rev: "rec_revision s' = rec_revision s + 1"
    using step by (auto simp: prepare_settlement_binding_def recovery_successor_Inr)
  have "rec_revision s \<le> max 6 (3 + length acquired)"
    using s bound by (cases pf) (auto simp: revision_bound_def)
  then show ?thesis using rev s' by (simp add: revision_bound_def)
qed

lemma run_op_revision_bound:
  assumes valid: "recovery_validate env s = Inr ()" and bound: "revision_bound s"
    and step: "run_recovery_op env s op = Inr s'" and new: "s' \<noteq> s"
  shows "revision_bound s'"
proof -
  have valid': "recovery_validate env s' = Inr ()"
    using run_op_successor[OF step] new by blast
  show ?thesis
  proof (cases op)
    case (OpRecoveryAcquire ids)
    then show ?thesis using replay_revision_bound[OF valid bound _ new] step by simp
  next
    case (OpSettlement prior target)
    then show ?thesis using settlement_revision_bound[OF valid bound] step
      by (auto simp: prepare_settlement_def split: if_splits)
  next
    case (OpSettlementBinding prior revision digest)
    then show ?thesis using settlement_revision_bound[OF valid bound] step by simp
  next
    case OpBeginAck
    then show ?thesis using step new revision_bound_other[OF valid']
      by (cases "rec_phase s") (auto simp: begin_ack_def recovery_successor_Inr)
  next
    case (OpAckResponse ids)
    then show ?thesis using step new revision_bound_other[OF valid']
      by (cases "rec_phase s") (auto simp: record_ack_response_def recovery_successor_Inr split: if_splits)
  next
    case (OpLifecycleResolution delivery ids prior target)
    then show ?thesis using step revision_bound_other[OF valid']
      by (auto simp: prepare_lifecycle_resolution_def recovery_successor_with_catalog_ok Let_def
          split: if_splits)
  next
    case OpBeginLifecycleAck
    then show ?thesis using step new revision_bound_other[OF valid']
      by (cases "rec_phase s") (auto simp: begin_lifecycle_ack_def recovery_successor_Inr)
  next
    case OpLifecycleAck
    then show ?thesis using step new revision_bound_other[OF valid']
      by (cases "rec_phase s") (auto simp: record_lifecycle_ack_def recovery_successor_Inr)
  qed
qed

inductive recovery_step :: "('j, 'v) recovery_env \<Rightarrow> recovery_state \<Rightarrow> recovery_state \<Rightarrow> bool"
  for env where
  "run_recovery_op env s op = Inr s' \<Longrightarrow> s' \<noteq> s \<Longrightarrow> recovery_step env s s'"

lemma steps_bound:
  assumes "(recovery_step env ^^ k) s0 s" and "recovery_validate env s0 = Inr ()"
    and "revision_bound s0"
  shows "recovery_validate env s = Inr () \<and> revision_bound s
         \<and> rec_revision s = rec_revision s0 + k \<and> rec_delivery s = rec_delivery s0"
  using assms(1)
proof (induction k arbitrary: s)
  case (Suc k)
  then obtain q where q: "(recovery_step env ^^ k) s0 q" "recovery_step env q s" by auto
  from q(2) obtain op where op: "run_recovery_op env q op = Inr s" "s \<noteq> q"
    by (cases rule: recovery_step.cases)
  with Suc.IH[OF q(1)] show ?case
    using run_op_successor[OF op(1)] run_op_revision_bound[OF _ _ op] by auto
qed (use assms in simp)

lemma bound_by_available:
  assumes "recovery_validate env s = Inr ()" and "revision_bound s"
  shows "rec_revision s \<le> max 7 (4 + length (dl_available_request_ids (rec_delivery s)))"
proof -
  have len: "length acquired \<le> length (dl_available_request_ids (rec_delivery s))"
    if "acquired_exact s acquired = Inr ()" for acquired
  proof -
    have "length acquired = card (set acquired)"
      using that by (simp add: acquired_exact_ok distinct_card)
    also have "\<dots> \<le> card (available_set (rec_delivery s))"
      using that by (intro card_mono) (auto simp: acquired_exact_ok available_set_def)
    also have "\<dots> \<le> length (dl_available_request_ids (rec_delivery s))"
      unfolding available_set_def by (metis card_image_le card_length finite_set le_trans)
    finally show ?thesis .
  qed
  show ?thesis
    using assms(2) valid_phase[OF assms(1)] len
    by (cases "rec_phase s") (fastforce simp: revision_bound_def)+
qed

section \<open>Properties\<close>


text \<open>
  C16. Recovery of a delivery ends. From its reconciliation on, the state changes at most six times
  or three times more than the delivery has available requests, whatever operations are tried in
  whatever order, and never because the revision counter is exhausted.
\<close>
theorem recovery_terminates:
  assumes "recovery_reconciled env delivery prior catalog = Inr s0"
    and "(recovery_step env ^^ k) s0 s"
  shows "k \<le> max 6 (3 + length (dl_available_request_ids delivery))
       \<and> rec_revision s = k + 1 \<and> next_revision s = Inr (k + 2)"
proof -
  note start = reconciled_ok[OF assms(1)]
  then have "revision_bound s0" by (simp add: revision_bound_def)
  then have s: "recovery_validate env s = Inr ()" "revision_bound s" "rec_revision s = k + 1"
    "rec_delivery s = delivery"
    using steps_bound[OF assms(2)] start by auto
  have "length (dl_available_request_ids delivery) \<le> 50"
    using delivery_available_bound[OF valid_delivery[OF s(1)]] s(4)
    by (simp add: MAX_SCALE_SET_DELIVERY_EVENTS_def)
  then show ?thesis
    using bound_by_available[OF s(1,2)] s(3,4)
    by (auto simp: next_revision_ok MAX_DELIVERY_RECOVERY_REVISION_def max_def split: if_splits)
qed

section \<open>Witnesses\<close>

definition sample_delivery :: scale_set_delivery where
  "sample_delivery =
     \<lparr>dl_schema_version = 1, dl_message_id = 7,
      dl_statistics = \<lparr>ds_available_jobs = 1, ds_acquired_jobs = 0, ds_assigned_jobs = 0,
        ds_running_jobs = 0, ds_registered_runners = 0, ds_busy_runners = 0, ds_idle_runners = 0\<rparr>,
      dl_available_request_ids = [7],
      dl_events = [EventAvailable \<lparr>dj_runner_request_id = 7, dj_repository = ''repo'',
        dj_owner = ''owner'', dj_job_id = ''job'', dj_workflow_run_id = 5,
        dj_request_labels = [''linux'']\<rparr>]\<rparr>"

definition sample_env :: "(unit, string) recovery_env" where
  "sample_env =
     \<lparr>env_catalog_json = sample_json, env_delivery_to_json = (\<lambda>_. Inr ''d''),
      env_sha256_hex = (\<lambda>_. replicate 64 (CHR ''0''))\<rparr>"

definition sample_state :: "nat \<Rightarrow> recovery_phase \<Rightarrow> recovery_state" where
  "sample_state n phase =
     (let digest = Sha256Digest (''sha256:'' @ replicate 64 (CHR ''0'')) in
      \<lparr>rec_schema_version = 4, rec_revision = n,
       rec_prior_catalog_revision = DisposableAttemptCatalogRevision 2,
       rec_prior_catalog_digest = digest,
       rec_catalog_revision = DisposableAttemptCatalogRevision 2, rec_catalog_digest = digest,
       rec_delivery = sample_delivery, rec_phase = phase\<rparr>)"

abbreviation sample_settled :: recovery_phase where
  "sample_settled \<equiv> SettlementPrepared ProofAcknowledged [ScaleSetRunnerRequestId 7] sample_catalog
     (DisposableAttemptCatalogRevision 2) (Sha256Digest (''sha256:'' @ replicate 64 (CHR ''0'')))"

lemma sample_digest:
  "catalog_digest sample_env sample_catalog = Inr (Sha256Digest (''sha256:'' @ replicate 64 (CHR ''0'')))"
  using sample_encoded
  by (simp add: catalog_digest_def sample_env_def sha256_digest_parse_def is_lower_hex_def byte_simps
      list_all_iff)

lemma sample_delivery_encoded:
  "encode_scale_set_delivery (env_delivery_to_json sample_env) sample_delivery = Inr ''d''"
proof -
  have "delivery_validate sample_delivery = Inr ()"
    by (simp add: delivery_validate_ok sample_delivery_def SCALE_SET_DELIVERY_SCHEMA_VERSION_def
        MAX_SCALE_SET_DELIVERY_EVENTS_def statistics_validate_def delivery_job_validate_def
        job_id_parse_def bounded_token_def MAX_TOKEN_BYTES_def MAX_SCALE_SET_DELIVERY_LABELS_def
        byte_simps)
  then show ?thesis
    by (simp add: encode_scale_set_delivery_def sample_env_def MAX_SCALE_SET_DELIVERY_BYTES_def)
qed

lemma sample_available: "dl_available_request_ids sample_delivery = [7]"
  by (simp add: sample_delivery_def)

lemma sample_revision: "cd_revision sample_catalog = DisposableAttemptCatalogRevision 2"
  by (simp add: sample_catalog_def example_catalog_def)

lemma sample_states_valid:
  "recovery_validate sample_env (sample_state 1 Reconciled) = Inr ()"
  "recovery_validate sample_env (sample_state 2 AcknowledgementStarted) = Inr ()"
  "recovery_validate sample_env (sample_state 3 (Acknowledged [ScaleSetRunnerRequestId 7])) = Inr ()"
  "recovery_validate sample_env (sample_state 4 sample_settled) = Inr ()"
  by (subst recovery_validate.simps,
      simp add: sample_state_def sample_delivery_encoded MAX_DELIVERY_RECOVERY_REVISION_def
        SCALE_SET_DELIVERY_RECOVERY_SCHEMA_VERSION_def acquired_exact_ok matches_catalog_def
        sample_digest sample_revision available_set_def sample_available Let_def)+

lemma sample_start:
  "recovery_reconciled sample_env sample_delivery sample_catalog sample_catalog =
     Inr (sample_state 1 Reconciled)"
  using sample_states_valid(1)
  by (simp add: recovery_reconciled_def sample_digest sample_revision sample_state_def Let_def
      SCALE_SET_DELIVERY_RECOVERY_SCHEMA_VERSION_def)

lemma sample_ops:
  "run_recovery_op sample_env (sample_state 1 Reconciled) OpBeginAck =
     Inr (sample_state 2 AcknowledgementStarted)"
  "run_recovery_op sample_env (sample_state 2 AcknowledgementStarted)
     (OpAckResponse [ScaleSetRunnerRequestId 7]) =
     Inr (sample_state 3 (Acknowledged [ScaleSetRunnerRequestId 7]))"
  "run_recovery_op sample_env (sample_state 3 (Acknowledged [ScaleSetRunnerRequestId 7]))
     (OpSettlement sample_catalog sample_catalog) = Inr (sample_state 4 sample_settled)"
proof -
  have v: "validated_acquired (sample_state n phase) [ScaleSetRunnerRequestId 7] =
      Inr [ScaleSetRunnerRequestId 7]" for n phase
    by (simp add: validated_acquired_ok sample_state_def sample_available available_set_def Let_def)
  have phase: "rec_phase (sample_state n phase) = phase"
    "rec_revision (sample_state n phase) = n"
    "(sample_state n phase)\<lparr>rec_revision := m, rec_phase := phase'\<rparr> = sample_state m phase'" for n m phase phase'
    by (simp_all add: sample_state_def Let_def)
  have match: "matches_catalog sample_env (sample_state n phase) sample_catalog" for n phase
    by (simp add: matches_catalog_def sample_digest sample_revision sample_state_def Let_def)
  show "run_recovery_op sample_env (sample_state 1 Reconciled) OpBeginAck =
     Inr (sample_state 2 AcknowledgementStarted)"
    using sample_states_valid(2)
    by (simp add: begin_ack_def phase recovery_successor_Inr MAX_DELIVERY_RECOVERY_REVISION_def
        numeral_2_eq_2)
  show "run_recovery_op sample_env (sample_state 2 AcknowledgementStarted)
     (OpAckResponse [ScaleSetRunnerRequestId 7]) =
     Inr (sample_state 3 (Acknowledged [ScaleSetRunnerRequestId 7]))"
    using sample_states_valid(3)
    by (simp add: record_ack_response_def v phase recovery_successor_Inr MAX_DELIVERY_RECOVERY_REVISION_def)
  show "run_recovery_op sample_env (sample_state 3 (Acknowledged [ScaleSetRunnerRequestId 7]))
     (OpSettlement sample_catalog sample_catalog) = Inr (sample_state 4 sample_settled)"
    using sample_states_valid(4)
    by (simp add: prepare_settlement_def match sample_digest prepare_settlement_binding_def phase
        recovery_successor_Inr sample_revision MAX_DELIVERY_RECOVERY_REVISION_def)
qed


theorem recovery_terminates_witness:
  "next_revision (sample_state 3 (Acknowledged [ScaleSetRunnerRequestId 7])) = Inr 4"
proof -
  have "recovery_step sample_env (sample_state 1 Reconciled) (sample_state 2 AcknowledgementStarted)"
    "recovery_step sample_env (sample_state 2 AcknowledgementStarted)
       (sample_state 3 (Acknowledged [ScaleSetRunnerRequestId 7]))"
    by (rule recovery_step.intros[OF sample_ops(1)] recovery_step.intros[OF sample_ops(2)],
        simp add: sample_state_def Let_def)+
  then have "(recovery_step sample_env ^^ 2) (sample_state 1 Reconciled)
      (sample_state 3 (Acknowledged [ScaleSetRunnerRequestId 7]))"
    by (auto simp: numeral_2_eq_2)
  from recovery_terminates[OF sample_start this] show ?thesis by simp
qed

end
