(* ===== verification/Recovery_Codec.thy ===== *)
theory Recovery_Codec
  imports Delivery_History
begin

text \<open>
  The durable document of a delivery recovery state, the second half of
  \<open>src/github_scale_set_delivery_state.rs\<close>: the wire records with the delivery and the catalogs
  embedded as JSON strings, their translation from and to the state, and the canonical encoder and
  decoder. serde is the parameter record \<open>recovery_codec\<close>; \<open>String::from_utf8\<close> is written out.
\<close>

section \<open>Wire records\<close>

definition MAX_SCALE_SET_DELIVERY_RECOVERY_BYTES :: nat where
  "MAX_SCALE_SET_DELIVERY_RECOVERY_BYTES =
     MAX_SCALE_SET_DELIVERY_BYTES * 4 + MAX_DISPOSABLE_ATTEMPT_CATALOG_DOCUMENT_BYTES * 4 + 64 * 1024"

record lifecycle_resolution_wire =
  lw_base_revision :: nat
  lw_delivery_json :: string
  lw_acquired_request_ids :: "nat list"
  lw_prior_catalog_json :: string
  lw_catalog_revision :: nat
  lw_catalog_digest :: string

datatype settlement_proof_wire =
    ProofWireAcknowledged
  | ProofWireAcquisitionRecovery
  | ProofWireLifecycleEvidence lifecycle_resolution_wire

datatype recovery_phase_wire =
    WireReconciled
  | WireAcknowledgementStarted
  | WireAcknowledged "nat list"
  | WireAcquisitionRecoveryObserved "nat list"
  | WireLifecycleReconciled lifecycle_resolution_wire
  | WireLifecycleAcknowledgementStarted lifecycle_resolution_wire
  | WireLifecycleAcknowledged lifecycle_resolution_wire
  | WireSettlementPrepared settlement_proof_wire "nat list" string nat string

record recovery_wire =
  yw_schema_version :: nat
  yw_revision :: nat
  yw_prior_catalog_revision :: nat
  yw_prior_catalog_digest :: string
  yw_catalog_revision :: nat
  yw_catalog_digest :: string
  yw_delivery_json :: string
  yw_phase :: recovery_phase_wire

record ('j, 'v) recovery_codec =
  rj_env :: "('j, 'v) recovery_env"
  rj_delivery_version :: "string \<Rightarrow> 'j + nat"
  rj_delivery_from_slice :: "string \<Rightarrow> 'j + scale_set_delivery"
  rj_version :: "string \<Rightarrow> 'j + nat"
  rj_from_slice :: "string \<Rightarrow> 'j + recovery_wire"
  rj_to_vec :: "recovery_wire \<Rightarrow> 'j + string"

section \<open>UTF-8\<close>

text \<open>
  \<open>String::from_utf8\<close>: one to four bytes per character, no overlong form, no surrogate and
  nothing past U+10FFFF.
\<close>

definition utf8_continuation :: "nat \<Rightarrow> bool" where
  "utf8_continuation b \<longleftrightarrow> 128 \<le> b \<and> b \<le> 191"

definition utf8_second :: "nat \<Rightarrow> nat \<Rightarrow> bool" where
  "utf8_second a b \<longleftrightarrow>
     (if a = 224 then 160 \<le> b \<and> b \<le> 191
      else if a = 237 then 128 \<le> b \<and> b \<le> 159
      else if a = 240 then 144 \<le> b \<and> b \<le> 191
      else if a = 244 then 128 \<le> b \<and> b \<le> 143
      else utf8_continuation b)"

fun valid_utf8 :: "nat list \<Rightarrow> bool" where
  "valid_utf8 [] = True"
| "valid_utf8 (a # rest) =
     (if a \<le> 127 then valid_utf8 rest
      else if 194 \<le> a \<and> a \<le> 223 then
        (case rest of b # others \<Rightarrow> utf8_continuation b \<and> valid_utf8 others | _ \<Rightarrow> False)
      else if 224 \<le> a \<and> a \<le> 239 then
        (case rest of b # c # others \<Rightarrow> utf8_second a b \<and> utf8_continuation c \<and> valid_utf8 others
         | _ \<Rightarrow> False)
      else if 240 \<le> a \<and> a \<le> 244 then
        (case rest of b # c # d # others \<Rightarrow>
           utf8_second a b \<and> utf8_continuation c \<and> utf8_continuation d \<and> valid_utf8 others
         | _ \<Rightarrow> False)
      else False)"

definition string_from_utf8 :: "string \<Rightarrow> recovery_error + string" where
  "string_from_utf8 bytes =
     (if valid_utf8 (map of_char bytes) then Inr bytes else Inl RecoveryCorruptState)"

section \<open>From the state to the wire\<close>

definition delivery_json_string ::
  "('j, 'v) recovery_codec \<Rightarrow> scale_set_delivery \<Rightarrow> recovery_error + string" where
  "delivery_json_string codec d =
     try_res (map_err (\<lambda>_. RecoveryCorruptState)
       (encode_scale_set_delivery (env_delivery_to_json (rj_env codec)) d)) string_from_utf8"

definition catalog_json_string ::
  "('j, 'v) recovery_codec \<Rightarrow> catalog_document \<Rightarrow> recovery_error + string" where
  "catalog_json_string codec d =
     try_res (map_err (\<lambda>_. RecoveryCorruptState)
       (encode_disposable_attempt_catalog (env_catalog_json (rj_env codec)) d)) string_from_utf8"

definition from_resolution ::
  "('j, 'v) recovery_codec \<Rightarrow> lifecycle_resolution \<Rightarrow> recovery_error + lifecycle_resolution_wire" where
  "from_resolution codec r =
     try_res (delivery_json_string codec (lx_delivery r)) (\<lambda>delivery_json.
     try_res (catalog_json_string codec (lx_prior_catalog r)) (\<lambda>prior_catalog_json.
     Inr \<lparr>lw_base_revision = lx_base_revision r,
          lw_delivery_json = delivery_json,
          lw_acquired_request_ids = map runner_request_id_get (lx_acquired r),
          lw_prior_catalog_json = prior_catalog_json,
          lw_catalog_revision = catalog_revision_get (lx_catalog_revision r),
          lw_catalog_digest = sha256_str (lx_catalog_digest r)\<rparr>))"

fun from_proof ::
  "('j, 'v) recovery_codec \<Rightarrow> settlement_proof \<Rightarrow> recovery_error + settlement_proof_wire" where
  "from_proof codec ProofAcknowledged = Inr ProofWireAcknowledged"
| "from_proof codec ProofAcquisitionRecovery = Inr ProofWireAcquisitionRecovery"
| "from_proof codec (ProofLifecycleEvidence r) =
     try_res (from_resolution codec r) (\<lambda>w. Inr (ProofWireLifecycleEvidence w))"

fun from_phase ::
  "('j, 'v) recovery_codec \<Rightarrow> recovery_phase \<Rightarrow> recovery_error + recovery_phase_wire" where
  "from_phase codec Reconciled = Inr WireReconciled"
| "from_phase codec AcknowledgementStarted = Inr WireAcknowledgementStarted"
| "from_phase codec (Acknowledged acquired) =
     Inr (WireAcknowledged (map runner_request_id_get acquired))"
| "from_phase codec (AcquisitionRecoveryObserved acquired) =
     Inr (WireAcquisitionRecoveryObserved (map runner_request_id_get acquired))"
| "from_phase codec (LifecycleReconciled r) =
     try_res (from_resolution codec r) (\<lambda>w. Inr (WireLifecycleReconciled w))"
| "from_phase codec (LifecycleAcknowledgementStarted r) =
     try_res (from_resolution codec r) (\<lambda>w. Inr (WireLifecycleAcknowledgementStarted w))"
| "from_phase codec (LifecycleAcknowledged r) =
     try_res (from_resolution codec r) (\<lambda>w. Inr (WireLifecycleAcknowledged w))"
| "from_phase codec (SettlementPrepared evidence acquired prior_catalog revision digest) =
     try_res (from_proof codec evidence) (\<lambda>evidence_wire.
     try_res (catalog_json_string codec prior_catalog) (\<lambda>prior_catalog_json.
     Inr (WireSettlementPrepared evidence_wire (map runner_request_id_get acquired) prior_catalog_json
            (catalog_revision_get revision) (sha256_str digest))))"

definition from_state ::
  "('j, 'v) recovery_codec \<Rightarrow> recovery_state \<Rightarrow> recovery_error + recovery_wire" where
  "from_state codec s =
     try_res (delivery_json_string codec (rec_delivery s)) (\<lambda>delivery_json.
     try_res (from_phase codec (rec_phase s)) (\<lambda>phase.
     Inr \<lparr>yw_schema_version = rec_schema_version s, yw_revision = rec_revision s,
          yw_prior_catalog_revision = catalog_revision_get (rec_prior_catalog_revision s),
          yw_prior_catalog_digest = sha256_str (rec_prior_catalog_digest s),
          yw_catalog_revision = catalog_revision_get (rec_catalog_revision s),
          yw_catalog_digest = sha256_str (rec_catalog_digest s),
          yw_delivery_json = delivery_json, yw_phase = phase\<rparr>))"

section \<open>From the wire to the state\<close>

abbreviation corrupt :: "'e + 'a \<Rightarrow> recovery_error + 'a" where
  "corrupt \<equiv> map_err (\<lambda>_. RecoveryCorruptState)"

definition parse_request_ids :: "nat list \<Rightarrow> recovery_error + request_ids" where
  "parse_request_ids xs = collect_results (\<lambda>x. corrupt (runner_request_id_new x)) xs"

definition decode_delivery_json ::
  "('j, 'v) recovery_codec \<Rightarrow> string \<Rightarrow> recovery_error + scale_set_delivery" where
  "decode_delivery_json codec bytes =
     corrupt (decode_scale_set_delivery (env_delivery_to_json (rj_env codec))
       (rj_delivery_version codec) (rj_delivery_from_slice codec) bytes)"

definition decode_catalog_json ::
  "('j, 'v) recovery_codec \<Rightarrow> string \<Rightarrow> recovery_error + catalog_document" where
  "decode_catalog_json codec bytes =
     corrupt (decode_disposable_attempt_catalog (env_catalog_json (rj_env codec)) bytes)"

definition into_resolution ::
  "('j, 'v) recovery_codec \<Rightarrow> lifecycle_resolution_wire \<Rightarrow> recovery_error + lifecycle_resolution" where
  "into_resolution codec w =
     try_res (decode_delivery_json codec (lw_delivery_json w)) (\<lambda>delivery.
     try_res (parse_request_ids (lw_acquired_request_ids w)) (\<lambda>acquired.
     try_res (decode_catalog_json codec (lw_prior_catalog_json w)) (\<lambda>prior_catalog.
     try_res (corrupt (catalog_revision_new (lw_catalog_revision w))) (\<lambda>revision.
     try_res (corrupt (sha256_digest_parse (lw_catalog_digest w))) (\<lambda>digest.
     Inr \<lparr>lx_base_revision = lw_base_revision w, lx_delivery = delivery, lx_acquired = acquired,
          lx_prior_catalog = prior_catalog, lx_catalog_revision = revision,
          lx_catalog_digest = digest\<rparr>)))))"

fun into_proof ::
  "('j, 'v) recovery_codec \<Rightarrow> settlement_proof_wire \<Rightarrow> recovery_error + settlement_proof" where
  "into_proof codec ProofWireAcknowledged = Inr ProofAcknowledged"
| "into_proof codec ProofWireAcquisitionRecovery = Inr ProofAcquisitionRecovery"
| "into_proof codec (ProofWireLifecycleEvidence w) =
     try_res (into_resolution codec w) (\<lambda>r. Inr (ProofLifecycleEvidence r))"

fun into_phase ::
  "('j, 'v) recovery_codec \<Rightarrow> recovery_phase_wire \<Rightarrow> recovery_error + recovery_phase" where
  "into_phase codec WireReconciled = Inr Reconciled"
| "into_phase codec WireAcknowledgementStarted = Inr AcknowledgementStarted"
| "into_phase codec (WireAcknowledged ids) =
     try_res (parse_request_ids ids) (\<lambda>acquired. Inr (Acknowledged acquired))"
| "into_phase codec (WireAcquisitionRecoveryObserved ids) =
     try_res (parse_request_ids ids) (\<lambda>acquired. Inr (AcquisitionRecoveryObserved acquired))"
| "into_phase codec (WireLifecycleReconciled w) =
     try_res (into_resolution codec w) (\<lambda>r. Inr (LifecycleReconciled r))"
| "into_phase codec (WireLifecycleAcknowledgementStarted w) =
     try_res (into_resolution codec w) (\<lambda>r. Inr (LifecycleAcknowledgementStarted r))"
| "into_phase codec (WireLifecycleAcknowledged w) =
     try_res (into_resolution codec w) (\<lambda>r. Inr (LifecycleAcknowledged r))"
| "into_phase codec (WireSettlementPrepared evidence_wire ids prior_catalog_json revision digest) =
     try_res (into_proof codec evidence_wire) (\<lambda>evidence.
     try_res (parse_request_ids ids) (\<lambda>acquired.
     try_res (decode_catalog_json codec prior_catalog_json) (\<lambda>prior_catalog.
     try_res (corrupt (catalog_revision_new revision)) (\<lambda>catalog_revision.
     try_res (corrupt (sha256_digest_parse digest)) (\<lambda>catalog_digest.
     Inr (SettlementPrepared evidence acquired prior_catalog catalog_revision catalog_digest))))))"

definition into_state ::
  "('j, 'v) recovery_codec \<Rightarrow> recovery_wire \<Rightarrow> recovery_error + recovery_state" where
  "into_state codec w =
     try_res (decode_delivery_json codec (yw_delivery_json w)) (\<lambda>delivery.
     try_res (corrupt (catalog_revision_new (yw_prior_catalog_revision w))) (\<lambda>prior_revision.
     try_res (corrupt (sha256_digest_parse (yw_prior_catalog_digest w))) (\<lambda>prior_digest.
     try_res (corrupt (catalog_revision_new (yw_catalog_revision w))) (\<lambda>revision.
     try_res (corrupt (sha256_digest_parse (yw_catalog_digest w))) (\<lambda>digest.
     try_res (into_phase codec (yw_phase w)) (\<lambda>phase.
     let s = \<lparr>rec_schema_version = yw_schema_version w, rec_revision = yw_revision w,
              rec_prior_catalog_revision = prior_revision, rec_prior_catalog_digest = prior_digest,
              rec_catalog_revision = revision, rec_catalog_digest = digest,
              rec_delivery = delivery, rec_phase = phase\<rparr>
     in try_res (recovery_validate (rj_env codec) s) (\<lambda>_. Inr s)))))))"

section \<open>The canonical document\<close>

definition encode_scale_set_delivery_recovery ::
  "('j, 'v) recovery_codec \<Rightarrow> recovery_state \<Rightarrow> recovery_error + string" where
  "encode_scale_set_delivery_recovery codec s =
     try_res (recovery_validate (rj_env codec) s) (\<lambda>_.
     try_res (from_state codec s) (\<lambda>wire.
     try_res (map_err (\<lambda>_. RecoveryInvalidDocument) (rj_to_vec codec wire)) (\<lambda>bytes.
     if MAX_SCALE_SET_DELIVERY_RECOVERY_BYTES < length bytes then Inl RecoveryDocumentTooLarge
     else Inr bytes)))"

definition decode_scale_set_delivery_recovery ::
  "('j, 'v) recovery_codec \<Rightarrow> string \<Rightarrow> recovery_error + recovery_state" where
  "decode_scale_set_delivery_recovery codec bytes =
     (if MAX_SCALE_SET_DELIVERY_RECOVERY_BYTES < length bytes then Inl RecoveryDocumentTooLarge
      else
        try_res (map_err (\<lambda>_. RecoveryInvalidDocument) (rj_version codec bytes)) (\<lambda>version.
        if version \<noteq> SCALE_SET_DELIVERY_RECOVERY_SCHEMA_VERSION then Inl RecoveryVersionIncompatible
        else
          try_res (map_err (\<lambda>_. RecoveryInvalidDocument) (rj_from_slice codec bytes)) (\<lambda>wire.
          try_res (into_state codec wire) (\<lambda>s.
          try_res (recovery_validate (rj_env codec) s) (\<lambda>_.
          try_res (encode_scale_set_delivery_recovery codec s) (\<lambda>canonical.
          if canonical \<noteq> bytes then Inl RecoveryNonCanonical else Inr s))))))"

section \<open>Reading back what was written\<close>

text \<open>
  What the codec relies on serde for, and the values a state holds: each is a result of its own
  constructor, as the private fields ensure.
\<close>

definition recovery_json_faithful :: "('j, 'v) recovery_codec \<Rightarrow> bool" where
  "recovery_json_faithful codec \<longleftrightarrow>
     catalog_json_faithful (env_catalog_json (rj_env codec)) \<and>
     (\<forall>d bytes. env_delivery_to_json (rj_env codec) d = Inr bytes \<longrightarrow>
        rj_delivery_from_slice codec bytes = Inr d
        \<and> rj_delivery_version codec bytes = Inr (dl_schema_version d)) \<and>
     (\<forall>w bytes. rj_to_vec codec w = Inr bytes \<longrightarrow>
        rj_from_slice codec bytes = Inr w \<and> rj_version codec bytes = Inr (yw_schema_version w))"

definition binding_parsed :: "catalog_revision \<Rightarrow> sha256_digest \<Rightarrow> bool" where
  "binding_parsed revision digest \<longleftrightarrow>
     catalog_revision_new (catalog_revision_get revision) = Inr revision
     \<and> sha256_digest_parse (sha256_str digest) = Inr digest"

definition requests_parsed :: "request_ids \<Rightarrow> bool" where
  "requests_parsed ids \<longleftrightarrow> list_all (\<lambda>q. runner_request_id_new (runner_request_id_get q) = Inr q) ids"

definition embedded_catalog_parsed :: "('j, 'v) recovery_codec \<Rightarrow> catalog_document \<Rightarrow> bool" where
  "embedded_catalog_parsed codec d \<longleftrightarrow>
     catalog_parsed d
     \<and> (\<forall>s \<in> set (catalog_attempts d). attempt_json_faithful (env_catalog_json (rj_env codec)) s)"

definition resolution_parsed :: "('j, 'v) recovery_codec \<Rightarrow> lifecycle_resolution \<Rightarrow> bool" where
  "resolution_parsed codec r \<longleftrightarrow>
     requests_parsed (lx_acquired r) \<and> embedded_catalog_parsed codec (lx_prior_catalog r)
     \<and> binding_parsed (lx_catalog_revision r) (lx_catalog_digest r)"

fun proof_parsed :: "('j, 'v) recovery_codec \<Rightarrow> settlement_proof \<Rightarrow> bool" where
  "proof_parsed codec (ProofLifecycleEvidence r) = resolution_parsed codec r"
| "proof_parsed codec _ = True"

fun phase_parsed :: "('j, 'v) recovery_codec \<Rightarrow> recovery_phase \<Rightarrow> bool" where
  "phase_parsed codec Reconciled = True"
| "phase_parsed codec AcknowledgementStarted = True"
| "phase_parsed codec (Acknowledged acquired) = requests_parsed acquired"
| "phase_parsed codec (AcquisitionRecoveryObserved acquired) = requests_parsed acquired"
| "phase_parsed codec (LifecycleReconciled r) = resolution_parsed codec r"
| "phase_parsed codec (LifecycleAcknowledgementStarted r) = resolution_parsed codec r"
| "phase_parsed codec (LifecycleAcknowledged r) = resolution_parsed codec r"
| "phase_parsed codec (SettlementPrepared evidence acquired prior revision digest) \<longleftrightarrow>
     proof_parsed codec evidence \<and> requests_parsed acquired \<and> embedded_catalog_parsed codec prior
     \<and> binding_parsed revision digest"

definition recovery_parsed :: "('j, 'v) recovery_codec \<Rightarrow> recovery_state \<Rightarrow> bool" where
  "recovery_parsed codec s \<longleftrightarrow>
     binding_parsed (rec_prior_catalog_revision s) (rec_prior_catalog_digest s)
     \<and> binding_parsed (rec_catalog_revision s) (rec_catalog_digest s)
     \<and> phase_parsed codec (rec_phase s)"

lemma string_from_utf8_Inr [simp]:
  "string_from_utf8 bytes = Inr t \<longleftrightarrow> t = bytes \<and> valid_utf8 (map of_char bytes)"
  by (auto simp: string_from_utf8_def)

lemma delivery_json_inverse:
  assumes "recovery_json_faithful codec" and "delivery_json_string codec d = Inr t"
  shows "decode_delivery_json codec t = Inr d"
proof -
  have enc: "encode_scale_set_delivery (env_delivery_to_json (rj_env codec)) d = Inr t"
    using assms(2) by (auto simp: delivery_json_string_def)
  then have "env_delivery_to_json (rj_env codec) d = Inr t"
    by (auto simp: encode_scale_set_delivery_def split: if_splits)
  then show ?thesis
    using delivery_roundtrip[OF enc] assms(1)
    by (simp add: decode_delivery_json_def recovery_json_faithful_def)
qed

lemma catalog_json_inverse:
  assumes "recovery_json_faithful codec" and "embedded_catalog_parsed codec d"
    and "catalog_json_string codec d = Inr t"
  shows "decode_catalog_json codec t = Inr d"
proof -
  have "encode_disposable_attempt_catalog (env_catalog_json (rj_env codec)) d = Inr t"
    using assms(3) by (auto simp: catalog_json_string_def)
  then show ?thesis
    using catalog_decode_of_encode[of "env_catalog_json (rj_env codec)" d t] assms(1,2)
    by (auto simp: decode_catalog_json_def recovery_json_faithful_def embedded_catalog_parsed_def)
qed

lemma request_ids_inverse:
  "requests_parsed ids \<Longrightarrow> parse_request_ids (map runner_request_id_get ids) = Inr ids"
  unfolding parse_request_ids_def by (induction ids) (auto simp: requests_parsed_def)

lemmas wire_inverse = delivery_json_inverse catalog_json_inverse request_ids_inverse

lemma resolution_inverse:
  assumes "recovery_json_faithful codec" and "resolution_parsed codec r"
    and "from_resolution codec r = Inr w"
  shows "into_resolution codec w = Inr r"
  using assms
  by (auto simp: from_resolution_def into_resolution_def resolution_parsed_def binding_parsed_def
      wire_inverse)

lemma proof_inverse:
  assumes "recovery_json_faithful codec" and "proof_parsed codec p" and "from_proof codec p = Inr w"
  shows "into_proof codec w = Inr p"
  using assms by (cases p) (auto simp: resolution_inverse)

lemma phase_inverse:
  assumes "recovery_json_faithful codec" and "phase_parsed codec p" and "from_phase codec p = Inr w"
  shows "into_phase codec w = Inr p"
  using assms
  by (cases p) (auto simp: resolution_inverse proof_inverse wire_inverse binding_parsed_def)

lemma state_inverse:
  assumes "recovery_json_faithful codec" and "recovery_parsed codec s"
    and "recovery_validate (rj_env codec) s = Inr ()" and "from_state codec s = Inr w"
  shows "into_state codec w = Inr s"
  using assms
  by (cases s) (auto simp: from_state_def into_state_def recovery_parsed_def binding_parsed_def phase_inverse
      delivery_json_inverse Let_def)

lemma recovery_decode_of_encode:
  assumes json: "recovery_json_faithful codec" and parsed: "recovery_parsed codec s"
    and enc: "encode_scale_set_delivery_recovery codec s = Inr bytes"
  shows "decode_scale_set_delivery_recovery codec bytes = Inr s"
proof -
  from enc obtain w where valid: "recovery_validate (rj_env codec) s = Inr ()"
    and w: "from_state codec s = Inr w" and bytes: "rj_to_vec codec w = Inr bytes"
    and len: "length bytes \<le> MAX_SCALE_SET_DELIVERY_RECOVERY_BYTES"
    by (auto simp: encode_scale_set_delivery_recovery_def split: if_splits)
  have "yw_schema_version w = rec_schema_version s"
    using w by (auto simp: from_state_def)
  moreover have "rec_schema_version s = SCALE_SET_DELIVERY_RECOVERY_SCHEMA_VERSION"
    using valid by (subst (asm) recovery_validate.simps) (auto split: if_splits)
  moreover have "into_state codec w = Inr s"
    by (rule state_inverse[OF json parsed valid w])
  ultimately show ?thesis
    using json bytes len enc valid
    by (simp add: decode_scale_set_delivery_recovery_def recovery_json_faithful_def)
qed

lemma recovery_encode_of_decode:
  "decode_scale_set_delivery_recovery codec bytes = Inr s \<Longrightarrow>
     encode_scale_set_delivery_recovery codec s = Inr bytes"
  by (auto simp: decode_scale_set_delivery_recovery_def split: if_splits)

section \<open>Properties\<close>

text \<open>
  C18. The durable recovery document is exact. With a JSON layer that reads back what it wrote, bytes
  decode to a recovery state exactly when they are the encoding of that state, with the delivery
  and every catalog it embeds; a state that fails validation is neither written nor read.
\<close>
theorem recovery_codec_exact:
  fixes codec :: "('j, 'v) recovery_codec"
  assumes json: "recovery_json_faithful codec" and parsed: "recovery_parsed codec s"
  shows "(decode_scale_set_delivery_recovery codec bytes = Inr s
          \<longleftrightarrow> encode_scale_set_delivery_recovery codec s = Inr bytes)
       \<and> (encode_scale_set_delivery_recovery codec s = Inr bytes
          \<longrightarrow> recovery_validate (rj_env codec) s = Inr ())"
proof -
  have "recovery_validate (rj_env codec) s = Inr ()"
    if "encode_scale_set_delivery_recovery codec s = Inr bytes"
    using that by (auto simp: encode_scale_set_delivery_recovery_def)
  then show ?thesis
    using recovery_decode_of_encode[OF json parsed] recovery_encode_of_decode by metis
qed

text \<open>A JSON layer that knows the document of one settled delivery, for the witness.\<close>

definition settled_wire :: recovery_wire where
  "settled_wire =
     \<lparr>yw_schema_version = 4, yw_revision = 4, yw_prior_catalog_revision = 2,
      yw_prior_catalog_digest = ''sha256:'' @ replicate 64 (CHR ''0''), yw_catalog_revision = 2,
      yw_catalog_digest = ''sha256:'' @ replicate 64 (CHR ''0''), yw_delivery_json = ''d'',
      yw_phase = WireSettlementPrepared ProofWireAcknowledged [7] ''c'' 2
        (''sha256:'' @ replicate 64 (CHR ''0''))\<rparr>"

definition sample_codec :: "(unit, string) recovery_codec" where
  "sample_codec =
     \<lparr>rj_env = sample_env\<lparr>env_delivery_to_json := \<lambda>d. if d = sample_delivery then Inr ''d'' else Inl ()\<rparr>,
      rj_delivery_version = (\<lambda>_. Inr (dl_schema_version sample_delivery)),
      rj_delivery_from_slice = (\<lambda>_. Inr sample_delivery),
      rj_version = (\<lambda>_. Inr 4), rj_from_slice = (\<lambda>_. Inr settled_wire),
      rj_to_vec = (\<lambda>w. if w = settled_wire then Inr ''r'' else Inl ())\<rparr>"

lemma codec_delivery_encoded:
  "encode_scale_set_delivery (env_delivery_to_json (rj_env sample_codec)) sample_delivery = Inr ''d''"
  using sample_delivery_encoded
  by (auto simp: encode_scale_set_delivery_def sample_codec_def sample_env_def split: if_splits)

lemma codec_catalog: "env_catalog_json (rj_env sample_codec) = sample_json"
  by (simp add: sample_codec_def sample_env_def)

lemma codec_digest: "catalog_digest (rj_env sample_codec) = catalog_digest sample_env"
proof -
  have same: "env_sha256_hex (rj_env sample_codec) = env_sha256_hex sample_env"
    "env_catalog_json (rj_env sample_codec) = env_catalog_json sample_env"
    by (simp_all add: sample_codec_def)
  show ?thesis unfolding fun_eq_iff catalog_digest_def same by (rule allI) (rule refl)
qed

lemma settled_valid:
  "recovery_validate (rj_env sample_codec) (sample_state 4 sample_settled) = Inr ()"
proof -
  have "catalog_digest (rj_env sample_codec) sample_catalog
      = Inr (Sha256Digest (''sha256:'' @ replicate 64 (CHR ''0'')))"
    using sample_digest codec_digest by simp
  then show ?thesis
    by (subst recovery_validate.simps,
        simp add: sample_state_def codec_delivery_encoded MAX_DELIVERY_RECOVERY_REVISION_def
          SCALE_SET_DELIVERY_RECOVERY_SCHEMA_VERSION_def acquired_exact_ok matches_catalog_def
          sample_revision available_set_def sample_available Let_def)
qed

lemma settled_encoded:
  "encode_scale_set_delivery_recovery sample_codec (sample_state 4 sample_settled) = Inr ''r''"
proof -
  have "from_state sample_codec (sample_state 4 sample_settled) = Inr settled_wire"
    by (simp add: from_state_def delivery_json_string_def catalog_json_string_def codec_catalog
        sample_encoded codec_delivery_encoded sample_state_def settled_wire_def string_from_utf8_def
        Let_def)
  moreover have "rj_to_vec sample_codec settled_wire = Inr ''r''"
    by (simp add: sample_codec_def)
  ultimately show ?thesis
    using settled_valid
    by (simp add: encode_scale_set_delivery_recovery_def MAX_SCALE_SET_DELIVERY_RECOVERY_BYTES_def)
qed

lemma settled_parsed: "recovery_parsed sample_codec (sample_state 4 sample_settled)"
proof -
  have "binding_parsed (DisposableAttemptCatalogRevision 2)
      (Sha256Digest (''sha256:'' @ replicate 64 (CHR ''0'')))"
    by (simp add: binding_parsed_def catalog_revision_new_def sha256_digest_parse_def is_lower_hex_def
        MAX_DISPOSABLE_ATTEMPT_CATALOG_REVISION_def byte_simps list_all_iff)
  moreover have "embedded_catalog_parsed sample_codec sample_catalog"
    using sample_parsed
    by (simp add: embedded_catalog_parsed_def codec_catalog)
       (simp add: attempt_json_faithful_def sample_json_def sample_catalog_def
        example_catalog_def catalog_empty_def sample_reservation_def example_reservation_def
        example_attempt_schema DISPOSABLE_ATTEMPT_STATE_SCHEMA_VERSION_def)
  ultimately show ?thesis
    by (simp add: recovery_parsed_def sample_state_def requests_parsed_def runner_request_id_new_def Let_def)
qed

theorem recovery_codec_exact_witness:
  "decode_scale_set_delivery_recovery sample_codec ''r'' = Inr (sample_state 4 sample_settled)"
proof -
  have "recovery_json_faithful sample_codec"
    by (simp add: recovery_json_faithful_def catalog_json_faithful_def sample_codec_def sample_env_def
        sample_json_def sample_wire_def settled_wire_def)
  then show ?thesis
    using recovery_codec_exact[OF _ settled_parsed] settled_encoded by blast
qed

end
