(* ===== verification/Unix_Catalog_Store.thy ===== *)
theory Unix_Catalog_Store
  imports Store_Io Recovery_Codec Attempt_Store
begin

text \<open>
  The disposable-attempt catalog in the private store directory,
  \<open>src/unix_personal_worker_store/disposable_attempt_catalog.rs\<close>, and the checks by which its
  mutations refuse to run while a neighbouring document is unsettled: the personal-worker document
  (\<open>recovery_plan\<close> of \<open>src/unix_personal_worker_store.rs\<close>), the template generation and the Lima
  authority.

  The codecs of the personal-worker document and of the Lima authority are parameters of the record
  \<open>unix_env\<close>; the catalog and delivery codecs are those of \<open>Catalog_Codec\<close> and \<open>Recovery_Codec\<close>.
\<close>

section \<open>The store and its neighbours\<close>

definition CURRENT_DOCUMENT :: string where "CURRENT_DOCUMENT = ''current.json''"
definition STAGED_DOCUMENT :: string where "STAGED_DOCUMENT = ''.next.json''"
definition CATALOG_DOCUMENT :: string where "CATALOG_DOCUMENT = ''disposable-attempt-catalog.json''"
definition STAGED_CATALOG_DOCUMENT :: string where
  "STAGED_CATALOG_DOCUMENT = ''.disposable-attempt-catalog.next.json''"
definition DELIVERY_RECOVERY_DOCUMENT :: string where
  "DELIVERY_RECOVERY_DOCUMENT = ''scale-set-delivery-recovery.json''"
definition STAGED_DELIVERY_RECOVERY_DOCUMENT :: string where
  "STAGED_DELIVERY_RECOVERY_DOCUMENT = ''.scale-set-delivery-recovery.next.json''"
definition STAGED_GENERATION_DOCUMENT :: string where
  "STAGED_GENERATION_DOCUMENT = ''.disposable-template-generation.next.json''"
definition AUTHORITY_DOCUMENT :: string where "AUTHORITY_DOCUMENT = ''lima-authority.json''"
definition STAGED_AUTHORITY_DOCUMENT :: string where
  "STAGED_AUTHORITY_DOCUMENT = ''.lima-authority.next.json''"

definition MAX_PERSONAL_WORKER_STORE_BYTES :: nat where "MAX_PERSONAL_WORKER_STORE_BYTES = 1048576"
definition MAX_DISPOSABLE_TEMPLATE_GENERATION_BYTES :: nat where
  "MAX_DISPOSABLE_TEMPLATE_GENERATION_BYTES = 16384"
definition MAX_PERSONAL_WORKER_LIMA_AUTHORITY_BYTES :: nat where
  "MAX_PERSONAL_WORKER_LIMA_AUTHORITY_BYTES = 16384"

record ('j, 'v, 'p, 'l) unix_env =
  ux_owner :: identity
  ux_codec :: "('j, 'v) recovery_codec"
  ux_worker_decode :: "string \<Rightarrow> store_error_kind + 'p"
  ux_worker_revision :: "'p \<Rightarrow> nat"
  ux_worker_history_empty :: "'p \<Rightarrow> bool"
  ux_worker_successor :: "'p \<Rightarrow> 'p \<Rightarrow> bool"
  ux_authority_decode :: "string \<Rightarrow> bool + 'l"
  ux_authority_attempt :: "'l \<Rightarrow> bool"

abbreviation ux_recovery_env :: "('j, 'v, 'p, 'l) unix_env \<Rightarrow> ('j, 'v) recovery_env" where
  "ux_recovery_env env \<equiv> rj_env (ux_codec env)"

abbreviation ux_catalog_json :: "('j, 'v, 'p, 'l) unix_env \<Rightarrow> ('j, 'v) catalog_json" where
  "ux_catalog_json env \<equiv> env_catalog_json (ux_recovery_env env)"

definition option_decoded :: "(string \<Rightarrow> 'e + 'a) \<Rightarrow> string option \<Rightarrow> 'e + 'a option" where
  "option_decoded decode found =
     (case found of None \<Rightarrow> Inr None | Some bytes \<Rightarrow> try_res (decode bytes) (\<lambda>d. Inr (Some d)))"

definition load_named ::
  "('j, 'v, 'p, 'l) unix_env \<Rightarrow> string \<Rightarrow> (store_error_kind, 'p option) io" where
  "load_named env n =
     io_try (read_named_bytes_bounded (ux_owner env) n MAX_PERSONAL_WORKER_STORE_BYTES) (\<lambda>found.
     io_result (option_decoded (ux_worker_decode env) found))"

datatype store_recovery_plan =
    PlanClean "nat option"
  | PlanPublishStaged nat bool
  | PlanRemoveStaleStaged nat

definition recovery_plan ::
  "('j, 'v, 'p, 'l) unix_env \<Rightarrow> (store_error_kind, store_recovery_plan) io" where
  "recovery_plan env =
     io_try (load_named env STAGED_DOCUMENT) (\<lambda>found.
     case found of
       None \<Rightarrow>
         io_try (load_named env CURRENT_DOCUMENT) (\<lambda>current.
         ret (PlanClean (map_option (ux_worker_revision env) current)))
     | Some staged \<Rightarrow>
         io_try (load_named env CURRENT_DOCUMENT) (\<lambda>current.
         case current of
           None \<Rightarrow>
             if ux_worker_revision env staged \<noteq> 1 \<or> \<not> ux_worker_history_empty env staged
             then fail StoreCorruptState
             else ret (PlanPublishStaged (ux_worker_revision env staged) True)
         | Some current \<Rightarrow>
             if ux_worker_revision env staged \<le> ux_worker_revision env current
             then ret (PlanRemoveStaleStaged (ux_worker_revision env current))
             else if \<not> ux_worker_successor env staged current then fail StoreCorruptState
             else ret (PlanPublishStaged (ux_worker_revision env staged) False)))"

definition template_refuse_unsettled :: "('j, 'v, 'p, 'l) unix_env \<Rightarrow> (store_error_kind, unit) io" where
  "template_refuse_unsettled env =
     io_try (read_named_bytes_bounded (ux_owner env) STAGED_GENERATION_DOCUMENT
       MAX_DISPOSABLE_TEMPLATE_GENERATION_BYTES) (\<lambda>found.
     if found \<noteq> None then fail StoreRevisionConflict else ret ())"

text \<open>The error of the authority's decoder says whether its version was the problem.\<close>

definition load_authority ::
  "('j, 'v, 'p, 'l) unix_env \<Rightarrow> string \<Rightarrow> (store_error_kind, 'l option) io" where
  "load_authority env n =
     io_try (inspect_directory (Some (ux_owner env))) (\<lambda>_.
     io_try (sys_open n) (\<lambda>opened.
     case opened of
       Inl e \<Rightarrow> if e = NOENT then ret None else fail StoreIo
     | Inr i \<Rightarrow>
         io_try (inspect_private_file i (ux_owner env) None) (\<lambda>_.
         io_try (or_io (sys_read i (MAX_PERSONAL_WORKER_LIMA_AUTHORITY_BYTES + 1))) (\<lambda>bytes.
         if MAX_PERSONAL_WORKER_LIMA_AUTHORITY_BYTES < length bytes then fail StoreCorruptState
         else
           io_try (io_result (map_err
             (\<lambda>version. if version then StoreVersionIncompatible else StoreCorruptState)
             (ux_authority_decode env bytes))) (\<lambda>document.
           ret (Some document))))))"

definition refuse_unsettled_lima_authority ::
  "('j, 'v, 'p, 'l) unix_env \<Rightarrow> (store_error_kind, unit) io" where
  "refuse_unsettled_lima_authority env =
     io_try synchronize_directory (\<lambda>_.
     io_try (load_authority env STAGED_AUTHORITY_DOCUMENT) (\<lambda>staged.
     io_try (load_authority env AUTHORITY_DOCUMENT) (\<lambda>current.
     io_try (read_named_bytes_bounded (ux_owner env) CURRENT_DOCUMENT MAX_PERSONAL_WORKER_STORE_BYTES)
       (\<lambda>worker.
     if staged \<noteq> None
        \<or> (case current of None \<Rightarrow> False | Some document \<Rightarrow> ux_authority_attempt env document)
        \<or> (current \<noteq> None \<and> worker = None)
     then fail StoreRevisionConflict else ret ()))))"

text \<open>\<open>refuse_unsettled\<close> of the delivery documents: present in either form is unsettled.\<close>

definition delivery_refuse_unsettled ::
  "('j, 'v, 'p, 'l) unix_env \<Rightarrow> (store_error_kind, unit) io" where
  "delivery_refuse_unsettled env =
     io_try synchronize_directory (\<lambda>_.
     io_try (read_named_bytes_bounded (ux_owner env) STAGED_DELIVERY_RECOVERY_DOCUMENT
       MAX_SCALE_SET_DELIVERY_RECOVERY_BYTES) (\<lambda>staged.
     io_try (read_named_bytes_bounded (ux_owner env) DELIVERY_RECOVERY_DOCUMENT
       MAX_SCALE_SET_DELIVERY_RECOVERY_BYTES) (\<lambda>current.
     if staged \<noteq> None \<or> current \<noteq> None then fail StoreRevisionConflict else ret ())))"

section \<open>The catalog documents\<close>

fun map_personal_error :: "store_error_kind \<Rightarrow> catalog_error" where
  "map_personal_error StoreInvalidDocument = CatCorruptState"
| "map_personal_error StoreCorruptState = CatCorruptState"
| "map_personal_error StoreRevisionConflict = CatConflict"
| "map_personal_error StoreBusy = CatBusy"
| "map_personal_error StoreMissing = CatMissing"
| "map_personal_error StoreIo = CatIo"
| "map_personal_error StoreUnsafeFilesystem = CatUnsafeFilesystem"
| "map_personal_error StoreVersionIncompatible = CatVersionIncompatible"

definition map_codec_error :: "catalog_codec_error \<Rightarrow> catalog_error" where
  "map_codec_error e =
     (if e = CodecVersionIncompatible then CatVersionIncompatible else CatCorruptState)"

definition refused :: "store_error_kind \<Rightarrow> catalog_error" where
  "refused e = (if e = StoreRevisionConflict then CatRecoveryRequired else map_personal_error e)"

definition load_catalog_named ::
  "('j, 'v, 'p, 'l) unix_env \<Rightarrow> string \<Rightarrow> (catalog_error, catalog_document option) io" where
  "load_catalog_named env n =
     io_try (io_map_err map_personal_error (read_named_bytes_bounded (ux_owner env) n
       MAX_DISPOSABLE_ATTEMPT_CATALOG_DOCUMENT_BYTES)) (\<lambda>found.
     io_result (option_decoded
       (\<lambda>bytes. map_err map_codec_error (decode_disposable_attempt_catalog (ux_catalog_json env) bytes))
       found))"

datatype document_recovery_plan = RecoveryClean | RecoveryPublishStaged bool | RecoveryRemoveStaleStaged

definition catalog_recovery_plan ::
  "('j, 'v, 'p, 'l) unix_env \<Rightarrow> (catalog_error, document_recovery_plan) io" where
  "catalog_recovery_plan env =
     io_try (load_catalog_named env STAGED_CATALOG_DOCUMENT) (\<lambda>found.
     case found of
       None \<Rightarrow> ret RecoveryClean
     | Some staged \<Rightarrow>
         io_try (load_catalog_named env CATALOG_DOCUMENT) (\<lambda>current.
         case current of
           None \<Rightarrow>
             if staged \<noteq> catalog_empty then fail CatCorruptState else ret (RecoveryPublishStaged True)
         | Some current \<Rightarrow>
             if staged = current then ret RecoveryRemoveStaleStaged
             else if checked_add_u64 (cat_rev current) 1 = Some (cat_rev staged)
             then
               io_try (io_result (map_err (\<lambda>_. CatCorruptState)
                 (validate_recovery_successor_of staged current))) (\<lambda>_.
               ret (RecoveryPublishStaged False))
             else fail CatCorruptState))"

definition refuse_unsettled_personal_worker_state ::
  "('j, 'v, 'p, 'l) unix_env \<Rightarrow> (catalog_error, unit) io" where
  "refuse_unsettled_personal_worker_state env =
     io_try (io_map_err map_personal_error (recovery_plan env)) (\<lambda>plan.
     case plan of PlanClean _ \<Rightarrow> ret () | _ \<Rightarrow> fail CatRecoveryRequired)"

definition stage_catalog ::
  "('j, 'v, 'p, 'l) unix_env \<Rightarrow> catalog_document \<Rightarrow> (catalog_error, unit) io" where
  "stage_catalog env document =
     io_try (io_result (map_err map_codec_error
       (encode_disposable_attempt_catalog (ux_catalog_json env) document))) (\<lambda>encoded.
     io_map_err map_personal_error (stage_named_bytes (ux_owner env) STAGED_CATALOG_DOCUMENT encoded))"

definition synchronize_existing_catalog_stage ::
  "('j, 'v, 'p, 'l) unix_env \<Rightarrow> catalog_document \<Rightarrow> (catalog_error, unit) io" where
  "synchronize_existing_catalog_stage env expected =
     synchronize_existing (ux_owner env) map_personal_error STAGED_CATALOG_DOCUMENT
       MAX_DISPOSABLE_ATTEMPT_CATALOG_DOCUMENT_BYTES (\<lambda>bytes.
         try_res (map_err map_codec_error (decode_disposable_attempt_catalog (ux_catalog_json env) bytes))
           (\<lambda>decoded. if decoded \<noteq> expected then Inl CatCorruptState else Inr ()))"

definition remove_catalog_stage :: "(catalog_error, unit) io" where
  "remove_catalog_stage = io_map_err map_personal_error (remove_stage STAGED_CATALOG_DOCUMENT)"

definition recover_catalog_locked :: "('j, 'v, 'p, 'l) unix_env \<Rightarrow> (catalog_error, unit) io" where
  "recover_catalog_locked env =
     io_try (refuse_unsettled_personal_worker_state env) (\<lambda>_.
     io_try (catalog_recovery_plan env) (\<lambda>plan.
     case plan of
       RecoveryClean \<Rightarrow> ret ()
     | RecoveryPublishStaged no_replace \<Rightarrow>
         io_try (load_catalog_named env STAGED_CATALOG_DOCUMENT) (\<lambda>found.
         io_try (io_result (ok_or found CatCorruptState)) (\<lambda>staged.
         io_try (synchronize_existing_catalog_stage env staged) (\<lambda>_.
         io_map_err map_personal_error
           (publish_named_staged STAGED_CATALOG_DOCUMENT CATALOG_DOCUMENT no_replace))))
     | RecoveryRemoveStaleStaged \<Rightarrow> remove_catalog_stage))"

section \<open>The catalog store\<close>

text \<open>Every mutation takes the lock, closes an earlier ambiguity and asks the neighbours first.\<close>

definition catalog_mutation_locked :: "('j, 'v, 'p, 'l) unix_env \<Rightarrow> (catalog_error, unit) io" where
  "catalog_mutation_locked env =
     io_try (io_map_err map_personal_error (acquire_mutation_lock (ux_owner env))) (\<lambda>_.
     io_try (io_map_err map_personal_error synchronize_directory) (\<lambda>_.
     io_try (io_map_err map_personal_error (template_refuse_unsettled env)) (\<lambda>_.
     io_try (io_map_err refused (refuse_unsettled_lima_authority env)) (\<lambda>_.
     io_try (io_map_err refused (delivery_refuse_unsettled env)) (\<lambda>_.
     recover_catalog_locked env)))))"

definition unix_catalog_recover :: "('j, 'v, 'p, 'l) unix_env \<Rightarrow> (catalog_error, unit) io" where
  "unix_catalog_recover env = catalog_mutation_locked env"

definition unix_catalog_load ::
  "('j, 'v, 'p, 'l) unix_env \<Rightarrow> (catalog_error, catalog_document option) io" where
  "unix_catalog_load env =
     io_try (io_map_err map_personal_error (acquire_read_lock (ux_owner env))) (\<lambda>_.
     io_try (io_map_err map_personal_error (read_named_bytes_bounded (ux_owner env)
       STAGED_CATALOG_DOCUMENT MAX_DISPOSABLE_ATTEMPT_CATALOG_DOCUMENT_BYTES)) (\<lambda>staged.
     if staged \<noteq> None then fail CatRecoveryRequired
     else load_catalog_named env CATALOG_DOCUMENT))"

definition unix_catalog_create ::
  "('j, 'v, 'p, 'l) unix_env \<Rightarrow> catalog_document \<Rightarrow> (catalog_error, catalog_write_receipt) io" where
  "unix_catalog_create env document =
     (if document \<noteq> catalog_empty then fail CatConflict
      else
        io_try (catalog_mutation_locked env) (\<lambda>_.
        io_try (load_catalog_named env CATALOG_DOCUMENT) (\<lambda>found.
        if found \<noteq> None then fail CatAlreadyExists
        else
          io_try (stage_catalog env document) (\<lambda>_.
          guarded STAGED_CATALOG_DOCUMENT (
            io_try (io_map_err map_personal_error
              (publish_named_staged STAGED_CATALOG_DOCUMENT CATALOG_DOCUMENT True)) (\<lambda>_.
            ret (write_receipt_new CatCreated (cd_revision document) None)))))))"

definition unix_catalog_replace_if_revision ::
  "('j, 'v, 'p, 'l) unix_env \<Rightarrow> catalog_revision \<Rightarrow> catalog_document \<Rightarrow>
   (catalog_error, catalog_write_receipt) io" where
  "unix_catalog_replace_if_revision env expected_revision document =
     io_try (catalog_mutation_locked env) (\<lambda>_.
     io_try (load_catalog_named env CATALOG_DOCUMENT) (\<lambda>found.
     io_try (io_result (ok_or found CatMissing)) (\<lambda>current.
     if cd_revision current \<noteq> expected_revision then fail CatConflict
     else
       io_try (io_result (validate_successor_of document current)) (\<lambda>_.
       io_try (stage_catalog env document) (\<lambda>_.
       guarded STAGED_CATALOG_DOCUMENT (
         io_try (io_map_err map_personal_error
           (publish_named_staged STAGED_CATALOG_DOCUMENT CATALOG_DOCUMENT False)) (\<lambda>_.
         ret (write_receipt_new CatReplaced (cd_revision document) None))))))))"

end
