(* ===== verification/Prepared_Template.thy ===== *)
theory Prepared_Template
  imports Delivery_Recovery
begin

text \<open>
  The declaration a disposable VM template is built from, \<open>src/disposable_prepared_template.rs\<close>:
  its wire document, the closed policy every field is held to, the canonical encoding and the
  identity that binds all of it. \<open>serde_json\<close> and SHA-256 are parameters; the two documents that
  are compiled in are arguments. Errors are their kinds.
\<close>

named_theorems template_defs \<open>constants of the prepared template\<close>

section \<open>Document\<close>

definition DISPOSABLE_PREPARED_TEMPLATE_SCHEMA_VERSION :: nat where
  [template_defs]: "DISPOSABLE_PREPARED_TEMPLATE_SCHEMA_VERSION = 3"
definition MAX_DISPOSABLE_PREPARED_TEMPLATE_BYTES :: nat where
  [template_defs]: "MAX_DISPOSABLE_PREPARED_TEMPLATE_BYTES = 16384"
definition MAX_DISPOSABLE_LIMA_TEMPLATE_BYTES :: nat where
  [template_defs]: "MAX_DISPOSABLE_LIMA_TEMPLATE_BYTES = 64 * 1024"
definition IDENTITY_DOMAIN :: string where
  "IDENTITY_DOMAIN = ''smolrunner.disposable-prepared-template.v3'' @ [CHR 0x00]"
definition MAX_DOWNLOAD_LOCATION_BYTES :: nat where
  [template_defs]: "MAX_DOWNLOAD_LOCATION_BYTES = 512"
definition MAX_RUNNER_ARCHIVE_BYTES :: nat where
  [template_defs]: "MAX_RUNNER_ARCHIVE_BYTES = 2 ^ 30"

record guest_image_wire =
  gi_location :: string
  gi_architecture :: string
  gi_variant :: string
  gi_digest :: string

record actions_runner_wire =
  ar_version :: string
  ar_location :: string
  ar_architecture :: string
  ar_archive_bytes :: nat
  ar_digest :: string

record source_resources_wire =
  sr_cpu_count :: nat
  sr_memory_bytes :: nat
  sr_disk_bytes :: nat

record provisioning_wire =
  pw_recipe_revision :: nat
  pw_lima_template_digest :: string
  pw_admin_user :: string
  pw_admin_uid :: nat
  pw_admin_comment :: string
  pw_admin_passwordless_sudo :: bool
  pw_workload_user :: string
  pw_runner_install_directory :: string
  pw_runner_work_directory :: string
  pw_jit_launcher_path :: string
  pw_jit_launcher_digest :: string
  pw_ready_marker_path :: string
  pw_runner_dependency_install :: string
  pw_os_package_source :: string
  pw_automatic_os_updates_after_readiness :: bool
  pw_runner_auto_update :: bool
  pw_workload_sudo :: bool
  pw_repository_controlled_input :: bool

record isolation_wire =
  iw_lima_version :: string
  iw_vm_type :: string
  iw_plain_mode :: bool
  iw_lima_global_overrides :: bool
  iw_host_mounts :: bool
  iw_additional_networks :: bool
  iw_port_forwards :: bool
  iw_host_resolver :: bool
  iw_dns_servers :: "string list"
  iw_ssh_over_vsock :: bool
  iw_ssh_load_dot_public_keys :: bool
  iw_ssh_agent_forwarding :: bool
  iw_ssh_forward_x11 :: bool
  iw_ssh_forward_x11_trusted :: bool
  iw_proxy_environment :: bool
  iw_built_in_containerd :: bool
  iw_rosetta :: bool
  iw_display :: bool

record prepared_template_wire =
  tw_schema_version :: nat
  tw_guest_image :: guest_image_wire
  tw_actions_runner :: actions_runner_wire
  tw_source_resources :: source_resources_wire
  tw_provisioning :: provisioning_wire
  tw_isolation :: isolation_wire

record prepared_template_manifest =
  tm_wire :: prepared_template_wire
  tm_guest_image_digest :: sha256_digest
  tm_actions_runner_digest :: sha256_digest
  tm_lima_template_digest :: sha256_digest

datatype prepared_template_error =
  TemplateVersionIncompatible | TemplateInvalidDocument | TemplateUnsafePolicy | TemplateNonCanonical

text \<open>The functions of \<open>serde_json\<close> and of SHA-256 the file calls.\<close>

record 'j template_env =
  te_version :: "string \<Rightarrow> 'j + nat"
  te_from_slice :: "string \<Rightarrow> 'j + prepared_template_wire"
  te_to_vec_pretty :: "prepared_template_wire \<Rightarrow> 'j + string"
  te_sha256_hex :: "string \<Rightarrow> string"

section \<open>Locations and versions\<close>

definition strip_prefix :: "string \<Rightarrow> string \<Rightarrow> string option" where
  "strip_prefix p v = (if take (length p) v = p then Some (drop (length p) v) else None)"

definition strip_suffix :: "string \<Rightarrow> string \<Rightarrow> string option" where
  "strip_suffix p v = map_option rev (strip_prefix (rev p) (rev v))"

fun split_on :: "char \<Rightarrow> string \<Rightarrow> string list" where
  "split_on c [] = [[]]"
| "split_on c (x # xs) =
     (if x = c then [] # split_on c xs
      else case split_on c xs of [] \<Rightarrow> [[x]] | part # parts \<Rightarrow> (x # part) # parts)"

definition valid_https_location :: "string \<Rightarrow> bool" where
  "valid_https_location v \<longleftrightarrow>
     v \<noteq> [] \<and> length v \<le> MAX_DOWNLOAD_LOCATION_BYTES \<and> list_all (\<lambda>b. byte b < 128) v
     \<and> take 8 v = ''https://''
     \<and> \<not> list_ex (\<lambda>b. b \<in> {CHR ''?'', CHR ''#'', CHR ''@'', CHR 0x5C}) v
     \<and> \<not> list_ex (\<lambda>b. byte b < 32 \<or> byte b = 127) v"

definition valid_noble_arm64_image_location :: "string \<Rightarrow> bool" where
  "valid_noble_arm64_image_location v \<longleftrightarrow>
     valid_https_location v
     \<and> (case Option.bind (strip_prefix ''https://cloud-images.ubuntu.com/releases/noble/release-'' v)
              (strip_suffix ''/ubuntu-24.04-server-cloudimg-arm64.img'') of
          None \<Rightarrow> False
        | Some date \<Rightarrow> length date = 8 \<and> list_all (\<lambda>b. 48 \<le> byte b \<and> byte b \<le> 57) date)"

definition valid_version_part :: "string \<Rightarrow> bool" where
  "valid_version_part part \<longleftrightarrow>
     part \<noteq> [] \<and> length part \<le> 6 \<and> list_all (\<lambda>b. 48 \<le> byte b \<and> byte b \<le> 57) part
     \<and> (part = ''0'' \<or> take 1 part \<noteq> ''0'')"

definition valid_runner_version :: "string \<Rightarrow> bool" where
  "valid_runner_version v \<longleftrightarrow>
     (let parts = split_on (CHR ''.'') v in
      3 \<le> length parts \<and> list_all valid_version_part (take 3 parts) \<and> drop 3 parts = [])"

definition expected_runner_location :: "string \<Rightarrow> string" where
  "expected_runner_location version =
     ''https://github.com/actions/runner/releases/download/v'' @ version
     @ ''/actions-runner-linux-arm64-'' @ version @ ''.tar.gz''"

section \<open>Policy\<close>

definition guest_image_refused :: "guest_image_wire \<Rightarrow> bool" where
  "guest_image_refused g \<longleftrightarrow>
     gi_architecture g \<noteq> ''aarch64'' \<or> gi_variant g \<noteq> ''server''
     \<or> \<not> valid_noble_arm64_image_location (gi_location g)"

definition actions_runner_refused :: "actions_runner_wire \<Rightarrow> bool" where
  "actions_runner_refused r \<longleftrightarrow>
     \<not> valid_runner_version (ar_version r) \<or> ar_architecture r \<noteq> ''arm64'' \<or> ar_archive_bytes r = 0
     \<or> MAX_RUNNER_ARCHIVE_BYTES < ar_archive_bytes r
     \<or> ar_location r \<noteq> expected_runner_location (ar_version r)"

definition source_resources_refused :: "source_resources_wire \<Rightarrow> bool" where
  "source_resources_refused r \<longleftrightarrow>
     sr_cpu_count r \<noteq> 2 \<or> sr_memory_bytes r \<noteq> 2 * 2 ^ 30 \<or> sr_disk_bytes r \<noteq> 20 * 2 ^ 30"

definition provisioning_refused :: "provisioning_wire \<Rightarrow> bool" where
  "provisioning_refused p \<longleftrightarrow>
     pw_recipe_revision p = 0 \<or> pw_admin_user p \<noteq> ''smolrunner-admin'' \<or> pw_admin_uid p \<noteq> 1000
     \<or> pw_admin_comment p \<noteq> ''SmolRunner controller'' \<or> \<not> pw_admin_passwordless_sudo p
     \<or> pw_workload_user p \<noteq> ''smolrunner-runner'' \<or> pw_admin_user p = pw_workload_user p
     \<or> pw_runner_install_directory p \<noteq> ''/opt/smolrunner/actions-runner''
     \<or> pw_runner_work_directory p \<noteq> ''/opt/smolrunner/actions-runner/_work''
     \<or> pw_jit_launcher_path p \<noteq> ''/opt/smolrunner/bin/smolrunner-jit-launcher''
     \<or> pw_jit_launcher_digest p
         \<noteq> ''sha256:6f096fb518b6d40d45ca1a9923e423da436b6269fceec5a5989566abbc93a76a''
     \<or> pw_ready_marker_path p \<noteq> ''/etc/smolrunner/prepared-template.json''
     \<or> pw_runner_dependency_install p \<noteq> ''official_archive_script''
     \<or> pw_os_package_source p \<noteq> ''ubuntu_noble_signed_repositories_at_build''
     \<or> pw_automatic_os_updates_after_readiness p \<or> pw_runner_auto_update p \<or> pw_workload_sudo p
     \<or> pw_repository_controlled_input p"

definition isolation_refused :: "isolation_wire \<Rightarrow> bool" where
  "isolation_refused i \<longleftrightarrow>
     iw_lima_version i \<noteq> ''2.2.0'' \<or> iw_vm_type i \<noteq> ''vz'' \<or> \<not> iw_plain_mode i
     \<or> iw_lima_global_overrides i \<or> iw_host_mounts i \<or> iw_additional_networks i \<or> iw_port_forwards i
     \<or> iw_host_resolver i \<or> iw_dns_servers i \<noteq> [''1.1.1.1'', ''1.0.0.1''] \<or> \<not> iw_ssh_over_vsock i
     \<or> iw_ssh_load_dot_public_keys i \<or> iw_ssh_agent_forwarding i \<or> iw_ssh_forward_x11 i
     \<or> iw_ssh_forward_x11_trusted i \<or> iw_proxy_environment i \<or> iw_built_in_containerd i
     \<or> iw_rosetta i \<or> iw_display i"

definition parse_template_digest :: "string \<Rightarrow> prepared_template_error + sha256_digest" where
  "parse_template_digest v = map_err (\<lambda>_. TemplateInvalidDocument) (sha256_digest_parse v)"

definition validate_wire ::
  "prepared_template_wire \<Rightarrow> prepared_template_error + sha256_digest \<times> sha256_digest \<times> sha256_digest" where
  "validate_wire wire =
     try_res (parse_template_digest (gi_digest (tw_guest_image wire))) (\<lambda>guest_image_digest.
     try_res (parse_template_digest (ar_digest (tw_actions_runner wire))) (\<lambda>actions_runner_digest.
     try_res (parse_template_digest (pw_lima_template_digest (tw_provisioning wire))) (\<lambda>lima_template_digest.
     try_res (parse_template_digest (pw_jit_launcher_digest (tw_provisioning wire))) (\<lambda>_.
     if guest_image_refused (tw_guest_image wire) then Inl TemplateUnsafePolicy
     else if actions_runner_refused (tw_actions_runner wire) then Inl TemplateUnsafePolicy
     else if source_resources_refused (tw_source_resources wire) then Inl TemplateUnsafePolicy
     else if provisioning_refused (tw_provisioning wire) then Inl TemplateUnsafePolicy
     else if isolation_refused (tw_isolation wire) then Inl TemplateUnsafePolicy
     else Inr (guest_image_digest, actions_runner_digest, lima_template_digest)))))"

section \<open>Codec and identity\<close>

definition encode_disposable_prepared_template ::
  "'j template_env \<Rightarrow> prepared_template_manifest \<Rightarrow> prepared_template_error + string" where
  "encode_disposable_prepared_template env manifest =
     try_res (map_err (\<lambda>_. TemplateInvalidDocument) (te_to_vec_pretty env (tm_wire manifest))) (\<lambda>bytes.
     Inr (bytes @ [CHR 0x0A]))"

definition decode_disposable_prepared_template ::
  "'j template_env \<Rightarrow> string \<Rightarrow> prepared_template_error + prepared_template_manifest" where
  "decode_disposable_prepared_template env bytes =
     (if MAX_DISPOSABLE_PREPARED_TEMPLATE_BYTES < length bytes then Inl TemplateInvalidDocument
      else
        try_res (map_err (\<lambda>_. TemplateInvalidDocument) (te_version env bytes)) (\<lambda>version.
        if version \<noteq> DISPOSABLE_PREPARED_TEMPLATE_SCHEMA_VERSION then Inl TemplateVersionIncompatible
        else
          try_res (map_err (\<lambda>_. TemplateInvalidDocument) (te_from_slice env bytes)) (\<lambda>wire.
          try_res (validate_wire wire) (\<lambda>(guest_image_digest, actions_runner_digest, lima_template_digest).
          let manifest =
            \<lparr>tm_wire = wire, tm_guest_image_digest = guest_image_digest,
             tm_actions_runner_digest = actions_runner_digest,
             tm_lima_template_digest = lima_template_digest\<rparr>
          in try_res (encode_disposable_prepared_template env manifest) (\<lambda>canonical.
             if canonical \<noteq> bytes then Inl TemplateNonCanonical else Inr manifest)))))"

definition template_identity ::
  "'j template_env \<Rightarrow> prepared_template_manifest \<Rightarrow> prepared_template_error + prepared_template_identity" where
  "template_identity env manifest =
     try_res (encode_disposable_prepared_template env manifest) (\<lambda>canonical.
     map_err (\<lambda>_. TemplateInvalidDocument)
       (template_identity_parse (''sha256:''
          @ te_sha256_hex env
              (IDENTITY_DOMAIN @ to_be_bytes (min (length canonical) (2 ^ 64 - 1)) @ canonical))))"

definition digest_bytes :: "'j template_env \<Rightarrow> string \<Rightarrow> prepared_template_error + sha256_digest" where
  "digest_bytes env bytes = parse_template_digest (''sha256:'' @ te_sha256_hex env bytes)"

definition validate_lima_template ::
  "'j template_env \<Rightarrow> prepared_template_manifest \<Rightarrow> string \<Rightarrow> prepared_template_error + unit" where
  "validate_lima_template env manifest bytes =
     (if MAX_DISPOSABLE_LIMA_TEMPLATE_BYTES < length bytes then Inl TemplateUnsafePolicy
      else
        try_res (digest_bytes env bytes) (\<lambda>digest.
        if digest \<noteq> tm_lima_template_digest manifest then Inl TemplateUnsafePolicy else Inr ()))"

definition current_disposable_prepared_template ::
  "'j template_env \<Rightarrow> string \<Rightarrow> string \<Rightarrow> prepared_template_error + prepared_template_manifest" where
  "current_disposable_prepared_template env manifest_bytes lima_template_bytes =
     try_res (decode_disposable_prepared_template env manifest_bytes) (\<lambda>manifest.
     try_res (validate_lima_template env manifest lima_template_bytes) (\<lambda>_. Inr manifest))"

end
