(* ===== verification/Catalog_Release.thy ===== *)
theory Catalog_Release
  imports Delivery_Recovery
begin

text \<open>
  Giving up a reservation nothing was built for: the three catalog operations that settlement,
  lifecycle resolution and cancellation run in a row, as one step on the catalog, and what a lookup
  by runner request finds before and after it.
\<close>

section \<open>Lookups\<close>

definition request_of :: "reservation \<Rightarrow> scale_set_runner_request_id" where
  "request_of r = as_runner_request_id (rs_attempt r)"

lemma requests_apart:
  assumes "catalog_inv d" and "cd_active d = pre @ r # post" and "x \<in> set (pre @ post)"
  shows "request_of x \<noteq> request_of r"
proof -
  have "no_shared_identity (rs_attempt r) (rs_attempt x)"
    using others_apart(1)[OF assms(1,2)] assms(3) by auto
  then show ?thesis by (metis no_shared_identity_def request_of_def)
qed

lemma find_request_here:
  assumes "catalog_inv d" and "cd_active d = pre @ r # post"
  shows "find_active_by_runner_request_id d (as_runner_request_id (rs_attempt r)) = Some r"
proof -
  have "as_runner_request_id (rs_attempt x) \<noteq> as_runner_request_id (rs_attempt r)" if "x \<in> set pre" for x
  proof -
    have "no_shared_identity (rs_attempt r) (rs_attempt x)"
      using others_apart(1)[OF assms] that by simp
    then show ?thesis by (metis no_shared_identity_def)
  qed
  then show ?thesis
    unfolding find_active_by_runner_request_id_def assms(2)
    by (induction pre) auto
qed

lemma find_id_here:
  assumes "catalog_inv d" and "cd_active d = pre @ r # post"
  shows "find_active d (rs_id r) = Some r"
proof -
  have "rs_id x \<noteq> rs_id r" if "x \<in> set pre" for x
  proof -
    have "no_shared_identity (rs_attempt r) (rs_attempt x)"
      using others_apart(1)[OF assms] that by simp
    then show ?thesis by (metis no_shared_identity_def)
  qed
  then show ?thesis
    unfolding find_active_def assms(2) by (induction pre) auto
qed

section \<open>The stages\<close>

text \<open>The attempt in release and released, and the catalog that holds it.\<close>

definition released_attempt :: "attempt_state \<Rightarrow> attempt_state" where
  "released_attempt a =
     a\<lparr>as_revision := DisposableAttemptRevision (rev_of a + 2), as_runner_id := None,
       as_phase := Complete, as_github_job_id := None, as_result := None\<rparr>"

definition releasing_attempt :: "attempt_state \<Rightarrow> attempt_state" where
  "releasing_attempt a =
     a\<lparr>as_revision := DisposableAttemptRevision (rev_of a + 1), as_runner_id := None,
       as_phase := UnprovisionedReleasing, as_github_job_id := None, as_result := None\<rparr>"

lemma release_keeps [simp]:
  "as_attempt_id (releasing_attempt a) = as_attempt_id a" "as_attempt_id (released_attempt a) = as_attempt_id a"
  "as_runner_request_id (releasing_attempt a) = as_runner_request_id a"
  "as_runner_request_id (released_attempt a) = as_runner_request_id a"
  "as_phase (released_attempt a) = Complete" "as_runner_id (released_attempt a) = None"
  "as_github_job_id (released_attempt a) = None" "as_result (released_attempt a) = None"
  "as_runner_id (releasing_attempt a) = None" "as_github_job_id (releasing_attempt a) = None"
  by (simp_all add: releasing_attempt_def released_attempt_def)

definition staged_attempt ::
  "catalog_document \<Rightarrow> reservation list \<Rightarrow> reservation \<Rightarrow> reservation list \<Rightarrow> attempt_state \<Rightarrow> catalog_document" where
  "staged_attempt d pre r post s =
     d\<lparr>cd_revision := DisposableAttemptCatalogRevision (cat_rev d + 1),
       cd_active := pre @ r\<lparr>rs_attempt := s\<rparr> # post\<rparr>"

definition released_catalog ::
  "catalog_document \<Rightarrow> reservation list \<Rightarrow> reservation \<Rightarrow> reservation list \<Rightarrow> catalog_document" where
  "released_catalog d pre r post =
     d\<lparr>cd_revision := DisposableAttemptCatalogRevision (cat_rev d + 3), cd_active := pre @ post,
       cd_tombstones := pushed_history (cd_tombstones d) (released_attempt (rs_attempt r))\<rparr>"

lemma release_runs:
  assumes "attempt_validate a = Inr ()" and "as_phase a \<in> {Reserved, CloneAuthorized}"
  shows "run_action a BeginUnprovisionedRelease = Inr (releasing_attempt a)"
    and "run_action (releasing_attempt a) CompleteUnprovisioned = Inr (released_attempt a)"
    and "attempt_validate (releasing_attempt a) = Inr ()"
  using assms
  by (auto simp: begin_unprovisioned_release_def complete_unprovisioned_def advance_with_ok
      releasing_attempt_def released_attempt_def attempt_validate_ok_iff carries_evidence_def)

lemma transition_here:
  assumes inv: "catalog_inv d" and split: "cd_active d = pre @ r # post"
    and run: "run_action (rs_attempt r) a = Inr s" and new: "s \<noteq> rs_attempt r"
    and free: "as_runner_id s = None" "as_github_job_id s = None"
  shows "doc_replace_attempt d (rs_id r) (as_revision (rs_attempt r)) a = Inr d'
           \<longleftrightarrow> cat_rev d < 1000000000000 \<and> d' = staged_attempt d pre r post s"
    and "cat_rev d < 1000000000000 \<Longrightarrow> catalog_inv (staged_attempt d pre r post s)"
proof -
  have valid: "attempt_validate (rs_attempt r) = Inr ()"
    using inv split by (simp add: catalog_inv_def)
  note adv = run_action_advances[OF run valid new]
  have "\<forall>b\<in>set (map rs_attempt (pre @ post) @ cd_tombstones d). no_shared_identity s b"
    using others_apart(1)[OF inv split] no_shared_after_action[OF run valid] free
    by (simp add: free_of_runner_and_job_def options_apart_def)
  then have validates: "catalog_validate (staged_attempt d pre r post s) = Inr ()"
    if "cat_rev d < 1000000000000"
    unfolding staged_attempt_def using set_attempt_validates[OF inv split adv _ that] by blast
  show iff: "doc_replace_attempt d (rs_id r) (as_revision (rs_attempt r)) a = Inr d'
           \<longleftrightarrow> cat_rev d < 1000000000000 \<and> d' = staged_attempt d pre r post s" for d'
    unfolding replace_here[OF inv split run new] set_attempt_ok[OF split]
    using validates by (auto simp: staged_attempt_def)
  assume "cat_rev d < 1000000000000"
  then have "doc_set_attempt d (length pre) s = Inr (staged_attempt d pre r post s)"
    using iff replace_here[OF inv split run new] by auto
  then show "catalog_inv (staged_attempt d pre r post s)"
    using set_attempt_inv[OF inv split] adv unfolding attempt_advance_def by blast
qed

lemma release_stages:
  assumes inv: "catalog_inv d" and split: "cd_active d = pre @ r # post"
    and phase: "as_phase (rs_attempt r) \<in> {Reserved, CloneAuthorized}"
  defines "d1 \<equiv> staged_attempt d pre r post (releasing_attempt (rs_attempt r))"
  defines "r1 \<equiv> r\<lparr>rs_attempt := releasing_attempt (rs_attempt r)\<rparr>"
  defines "d2 \<equiv> staged_attempt d1 pre r1 post (released_attempt (rs_attempt r))"
  shows "doc_replace_attempt d (rs_id r) (as_revision (rs_attempt r)) BeginUnprovisionedRelease = Inr x
           \<longleftrightarrow> cat_rev d < 1000000000000 \<and> x = d1"
    and "cat_rev d < 1000000000000 \<Longrightarrow>
         doc_replace_attempt d1 (rs_id r) (as_revision (releasing_attempt (rs_attempt r))) CompleteUnprovisioned = Inr x
           \<longleftrightarrow> cat_rev d + 1 < 1000000000000 \<and> x = d2"
    and "cat_rev d < 1000000000000 \<Longrightarrow> catalog_inv d1"
    and "cat_rev d + 1 < 1000000000000 \<Longrightarrow> catalog_inv d2"
    and "cd_active d1 = pre @ r1 # post"
    and "cd_active d2 = pre @ r\<lparr>rs_attempt := released_attempt (rs_attempt r)\<rparr> # post"
proof -
  have valid: "attempt_validate (rs_attempt r) = Inr ()"
    using inv split by (simp add: catalog_inv_def)
  note runs = release_runs[OF valid phase]
  have new: "releasing_attempt (rs_attempt r) \<noteq> rs_attempt r"
    "released_attempt (rs_attempt r) \<noteq> releasing_attempt (rs_attempt r)"
    using phase by (auto simp: releasing_attempt_def released_attempt_def dest: arg_cong[where f = as_phase])
  note first = transition_here[OF inv split runs(1) new(1)]
  show one: "doc_replace_attempt d (rs_id r) (as_revision (rs_attempt r)) BeginUnprovisionedRelease = Inr x
           \<longleftrightarrow> cat_rev d < 1000000000000 \<and> x = d1"
    using first(1) by (simp add: d1_def)
  show inv1: "catalog_inv d1" if "cat_rev d < 1000000000000"
    using first(2)[OF _ _ that] by (simp add: d1_def)
  show split1: "cd_active d1 = pre @ r1 # post" by (simp add: d1_def r1_def staged_attempt_def)
  show "cd_active d2 = pre @ r\<lparr>rs_attempt := released_attempt (rs_attempt r)\<rparr> # post"
    by (simp add: d2_def r1_def staged_attempt_def)
  have r1: "rs_attempt r1 = releasing_attempt (rs_attempt r)" "rs_id r1 = rs_id r" "cat_rev d1 = cat_rev d + 1"
    by (simp_all add: r1_def d1_def staged_attempt_def)
  note second = transition_here[OF inv1 split1, unfolded r1, OF _ runs(2) new(2)]
  show "doc_replace_attempt d1 (rs_id r) (as_revision (releasing_attempt (rs_attempt r))) CompleteUnprovisioned = Inr x
           \<longleftrightarrow> cat_rev d + 1 < 1000000000000 \<and> x = d2" if "cat_rev d < 1000000000000"
    using second(1)[OF that] by (simp add: d2_def)
  show "catalog_inv d2" if "cat_rev d + 1 < 1000000000000"
    using second(2) that by (simp add: d2_def)
qed

lemma retire_stage:
  assumes inv: "catalog_inv d2" and split: "cd_active d2 = pre @ r2 # post"
    and complete: "as_phase (rs_attempt r2) = Complete"
  shows "doc_retire_complete d2 (rs_id r2) (as_revision (rs_attempt r2)) = Inr d' \<longleftrightarrow>
    cat_rev d2 < 1000000000000 \<and>
    d' = d2\<lparr>cd_revision := DisposableAttemptCatalogRevision (cat_rev d2 + 1), cd_active := pre @ post,
            cd_tombstones := pushed_history (cd_tombstones d2) (rs_attempt r2)\<rparr>"
proof -
  have "position (\<lambda>x. rs_id x = rs_id r2) (cd_active d2) = Some (length pre)"
    using inv_valid[OF inv] split position_here[of pre r2 post "cd_tombstones d2"]
    by (simp add: catalog_validate_ok)
  then show ?thesis
    using split complete retire_validates[OF inv split complete]
    by (auto simp: doc_retire_complete_def Let_def catalog_revision_next_ok pushed_history_def)
qed

section \<open>Release as one step\<close>

lemma release_lookups:
  assumes inv: "catalog_inv d" and split: "cd_active d = pre @ r # post"
    and phase: "as_phase (rs_attempt r) \<in> {Reserved, CloneAuthorized}"
  defines "d1 \<equiv> staged_attempt d pre r post (releasing_attempt (rs_attempt r))"
  defines "r1 \<equiv> r\<lparr>rs_attempt := releasing_attempt (rs_attempt r)\<rparr>"
  defines "d2 \<equiv> staged_attempt d1 pre r1 post (released_attempt (rs_attempt r))"
  defines "r2 \<equiv> r\<lparr>rs_attempt := released_attempt (rs_attempt r)\<rparr>"
  shows "cat_rev d < 1000000000000 \<Longrightarrow>
           find_active_by_runner_request_id d1 (as_runner_request_id (rs_attempt r)) = Some r1
           \<and> find_active d1 (rs_id r) = Some r1"
    and "cat_rev d + 1 < 1000000000000 \<Longrightarrow>
           find_active_by_runner_request_id d2 (as_runner_request_id (rs_attempt r)) = Some r2
           \<and> find_active d2 (rs_id r) = Some r2"
    and "cat_rev d + 1 < 1000000000000 \<Longrightarrow>
           doc_retire_complete d2 (rs_id r) (as_revision (released_attempt (rs_attempt r))) = Inr d' \<longleftrightarrow>
           cat_rev d + 2 < 1000000000000 \<and> d' = released_catalog d pre r post"
proof -
  note stages = release_stages[OF inv split phase, folded r1_def d1_def r2_def, folded d2_def]
  show "cat_rev d < 1000000000000 \<Longrightarrow>
           find_active_by_runner_request_id d1 (as_runner_request_id (rs_attempt r)) = Some r1
           \<and> find_active d1 (rs_id r) = Some r1"
    using find_request_here[OF stages(3,5)] find_id_here[OF stages(3,5)] by (simp add: r1_def)
  show "cat_rev d + 1 < 1000000000000 \<Longrightarrow>
           find_active_by_runner_request_id d2 (as_runner_request_id (rs_attempt r)) = Some r2
           \<and> find_active d2 (rs_id r) = Some r2"
    using find_request_here[OF stages(4,6)] find_id_here[OF stages(4,6)] by (simp add: r2_def)
  show "cat_rev d + 1 < 1000000000000 \<Longrightarrow>
           doc_retire_complete d2 (rs_id r) (as_revision (released_attempt (rs_attempt r))) = Inr d' \<longleftrightarrow>
           cat_rev d + 2 < 1000000000000 \<and> d' = released_catalog d pre r post"
    using retire_stage[OF stages(4,6)]
    by (simp add: r2_def released_catalog_def d1_def d2_def staged_attempt_def numeral_3_eq_3)
qed

lemma release_unprovisioned_iff:
  assumes inv: "catalog_inv d" and split: "cd_active d = pre @ r # post"
    and phase: "as_phase (rs_attempt r) \<in> {Reserved, CloneAuthorized}"
  shows "release_unprovisioned conflict missing d (as_runner_request_id (rs_attempt r)) r = Inr d'
           \<longleftrightarrow> cat_rev d + 3 \<le> 1000000000000 \<and> d' = released_catalog d pre r post"
  using release_stages(1,2)[OF inv split phase] release_lookups[OF inv split phase]
  by (cases "cat_rev d < 1000000000000"; cases "cat_rev d + 1 < 1000000000000")
    (auto simp: release_unprovisioned_def Let_def)

lemma released_inv:
  assumes inv: "catalog_inv d" and split: "cd_active d = pre @ r # post"
    and phase: "as_phase (rs_attempt r) \<in> {Reserved, CloneAuthorized}"
    and room: "cat_rev d + 3 \<le> 1000000000000"
  shows "catalog_inv (released_catalog d pre r post)"
proof -
  have "doc_retire_complete
      (staged_attempt (staged_attempt d pre r post (releasing_attempt (rs_attempt r))) pre
         (r\<lparr>rs_attempt := releasing_attempt (rs_attempt r)\<rparr>) post (released_attempt (rs_attempt r)))
      (rs_id r) (as_revision (released_attempt (rs_attempt r))) = Inr (released_catalog d pre r post)"
    using release_lookups(3)[OF inv split phase] room by simp
  then show ?thesis
    using step_inv[OF step_retire] release_stages(4)[OF inv split phase] room by simp
qed

lemma release_steps:
  assumes "release_unprovisioned conflict missing d request_id r = Inr d'"
  shows "catalog_step\<^sup>*\<^sup>* d d'"
proof -
  obtain d1 d2 rv1 rv2 where
    "doc_replace_attempt d (rs_id r) (as_revision (rs_attempt r)) BeginUnprovisionedRelease = Inr d1"
    "doc_replace_attempt d1 (rs_id r) rv1 CompleteUnprovisioned = Inr d2"
    "doc_retire_complete d2 (rs_id r) rv2 = Inr d'"
    using assms by (auto simp: release_unprovisioned_def Let_def)
  then show ?thesis
    by (meson converse_rtranclp_into_rtranclp r_into_rtranclp step_retire step_transition)
qed

lemma steps_inv: "catalog_step\<^sup>*\<^sup>* d d' \<Longrightarrow> catalog_inv d \<Longrightarrow> catalog_inv d'"
  by (induction rule: rtranclp_induct) (auto intro: step_inv)

lemma steps_reachable: "catalog_step\<^sup>*\<^sup>* d d' \<Longrightarrow> catalog_reachable d \<Longrightarrow> catalog_reachable d'"
  by (induction rule: rtranclp_induct) (auto intro: catalog_stepped)

end
