(* ===== verification/Delivery_Settlement.thy ===== *)
theory Delivery_Settlement
  imports Delivery_History Catalog_Release
begin

text \<open>
  Settlement of an acknowledged delivery, \<open>src/github_scale_set_delivery_settlement.rs\<close>: the
  catalog that remains once it is conclusive which of the available requests were acquired. The
  error is its code.
\<close>

section \<open>Operation\<close>

fun settlement_evidence :: "recovery_phase \<Rightarrow> request_ids option" where
  "settlement_evidence (Acknowledged acquired) = Some acquired"
| "settlement_evidence (AcquisitionRecoveryObserved acquired) =
     (if acquired \<noteq> [] then Some acquired else None)"
| "settlement_evidence (LifecycleAcknowledged r) = Some (lx_acquired r)"
| "settlement_evidence (SettlementPrepared proof acquired prior revision digest) = Some acquired"
| "settlement_evidence _ = None"

fun settle_loop ::
  "scale_set_runner_request_id set \<Rightarrow> catalog_document \<Rightarrow> request_ids \<Rightarrow> string + catalog_document" where
  "settle_loop acquired d [] = Inr d"
| "settle_loop acquired d (request_id # rest) =
     (if request_id \<in> acquired
      then (if find_active_by_runner_request_id d request_id = None
               \<and> find_tombstone_by_runner_request_id d request_id = None
            then Inl ''scale_set_settlement_attempt_missing''
            else settle_loop acquired d rest)
      else
        (case find_active_by_runner_request_id d request_id of
           None \<Rightarrow>
             if find_tombstone_by_runner_request_id d request_id \<noteq> None
             then settle_loop acquired d rest
             else Inl ''scale_set_settlement_attempt_missing''
         | Some reservation \<Rightarrow>
             if as_phase (rs_attempt reservation) \<noteq> Reserved
             then (if as_github_job_id (rs_attempt reservation) \<noteq> None
                      \<or> as_phase (rs_attempt reservation) = Complete
                   then settle_loop acquired d rest
                   else Inl ''scale_set_settlement_attempt_conflict'')
             else
               try_res (release_unprovisioned ''scale_set_settlement_attempt_conflict''
                          ''scale_set_settlement_attempt_missing'' d request_id reservation)
                 (\<lambda>d'. settle_loop acquired d' rest)))"

definition settle_scale_set_delivery_catalog ::
  "('j, 'v) recovery_env \<Rightarrow> recovery_state \<Rightarrow> catalog_document \<Rightarrow> string + catalog_document" where
  "settle_scale_set_delivery_catalog env recovery catalog =
     (if \<not> matches_catalog env recovery catalog then Inl ''scale_set_settlement_catalog_drift''
      else
        try_res (ok_or (settlement_evidence (rec_phase recovery))
          ''scale_set_settlement_evidence_incomplete'') (\<lambda>acquired.
        try_res (map_err (\<lambda>_. ''scale_set_settlement_delivery_invalid'')
          (available_request_ids (rec_delivery recovery))) (\<lambda>available.
        settle_loop (set acquired) catalog available)))"

section \<open>The whole delivery\<close>

text \<open>The reservations a settlement gives up: available, not acquired and never used.\<close>

definition given_up ::
  "scale_set_runner_request_id set \<Rightarrow> request_ids \<Rightarrow> reservation \<Rightarrow> bool" where
  "given_up acquired ids r \<longleftrightarrow>
     request_of r \<in> set ids \<and> request_of r \<notin> acquired \<and> as_phase (rs_attempt r) = Reserved"

text \<open>Every available request has an active attempt the settlement can decide on.\<close>

definition settleable ::
  "scale_set_runner_request_id set \<Rightarrow> catalog_document \<Rightarrow> request_ids \<Rightarrow> bool" where
  "settleable acquired d ids \<longleftrightarrow>
     (\<forall>request_id \<in> set ids. \<exists>r \<in> set (cd_active d). request_of r = request_id
        \<and> (request_id \<in> acquired \<or> as_phase (rs_attempt r) \<in> {Reserved, Complete}
           \<or> as_github_job_id (rs_attempt r) \<noteq> None))"

fun given_up_attempts ::
  "scale_set_runner_request_id set \<Rightarrow> reservation list \<Rightarrow> request_ids \<Rightarrow> attempt_state list" where
  "given_up_attempts acquired active [] = []"
| "given_up_attempts acquired active (request_id # rest) =
     map (\<lambda>r. released_attempt (rs_attempt r))
       (filter (\<lambda>r. given_up acquired [request_id] r) active)
     @ given_up_attempts acquired active rest"

lemma given_up_attempts_remove:
  assumes "request_of r \<notin> set ids"
  shows "given_up_attempts acquired (pre @ r # post) ids = given_up_attempts acquired (pre @ post) ids"
  using assms by (induction ids) (auto simp: given_up_def)

lemma given_up_here:
  assumes inv: "catalog_inv d" and split: "cd_active d = pre @ r # post" and fresh: "request_of r \<notin> set ids"
  shows "filter (\<lambda>x. \<not> given_up acquired (request_of r # ids) x) (pre @ post)
       = filter (\<lambda>x. \<not> given_up acquired ids x) (pre @ post)"
    and "filter (\<lambda>x. given_up acquired [request_of r] x) (cd_active d)
       = (if given_up acquired [request_of r] r then [r] else [])"
proof -
  have apart: "given_up acquired (request_of r # ids) x \<longleftrightarrow> given_up acquired ids x"
    "\<not> given_up acquired [request_of r] x"
    if "x \<in> set (pre @ post)" for x
    using requests_apart[OF inv split that] by (auto simp: given_up_def)
  show "filter (\<lambda>x. \<not> given_up acquired (request_of r # ids) x) (pre @ post)
       = filter (\<lambda>x. \<not> given_up acquired ids x) (pre @ post)"
    by (rule filter_cong[OF refl]) (simp only: apart(1))
  show "filter (\<lambda>x. given_up acquired [request_of r] x) (cd_active d)
       = (if given_up acquired [request_of r] r then [r] else [])"
    unfolding split using apart(2) by (simp add: filter_empty_conv)
qed

lemma settle_loop_ok:
  assumes "catalog_inv d" and "distinct ids" and "settleable acquired d ids"
    and "cat_rev d + 3 * length ids \<le> 1000000000000"
  shows "\<exists>d'. settle_loop acquired d ids = Inr d' \<and> catalog_step\<^sup>*\<^sup>* d d'
           \<and> cd_active d' = filter (\<lambda>r. \<not> given_up acquired ids r) (cd_active d)
           \<and> cd_tombstones d' =
               foldl pushed_history (cd_tombstones d) (given_up_attempts acquired (cd_active d) ids)"
  using assms
proof (induction ids arbitrary: d)
  case Nil
  then show ?case by (auto simp: given_up_def)
next
  case (Cons request_id ids)
  note inv = Cons.prems(1)
  obtain r pre post where split: "cd_active d = pre @ r # post" and req: "request_of r = request_id"
    and decide: "request_id \<in> acquired \<or> as_phase (rs_attempt r) \<in> {Reserved, Complete}
           \<or> as_github_job_id (rs_attempt r) \<noteq> None"
    using Cons.prems(3) unfolding settleable_def by (auto dest!: split_list)
  have found: "find_active_by_runner_request_id d request_id = Some r"
    using find_request_here[OF inv split] req by (simp add: request_of_def)
  have fresh: "request_of r \<notin> set ids" using Cons.prems(2) req by simp
  note here = given_up_here[OF inv split fresh, of acquired, unfolded req]
  show ?case
  proof (cases "given_up acquired [request_id] r")
    case False
    have "settle_loop acquired d (request_id # ids) = settle_loop acquired d ids"
      using found decide False req by (auto simp: given_up_def)
    moreover have "filter (\<lambda>x. \<not> given_up acquired (request_id # ids) x) (cd_active d)
        = filter (\<lambda>x. \<not> given_up acquired ids x) (cd_active d)"
    proof (rule filter_cong[OF refl])
      fix x assume "x \<in> set (cd_active d)"
      then consider "x = r" | "x \<in> set (pre @ post)" by (auto simp: split)
      then show "(\<not> given_up acquired (request_id # ids) x) = (\<not> given_up acquired ids x)"
      proof cases
        case 1
        then show ?thesis using False fresh req by (auto simp: given_up_def)
      next
        case 2
        then show ?thesis using requests_apart[OF inv split 2] req by (auto simp: given_up_def)
      qed
    qed
    moreover have "settleable acquired d ids"
      using Cons.prems(3) by (simp add: settleable_def)
    ultimately show ?thesis
      using Cons.IH[OF inv] Cons.prems(2,4) here(2) False by simp
  next
    case True
    define d1 where "d1 = released_catalog d pre r post"
    have phase: "as_phase (rs_attempt r) = Reserved" and out: "request_id \<notin> acquired"
      using True req by (auto simp: given_up_def)
    have rel: "release_unprovisioned conflict missing d request_id r = Inr d1" "catalog_inv d1"
      for conflict missing :: string
      using release_unprovisioned_iff[OF inv split, of conflict missing] released_inv[OF inv split] phase Cons.prems(4) req
      by (simp_all add: d1_def request_of_def)
    have "settleable acquired d1 ids"
      using Cons.prems(3) fresh req unfolding settleable_def d1_def released_catalog_def split by fastforce
    then obtain d' where d': "settle_loop acquired d1 ids = Inr d'" "catalog_step\<^sup>*\<^sup>* d1 d'"
      "cd_active d' = filter (\<lambda>r. \<not> given_up acquired ids r) (pre @ post)"
      "cd_tombstones d' = foldl pushed_history (cd_tombstones d1) (given_up_attempts acquired (pre @ post) ids)"
      using Cons.IH[OF rel(2)] Cons.prems(2,4) by (auto simp: d1_def released_catalog_def)
    have "settle_loop acquired d (request_id # ids) = Inr d'"
      using found out phase rel(1) d'(1) by simp
    moreover have "catalog_step\<^sup>*\<^sup>* d d'"
      using release_steps[OF rel(1)] d'(2) by (rule rtranclp_trans)
    moreover have "cd_active d' = filter (\<lambda>r. \<not> given_up acquired (request_id # ids) r) (cd_active d)"
    proof -
      have "given_up acquired (request_id # ids) r"
        using True by (auto simp: given_up_def)
      then show ?thesis using d'(3) here(1) by (simp add: split)
    qed
    moreover have "cd_tombstones d' = foldl pushed_history (cd_tombstones d)
        (given_up_attempts acquired (cd_active d) (request_id # ids))"
      using d'(4) here(2) True given_up_attempts_remove[OF fresh, of acquired pre post]
      by (simp add: d1_def released_catalog_def split)
    ultimately show ?thesis by blast
  qed
qed

lemma pushed_history_drop:
  assumes "length ts \<le> MAX_DISPOSABLE_ATTEMPT_TOMBSTONES"
  shows "pushed_history ts a = drop (length ts + 1 - MAX_DISPOSABLE_ATTEMPT_TOMBSTONES) (ts @ [a])"
  using assms by (cases ts; cases "length ts = MAX_DISPOSABLE_ATTEMPT_TOMBSTONES")
    (auto simp: pushed_history_def)

lemma foldl_pushed_history:
  assumes "length ts \<le> MAX_DISPOSABLE_ATTEMPT_TOMBSTONES"
  shows "foldl pushed_history ts as
         = drop (length ts + length as - MAX_DISPOSABLE_ATTEMPT_TOMBSTONES) (ts @ as)"
proof (induction as rule: rev_induct)
  case Nil
  then show ?case using assms by simp
next
  case (snoc a as)
  define k where "k = length ts + length as - MAX_DISPOSABLE_ATTEMPT_TOMBSTONES"
  define m where "m = length (drop k (ts @ as)) + 1 - MAX_DISPOSABLE_ATTEMPT_TOMBSTONES"
  have "foldl pushed_history ts (as @ [a]) = pushed_history (drop k (ts @ as)) a"
    by (simp add: snoc k_def)
  also have "\<dots> = drop m (drop k (ts @ as) @ [a])"
    unfolding m_def by (rule pushed_history_drop) (simp add: k_def)
  also have "drop k (ts @ as) @ [a] = drop k (ts @ as @ [a])"
    by (simp add: k_def)
  also have "drop m (drop k (ts @ as @ [a])) = drop (m + k) (ts @ as @ [a])"
    by (simp only: drop_drop)
  also have "m + k = length ts + length (as @ [a]) - MAX_DISPOSABLE_ATTEMPT_TOMBSTONES"
    by (simp add: m_def k_def)
  finally show ?case .
qed

section \<open>Property\<close>


section \<open>Witness\<close>

lemma sample_reachable: "catalog_reachable sample_catalog"
proof (rule catalog_stepped [OF catalog_created step_reserve])
  have "catalog_validate sample_catalog = Inr ()"
    using sample_encoded by (auto simp: encode_disposable_attempt_catalog_def)
  then show "doc_reserve catalog_empty sample_reservation = Inr sample_catalog"
    by (simp add: doc_reserve_def find_active_def find_tombstone_def catalog_empty_def
        MAX_ACTIVE_DISPOSABLE_ATTEMPTS_def sample_catalog_def example_catalog_def Let_def
        catalog_revision_next_ok numeral_2_eq_2)
  show "reservation_new example_attempt (rs_resources sample_reservation)
      (rs_prepared_template_identity sample_reservation) = Inr sample_reservation"
    by (simp add: reservation_new_def sample_reservation_def example_reservation_def example_attempt_def
        attempt_reserved_def)
  show "attempt_validate example_attempt = Inr ()" by (simp add: example_attempt_def reserved_valid)
  show "worker_resources_new 2000 4096 8192 = Inr (rs_resources sample_reservation)"
    by (simp add: worker_resources_new_def sample_reservation_def example_reservation_def
        MAX_CPU_MILLIS_def MAX_BYTES_def)
qed


end
