(* ===== verification/Delivery_Consumer.thy ===== *)
theory Delivery_Consumer
  imports Prepared_Template Delivery_Settlement "HOL-Library.List_Lexorder" "HOL-Library.Char_ord"
begin

text \<open>
  What a retained delivery does to the attempt catalog, \<open>src/github_scale_set_delivery_consumer.rs\<close>:
  the enrolled policy, the identities derived from a job, every event applied in order, and the
  resolution of an ambiguous acquisition by a later message. Strings are ordered by their bytes. The
  error is its code; SHA-256 is a parameter that gives the 64 hexadecimal digits.
\<close>

section \<open>Policy\<close>

definition ATTEMPT_IDENTITY_DOMAIN :: string where
  "ATTEMPT_IDENTITY_DOMAIN = ''smolrunner.scale-set-delivery-attempt.v1'' @ [CHR 0x00]"
definition MAX_REPOSITORY_COMPONENT_BYTES :: nat where "MAX_REPOSITORY_COMPONENT_BYTES = 100"
definition MAX_LABELS :: nat where "MAX_LABELS = 32"
definition DISPOSABLE_JOB_MAX_MILLIS :: nat where "DISPOSABLE_JOB_MAX_MILLIS = 6 * 60 * 60 * 1000"
definition DISPOSABLE_LIMA_VM_ID_HEX_CHARS :: nat where "DISPOSABLE_LIMA_VM_ID_HEX_CHARS = 24"

record consumer_policy =
  cp_scale_set_id :: nat
  cp_repository :: string
  cp_owner :: string
  cp_request_labels :: "string list"
  cp_resources :: disposable_worker_resources
  cp_prepared_template_identity :: prepared_template_identity

definition consumer_bounded_token :: "string \<Rightarrow> nat \<Rightarrow> bool" where
  "consumer_bounded_token v maximum \<longleftrightarrow>
     v \<noteq> [] \<and> length v \<le> maximum \<and> list_all (\<lambda>b. 33 \<le> byte b \<and> byte b \<le> 126) v"

definition policy_new_with_identity ::
  "nat \<Rightarrow> string \<Rightarrow> string \<Rightarrow> string list \<Rightarrow> disposable_worker_resources \<Rightarrow> prepared_template_identity \<Rightarrow>
   string + consumer_policy" where
  "policy_new_with_identity scale_set_id repository owner request_labels resources template =
     (if scale_set_id = 0 \<or> \<not> consumer_bounded_token repository MAX_REPOSITORY_COMPONENT_BYTES
         \<or> \<not> consumer_bounded_token owner MAX_REPOSITORY_COMPONENT_BYTES
         \<or> request_labels = [] \<or> MAX_LABELS < length request_labels
      then Inl ''delivery_consumer_policy_invalid''
      else
        let labels = sort request_labels in
        if list_ex (\<lambda>label. \<not> consumer_bounded_token label MAX_REPOSITORY_COMPONENT_BYTES) labels
           \<or> list_ex (\<lambda>(a, b). a = b) (zip labels (tl labels))
        then Inl ''delivery_consumer_policy_invalid''
        else Inr \<lparr>cp_scale_set_id = scale_set_id, cp_repository = repository, cp_owner = owner,
                  cp_request_labels = labels, cp_resources = resources,
                  cp_prepared_template_identity = template\<rparr>)"

definition policy_new ::
  "'j template_env \<Rightarrow> nat \<Rightarrow> string \<Rightarrow> string \<Rightarrow> string list \<Rightarrow> disposable_worker_resources \<Rightarrow>
   prepared_template_manifest \<Rightarrow> string + consumer_policy" where
  "policy_new env scale_set_id repository owner request_labels resources manifest =
     (let source = tw_source_resources (tm_wire manifest) in
      if \<not> sr_cpu_count source * 1000 < 2 ^ 32 then Inl ''delivery_consumer_policy_invalid''
      else if wr_cpu_millis resources < sr_cpu_count source * 1000
              \<or> wr_memory_bytes resources < sr_memory_bytes source
              \<or> wr_disk_bytes resources < sr_disk_bytes source
      then Inl ''delivery_consumer_policy_invalid''
      else
        try_res (map_err (\<lambda>_. ''delivery_consumer_policy_invalid'') (template_identity env manifest))
          (policy_new_with_identity scale_set_id repository owner request_labels resources))"

definition policy_new_owned_linux ::
  "nat \<Rightarrow> string \<Rightarrow> string \<Rightarrow> string list \<Rightarrow> disposable_worker_resources \<Rightarrow> prepared_template_identity \<Rightarrow>
   string + consumer_policy" where
  "policy_new_owned_linux scale_set_id repository owner request_labels resources generation =
     policy_new_with_identity scale_set_id repository owner request_labels resources generation"

section \<open>Derived identities\<close>

record derived_identities =
  di_attempt_id :: disposable_attempt_id
  di_claim_id :: worker_claim_id
  di_vm_id :: disposable_vm_id
  di_runner_name :: scale_set_runner_name

definition to_be_bytes_u32 :: "nat \<Rightarrow> string" where
  "to_be_bytes_u32 n = map (\<lambda>i. char_of (n div 256 ^ (3 - i) mod 256)) [0..<4]"

definition hash_field :: "string \<Rightarrow> string" where
  "hash_field v = to_be_bytes (min (length v) (2 ^ 64 - 1)) @ v"

definition identity_fields :: "consumer_policy \<Rightarrow> job_evidence \<Rightarrow> string list" where
  "identity_fields policy job =
     [to_be_bytes_u32 (cp_scale_set_id policy), to_be_bytes_u32 (wr_cpu_millis (cp_resources policy)),
      to_be_bytes (wr_memory_bytes (cp_resources policy)), to_be_bytes (wr_disk_bytes (cp_resources policy)),
      template_identity_str (cp_prepared_template_identity policy),
      to_be_bytes (runner_request_id_get (je_runner_request_id job)), je_repository job, je_owner job,
      job_id_str (je_job_id job), to_be_bytes (je_workflow_run_id job)]
     @ sort (je_request_labels job)"

definition identity_input :: "consumer_policy \<Rightarrow> job_evidence \<Rightarrow> string" where
  "identity_input policy job = ATTEMPT_IDENTITY_DOMAIN @ concat (map hash_field (identity_fields policy job))"

definition derive_identities ::
  "(string \<Rightarrow> string) \<Rightarrow> consumer_policy \<Rightarrow> job_evidence \<Rightarrow> string + derived_identities" where
  "derive_identities sha256_hex policy job =
     (let digest = sha256_hex (identity_input policy job);
          short = take 32 digest;
          vm_short = take DISPOSABLE_LIMA_VM_ID_HEX_CHARS digest
      in try_res (map_err (\<lambda>_. ''delivery_consumer_identity_invalid'')
           (attempt_id_parse (''attempt-'' @ short))) (\<lambda>attempt_id.
         try_res (map_err (\<lambda>_. ''delivery_consumer_identity_invalid'')
           (worker_claim_id_parse (''claim-'' @ digest))) (\<lambda>claim_id.
         try_res (map_err (\<lambda>_. ''delivery_consumer_identity_invalid'')
           (vm_id_parse (''w-'' @ vm_short))) (\<lambda>vm_id.
         try_res (map_err (\<lambda>_. ''delivery_consumer_identity_invalid'')
           (runner_name_parse (''smolrunner-'' @ short))) (\<lambda>runner_name.
         Inr \<lparr>di_attempt_id = attempt_id, di_claim_id = claim_id, di_vm_id = vm_id,
              di_runner_name = runner_name\<rparr>)))))"

section \<open>Checks against the policy and the catalog\<close>

definition attempt_not_after :: "epoch_millis \<Rightarrow> string + epoch_millis" where
  "attempt_not_after observed_at =
     ok_or (case checked_add_u64 (epoch_get observed_at) DISPOSABLE_JOB_MAX_MILLIS of
              None \<Rightarrow> None
            | Some v \<Rightarrow> (case epoch_millis_new v of Inl _ \<Rightarrow> None | Inr t \<Rightarrow> Some t))
       ''delivery_consumer_deadline_invalid''"

definition consumer_validate_job :: "consumer_policy \<Rightarrow> job_evidence \<Rightarrow> string + unit" where
  "consumer_validate_job policy job =
     (if je_repository job \<noteq> cp_repository policy \<or> je_owner job \<noteq> cp_owner policy
         \<or> sort (je_request_labels job) \<noteq> cp_request_labels policy
      then Inl ''delivery_consumer_job_not_enrolled'' else Inr ())"

definition consumer_validate_attempt ::
  "attempt_state \<Rightarrow> job_evidence \<Rightarrow> derived_identities \<Rightarrow> string + unit" where
  "consumer_validate_attempt attempt job identities =
     (if as_attempt_id attempt \<noteq> di_attempt_id identities
         \<or> as_capacity_claim_id attempt \<noteq> di_claim_id identities
         \<or> as_vm_id attempt \<noteq> di_vm_id identities \<or> as_runner_name attempt \<noteq> di_runner_name identities
         \<or> as_runner_request_id attempt \<noteq> je_runner_request_id job
         \<or> (case as_github_job_id attempt of None \<Rightarrow> False | Some job_id \<Rightarrow> job_id \<noteq> je_job_id job)
      then Inl ''delivery_consumer_identity_drift'' else Inr ())"

definition consumer_validate_reservation ::
  "consumer_policy \<Rightarrow> reservation \<Rightarrow> job_evidence \<Rightarrow> derived_identities \<Rightarrow> string + unit" where
  "consumer_validate_reservation policy reservation job identities =
     try_res (consumer_validate_attempt (rs_attempt reservation) job identities) (\<lambda>_.
     if rs_resources reservation \<noteq> cp_resources policy
        \<or> rs_prepared_template_identity reservation \<noteq> cp_prepared_template_identity policy
     then Inl ''delivery_consumer_identity_drift'' else Inr ())"

fun event_job :: "lifecycle_event \<Rightarrow> job_evidence" where
  "event_job (LifecycleAvailable job) = job"
| "event_job (LifecycleAssigned job) = job"
| "event_job (LifecycleStarted job runner) = job"
| "event_job (LifecycleCompleted job runner result) = job"

fun event_action :: "lifecycle_event \<Rightarrow> string + catalog_action" where
  "event_action (LifecycleAssigned job) = Inr (RecordAssigned (je_job_id job))"
| "event_action (LifecycleStarted job runner) = Inr (RecordRunning runner (je_job_id job))"
| "event_action (LifecycleCompleted job runner result) = Inr (RecordTerminal runner (je_job_id job) result)"
| "event_action (LifecycleAvailable job) = Inl ''delivery_consumer_event_invalid''"

fun tombstone_event_valid :: "attempt_state \<Rightarrow> lifecycle_event \<Rightarrow> bool" where
  "tombstone_event_valid attempt (LifecycleAvailable job) = True"
| "tombstone_event_valid attempt (LifecycleAssigned job) = (as_github_job_id attempt = Some (je_job_id job))"
| "tombstone_event_valid attempt (LifecycleStarted job runner) =
     (as_github_job_id attempt = Some (je_job_id job) \<and> as_runner_id attempt = Some (rr_id runner)
      \<and> as_runner_name attempt = rr_name runner)"
| "tombstone_event_valid attempt (LifecycleCompleted job runner result) =
     ((as_github_job_id attempt = Some (je_job_id job) \<and> as_result attempt = Some result
       \<and> (case runner of
            None \<Rightarrow> True
          | Some r \<Rightarrow> as_runner_id attempt = Some (rr_id r) \<and> as_runner_name attempt = rr_name r))
      \<or> (as_phase attempt = Complete \<and> as_github_job_id attempt = None \<and> as_result attempt = None
         \<and> runner = None \<and> job_result_str result = ''canceled''))"

definition validate_tombstone_event :: "attempt_state \<Rightarrow> lifecycle_event \<Rightarrow> string + unit" where
  "validate_tombstone_event attempt event =
     (if tombstone_event_valid attempt event then Inr () else Inl ''delivery_consumer_event_conflict'')"

fun runnerless_cancellation :: "lifecycle_event \<Rightarrow> bool" where
  "runnerless_cancellation (LifecycleCompleted job None result) = (job_result_str result = ''canceled'')"
| "runnerless_cancellation _ = False"

definition is_unbound_runnerless_cancellation :: "lifecycle_event \<Rightarrow> attempt_state \<Rightarrow> bool" where
  "is_unbound_runnerless_cancellation event attempt \<longleftrightarrow>
     as_github_job_id attempt = None \<and> runnerless_cancellation event"

section \<open>Events\<close>

definition retire_unprovisioned_cancellation ::
  "catalog_document \<Rightarrow> reservation \<Rightarrow> string + catalog_document" where
  "retire_unprovisioned_cancellation d reservation =
     (let attempt_id = rs_id reservation in
      try_res (map_err (\<lambda>_. ''delivery_consumer_event_conflict'')
        (doc_replace_attempt d attempt_id (as_revision (rs_attempt reservation))
           BeginUnprovisionedRelease)) (\<lambda>releasing.
      try_res (ok_or (find_active releasing attempt_id) ''delivery_consumer_attempt_missing'')
        (\<lambda>releasing_attempt.
      try_res (map_err (\<lambda>_. ''delivery_consumer_event_conflict'')
        (doc_replace_attempt releasing attempt_id (as_revision (rs_attempt releasing_attempt))
           CompleteUnprovisioned)) (\<lambda>complete.
      try_res (ok_or (find_active complete attempt_id) ''delivery_consumer_attempt_missing'')
        (\<lambda>complete_attempt.
      map_err (\<lambda>_. ''delivery_consumer_event_conflict'')
        (doc_retire_complete complete attempt_id (as_revision (rs_attempt complete_attempt))))))))"

text \<open>The call that records an event on the active attempt it belongs to.\<close>

definition record_event ::
  "lifecycle_event \<Rightarrow> catalog_document \<Rightarrow> reservation \<Rightarrow> string + catalog_document" where
  "record_event event d existing =
     try_res (event_action event) (\<lambda>action.
     map_err (\<lambda>_. ''delivery_consumer_event_conflict'')
       (doc_replace_attempt d (rs_id existing) (as_revision (rs_attempt existing)) action))"

text \<open>The branch of available and assigned jobs.\<close>

definition reconcile_offer ::
  "consumer_policy \<Rightarrow> derived_identities \<Rightarrow> bool \<Rightarrow> lifecycle_event \<Rightarrow> catalog_document \<Rightarrow> epoch_millis \<Rightarrow>
   string + catalog_document" where
  "reconcile_offer policy identities available event d observed_at =
     (let job = event_job event in
      try_res (attempt_not_after observed_at) (\<lambda>not_after.
      case find_active_by_runner_request_id d (je_runner_request_id job) of
        Some existing \<Rightarrow>
          try_res (consumer_validate_reservation policy existing job identities) (\<lambda>_.
          if available \<or> (as_phase (rs_attempt existing) = Reserved
                           \<and> as_github_job_id (rs_attempt existing) = None)
          then (if as_not_after (rs_attempt existing) \<noteq> not_after
                then Inl ''delivery_consumer_identity_drift'' else Inr d)
          else record_event event d existing)
      | None \<Rightarrow>
          (case find_tombstone_by_runner_request_id d (je_runner_request_id job) of
             Some existing \<Rightarrow>
               try_res (consumer_validate_attempt existing job identities) (\<lambda>_.
               if available \<and> as_not_after existing \<noteq> not_after
               then Inl ''delivery_consumer_identity_drift''
               else try_res (validate_tombstone_event existing event) (\<lambda>_. Inr d))
           | None \<Rightarrow>
               try_res (map_err (\<lambda>_. ''delivery_consumer_catalog_invalid'') (host_usage d)) (\<lambda>usage.
               if hu_workers usage \<noteq> 0 then Inl ''delivery_consumer_capacity_unavailable''
               else
                 try_res (map_err (\<lambda>_. ''delivery_consumer_reservation_invalid'')
                   (reservation_new
                      (attempt_reserved (di_attempt_id identities) (di_claim_id identities)
                         (di_vm_id identities) (di_runner_name identities) (je_runner_request_id job)
                         not_after)
                      (cp_resources policy) (cp_prepared_template_identity policy))) (\<lambda>reservation.
                 map_err (\<lambda>_. ''delivery_consumer_reservation_failed'') (doc_reserve d reservation))))))"

text \<open>A cancellation that reaches an attempt no job is bound to.\<close>

definition reconcile_cancellation :: "catalog_document \<Rightarrow> reservation \<Rightarrow> string + catalog_document" where
  "reconcile_cancellation d existing =
     (let begin_cleanup_now =
        map_err (\<lambda>_. ''delivery_consumer_event_conflict'')
          (doc_replace_attempt d (rs_id existing) (as_revision (rs_attempt existing)) BeginCleanup)
      in case as_phase (rs_attempt existing) of
           Reserved \<Rightarrow> retire_unprovisioned_cancellation d existing
         | CloneAuthorized \<Rightarrow> retire_unprovisioned_cancellation d existing
         | CloneStarted \<Rightarrow> if as_vm_identity (rs_attempt existing) = None then Inr d else begin_cleanup_now
         | Registering \<Rightarrow> begin_cleanup_now
         | Waiting \<Rightarrow> begin_cleanup_now
         | Destroying \<Rightarrow> Inr d
         | Deregistering \<Rightarrow> Inr d
         | Releasing \<Rightarrow> Inr d
         | UnprovisionedReleasing \<Rightarrow> Inr d
         | Complete \<Rightarrow> Inr d
         | Provisioning \<Rightarrow> Inl ''delivery_consumer_event_conflict''
         | Assigned \<Rightarrow> Inl ''delivery_consumer_event_conflict''
         | Running \<Rightarrow> Inl ''delivery_consumer_event_conflict''
         | Terminal \<Rightarrow> Inl ''delivery_consumer_event_conflict'')"

text \<open>The branch of started and completed jobs.\<close>

definition reconcile_report ::
  "consumer_policy \<Rightarrow> derived_identities \<Rightarrow> lifecycle_event \<Rightarrow> catalog_document \<Rightarrow> string + catalog_document" where
  "reconcile_report policy identities event d =
     (let job = event_job event in
      case find_active_by_runner_request_id d (je_runner_request_id job) of
        Some existing \<Rightarrow>
          try_res (consumer_validate_reservation policy existing job identities) (\<lambda>_.
          if is_unbound_runnerless_cancellation event (rs_attempt existing)
          then reconcile_cancellation d existing
          else record_event event d existing)
      | None \<Rightarrow>
          (case find_tombstone_by_runner_request_id d (je_runner_request_id job) of
             Some existing \<Rightarrow>
               try_res (consumer_validate_attempt existing job identities) (\<lambda>_.
               try_res (validate_tombstone_event existing event) (\<lambda>_. Inr d))
           | None \<Rightarrow> Inl ''delivery_consumer_attempt_missing''))"

definition reconcile_event ::
  "(string \<Rightarrow> string) \<Rightarrow> consumer_policy \<Rightarrow> lifecycle_event \<Rightarrow> catalog_document \<Rightarrow> epoch_millis \<Rightarrow>
   string + catalog_document" where
  "reconcile_event sha256_hex policy event d observed_at =
     try_res (consumer_validate_job policy (event_job event)) (\<lambda>_.
     try_res (derive_identities sha256_hex policy (event_job event)) (\<lambda>identities.
     case event of
       LifecycleAvailable _ \<Rightarrow> reconcile_offer policy identities True event d observed_at
     | LifecycleAssigned _ \<Rightarrow> reconcile_offer policy identities False event d observed_at
     | _ \<Rightarrow> reconcile_report policy identities event d))"

fun reconcile_events ::
  "(string \<Rightarrow> string) \<Rightarrow> consumer_policy \<Rightarrow> catalog_document \<Rightarrow> epoch_millis \<Rightarrow> lifecycle_event list \<Rightarrow>
   string + catalog_document" where
  "reconcile_events sha256_hex policy d observed_at [] = Inr d"
| "reconcile_events sha256_hex policy d observed_at (event # events) =
     try_res (reconcile_event sha256_hex policy event d observed_at) (\<lambda>d'.
     reconcile_events sha256_hex policy d' observed_at events)"

definition reconcile_scale_set_delivery ::
  "(string \<Rightarrow> string) \<Rightarrow> consumer_policy \<Rightarrow> scale_set_delivery \<Rightarrow> catalog_document \<Rightarrow> epoch_millis \<Rightarrow>
   string + catalog_document" where
  "reconcile_scale_set_delivery sha256_hex policy delivery catalog observed_at =
     try_res (map_err (\<lambda>_. ''delivery_consumer_evidence_invalid'') (retained_events delivery))
       (reconcile_events sha256_hex policy catalog observed_at)"

section \<open>Resolution of an ambiguous acquisition\<close>

fun resolution_loop ::
  "(string \<Rightarrow> string) \<Rightarrow> consumer_policy \<Rightarrow> scale_set_runner_request_id set \<Rightarrow> catalog_document \<Rightarrow>
   scale_set_runner_request_id set \<Rightarrow> lifecycle_event list \<Rightarrow>
   string + catalog_document \<times> scale_set_runner_request_id set" where
  "resolution_loop sha256_hex policy ambiguous d acquired [] = Inr (d, acquired)"
| "resolution_loop sha256_hex policy ambiguous d acquired (event # events) =
     (let job = event_job event; request_id = je_runner_request_id job in
      if request_id \<notin> ambiguous then Inl ''delivery_consumer_resolution_conflict''
      else
        try_res (consumer_validate_job policy job) (\<lambda>_.
        try_res (derive_identities sha256_hex policy job) (\<lambda>identities.
        try_res (ok_or (find_active_by_runner_request_id d request_id)
          ''delivery_consumer_attempt_missing'') (\<lambda>reservation.
        try_res (consumer_validate_reservation policy reservation job identities) (\<lambda>_.
        if as_phase (rs_attempt reservation) \<noteq> Reserved
        then Inl ''delivery_consumer_resolution_conflict''
        else
          (case event of
             LifecycleAssigned _ \<Rightarrow>
               resolution_loop sha256_hex policy ambiguous d (insert request_id acquired) events
           | _ \<Rightarrow>
               if runnerless_cancellation event
               then try_res (map_err (\<lambda>_. ''delivery_consumer_resolution_conflict'')
                      (retire_unprovisioned_cancellation d reservation)) (\<lambda>d'.
                    resolution_loop sha256_hex policy ambiguous d' (insert request_id acquired) events)
               else Inl ''delivery_consumer_resolution_conflict''))))))"

definition reconcile_scale_set_acquisition_resolution ::
  "(string \<Rightarrow> string) \<Rightarrow> consumer_policy \<Rightarrow> request_ids \<Rightarrow> scale_set_delivery \<Rightarrow> catalog_document \<Rightarrow>
   string + catalog_document \<times> request_ids" where
  "reconcile_scale_set_acquisition_resolution sha256_hex policy ambiguous_requests delivery catalog =
     (if ambiguous_requests = [] then Inl ''delivery_consumer_resolution_invalid''
      else
        try_res (map_err (\<lambda>_. ''delivery_consumer_evidence_invalid'') (available_request_ids delivery))
          (\<lambda>available.
        if available \<noteq> [] then Inl ''delivery_consumer_resolution_invalid''
        else if card (set ambiguous_requests) \<noteq> length ambiguous_requests
        then Inl ''delivery_consumer_resolution_invalid''
        else
          try_res (map_err (\<lambda>_. ''delivery_consumer_evidence_invalid'') (retained_events delivery))
            (\<lambda>events.
          try_res (resolution_loop sha256_hex policy (set ambiguous_requests) catalog {} events)
            (\<lambda>(next', acquired).
          if acquired = {} then Inl ''delivery_consumer_resolution_inconclusive''
          else Inr (next', sorted_list_of_set acquired)))))"

section \<open>The hashed identity determines its job\<close>

text \<open>Big-endian bytes of a fixed width.\<close>

definition be_bytes :: "nat \<Rightarrow> nat \<Rightarrow> string" where
  "be_bytes k n = map (\<lambda>i. char_of (n div 256 ^ (k - 1 - i) mod 256)) [0..<k]"

lemma be_bytes_widths: "to_be_bytes = be_bytes 8" "to_be_bytes_u32 = be_bytes 4"
  by (auto simp: fun_eq_iff to_be_bytes_def to_be_bytes_u32_def be_bytes_def)

lemma be_bytes_length [simp]: "length (be_bytes k n) = k"
  by (simp add: be_bytes_def)

lemma be_bytes_Suc: "be_bytes (Suc k) n = be_bytes k (n div 256) @ [char_of (n mod 256)]"
proof -
  have "map (\<lambda>i. char_of (n div 256 ^ (k - i) mod 256)) [0..<k] = be_bytes k (n div 256)"
    unfolding be_bytes_def
  proof (rule map_cong[OF refl])
    fix i assume "i \<in> set [0..<k]"
    then have "k - i = Suc (k - 1 - i)" by auto
    then show "char_of (n div 256 ^ (k - i) mod 256) = (char_of (n div 256 div 256 ^ (k - 1 - i) mod 256) :: char)"
      by (simp add: div_mult2_eq)
  qed
  then show ?thesis by (simp add: be_bytes_def)
qed

lemma be_bytes_inj:
  assumes "be_bytes k m = be_bytes k n" and "m < 256 ^ k" and "n < 256 ^ k"
  shows "m = n"
  using assms
proof (induction k arbitrary: m n)
  case (Suc k)
  have "char_of (m mod 256) = (char_of (n mod 256) :: char)" and rest: "be_bytes k (m div 256) = be_bytes k (n div 256)"
    using Suc.prems(1) by (simp_all add: be_bytes_Suc)
  then have "of_char (char_of (m mod 256) :: char) = (of_char (char_of (n mod 256) :: char) :: nat)" by simp
  then have "m mod 256 = n mod 256" by simp
  moreover have "m div 256 = n div 256"
    using Suc.IH[OF rest] Suc.prems(2,3) by (simp add: less_mult_imp_div_less mult.commute)
  ultimately show ?case by (metis div_mult_mod_eq)
qed simp

lemma hash_field_length: "length v < 2 ^ 64 \<Longrightarrow> hash_field v = be_bytes 8 (length v) @ v"
  by (simp add: hash_field_def be_bytes_widths min_def)

lemma hash_field_not_Nil [simp]: "hash_field v \<noteq> []"
  by (simp add: hash_field_def to_be_bytes_def)

text \<open>Every field carries its length, so the concatenation of the fields can be read back.\<close>

lemma hash_fields_inj:
  assumes "concat (map hash_field xs) = concat (map hash_field ys)"
    and "\<forall>v \<in> set xs. length v < 2 ^ 64" and "\<forall>v \<in> set ys. length v < 2 ^ 64"
  shows "xs = ys"
  using assms
proof (induction xs arbitrary: ys)
  case Nil
  then show ?case by (cases ys) auto
next
  case (Cons x xs)
  then obtain y ys' where ys: "ys = y # ys'"
    by (cases ys) auto
  have eq: "be_bytes 8 (length x) @ x @ concat (map hash_field xs)
      = be_bytes 8 (length y) @ y @ concat (map hash_field ys')"
    using Cons.prems by (simp add: ys hash_field_length)
  then have "be_bytes 8 (length x) = be_bytes 8 (length y)" by simp
  then have "length x = length y"
    by (rule be_bytes_inj) (use Cons.prems ys in simp_all)
  then show ?case
    using eq Cons.IH[of ys'] Cons.prems ys by simp
qed

end
