(* ===== verification/Consumer_Effects.thy ===== *)
theory Consumer_Effects
  imports Delivery_Consumer
begin

text \<open>
  What reconciling a delivery can do to a catalog: each event leaves it as it is, reserves the job it
  offers, records itself on the one attempt of its request, or releases that attempt. From this
  follow the properties of whole deliveries: which attempts they touch, that replaying an event
  changes nothing, and that the resolution of an ambiguous acquisition is the one the recovery
  state accepts.
\<close>

section \<open>Operations on the attempt of a request\<close>

lemma retire_cancellation_iff:
  assumes inv: "catalog_inv d" and split: "cd_active d = pre @ r # post"
    and phase: "as_phase (rs_attempt r) \<in> {Reserved, CloneAuthorized}"
  shows "retire_unprovisioned_cancellation d r = Inr d'
           \<longleftrightarrow> cat_rev d + 3 \<le> 1000000000000 \<and> d' = released_catalog d pre r post"
  using release_stages(1,2)[OF inv split phase] release_lookups[OF inv split phase]
  by (cases "cat_rev d < 1000000000000"; cases "cat_rev d + 1 < 1000000000000")
    (auto simp: retire_unprovisioned_cancellation_def Let_def)

lemma retire_cancellation_steps:
  assumes "retire_unprovisioned_cancellation d r = Inr d'"
  shows "catalog_step\<^sup>*\<^sup>* d d'"
proof -
  obtain d1 d2 rv1 rv2 where
    "doc_replace_attempt d (rs_id r) (as_revision (rs_attempt r)) BeginUnprovisionedRelease = Inr d1"
    "doc_replace_attempt d1 (rs_id r) rv1 CompleteUnprovisioned = Inr d2"
    "doc_retire_complete d2 (rs_id r) rv2 = Inr d'"
    using assms by (auto simp: retire_unprovisioned_cancellation_def Let_def)
  then show ?thesis
    by (meson converse_rtranclp_into_rtranclp r_into_rtranclp step_retire step_transition)
qed

lemma find_request_Some:
  assumes "find_active_by_runner_request_id d q = Some r"
  shows "\<exists>pre post. cd_active d = pre @ r # post \<and> request_of r = q"
proof -
  have "r \<in> set (cd_active d)" "request_of r = q"
    using assms by (auto simp: find_active_by_runner_request_id_def find_Some_iff request_of_def)
  then show ?thesis by (meson split_list)
qed

lemma find_request_None:
  "find_active_by_runner_request_id d q = None \<longleftrightarrow> (\<forall>r\<in>set (cd_active d). request_of r \<noteq> q)"
  "find_tombstone_by_runner_request_id d q = None \<longleftrightarrow> (\<forall>a\<in>set (cd_tombstones d). as_runner_request_id a \<noteq> q)"
  by (auto simp: find_active_by_runner_request_id_def find_tombstone_by_runner_request_id_def
      find_None_iff request_of_def)

lemma replace_effect:
  assumes inv: "catalog_inv d" and split: "cd_active d = pre @ r # post"
  shows "doc_replace_attempt d (rs_id r) (as_revision (rs_attempt r)) a = Inr d' \<longleftrightarrow>
    (\<exists>s. run_action (rs_attempt r) a = Inr s \<and>
       (s = rs_attempt r \<and> d' = d \<or> s \<noteq> rs_attempt r \<and> doc_set_attempt d (length pre) s = Inr d'))"
proof -
  have "position (\<lambda>x. rs_id x = rs_id r) (cd_active d) = Some (length pre)"
    using inv_valid[OF inv] split position_here[of pre r post "cd_tombstones d"]
    by (simp add: catalog_validate_ok)
  then show ?thesis
    using split by (auto simp: doc_replace_attempt_def Let_def apply_action_ok)
qed

lemma replace_changes:
  assumes inv: "catalog_inv d" and split: "cd_active d = pre @ r # post"
    and replace: "doc_replace_attempt d (rs_id r) (as_revision (rs_attempt r)) a = Inr d'"
  shows "\<exists>s. run_action (rs_attempt r) a = Inr s \<and> same_attempt (rs_attempt r) s
    \<and> cd_active d' = pre @ r\<lparr>rs_attempt := s\<rparr> # post \<and> cd_tombstones d' = cd_tombstones d
    \<and> (as_phase (rs_attempt r) = Complete \<longrightarrow> as_phase s = Complete) \<and> (s = rs_attempt r \<longrightarrow> d' = d)"
proof -
  obtain s where run: "run_action (rs_attempt r) a = Inr s"
    and d': "s = rs_attempt r \<and> d' = d \<or> s \<noteq> rs_attempt r \<and> doc_set_attempt d (length pre) s = Inr d'"
    using replace unfolding replace_effect[OF inv split] by blast
  have "attempt_validate (rs_attempt r) = Inr ()"
    using inv split by (simp add: catalog_inv_def)
  then have "same_attempt (rs_attempt r) s" "phase_rank (as_phase (rs_attempt r)) \<le> phase_rank (as_phase s)"
    using run_action_advances[OF run]
    by (cases "s = rs_attempt r"; auto simp: attempt_advance_def same_attempt_def)+
  moreover from this have "as_phase (rs_attempt r) = Complete \<longrightarrow> as_phase s = Complete"
    by (cases "as_phase s") auto
  ultimately show ?thesis
    using run d' split by (auto simp: set_attempt_ok[OF split])
qed

section \<open>The effect of an event\<close>

text \<open>The reservation an offered job is given.\<close>

definition offered_reservation ::
  "consumer_policy \<Rightarrow> derived_identities \<Rightarrow> scale_set_runner_request_id \<Rightarrow> epoch_millis \<Rightarrow> reservation" where
  "offered_reservation policy identities request_id not_after =
     \<lparr>rs_attempt = attempt_reserved (di_attempt_id identities) (di_claim_id identities)
        (di_vm_id identities) (di_runner_name identities) request_id not_after,
      rs_resources = cp_resources policy,
      rs_prepared_template_identity = cp_prepared_template_identity policy\<rparr>"

fun offers :: "lifecycle_event \<Rightarrow> bool" where
  "offers (LifecycleAvailable _) = True"
| "offers (LifecycleAssigned _) = True"
| "offers _ = False"

abbreviation event_request :: "lifecycle_event \<Rightarrow> scale_set_runner_request_id" where
  "event_request event \<equiv> je_runner_request_id (event_job event)"

inductive event_effect ::
  "consumer_policy \<Rightarrow> derived_identities \<Rightarrow> lifecycle_event \<Rightarrow> epoch_millis \<Rightarrow>
   catalog_document \<Rightarrow> catalog_document \<Rightarrow> bool" for policy identities event observed_at where
  effect_none: "event_effect policy identities event observed_at d d"
| effect_reserve: "offers event \<Longrightarrow> find_active_by_runner_request_id d (event_request event) = None \<Longrightarrow>
    find_tombstone_by_runner_request_id d (event_request event) = None \<Longrightarrow>
    host_usage d = Inr usage \<Longrightarrow> hu_workers usage = 0 \<Longrightarrow> attempt_not_after observed_at = Inr not_after \<Longrightarrow>
    doc_reserve d (offered_reservation policy identities (event_request event) not_after) = Inr d' \<Longrightarrow>
    event_effect policy identities event observed_at d d'"
| effect_record: "cd_active d = pre @ r # post \<Longrightarrow> request_of r = event_request event \<Longrightarrow>
    doc_replace_attempt d (rs_id r) (as_revision (rs_attempt r)) a = Inr d' \<Longrightarrow>
    event_effect policy identities event observed_at d d'"
| effect_release: "cd_active d = pre @ r # post \<Longrightarrow> request_of r = event_request event \<Longrightarrow>
    as_phase (rs_attempt r) \<in> {Reserved, CloneAuthorized} \<Longrightarrow>
    retire_unprovisioned_cancellation d r = Inr d' \<Longrightarrow>
    event_effect policy identities event observed_at d d'"

lemma offered_new:
  "reservation_new (attempt_reserved (di_attempt_id identities) (di_claim_id identities)
      (di_vm_id identities) (di_runner_name identities) q t) (cp_resources policy)
      (cp_prepared_template_identity policy) = Inr (offered_reservation policy identities q t)"
  by (simp add: reservation_new_def attempt_reserved_def offered_reservation_def)

lemma record_event_effect:
  assumes "record_event event d r = Inr d'" and "find_active_by_runner_request_id d (event_request event) = Some r"
  shows "event_effect policy identities event t d d'"
  using find_request_Some[OF assms(2)] assms(1) by (auto simp: record_event_def intro: effect_record)

lemma reconcile_offer_effect:
  assumes "reconcile_offer policy identities available event d t = Inr d'" and "offers event"
  shows "event_effect policy identities event t d d'"
proof (cases "find_active_by_runner_request_id d (event_request event)")
  case None
  then show ?thesis
    using assms
    by (cases "find_tombstone_by_runner_request_id d (event_request event)")
      (auto simp: reconcile_offer_def Let_def offered_new split: if_splits intro: effect_none effect_reserve)
next
  case (Some r)
  then show ?thesis
    using assms
    by (auto simp: reconcile_offer_def Let_def split: if_splits
        intro: effect_none record_event_effect)
qed

lemma reconcile_cancellation_effect:
  assumes "reconcile_cancellation d r = Inr d'" and "find_active_by_runner_request_id d (event_request event) = Some r"
  shows "event_effect policy identities event t d d'"
proof -
  obtain pre post where split: "cd_active d = pre @ r # post" "request_of r = event_request event"
    using find_request_Some[OF assms(2)] by blast
  show ?thesis
    using assms(1)
    by (cases "as_phase (rs_attempt r)")
      (auto simp: reconcile_cancellation_def Let_def split: if_splits
        intro: effect_none effect_record[OF split] effect_release[OF split])
qed

lemma reconcile_event_effect:
  assumes "reconcile_event sha policy event d t = Inr d'"
  shows "\<exists>identities. derive_identities sha policy (event_job event) = Inr identities
           \<and> event_effect policy identities event t d d'"
proof -
  obtain identities where ids: "derive_identities sha policy (event_job event) = Inr identities"
    using assms by (auto simp: reconcile_event_def)
  have "event_effect policy identities event t d d'" if "reconcile_report policy identities event d = Inr d'"
    using that record_event_effect reconcile_cancellation_effect
    by (auto simp: reconcile_report_def Let_def split: option.splits if_splits intro: effect_none)
  then have "event_effect policy identities event t d d'"
    using assms ids reconcile_offer_effect by (cases event) (auto simp: reconcile_event_def)
  with ids show ?thesis by blast
qed

section \<open>Whole deliveries\<close>

definition live_attempts :: "catalog_document \<Rightarrow> nat" where
  "live_attempts d = length (live (cd_active d))"

definition untouched :: "scale_set_runner_request_id set \<Rightarrow> catalog_document \<Rightarrow> reservation list" where
  "untouched requests d = filter (\<lambda>r. request_of r \<notin> requests) (cd_active d)"

text \<open>A reservation that one of the events offers, under the identities of its job.\<close>

definition offered_by ::
  "(string \<Rightarrow> string) \<Rightarrow> consumer_policy \<Rightarrow> epoch_millis \<Rightarrow> lifecycle_event list \<Rightarrow> reservation \<Rightarrow> bool" where
  "offered_by sha policy observed_at events r \<longleftrightarrow>
     (\<exists>event \<in> set events. \<exists>identities not_after. offers event
        \<and> derive_identities sha policy (event_job event) = Inr identities
        \<and> attempt_not_after observed_at = Inr not_after
        \<and> same_attempt (rs_attempt (offered_reservation policy identities (event_request event) not_after))
            (rs_attempt r)
        \<and> rs_resources r = cp_resources policy
        \<and> rs_prepared_template_identity r = cp_prepared_template_identity policy)"

lemma same_attempt_trans: "same_attempt a b \<Longrightarrow> same_attempt b c \<Longrightarrow> same_attempt a c"
  by (simp add: same_attempt_def)

lemma same_attempt_refl: "same_attempt a a"
  by (simp add: same_attempt_def)

text \<open>Where every active attempt of the later catalog comes from.\<close>

definition descends :: "catalog_document \<Rightarrow> reservation \<Rightarrow> bool" where
  "descends d r \<longleftrightarrow>
     (\<exists>r0 \<in> set (cd_active d). same_attempt (rs_attempt r0) (rs_attempt r)
        \<and> rs_resources r = rs_resources r0
        \<and> rs_prepared_template_identity r = rs_prepared_template_identity r0)"

lemma descends_refl: "r \<in> set (cd_active d) \<Longrightarrow> descends d r"
  by (auto simp: descends_def intro: same_attempt_refl)

lemma carried_on:
  assumes "same_attempt (rs_attempt r0) (rs_attempt r)" and "rs_resources r = rs_resources r0"
    and "rs_prepared_template_identity r = rs_prepared_template_identity r0"
  shows "descends d r0 \<Longrightarrow> descends d r"
    and "offered_by sha policy t events r0 \<Longrightarrow> offered_by sha policy t events r"
proof -
  show "descends d r0 \<Longrightarrow> descends d r"
    using assms same_attempt_trans by (force simp: descends_def)
  show "offered_by sha policy t events r0 \<Longrightarrow> offered_by sha policy t events r"
    unfolding offered_by_def using assms same_attempt_trans[OF _ assms(1)] by auto
qed

definition framed ::
  "(string \<Rightarrow> string) \<Rightarrow> consumer_policy \<Rightarrow> epoch_millis \<Rightarrow> lifecycle_event list \<Rightarrow>
   catalog_document \<Rightarrow> catalog_document \<Rightarrow> bool" where
  "framed sha policy observed_at events d d' \<longleftrightarrow>
     catalog_step\<^sup>*\<^sup>* d d'
     \<and> (\<forall>requests. event_request ` set events \<subseteq> requests \<longrightarrow> untouched requests d' = untouched requests d)
     \<and> live_attempts d' \<le> max 1 (live_attempts d)
     \<and> (\<forall>r \<in> set (cd_active d'). descends d r \<or> offered_by sha policy observed_at events r)"

lemma framed_refl: "framed sha policy t events d d"
  by (auto simp: framed_def intro: descends_refl)

lemma offered_by_mono:
  "offered_by sha policy t events r \<Longrightarrow> set events \<subseteq> set events' \<Longrightarrow> offered_by sha policy t events' r"
  unfolding offered_by_def by blast

lemma offered_by_descends:
  assumes "\<forall>r0 \<in> set (cd_active d). descends d0 r0 \<or> offered_by sha policy t events r0" and "descends d r"
  shows "descends d0 r \<or> offered_by sha policy t events r"
proof -
  obtain r0 where r0: "r0 \<in> set (cd_active d)" "same_attempt (rs_attempt r0) (rs_attempt r)"
    "rs_resources r = rs_resources r0" "rs_prepared_template_identity r = rs_prepared_template_identity r0"
    using assms(2) by (auto simp: descends_def)
  then show ?thesis using assms(1) carried_on[OF r0(2-4)] by blast
qed

lemma framed_trans:
  assumes "framed sha policy t [event] d d'" and "framed sha policy t events d' d''"
  shows "framed sha policy t (event # events) d d''"
proof -
  have "descends d r \<or> offered_by sha policy t (event # events) r" if r: "r \<in> set (cd_active d'')" for r
  proof -
    have "\<forall>r0 \<in> set (cd_active d'). descends d r0 \<or> offered_by sha policy t (event # events) r0"
      using assms(1) offered_by_mono[of sha policy t "[event]" _ "event # events"] by (auto simp: framed_def)
    moreover have "descends d' r \<or> offered_by sha policy t (event # events) r"
      using assms(2) r offered_by_mono[of sha policy t events _ "event # events"] by (auto simp: framed_def)
    ultimately show ?thesis using offered_by_descends by blast
  qed
  then show ?thesis
    using assms by (auto simp: framed_def intro: rtranclp_trans)
qed

lemma reserve_framed:
  assumes inv: "catalog_inv d" and resources: "worker_resources_new cpu memory disk = Inr (cp_resources policy)"
    and ids: "derive_identities sha policy (event_job event) = Inr identities"
    and offer: "offers event" "attempt_not_after t = Inr not_after"
    and usage: "host_usage d = Inr usage" "hu_workers usage = 0"
    and reserve: "doc_reserve d (offered_reservation policy identities (event_request event) not_after) = Inr d'"
  shows "framed sha policy t [event] d d'"
proof -
  let ?r = "offered_reservation policy identities (event_request event) not_after"
  have "catalog_step d d'"
    by (rule step_reserve[OF offered_new _ resources reserve]) (simp add: reserved_valid)
  moreover have "live (cd_active d) = []"
    using usage by (auto simp: host_usage_eq usage_of_def split: if_splits)
  moreover have "cd_active d' = cd_active d \<or> cd_active d' = cd_active d @ [?r]"
    using reserve_new_ok[OF reserve] by (cases "d' = d") auto
  moreover have "offered_by sha policy t [event] ?r"
    using offer ids by (auto simp: offered_by_def same_attempt_refl offered_reservation_def)
  moreover have "request_of ?r = event_request event"
    by (simp add: request_of_def offered_reservation_def attempt_reserved_def)
  ultimately show ?thesis
    unfolding framed_def untouched_def live_attempts_def
    by (auto simp: live_def intro: descends_refl)
qed

lemma live_middle: "length (live (pre @ r # post)) =
    length (live (pre @ post)) + (if as_phase (rs_attempt r) = Complete then 0 else 1)"
  by (simp add: live_def)

lemma record_framed:
  assumes inv: "catalog_inv d" and split: "cd_active d = pre @ r # post" "request_of r = event_request event"
    and replace: "doc_replace_attempt d (rs_id r) (as_revision (rs_attempt r)) a = Inr d'"
  shows "framed sha policy t [event] d d'"
proof -
  obtain s where s: "same_attempt (rs_attempt r) s" "cd_active d' = pre @ r\<lparr>rs_attempt := s\<rparr> # post"
    "as_phase (rs_attempt r) = Complete \<longrightarrow> as_phase s = Complete"
    using replace_changes[OF inv split(1) replace] by blast
  have "request_of (r\<lparr>rs_attempt := s\<rparr>) = event_request event"
    using s(1) split(2) by (simp add: request_of_def same_attempt_def)
  moreover have "descends d (r\<lparr>rs_attempt := s\<rparr>)"
    using s(1) split(1) by (auto simp: descends_def)
  moreover have "x \<in> set (pre @ post) \<Longrightarrow> descends d x" for x
    using split(1) by (auto intro: descends_refl)
  ultimately show ?thesis
    unfolding framed_def untouched_def live_attempts_def
    using step_transition[OF replace] s(2,3) split by (auto simp: live_middle)
qed

lemma release_framed:
  assumes inv: "catalog_inv d" and split: "cd_active d = pre @ r # post" "request_of r = event_request event"
    and phase: "as_phase (rs_attempt r) \<in> {Reserved, CloneAuthorized}"
    and retire: "retire_unprovisioned_cancellation d r = Inr d'"
  shows "framed sha policy t [event] d d'"
proof -
  have "cd_active d' = pre @ post"
    using retire unfolding retire_cancellation_iff[OF inv split(1) phase] by (simp add: released_catalog_def)
  then show ?thesis
    unfolding framed_def untouched_def live_attempts_def
    using retire_cancellation_steps[OF retire] split by (auto simp: live_middle intro: descends_refl)
qed

lemma effect_framed:
  assumes "event_effect policy identities event t d d'" and "catalog_inv d"
    and "worker_resources_new cpu memory disk = Inr (cp_resources policy)"
    and "derive_identities sha policy (event_job event) = Inr identities"
  shows "framed sha policy t [event] d d'"
  using assms(1)
proof cases
  case effect_none
  then show ?thesis by (simp add: framed_refl)
next
  case (effect_reserve usage not_after)
  then show ?thesis using reserve_framed[OF assms(2,3,4)] by blast
next
  case (effect_record pre r post a)
  then show ?thesis using record_framed[OF assms(2)] by blast
next
  case (effect_release pre r post)
  then show ?thesis using release_framed[OF assms(2)] by blast
qed

lemma reconcile_events_framed:
  assumes "reconcile_events sha policy d t events = Inr d'" and "catalog_inv d"
    and "worker_resources_new cpu memory disk = Inr (cp_resources policy)"
  shows "framed sha policy t events d d'"
  using assms(1,2)
proof (induction events arbitrary: d)
  case Nil
  then show ?case by (simp add: framed_refl)
next
  case (Cons event events)
  then obtain d1 where d1: "reconcile_event sha policy event d t = Inr d1"
    "reconcile_events sha policy d1 t events = Inr d'" by auto
  have framed: "framed sha policy t [event] d d1"
    using reconcile_event_effect[OF d1(1)] effect_framed[OF _ Cons.prems(2) assms(3)] by blast
  then have "catalog_inv d1" using steps_inv Cons.prems(2) by (auto simp: framed_def)
  from framed_trans[OF framed Cons.IH[OF d1(2) this]] show ?case .
qed

section \<open>Replaying an event\<close>

lemma event_action_job:
  assumes "event_action event = Inr action" and "run_action a action = Inr s"
  shows "as_github_job_id s = Some (je_job_id (event_job event))" and "run_action s action = Inr s"
proof -
  show "run_action s action = Inr s"
    using assms assigned_replay running_replay terminal_replay by (cases event) auto
  show "as_github_job_id s = Some (je_job_id (event_job event))"
    using assms
    by (cases event)
      (auto simp: record_assigned_def record_running_def record_terminal_def advance_with_ok
        split: if_splits option.splits)
qed

lemma reservation_still_valid:
  assumes "consumer_validate_reservation policy r job identities = Inr ()"
    and "same_attempt (rs_attempt r) s" and "as_github_job_id s \<in> {as_github_job_id (rs_attempt r), Some (je_job_id job)}"
  shows "consumer_validate_reservation policy (r\<lparr>rs_attempt := s\<rparr>) job identities = Inr ()"
  using assms
  by (auto simp: consumer_validate_reservation_def consumer_validate_attempt_def same_attempt_def split: if_splits)

lemma record_event_replay:
  assumes inv: "catalog_inv d" and found: "find_active_by_runner_request_id d (event_request event) = Some r"
    and rec: "record_event event d r = Inr d'"
    and valid: "consumer_validate_reservation policy r (event_job event) identities = Inr ()"
  shows "\<exists>s. find_active_by_runner_request_id d' (event_request event) = Some (r\<lparr>rs_attempt := s\<rparr>)
    \<and> as_github_job_id s = Some (je_job_id (event_job event))
    \<and> consumer_validate_reservation policy (r\<lparr>rs_attempt := s\<rparr>) (event_job event) identities = Inr ()
    \<and> record_event event d' (r\<lparr>rs_attempt := s\<rparr>) = Inr d'"
proof -
  obtain pre post where split: "cd_active d = pre @ r # post" and req: "request_of r = event_request event"
    using find_request_Some[OF found] by blast
  obtain action where action: "event_action event = Inr action"
    and replace: "doc_replace_attempt d (rs_id r) (as_revision (rs_attempt r)) action = Inr d'"
    using rec by (auto simp: record_event_def)
  obtain s where s: "run_action (rs_attempt r) action = Inr s" "same_attempt (rs_attempt r) s"
    "cd_active d' = pre @ r\<lparr>rs_attempt := s\<rparr> # post"
    using replace_changes[OF inv split replace] by blast
  note job = event_action_job[OF action s(1)]
  have inv': "catalog_inv d'" by (rule step_inv[OF step_transition[OF replace] inv])
  have same: "request_of (r\<lparr>rs_attempt := s\<rparr>) = event_request event"
    using s(2) req by (simp add: request_of_def same_attempt_def)
  have "doc_replace_attempt d' (rs_id (r\<lparr>rs_attempt := s\<rparr>)) (as_revision s) action = Inr d'"
    using replace_effect[OF inv' s(3)] job(2) by simp
  moreover have "find_active_by_runner_request_id d' (event_request event) = Some (r\<lparr>rs_attempt := s\<rparr>)"
    using find_request_here[OF inv' s(3)] same by (simp add: request_of_def)
  ultimately show ?thesis
    using job(1) reservation_still_valid[OF valid s(2)] action by (auto simp: record_event_def)
qed

lemma find_append: "find P (xs @ ys) = (case find P xs of None \<Rightarrow> find P ys | Some x \<Rightarrow> Some x)"
  by (induction xs) auto

lemma reserve_replay:
  assumes none: "find_active_by_runner_request_id d q = None"
    and reserve: "doc_reserve d (offered_reservation policy identities q not_after) = Inr d'"
    and inv: "catalog_inv d"
  shows "find_active_by_runner_request_id d' q = Some (offered_reservation policy identities q not_after)"
proof -
  let ?r = "offered_reservation policy identities q not_after"
  have req: "request_of ?r = q"
    by (simp add: request_of_def offered_reservation_def attempt_reserved_def)
  have "cd_active d' = cd_active d @ [?r]"
  proof (cases "d' = d")
    case False
    then show ?thesis using reserve_new_ok[OF reserve] by simp
  next
    case True
    then have "?r \<in> set (cd_active d)"
      using reserve
      by (auto simp: doc_reserve_def Let_def catalog_revision_next_ok find_active_def find_Some_iff in_set_conv_nth
          split: option.splits if_splits dest!: arg_cong[where f = "\<lambda>d. length (cd_active d)"])
    then show ?thesis using none req find_request_None(1) by blast
  qed
  then show ?thesis
    using none req
    by (simp add: find_active_by_runner_request_id_def request_of_def find_append split: option.splits)
qed

lemma pushed_history_last: "\<exists>older. pushed_history ts a = older @ [a] \<and> set older \<subseteq> set ts"
  by (rule exI[of _ "if MAX_DISPOSABLE_ATTEMPT_TOMBSTONES < length ts + 1 then tl ts else ts"])
    (cases ts; auto simp: pushed_history_def MAX_DISPOSABLE_ATTEMPT_TOMBSTONES_def)

lemma release_replay:
  assumes inv: "catalog_inv d" and split: "cd_active d = pre @ r # post"
  shows "find_active_by_runner_request_id (released_catalog d pre r post) (request_of r) = None"
    and "find_tombstone_by_runner_request_id (released_catalog d pre r post) (request_of r)
           = Some (released_attempt (rs_attempt r))"
proof -
  show "find_active_by_runner_request_id (released_catalog d pre r post) (request_of r) = None"
    using requests_apart[OF inv split] by (auto simp: find_request_None released_catalog_def)
  have apart: "as_runner_request_id b \<noteq> request_of r" if "b \<in> set (cd_tombstones d)" for b
  proof -
    have "no_shared_identity (rs_attempt r) b"
      using others_apart(1)[OF inv split] that by auto
    then show ?thesis by (metis no_shared_identity_def request_of_def)
  qed
  let ?a = "released_attempt (rs_attempt r)"
  obtain older where older: "pushed_history (cd_tombstones d) ?a = older @ [?a]" "set older \<subseteq> set (cd_tombstones d)"
    using pushed_history_last by blast
  then have "find (\<lambda>b. as_runner_request_id b = request_of r) older = None"
    using apart by (auto simp: find_None_iff)
  then show "find_tombstone_by_runner_request_id (released_catalog d pre r post) (request_of r) = Some ?a"
    using older by (simp add: find_tombstone_by_runner_request_id_def released_catalog_def request_of_def find_append)
qed

lemma reconcile_offer_replay:
  assumes inv: "catalog_inv d" and ok: "reconcile_offer policy identities available event d t = Inr d'"
  shows "reconcile_offer policy identities available event d' t = Inr d'"
proof (cases "find_active_by_runner_request_id d (event_request event)")
  case (Some r)
  then consider "d' = d" | "\<not> available" "record_event event d r = Inr d'"
      "consumer_validate_reservation policy r (event_job event) identities = Inr ()"
      "\<exists>x. attempt_not_after t = Inr x"
    using ok by (auto simp: reconcile_offer_def Let_def split: if_splits)
  then show ?thesis
  proof cases
    case 1
    then show ?thesis using ok by simp
  next
    case 2
    from record_event_replay[OF inv Some 2(2,3)] 2(1,4) show ?thesis
      by (auto simp: reconcile_offer_def Let_def)
  qed
next
  case None
  show ?thesis
  proof (cases "find_tombstone_by_runner_request_id d (event_request event)")
    case (Some a)
    with None ok show ?thesis by (auto simp: reconcile_offer_def Let_def split: if_splits)
  next
    case none: None
    then obtain not_after where not_after: "attempt_not_after t = Inr not_after"
      "doc_reserve d (offered_reservation policy identities (event_request event) not_after) = Inr d'"
      using None ok by (auto simp: reconcile_offer_def Let_def offered_new split: if_splits)
    from reserve_replay[OF None not_after(2) inv] not_after(1) show ?thesis
      by (simp add: reconcile_offer_def Let_def consumer_validate_reservation_def
          consumer_validate_attempt_def offered_reservation_def attempt_reserved_def)
  qed
qed

lemma cancellation_replay:
  assumes inv: "catalog_inv d" and found: "find_active_by_runner_request_id d (event_request event) = Some r"
    and valid: "consumer_validate_reservation policy r (event_job event) identities = Inr ()"
    and cancel: "is_unbound_runnerless_cancellation event (rs_attempt r)"
    and ok: "reconcile_cancellation d r = Inr d'"
  shows "reconcile_report policy identities event d' = Inr d'"
proof -
  obtain pre post where split: "cd_active d = pre @ r # post" and req: "request_of r = event_request event"
    using find_request_Some[OF found] by blast
  consider "d' = d"
    | "as_phase (rs_attempt r) \<in> {Reserved, CloneAuthorized}" "retire_unprovisioned_cancellation d r = Inr d'"
    | "as_phase (rs_attempt r) \<in> {CloneStarted, Registering, Waiting}"
      "doc_replace_attempt d (rs_id r) (as_revision (rs_attempt r)) BeginCleanup = Inr d'"
    using ok by (cases "as_phase (rs_attempt r)") (auto simp: reconcile_cancellation_def Let_def split: if_splits)
  then show ?thesis
  proof cases
    case 1
    then show ?thesis using found valid cancel ok by (simp add: reconcile_report_def)
  next
    case 2
    then have d': "d' = released_catalog d pre r post"
      using retire_cancellation_iff[OF inv split] by blast
    have "consumer_validate_attempt (released_attempt (rs_attempt r)) (event_job event) identities = Inr ()"
      using valid by (auto simp: consumer_validate_reservation_def consumer_validate_attempt_def
          released_attempt_def split: if_splits)
    moreover have "tombstone_event_valid (released_attempt (rs_attempt r)) event"
      using cancel by (cases event rule: runnerless_cancellation.cases)
        (auto simp: is_unbound_runnerless_cancellation_def)
    ultimately show ?thesis
      using release_replay[OF inv split, unfolded req] d'
      by (simp add: reconcile_report_def validate_tombstone_event_def)
  next
    case 3
    obtain s where s: "run_action (rs_attempt r) BeginCleanup = Inr s" "same_attempt (rs_attempt r) s"
      "cd_active d' = pre @ r\<lparr>rs_attempt := s\<rparr> # post"
      using replace_changes[OF inv split 3(2)] by blast
    have inv': "catalog_inv d'" by (rule step_inv[OF step_transition[OF 3(2)] inv])
    have "as_phase s = Destroying" "as_github_job_id s = as_github_job_id (rs_attempt r)"
      using s(1) 3(1) by (auto simp: begin_cleanup_def advance_with_ok)
    moreover have "find_active_by_runner_request_id d' (event_request event) = Some (r\<lparr>rs_attempt := s\<rparr>)"
      using find_request_here[OF inv' s(3)] s(2) req by (simp add: request_of_def same_attempt_def)
    ultimately show ?thesis
      using reservation_still_valid[OF valid s(2)] cancel
      by (simp add: reconcile_report_def is_unbound_runnerless_cancellation_def reconcile_cancellation_def)
  qed
qed

lemma reconcile_report_replay:
  assumes inv: "catalog_inv d" and ok: "reconcile_report policy identities event d = Inr d'"
  shows "reconcile_report policy identities event d' = Inr d'"
proof (cases "find_active_by_runner_request_id d (event_request event)")
  case None
  then show ?thesis using ok by (auto simp: reconcile_report_def Let_def split: option.splits)
next
  case (Some r)
  then have valid: "consumer_validate_reservation policy r (event_job event) identities = Inr ()"
    using ok by (auto simp: reconcile_report_def)
  show ?thesis
  proof (cases "is_unbound_runnerless_cancellation event (rs_attempt r)")
    case True
    then show ?thesis using cancellation_replay[OF inv Some valid] ok Some by (auto simp: reconcile_report_def)
  next
    case False
    then have "record_event event d r = Inr d'" using ok Some by (auto simp: reconcile_report_def)
    from record_event_replay[OF inv Some this valid] show ?thesis
      by (auto simp: reconcile_report_def is_unbound_runnerless_cancellation_def)
  qed
qed

end
