(* ===== verification/Consumer_Recovery.thy ===== *)
theory Consumer_Recovery
  imports Consumer_Effects "HOL-Library.Multiset"
begin

text \<open>
  The two computations of a lifecycle resolution. The consumer turns a later message into a new
  catalog and the requests it proves acquired; the recovery state replays the message on its own
  and refuses a resolution that differs. Here both are shown to agree exactly when the later message
  repeats the evidence of the first one literally. The properties of the consumer follow.
\<close>

section \<open>Both loops\<close>

lemma resolution_loop_reconstructs:
  assumes "resolution_loop sha policy ambiguous d acquired events = Inr (d', acquired')"
    and "catalog_inv d"
    and "\<forall>event \<in> set events. available_job (event_request event) original = Some (event_job event)"
  shows "reconstruct_loop original d acquired events = Inr (d', acquired')"
  using assms
proof (induction events arbitrary: d acquired)
  case (Cons event events)
  obtain r where r: "find_active_by_runner_request_id d (event_request event) = Some r"
    and phase: "as_phase (rs_attempt r) = Reserved"
    using Cons.prems(1) by (auto simp: Let_def split: if_splits)
  obtain pre post where split: "cd_active d = pre @ r # post" "request_of r = event_request event"
    using find_request_Some[OF r] by blast
  have job: "available_job (event_request event) original = Some (event_job event)"
    using Cons.prems(3) by simp
  note rest = Cons.IH[OF _ _ ballI[OF bspec[OF Cons.prems(3)]]]
  consider "\<exists>job. event = LifecycleAssigned job"
    | job result where "event = LifecycleCompleted job None result" "job_result_str result = ''canceled''"
    using Cons.prems(1)
    by (cases event rule: runnerless_cancellation.cases) (auto simp: Let_def split: if_splits)
  then show ?case
  proof cases
    case 1
    then show ?thesis
      using Cons.prems(1,2) r phase job rest by (auto simp: Let_def split: if_splits)
  next
    case 2
    then obtain d1 where d1: "retire_unprovisioned_cancellation d r = Inr d1"
      "resolution_loop sha policy ambiguous d1 (insert (event_request event) acquired) events = Inr (d', acquired')"
      using Cons.prems(1) r phase by (auto simp: Let_def split: if_splits)
    then have d1': "d1 = released_catalog d pre r post" "cat_rev d + 3 \<le> 1000000000000"
      using retire_cancellation_iff[OF Cons.prems(2) split(1)] phase by auto
    then have "release_unprovisioned RecoveryCorruptState RecoveryCorruptState d (event_request event) r = Inr d1"
      using release_unprovisioned_iff[OF Cons.prems(2) split(1), of RecoveryCorruptState RecoveryCorruptState]
        phase split(2) by (simp add: request_of_def)
    moreover have "catalog_inv d1"
      using released_inv[OF Cons.prems(2) split(1)] phase d1' by simp
    ultimately show ?thesis
      using 2 r phase job rest d1(2) by simp
  qed
qed simp

lemma reconstruct_loop_jobs:
  assumes "reconstruct_loop original d acquired events = Inr x" and "event \<in> set events"
  shows "available_job (event_request event) original = Some (event_job event)"
  using assms
proof (induction events arbitrary: d acquired)
  case (Cons e events)
  have here: "lifecycle_job e = Some (event_job e)" "available_job (event_request e) original = Some (event_job e)"
    using Cons.prems(1) by (cases e; auto simp: Let_def split: if_splits)+
  have "\<exists>d' acquired'. reconstruct_loop original d' acquired' events = Inr x"
    using Cons.prems(1)
    by (cases e) (auto simp: Let_def split: if_splits option.splits)
  then show ?case using Cons here by auto
qed simp

lemma resolution_loop_acquired:
  assumes "resolution_loop sha policy ambiguous d acquired events = Inr (d', acquired')"
    and "acquired \<subseteq> ambiguous"
  shows "acquired \<subseteq> acquired'" and "acquired' \<subseteq> ambiguous"
    and "acquired' \<subseteq> acquired \<union> lifecycle_requests events"
proof -
  have "acquired \<subseteq> acquired' \<and> acquired' \<subseteq> ambiguous \<and> acquired' \<subseteq> acquired \<union> lifecycle_requests events"
    using assms
  proof (induction events arbitrary: d acquired)
    case (Cons event events)
    obtain d1 where d1: "resolution_loop sha policy ambiguous d1 (insert (event_request event) acquired) events
        = Inr (d', acquired')" and job: "lifecycle_job event = Some (event_job event)"
      and amb: "event_request event \<in> ambiguous"
      using Cons.prems(1) by (cases event) (auto simp: Let_def split: if_splits)
    from Cons.IH[OF d1] amb Cons.prems(2) job show ?case
      by (auto simp: lifecycle_requests_def map_filter_simps)
  qed (simp add: lifecycle_requests_def)
  then show "acquired \<subseteq> acquired'" and "acquired' \<subseteq> ambiguous"
    and "acquired' \<subseteq> acquired \<union> lifecycle_requests events" by blast+
qed

lemma resolution_loop_revision:
  assumes "resolution_loop sha policy ambiguous d acquired events = Inr (d', acquired')"
    and "catalog_inv d"
  shows "catalog_inv d'" and "cat_rev d \<le> cat_rev d'" and "cat_rev d' = cat_rev d \<Longrightarrow> d' = d"
proof -
  have "catalog_inv d' \<and> cat_rev d \<le> cat_rev d' \<and> (cat_rev d' = cat_rev d \<longrightarrow> d' = d)"
    using assms
  proof (induction events arbitrary: d acquired)
    case (Cons event events)
    obtain r where r: "find_active_by_runner_request_id d (event_request event) = Some r"
      and phase: "as_phase (rs_attempt r) \<in> {Reserved, CloneAuthorized}"
      using Cons.prems(1) by (auto simp: Let_def split: if_splits)
    obtain pre post where split: "cd_active d = pre @ r # post"
      using find_request_Some[OF r] by blast
    obtain d1 acq where d1: "resolution_loop sha policy ambiguous d1 acq events = Inr (d', acquired')"
      and "d1 = d \<or> retire_unprovisioned_cancellation d r = Inr d1"
      using Cons.prems(1) r by (cases event) (auto simp: Let_def split: if_splits)
    then have "d1 = d \<or> catalog_inv d1 \<and> cat_rev d1 = cat_rev d + 3"
      using retire_cancellation_iff[OF Cons.prems(2) split phase]
        released_inv[OF Cons.prems(2) split phase] by (auto simp: released_catalog_def)
    then show ?case using Cons.IH[OF d1] Cons.prems(2) by auto
  qed simp
  then show "catalog_inv d'" and "cat_rev d \<le> cat_rev d'" and "cat_rev d' = cat_rev d \<Longrightarrow> d' = d" by blast+
qed

section \<open>The recovery state accepts the resolution\<close>

lemma observed_state:
  assumes "recovery_validate env s = Inr ()" and "rec_phase s = AcquisitionRecoveryObserved []"
  shows "rec_revision s = 3" and "rec_schema_version s = SCALE_SET_DELIVERY_RECOVERY_SCHEMA_VERSION"
    and "catalog_revision_get (rec_prior_catalog_revision s) \<le> catalog_revision_get (rec_catalog_revision s)"
    and "rec_prior_catalog_revision s = rec_catalog_revision s \<Longrightarrow>
         rec_prior_catalog_digest s = rec_catalog_digest s"
    and "\<exists>bytes. encode_scale_set_delivery (env_delivery_to_json env) (rec_delivery s) = Inr bytes"
  using assms by (subst (asm) recovery_validate.simps, auto split: if_splits)+

definition resolution_of ::
  "recovery_state \<Rightarrow> scale_set_delivery \<Rightarrow> request_ids \<Rightarrow> catalog_document \<Rightarrow> catalog_document \<Rightarrow>
   sha256_digest \<Rightarrow> lifecycle_resolution" where
  "resolution_of s delivery acquired catalog target digest =
     \<lparr>lx_base_revision = rec_revision s, lx_delivery = delivery, lx_acquired = acquired,
      lx_prior_catalog = catalog, lx_catalog_revision = cd_revision target, lx_catalog_digest = digest\<rparr>"

definition resolved_state ::
  "recovery_state \<Rightarrow> lifecycle_resolution \<Rightarrow> recovery_state" where
  "resolved_state s r =
     s\<lparr>rec_revision := rec_revision s + 1, rec_catalog_revision := lx_catalog_revision r,
       rec_catalog_digest := lx_catalog_digest r, rec_phase := LifecycleReconciled r\<rparr>"

lemma resolved_state_valid:
  assumes s: "recovery_validate env s = Inr ()" "rec_phase s = AcquisitionRecoveryObserved []"
    and prior: "matches_catalog env s catalog"
    and later: "dl_message_id (rec_delivery s) < dl_message_id delivery" "available_request_ids delivery = Inr []"
    and acquired: "acquired \<noteq> []"
    and rev: "cat_rev catalog \<le> cat_rev target" "cat_rev target = cat_rev catalog \<Longrightarrow> target = catalog"
    and digest: "catalog_digest env target = Inr digest"
    and replay: "resolution_replay env (resolution_of s delivery acquired catalog target digest)
      (resolved_state s (resolution_of s delivery acquired catalog target digest)) = Inr ()"
  shows "recovery_validate env (resolved_state s (resolution_of s delivery acquired catalog target digest)) = Inr ()"
proof -
  define r where "r = resolution_of s delivery acquired catalog target digest"
  note obs = observed_state[OF s]
  have bound: "cd_revision catalog = rec_catalog_revision s" "catalog_digest env catalog = Inr (rec_catalog_digest s)"
    using prior by (auto simp: matches_catalog_def)
  have shape: "resolution_shape r (resolved_state s r) = Inr ()"
    using later acquired rev(1) obs(1)
    by (simp add: resolution_shape_def lifecycle_offset_def checked_sum_def matches_catalog_digest_def
        resolved_state_def r_def resolution_of_def)
  have pred: "(resolved_state s r)\<lparr>rec_revision := lx_base_revision r,
      rec_catalog_revision := cd_revision (lx_prior_catalog r), rec_catalog_digest := rec_catalog_digest s,
      rec_phase := AcquisitionRecoveryObserved []\<rparr> = s"
    using bound s(2) by (cases s) (simp add: resolved_state_def r_def resolution_of_def)
  have resolution: "resolution_validate env r (resolved_state s r) = Inr ()"
    using shape bound(2) s(1) prior replay pred
    by (subst resolution_validate.simps) (simp add: r_def resolution_of_def Let_def)
  have same: "digest = rec_catalog_digest s" if "cat_rev target = cat_rev catalog"
    using rev(2)[OF that] digest bound(2) by simp
  have "catalog_revision_get (rec_prior_catalog_revision s) \<le> cat_rev target"
    using obs(3) rev(1) bound(1) by simp
  moreover have "rec_prior_catalog_digest s = digest" if "rec_prior_catalog_revision s = cd_revision target"
  proof -
    have eq: "cat_rev target = cat_rev catalog"
      using that obs(3) rev(1) bound(1) by simp
    then show ?thesis using that obs(4) same bound(1) rev(2) by simp
  qed
  ultimately show ?thesis
    using resolution obs unfolding r_def[symmetric]
    by (subst recovery_validate.simps)
      (auto simp: resolved_state_def resolution_of_def r_def MAX_DELIVERY_RECOVERY_REVISION_def)
qed

lemma prepare_resolution_iff:
  assumes s: "recovery_validate env s = Inr ()" "rec_phase s = AcquisitionRecoveryObserved []"
    and prior: "matches_catalog env s catalog"
    and later: "dl_message_id (rec_delivery s) < dl_message_id delivery" "available_request_ids delivery = Inr []"
    and acquired: "validated_acquired s acquired = Inr acquired" "acquired \<noteq> []"
    and events: "retained_events delivery = Inr events" "set acquired \<subseteq> lifecycle_requests events"
    and digest: "catalog_digest env target = Inr digest"
  defines "r \<equiv> resolution_of s delivery acquired catalog target digest"
  shows "prepare_lifecycle_resolution env s delivery acquired catalog target = Inr s' \<longleftrightarrow>
    s' = resolved_state s r \<and> recovery_validate env s' = Inr ()"
proof -
  have "\<not> list_ex (\<lambda>request_id. request_id \<notin> lifecycle_requests events) acquired"
    using events(2) by (auto simp: list_ex_iff)
  then show ?thesis
    using s(2) prior later acquired events(1) digest observed_state(1)[OF s]
    by (auto simp: prepare_lifecycle_resolution_def recovery_successor_with_catalog_ok Let_def
        r_def resolution_of_def resolved_state_def MAX_DELIVERY_RECOVERY_REVISION_def)
qed

text \<open>
  C9. The recovery state accepts exactly the resolutions that repeat the first evidence. When a
  later message resolves an ambiguous acquisition, the catalog and the acquired requests the
  consumer computes are those the recovery state computes by its own replay, and preparing the
  resolution succeeds precisely if every job of the later message equals, label order included, the
  available job of the same request in the first message.
\<close>
theorem resolution_accepted_iff:
  assumes "recovery_validate env s = Inr ()" and "rec_phase s = AcquisitionRecoveryObserved []"
    and "catalog_reachable catalog" and "matches_catalog env s catalog"
    and "dl_message_id (rec_delivery s) < dl_message_id delivery"
    and "available_request_ids (rec_delivery s) = Inr ambiguous"
    and "retained_events (rec_delivery s) = Inr original" and "retained_events delivery = Inr later"
    and "reconcile_scale_set_acquisition_resolution sha policy ambiguous delivery catalog = Inr (target, acquired)"
    and "catalog_digest env target = Inr digest"
  shows "(\<exists>s'. prepare_lifecycle_resolution env s delivery acquired catalog target = Inr s') \<longleftrightarrow>
    (\<forall>event \<in> set later. available_job (event_request event) original = Some (event_job event))"
proof -
  obtain acq where none: "available_request_ids delivery = Inr []"
    and loop: "resolution_loop sha policy (set ambiguous) catalog {} later = Inr (target, acq)"
    and acq: "acq \<noteq> {}" "acquired = sorted_list_of_set acq"
    using assms(8,9) by (auto simp: reconcile_scale_set_acquisition_resolution_def split: if_splits)
  note inv = reachable_inv[OF assms(3)]
  note sub = resolution_loop_acquired(2,3)[OF loop, simplified]
  have fin: "finite acq" using sub(1) finite_subset by blast
  then have acquired: "set acquired = acq" "sorted acquired" "distinct acquired" "acquired \<noteq> []"
    using acq by auto
  have "validated_acquired s acquired = Inr acquired"
    using sub(1) acquired assms(6) by (auto simp: validated_acquired_ok available_set_def available_request_ids_ok sorted_sort_id)
  note prepare = prepare_resolution_iff[OF assms(1,2,4,5) none this acquired(4) assms(8) _ assms(10)]
  define r where "r = resolution_of s delivery acquired catalog target digest"
  have delivery: "rec_delivery (resolved_state s r) = rec_delivery s" "lx_delivery r = delivery"
    "lx_prior_catalog r = catalog" "lx_acquired r = acquired"
    by (simp_all add: resolved_state_def r_def resolution_of_def)
  show ?thesis
  proof
    assume "\<exists>s'. prepare_lifecycle_resolution env s delivery acquired catalog target = Inr s'"
    then have "recovery_validate env (resolved_state s r) = Inr ()"
      using prepare sub(2) acquired(1) by (auto simp: r_def)
    then have "resolution_validate env r (resolved_state s r) = Inr ()"
      using valid_phase by (fastforce simp: resolved_state_def)
    then have "resolution_replay env r (resolved_state s r) = Inr ()"
      by (subst (asm) resolution_validate.simps) (auto simp: Let_def split: if_splits)
    then obtain x where "reconstruct_loop original catalog {} later = Inr x"
      using assms(7,8) delivery by (auto simp: resolution_replay_def)
    then show "\<forall>event \<in> set later. available_job (event_request event) original = Some (event_job event)"
      using reconstruct_loop_jobs by blast
  next
    assume same: "\<forall>event \<in> set later. available_job (event_request event) original = Some (event_job event)"
    have loop': "reconstruct_loop original catalog {} later = Inr (target, acq)"
      by (rule resolution_loop_reconstructs[OF loop inv same])
    have "acquired_exact (resolved_state s r) acquired = Inr ()"
      using sub(1) acquired assms(6) delivery(1)
      by (auto simp: acquired_exact_ok available_set_def available_request_ids_ok)
    moreover have "matches_catalog env (resolved_state s r) target"
      using assms(10) by (simp add: matches_catalog_def resolved_state_def r_def resolution_of_def)
    ultimately have "resolution_replay env r (resolved_state s r) = Inr ()"
      using assms(7,8) delivery loop' acq(2) by (simp add: resolution_replay_def)
    then have "recovery_validate env (resolved_state s r) = Inr ()"
      using resolved_state_valid[OF assms(1,2,4,5) none acquired(4) resolution_loop_revision(2)[OF loop inv] _ assms(10)]
        resolution_loop_revision(3)[OF loop inv] by (simp add: r_def)
    then show "\<exists>s'. prepare_lifecycle_resolution env s delivery acquired catalog target = Inr s'"
      using prepare sub(2) acquired(1) by (auto simp: r_def)
  qed
qed

section \<open>Properties of the consumer\<close>

text \<open>
  C10. A delivery touches only its own requests. Whenever reconciling a delivery on a reachable
  catalog succeeds, the result is reached by the catalog's own operations, the active attempts of all
  other requests are unchanged and in order, no more than one attempt is live unless more were
  before, and every active attempt either was there before with the same identities, deadline,
  resources and template or is the reservation of a job the delivery offers, under the identities
  derived from that job and the deadline of this observation.
\<close>
theorem delivery_touches_own_requests:
  assumes "catalog_reachable d" and "worker_resources_new cpu memory disk = Inr (cp_resources policy)"
    and "retained_events delivery = Inr events"
    and "reconcile_scale_set_delivery sha policy delivery d observed_at = Inr d'"
  shows "catalog_reachable d'
    \<and> untouched (event_request ` set events) d' = untouched (event_request ` set events) d
    \<and> live_attempts d' \<le> max 1 (live_attempts d)
    \<and> (\<forall>r \<in> set (cd_active d'). descends d r \<or> offered_by sha policy observed_at events r)"
proof -
  have "reconcile_events sha policy d observed_at events = Inr d'"
    using assms(3,4) by (simp add: reconcile_scale_set_delivery_def)
  note framed = reconcile_events_framed[OF this reachable_inv[OF assms(1)] assms(2)]
  then have "catalog_reachable d'"
    using steps_reachable[OF _ assms(1)] by (simp add: framed_def)
  with framed show ?thesis by (auto simp: framed_def)
qed

text \<open>
  C19. Reconciling an event again changes nothing. In every reachable catalog an event that was
  accepted is accepted again at the same time of observation and leaves the catalog as it is,
  whether it reserved, recorded a start or an end, began a cleanup or released the attempt into the
  replay history.
\<close>
theorem delivery_event_replay:
  assumes "catalog_reachable d" and "reconcile_event sha policy event d observed_at = Inr d'"
  shows "reconcile_event sha policy event d' observed_at = Inr d'"
proof -
  note inv = reachable_inv[OF assms(1)]
  show ?thesis
    using assms(2) reconcile_offer_replay[OF inv] reconcile_report_replay[OF inv]
    by (cases event) (auto simp: reconcile_event_def)
qed

text \<open>Fields within the widths of their machine types and strings shorter than \<open>2\<^sup>6\<^sup>4\<close> bytes.\<close>

definition machine_sized :: "consumer_policy \<Rightarrow> job_evidence \<Rightarrow> bool" where
  "machine_sized policy job \<longleftrightarrow>
     cp_scale_set_id policy < 2 ^ 32 \<and> wr_cpu_millis (cp_resources policy) < 2 ^ 32
     \<and> wr_memory_bytes (cp_resources policy) < 2 ^ 64 \<and> wr_disk_bytes (cp_resources policy) < 2 ^ 64
     \<and> runner_request_id_get (je_runner_request_id job) < 2 ^ 64 \<and> je_workflow_run_id job < 2 ^ 64
     \<and> list_all (\<lambda>v. length v < 2 ^ 64)
         ([template_identity_str (cp_prepared_template_identity policy), je_repository job, je_owner job,
           job_id_str (je_job_id job)] @ je_request_labels job)"

text \<open>What an identity is derived from: everything but the order of the labels.\<close>

definition same_binding :: "consumer_policy \<Rightarrow> job_evidence \<Rightarrow> consumer_policy \<Rightarrow> job_evidence \<Rightarrow> bool" where
  "same_binding p j p' j' \<longleftrightarrow>
     cp_scale_set_id p = cp_scale_set_id p' \<and> cp_resources p = cp_resources p'
     \<and> cp_prepared_template_identity p = cp_prepared_template_identity p'
     \<and> je_runner_request_id j = je_runner_request_id j' \<and> je_repository j = je_repository j'
     \<and> je_owner j = je_owner j' \<and> je_job_id j = je_job_id j'
     \<and> je_workflow_run_id j = je_workflow_run_id j'
     \<and> mset (je_request_labels j) = mset (je_request_labels j')"

lemma machine_sized_fields:
  assumes "machine_sized p j"
  shows "\<forall>v \<in> set (identity_fields p j). length v < 2 ^ 64"
  using assms by (auto simp: machine_sized_def identity_fields_def be_bytes_widths list_all_iff)

lemma identity_fields_inj:
  assumes "machine_sized p j" and "machine_sized p' j'" and "identity_fields p j = identity_fields p' j'"
  shows "same_binding p j p' j'"
proof -
  have bytes: "be_bytes 4 (cp_scale_set_id p) = be_bytes 4 (cp_scale_set_id p')"
    "be_bytes 4 (wr_cpu_millis (cp_resources p)) = be_bytes 4 (wr_cpu_millis (cp_resources p'))"
    "be_bytes 8 (wr_memory_bytes (cp_resources p)) = be_bytes 8 (wr_memory_bytes (cp_resources p'))"
    "be_bytes 8 (wr_disk_bytes (cp_resources p)) = be_bytes 8 (wr_disk_bytes (cp_resources p'))"
    "be_bytes 8 (runner_request_id_get (je_runner_request_id j)) = be_bytes 8 (runner_request_id_get (je_runner_request_id j'))"
    "be_bytes 8 (je_workflow_run_id j) = be_bytes 8 (je_workflow_run_id j')"
    and texts: "template_identity_str (cp_prepared_template_identity p) = template_identity_str (cp_prepared_template_identity p')"
      "je_repository j = je_repository j'" "je_owner j = je_owner j'" "job_id_str (je_job_id j) = job_id_str (je_job_id j')"
      "sort (je_request_labels j) = sort (je_request_labels j')"
    using assms(3) by (simp_all add: identity_fields_def be_bytes_widths)
  have widths: "(256::nat) ^ 4 = 2 ^ 32" "(256::nat) ^ 8 = 2 ^ 64" by simp_all
  note inj = bytes[THEN be_bytes_inj, unfolded widths]
  have "mset (je_request_labels j) = mset (je_request_labels j')"
    using texts(5) by (metis mset_sort)
  moreover have "cp_prepared_template_identity p = cp_prepared_template_identity p'"
    using texts(1) unfolding template_identity_str_def
    by (metis prepared_template_identity.expand sha256_digest.expand)
  ultimately show ?thesis
    using inj assms(1,2) texts(2-4)
    by (auto simp: same_binding_def machine_sized_def
        intro: scale_set_runner_request_id.expand scale_set_job_id.expand disposable_worker_resources.equality)
qed

text \<open>
  C20. The identity of an attempt binds the job it was made for. Two jobs, possibly under different
  policies, whose derived capacity claims are equal agree in scale set, resources, template,
  request, repository, owner, job, workflow run and labels up to their order, or else the two
  hashed inputs themselves are a collision of SHA-256.
\<close>
theorem derived_identity_binds:
  assumes "machine_sized p j" and "machine_sized p' j'"
    and "derive_identities sha p j = Inr i" and "derive_identities sha p' j' = Inr i'"
    and "di_claim_id i = di_claim_id i'"
  shows "same_binding p j p' j'
    \<or> sha (identity_input p j) = sha (identity_input p' j') \<and> identity_input p j \<noteq> identity_input p' j'"
proof (cases "identity_input p j = identity_input p' j'")
  case True
  then have "concat (map hash_field (identity_fields p j)) = concat (map hash_field (identity_fields p' j'))"
    by (simp add: identity_input_def)
  from hash_fields_inj[OF this machine_sized_fields[OF assms(1)] machine_sized_fields[OF assms(2)]]
  show ?thesis using identity_fields_inj[OF assms(1,2)] by simp
next
  case False
  have "''claim-'' @ sha (identity_input p j) = ''claim-'' @ sha (identity_input p' j')"
    using assms(3-5) by (auto simp: derive_identities_def Let_def worker_claim_id_parse_def)
  with False show ?thesis by simp
qed

section \<open>Witnesses\<close>

definition zero_hex :: "string \<Rightarrow> string" where
  "zero_hex _ = replicate 64 (CHR ''0'')"

definition sample_policy :: consumer_policy where
  "sample_policy =
     \<lparr>cp_scale_set_id = 23, cp_repository = ''repo'', cp_owner = ''owner'', cp_request_labels = [''linux''],
      cp_resources = rs_resources sample_reservation,
      cp_prepared_template_identity = rs_prepared_template_identity sample_reservation\<rparr>"

definition sample_job :: job_evidence where
  "sample_job =
     \<lparr>je_runner_request_id = ScaleSetRunnerRequestId 7, je_repository = ''repo'', je_owner = ''owner'',
      je_job_id = ScaleSetJobId ''job'', je_workflow_run_id = 5, je_request_labels = [''linux'']\<rparr>"

definition zero_identities :: derived_identities where
  "zero_identities =
     \<lparr>di_attempt_id = DisposableAttemptId (''attempt-'' @ replicate 32 (CHR ''0'')),
      di_claim_id = CapacityClaimId (''claim-'' @ replicate 64 (CHR ''0'')),
      di_vm_id = DisposableVmId (''w-'' @ replicate 24 (CHR ''0'')),
      di_runner_name = ScaleSetRunnerName (''smolrunner-'' @ replicate 32 (CHR ''0''))\<rparr>"

definition offered_catalog :: catalog_document where
  "offered_catalog =
     catalog_empty\<lparr>cd_revision := DisposableAttemptCatalogRevision 2,
       cd_active := [offered_reservation sample_policy zero_identities (ScaleSetRunnerRequestId 7)
                       (EpochMillis 21601000)]\<rparr>"

lemma hyphenated_zeros:
  assumes "0 < n" and "length p + n \<le> 96" and "p \<noteq> []" and "hd p \<noteq> CHR ''-''"
    and "list_all (\<lambda>b. is_ascii_lowercase b \<or> is_ascii_digit b \<or> b = CHR ''-'') p"
  shows "hyphenated (p @ replicate n (CHR ''0''))"
  using assms by (auto simp: hyphenated_def list_all_iff byte_simps)

lemma zero_derive: "derive_identities zero_hex policy job = Inr zero_identities"
proof -
  have "hyphenated (''attempt-'' @ replicate 32 (CHR ''0''))" "hyphenated (''claim-'' @ replicate 64 (CHR ''0''))"
    "hyphenated (''w-'' @ replicate 24 (CHR ''0''))" "hyphenated (''smolrunner-'' @ replicate 32 (CHR ''0''))"
    by (rule hyphenated_zeros; simp add: byte_simps)+
  then show ?thesis
    by (simp add: derive_identities_def Let_def zero_hex_def zero_identities_def attempt_id_parse_def
        worker_claim_id_parse_def vm_id_parse_def runner_name_parse_def validate_worker_identifier_def
        DISPOSABLE_LIMA_VM_ID_HEX_CHARS_def)
qed

definition later_delivery :: scale_set_delivery where
  "later_delivery = sample_delivery\<lparr>dl_message_id := 8, dl_available_request_ids := [],
     dl_events := [EventAssigned \<lparr>dj_runner_request_id = 7, dj_repository = ''repo'',
       dj_owner = ''owner'', dj_job_id = ''job'', dj_workflow_run_id = 5, dj_request_labels = [''linux'']\<rparr>]\<rparr>"

lemmas sample_job_checks = delivery_job_validate_def to_job_evidence_def bounded_token_def MAX_TOKEN_BYTES_def
  MAX_SCALE_SET_DELIVERY_LABELS_def job_id_parse_def sample_job_def byte_simps to_lifecycle_event_def

lemma sample_events:
  "retained_events sample_delivery = Inr [LifecycleAvailable sample_job]"
  "retained_events later_delivery = Inr [LifecycleAssigned sample_job]"
proof -
  have valid: "delivery_validate sample_delivery = Inr ()"
    using sample_delivery_encoded by (auto simp: encode_scale_set_delivery_def)
  then show "retained_events sample_delivery = Inr [LifecycleAvailable sample_job]"
    unfolding retained_events_def by (simp add: sample_job_checks sample_delivery_def del: One_nat_def)
  have "delivery_validate later_delivery = Inr ()"
    by (simp add: delivery_validate_ok sample_delivery_def SCALE_SET_DELIVERY_SCHEMA_VERSION_def
        MAX_SCALE_SET_DELIVERY_EVENTS_def statistics_validate_def later_delivery_def sample_job_checks)
  then show "retained_events later_delivery = Inr [LifecycleAssigned sample_job]"
    unfolding retained_events_def by (simp add: sample_job_checks later_delivery_def)
qed

lemma offered_catalog_valid: "catalog_validate offered_catalog = Inr ()"
  by (simp add: catalog_validate_ok offered_catalog_def catalog_empty_def offered_reservation_def
      sample_policy_def sample_reservation_def example_reservation_def
      revision_consistent_def represented_def within_envelope_def usage_of_def resources_bounded_def
      attempt_reserved_def MAX_DISPOSABLE_ATTEMPT_TOMBSTONES_def live_def
      MAX_ACTIVE_DISPOSABLE_ATTEMPTS_def MAX_WORKERS_def MAX_CPU_MILLIS_def MAX_BYTES_def)

lemma sample_offer: "reconcile_event zero_hex sample_policy (LifecycleAvailable sample_job) catalog_empty
    (EpochMillis 1000) = Inr offered_catalog"
proof -
  let ?r = "offered_reservation sample_policy zero_identities (ScaleSetRunnerRequestId 7) (EpochMillis 21601000)"
  have "doc_reserve catalog_empty ?r = Inr offered_catalog"
    using offered_catalog_valid
    by (simp add: doc_reserve_def find_active_def find_tombstone_def catalog_empty_def Let_def
        MAX_ACTIVE_DISPOSABLE_ATTEMPTS_def offered_catalog_def catalog_revision_next_ok numeral_2_eq_2)
  moreover have "attempt_not_after (EpochMillis 1000) = Inr (EpochMillis 21601000)"
    by (simp add: attempt_not_after_def checked_add_n_def DISPOSABLE_JOB_MAX_MILLIS_def epoch_millis_new_def)
  moreover have "consumer_validate_job sample_policy sample_job = Inr ()"
    by (simp add: consumer_validate_job_def sample_policy_def sample_job_def)
  moreover have "host_usage catalog_empty = Inr host_usage_zero"
    by (simp add: host_usage_def catalog_empty_def)
  ultimately show ?thesis
    by (simp add: reconcile_event_def zero_derive reconcile_offer_def find_active_by_runner_request_id_def
        find_tombstone_by_runner_request_id_def catalog_empty_def offered_new sample_job_def host_usage_zero_def)
qed

lemma sample_resources: "worker_resources_new 2000 4096 8192 = Inr (cp_resources sample_policy)"
  by (simp add: worker_resources_new_def sample_policy_def sample_reservation_def example_reservation_def
      MAX_CPU_MILLIS_def MAX_BYTES_def)

lemma sample_reconciled: "reconcile_scale_set_delivery zero_hex sample_policy sample_delivery catalog_empty
    (EpochMillis 1000) = Inr offered_catalog"
  by (simp add: reconcile_scale_set_delivery_def sample_events sample_offer)

theorem delivery_touches_own_requests_witness:
  "catalog_reachable offered_catalog \<and> live_attempts offered_catalog \<le> 1"
  using delivery_touches_own_requests[OF catalog_created sample_resources sample_events(1) sample_reconciled]
  by (simp add: live_attempts_def live_def catalog_empty_def)

theorem delivery_event_replay_witness:
  "reconcile_event zero_hex sample_policy (LifecycleAvailable sample_job) offered_catalog (EpochMillis 1000)
     = Inr offered_catalog"
  by (rule delivery_event_replay[OF catalog_created sample_offer])

theorem derived_identity_binds_witness:
  "same_binding sample_policy (sample_job\<lparr>je_request_labels := [''a'', ''b'']\<rparr>)
     sample_policy (sample_job\<lparr>je_request_labels := [''b'', ''a'']\<rparr>)"
proof -
  have "machine_sized sample_policy (sample_job\<lparr>je_request_labels := [''a'', ''b'']\<rparr>)"
    "machine_sized sample_policy (sample_job\<lparr>je_request_labels := [''b'', ''a'']\<rparr>)"
    by (simp_all add: machine_sized_def sample_policy_def sample_job_def sample_reservation_def
        example_reservation_def template_identity_str_def)
  moreover have "identity_input sample_policy (sample_job\<lparr>je_request_labels := [''a'', ''b'']\<rparr>)
      = identity_input sample_policy (sample_job\<lparr>je_request_labels := [''b'', ''a'']\<rparr>)"
    by (simp add: identity_input_def identity_fields_def less_char_def)
  ultimately show ?thesis
    using derived_identity_binds[OF _ _ zero_derive zero_derive] by blast
qed

definition open_env :: "(unit, string) recovery_env" where
  "open_env = sample_env\<lparr>env_catalog_json := sample_json\<lparr>cj_catalog_to_vec := \<lambda>_. Inr ''c''\<rparr>\<rparr>"

lemma open_digest:
  "catalog_digest open_env offered_catalog = Inr (Sha256Digest (''sha256:'' @ replicate 64 (CHR ''0'')))"
proof -
  have "attempt_validate (rs_attempt (hd (cd_active offered_catalog))) = Inr ()"
    by (simp add: offered_catalog_def offered_reservation_def reserved_valid)
  then have "encode_disposable_attempt_catalog (env_catalog_json open_env) offered_catalog = Inr ''c''"
    using offered_catalog_valid
    by (simp add: encode_disposable_attempt_catalog_def offered_catalog_def catalog_empty_def open_env_def
        encode_reservation_def encode_attempt_value_def sample_json_def encode_disposable_attempt_state_def
        MAX_DISPOSABLE_ATTEMPT_STATE_BYTES_def MAX_DISPOSABLE_ATTEMPT_CATALOG_DOCUMENT_BYTES_def)
  then show ?thesis
    by (simp add: catalog_digest_def open_env_def sample_env_def sha256_digest_parse_def is_lower_hex_def
        byte_simps list_all_iff)
qed

lemma offered_revision: "cd_revision offered_catalog = DisposableAttemptCatalogRevision 2"
  by (simp add: offered_catalog_def)

lemma offered_reachable: "catalog_reachable offered_catalog"
proof -
  have "reconcile_events zero_hex sample_policy catalog_empty (EpochMillis 1000) [LifecycleAvailable sample_job]
      = Inr offered_catalog" by (simp add: sample_offer)
  from reconcile_events_framed[OF this empty_inv sample_resources] show ?thesis
    using steps_reachable[OF _ catalog_created] by (simp add: framed_def)
qed

theorem resolution_accepted_iff_witness:
  "\<exists>s'. prepare_lifecycle_resolution open_env (sample_state 3 (AcquisitionRecoveryObserved []))
     later_delivery [ScaleSetRunnerRequestId 7] offered_catalog offered_catalog = Inr s'"
proof -
  let ?s = "sample_state 3 (AcquisitionRecoveryObserved [])"
  have s: "rec_phase ?s = AcquisitionRecoveryObserved []" "rec_delivery ?s = sample_delivery"
    by (simp_all add: sample_state_def Let_def)
  have valid: "recovery_validate open_env ?s = Inr ()"
    using sample_delivery_encoded
    by (subst recovery_validate.simps)
      (simp add: sample_state_def MAX_DELIVERY_RECOVERY_REVISION_def open_env_def
        SCALE_SET_DELIVERY_RECOVERY_SCHEMA_VERSION_def acquired_exact_ok sample_available Let_def)
  have bound: "matches_catalog open_env ?s offered_catalog"
    by (simp add: matches_catalog_def open_digest offered_revision sample_state_def Let_def)
  have available: "available_request_ids (rec_delivery ?s) = Inr [ScaleSetRunnerRequestId 7]"
    by (simp add: s available_request_ids_ok sample_available)
  let ?r = "offered_reservation sample_policy zero_identities (ScaleSetRunnerRequestId 7) (EpochMillis 21601000)"
  have "find_active_by_runner_request_id offered_catalog (ScaleSetRunnerRequestId 7) = Some ?r"
    by (simp add: find_active_by_runner_request_id_def offered_catalog_def offered_reservation_def attempt_reserved_def)
  moreover have "consumer_validate_reservation sample_policy ?r sample_job zero_identities = Inr ()"
    "as_phase (rs_attempt ?r) = Reserved" "consumer_validate_job sample_policy sample_job = Inr ()"
    by (simp_all add: consumer_validate_reservation_def consumer_validate_attempt_def offered_reservation_def
        attempt_reserved_def sample_job_def sample_policy_def consumer_validate_job_def)
  moreover have "available_request_ids later_delivery = Inr []"
    by (simp add: available_request_ids_ok later_delivery_def)
  ultimately have resolution: "reconcile_scale_set_acquisition_resolution zero_hex sample_policy
      [ScaleSetRunnerRequestId 7] later_delivery offered_catalog = Inr (offered_catalog, [ScaleSetRunnerRequestId 7])"
    by (simp add: reconcile_scale_set_acquisition_resolution_def sample_events zero_derive Let_def sample_job_def)
  have later: "dl_message_id (rec_delivery ?s) < dl_message_id later_delivery"
    by (simp add: s later_delivery_def sample_delivery_def)
  from resolution_accepted_iff[OF valid s(1) offered_reachable bound later available
      sample_events(1)[folded s(2)] sample_events(2) resolution open_digest]
  show ?thesis by simp
qed

end
