(* ===== verification/Unix_Delivery_Store.thy ===== *)
theory Unix_Delivery_Store
  imports Unix_Catalog_Store Consumer_Recovery
begin

text \<open>
  The delivery recovery document in the private store directory and the transactions that pair it
  with the catalog: \<open>src/unix_personal_worker_store/scale_set_delivery_recovery.rs\<close> and its modules
  \<open>reconcile_transaction.rs\<close>, \<open>controller_transaction.rs\<close> and \<open>settlement_transaction.rs\<close>.

  The external call of the controller transactions (acknowledging a message, replaying an
  acquisition) is an argument. Opening the store directory is not modelled: \<open>open_*\<close> is the part of
  each opener that runs under the lock.
\<close>

abbreviation SC :: string where "SC \<equiv> STAGED_CATALOG_DOCUMENT"
abbreviation SD :: string where "SD \<equiv> STAGED_DELIVERY_RECOVERY_DOCUMENT"

section \<open>The delivery document\<close>

fun map_recovery_error :: "recovery_error \<Rightarrow> store_error_kind" where
  "map_recovery_error RecoveryVersionIncompatible = StoreVersionIncompatible"
| "map_recovery_error RecoveryConflict = StoreRevisionConflict"
| "map_recovery_error RecoveryInvalidDocument = StoreCorruptState"
| "map_recovery_error RecoveryDocumentTooLarge = StoreCorruptState"
| "map_recovery_error RecoveryNonCanonical = StoreCorruptState"
| "map_recovery_error RecoveryCorruptState = StoreCorruptState"

fun map_catalog_error :: "catalog_error \<Rightarrow> store_error_kind" where
  "map_catalog_error CatBusy = StoreBusy"
| "map_catalog_error CatMissing = StoreMissing"
| "map_catalog_error CatIo = StoreIo"
| "map_catalog_error CatUnsafeFilesystem = StoreUnsafeFilesystem"
| "map_catalog_error CatVersionIncompatible = StoreVersionIncompatible"
| "map_catalog_error CatCorruptState = StoreCorruptState"
| "map_catalog_error CatAlreadyExists = StoreRevisionConflict"
| "map_catalog_error CatConflict = StoreRevisionConflict"
| "map_catalog_error CatIdentityDrift = StoreRevisionConflict"
| "map_catalog_error CatInvalidAction = StoreRevisionConflict"
| "map_catalog_error CatLimitExceeded = StoreRevisionConflict"
| "map_catalog_error CatRecoveryRequired = StoreRevisionConflict"

definition load_scale_set_delivery_named ::
  "('j, 'v, 'p, 'l) unix_env \<Rightarrow> string \<Rightarrow> (store_error_kind, recovery_state option) io" where
  "load_scale_set_delivery_named env n =
     io_try (read_named_bytes_bounded (ux_owner env) n MAX_SCALE_SET_DELIVERY_RECOVERY_BYTES) (\<lambda>found.
     io_result (option_decoded
       (\<lambda>bytes. map_err map_recovery_error (decode_scale_set_delivery_recovery (ux_codec env) bytes))
       found))"

definition stage_scale_set_delivery ::
  "('j, 'v, 'p, 'l) unix_env \<Rightarrow> recovery_state \<Rightarrow> (store_error_kind, unit) io" where
  "stage_scale_set_delivery env state =
     io_try (io_result (map_err map_recovery_error
       (encode_scale_set_delivery_recovery (ux_codec env) state))) (\<lambda>bytes.
     stage_named_bytes (ux_owner env) SD bytes)"

definition synchronize_existing_scale_set_delivery_stage ::
  "('j, 'v, 'p, 'l) unix_env \<Rightarrow> recovery_state \<Rightarrow> (store_error_kind, unit) io" where
  "synchronize_existing_scale_set_delivery_stage env expected =
     synchronize_existing (ux_owner env) (\<lambda>k. k) SD MAX_SCALE_SET_DELIVERY_RECOVERY_BYTES (\<lambda>bytes.
       if decode_scale_set_delivery_recovery (ux_codec env) bytes \<noteq> Inr expected
       then Inl StoreCorruptState else Inr ())"

definition exact_recovery_successor ::
  "('j, 'v) recovery_env \<Rightarrow> recovery_state \<Rightarrow> recovery_state \<Rightarrow> bool" where
  "exact_recovery_successor env current candidate \<longleftrightarrow>
     rec_revision candidate = saturating_add 64 (rec_revision current) 1
     \<and> rec_catalog_revision candidate = rec_catalog_revision current
     \<and> rec_delivery candidate = rec_delivery current
     \<and> (case rec_phase candidate of
          AcknowledgementStarted \<Rightarrow> begin_ack env current = Inr candidate
        | Acknowledged acquired \<Rightarrow> record_ack_response env current acquired = Inr candidate
        | AcquisitionRecoveryObserved acquired \<Rightarrow>
            record_recovery_acquire env current acquired = Inr candidate
        | LifecycleAcknowledgementStarted _ \<Rightarrow> begin_lifecycle_ack env current = Inr candidate
        | LifecycleAcknowledged _ \<Rightarrow> record_lifecycle_ack env current = Inr candidate
        | SettlementPrepared _ _ prior_catalog revision digest \<Rightarrow>
            prepare_settlement_binding env current prior_catalog revision digest = Inr candidate
        | _ \<Rightarrow> False)"

definition scale_set_delivery_recovery_plan ::
  "('j, 'v, 'p, 'l) unix_env \<Rightarrow> (store_error_kind, document_recovery_plan) io" where
  "scale_set_delivery_recovery_plan env =
     io_try (load_scale_set_delivery_named env SD) (\<lambda>found.
     case found of
       None \<Rightarrow> ret RecoveryClean
     | Some staged \<Rightarrow>
         io_try (load_scale_set_delivery_named env DELIVERY_RECOVERY_DOCUMENT) (\<lambda>current.
         case current of
           None \<Rightarrow>
             if rec_revision staged = 1 \<and> rec_phase staged = Reconciled
             then ret (RecoveryPublishStaged True) else fail StoreCorruptState
         | Some current \<Rightarrow>
             if staged = current then ret RecoveryRemoveStaleStaged
             else if exact_recovery_successor (ux_recovery_env env) current staged
             then ret (RecoveryPublishStaged False)
             else fail StoreCorruptState))"

definition recover_scale_set_delivery_locked ::
  "('j, 'v, 'p, 'l) unix_env \<Rightarrow> (store_error_kind, unit) io" where
  "recover_scale_set_delivery_locked env =
     io_try (scale_set_delivery_recovery_plan env) (\<lambda>plan.
     case plan of
       RecoveryClean \<Rightarrow> ret ()
     | RecoveryPublishStaged no_replace \<Rightarrow>
         io_try (load_scale_set_delivery_named env SD) (\<lambda>found.
         io_try (io_result (ok_or found StoreCorruptState)) (\<lambda>staged.
         io_try (synchronize_existing_scale_set_delivery_stage env staged) (\<lambda>_.
         publish_named_staged SD DELIVERY_RECOVERY_DOCUMENT no_replace)))
     | RecoveryRemoveStaleStaged \<Rightarrow> remove_stage SD)"

definition catalog_refuse_unsettled :: "('j, 'v, 'p, 'l) unix_env \<Rightarrow> (store_error_kind, unit) io" where
  "catalog_refuse_unsettled env =
     io_try (read_named_bytes_bounded (ux_owner env) SC
       MAX_DISPOSABLE_ATTEMPT_CATALOG_DOCUMENT_BYTES) (\<lambda>found.
     if found \<noteq> None then fail StoreRevisionConflict else ret ())"

definition refuse_unsettled_scale_set_neighbors ::
  "('j, 'v, 'p, 'l) unix_env \<Rightarrow> (store_error_kind, unit) io" where
  "refuse_unsettled_scale_set_neighbors env =
     io_try (recovery_plan env) (\<lambda>plan.
     case plan of
       PlanClean _ \<Rightarrow>
         io_try (template_refuse_unsettled env) (\<lambda>_.
         refuse_unsettled_lima_authority env)
     | _ \<Rightarrow> fail StoreRevisionConflict)"

definition refuse_other_unsettled_scale_set_state ::
  "('j, 'v, 'p, 'l) unix_env \<Rightarrow> (store_error_kind, unit) io" where
  "refuse_other_unsettled_scale_set_state env =
     io_try (recovery_plan env) (\<lambda>plan.
     case plan of
       PlanClean _ \<Rightarrow>
         io_try (catalog_refuse_unsettled env) (\<lambda>_.
         io_try (template_refuse_unsettled env) (\<lambda>_.
         refuse_unsettled_lima_authority env))
     | _ \<Rightarrow> fail StoreRevisionConflict)"

text \<open>The lock, the directory, the neighbours and the document's own stage, in this order.\<close>

definition delivery_mutation_locked :: "('j, 'v, 'p, 'l) unix_env \<Rightarrow> (store_error_kind, unit) io" where
  "delivery_mutation_locked env =
     io_try (acquire_mutation_lock (ux_owner env)) (\<lambda>_.
     io_try synchronize_directory (\<lambda>_.
     io_try (refuse_other_unsettled_scale_set_state env) (\<lambda>_.
     recover_scale_set_delivery_locked env)))"

definition load_scale_set_delivery_recovery ::
  "('j, 'v, 'p, 'l) unix_env \<Rightarrow> (store_error_kind, recovery_state option) io" where
  "load_scale_set_delivery_recovery env =
     io_try (acquire_read_lock (ux_owner env)) (\<lambda>_.
     io_try (read_named_bytes_bounded (ux_owner env) SD MAX_SCALE_SET_DELIVERY_RECOVERY_BYTES) (\<lambda>staged.
     if staged \<noteq> None then fail StoreRevisionConflict
     else load_scale_set_delivery_named env DELIVERY_RECOVERY_DOCUMENT))"

definition has_scale_set_delivery_recovery_evidence ::
  "('j, 'v, 'p, 'l) unix_env \<Rightarrow> (store_error_kind, bool) io" where
  "has_scale_set_delivery_recovery_evidence env =
     io_try (acquire_read_lock (ux_owner env)) (\<lambda>_.
     io_try (read_named_bytes_bounded (ux_owner env) SD MAX_SCALE_SET_DELIVERY_RECOVERY_BYTES) (\<lambda>staged.
     io_try (read_named_bytes_bounded (ux_owner env) DELIVERY_RECOVERY_DOCUMENT
       MAX_SCALE_SET_DELIVERY_RECOVERY_BYTES) (\<lambda>current.
     ret (staged \<noteq> None \<or> current \<noteq> None))))"

definition create_scale_set_delivery_recovery ::
  "('j, 'v, 'p, 'l) unix_env \<Rightarrow> recovery_state \<Rightarrow> (store_error_kind, recovery_state) io" where
  "create_scale_set_delivery_recovery env state =
     (if rec_revision state \<noteq> 1 \<or> rec_phase state \<noteq> Reconciled then fail StoreRevisionConflict
      else
        io_try (delivery_mutation_locked env) (\<lambda>_.
        io_try (load_scale_set_delivery_named env DELIVERY_RECOVERY_DOCUMENT) (\<lambda>found.
        if found \<noteq> None then fail StoreRevisionConflict
        else
          io_try (stage_scale_set_delivery env state) (\<lambda>_.
          guarded SD (
            io_try (publish_named_staged SD DELIVERY_RECOVERY_DOCUMENT True) (\<lambda>_.
            ret state))))))"

definition replace_scale_set_delivery_recovery ::
  "('j, 'v, 'p, 'l) unix_env \<Rightarrow> nat \<Rightarrow> recovery_state \<Rightarrow> (store_error_kind, recovery_state) io" where
  "replace_scale_set_delivery_recovery env expected_revision successor =
     io_try (delivery_mutation_locked env) (\<lambda>_.
     io_try (load_scale_set_delivery_named env DELIVERY_RECOVERY_DOCUMENT) (\<lambda>found.
     io_try (io_result (ok_or found StoreMissing)) (\<lambda>current.
     if rec_revision current \<noteq> expected_revision
        \<or> \<not> exact_recovery_successor (ux_recovery_env env) current successor
     then fail StoreRevisionConflict
     else
       io_try (stage_scale_set_delivery env successor) (\<lambda>_.
       guarded SD (
         io_try (publish_named_staged SD DELIVERY_RECOVERY_DOCUMENT False) (\<lambda>_.
         ret successor))))))"

section \<open>The reconcile transaction\<close>

text \<open>
  Recovery beside a current delivery. The argument \<open>prior_catalog\<close> of
  \<open>is_lifecycle_resolution_of\<close> is computed, with \<open>?\<close>, before the call: a stage whose phase holds no
  resolution makes the recovery return at once.
\<close>

definition recover_lifecycle_stage ::
  "('j, 'v, 'p, 'l) unix_env \<Rightarrow> catalog_document \<Rightarrow> catalog_document option \<Rightarrow> recovery_state \<Rightarrow>
   recovery_state \<Rightarrow> lifecycle_resolution \<Rightarrow> (store_error_kind, unit) io" where
  "recover_lifecycle_stage env current_catalog staged_catalog current_delivery staged_delivery resolution =
     (let resolves = (\<lambda>catalog. lx_catalog_revision resolution = cd_revision catalog
            \<and> catalog_digest (ux_recovery_env env) catalog = Inr (lx_catalog_digest resolution));
          publish_delivery = publish_named_staged SD DELIVERY_RECOVERY_DOCUMENT False;
          synchronize_delivery = synchronize_existing_scale_set_delivery_stage env staged_delivery
      in
      if matches_catalog (ux_recovery_env env) current_delivery current_catalog
      then
        (case staged_catalog of
           Some staged \<Rightarrow>
             if resolves staged
             then
               io_try synchronize_delivery (\<lambda>_.
               io_try (io_map_err map_catalog_error (synchronize_existing_catalog_stage env staged)) (\<lambda>_.
               io_try (publish_named_staged SC CATALOG_DOCUMENT False) (\<lambda>_.
               publish_delivery)))
             else fail StoreCorruptState
         | None \<Rightarrow>
             if resolves current_catalog
             then io_try synchronize_delivery (\<lambda>_. publish_delivery)
             else remove_stage SD)
      else if resolves current_catalog
      then
        io_try
          (case staged_catalog of
             Some staged \<Rightarrow>
               if staged \<noteq> current_catalog then fail StoreCorruptState
               else io_map_err map_catalog_error remove_catalog_stage
           | None \<Rightarrow> ret ()) (\<lambda>_.
        io_try synchronize_delivery (\<lambda>_. publish_delivery))
      else fail StoreCorruptState)"

definition recover_beside_delivery ::
  "('j, 'v, 'p, 'l) unix_env \<Rightarrow> catalog_document option \<Rightarrow> catalog_document option \<Rightarrow> recovery_state \<Rightarrow>
   recovery_state option \<Rightarrow> (store_error_kind, unit) io" where
  "recover_beside_delivery env current_catalog staged_catalog current_delivery staged_delivery =
     io_try (io_result (ok_or current_catalog StoreCorruptState)) (\<lambda>current_catalog.
     io_try
       (case staged_delivery of
          None \<Rightarrow> ret None
        | Some staged \<Rightarrow>
            io_try (io_result (ok_or (recovery_lifecycle_resolution staged) StoreCorruptState))
              (\<lambda>resolution.
            ret (if is_lifecycle_resolution_of (ux_recovery_env env) staged current_delivery
                      (lx_prior_catalog resolution)
                 then Some (staged, resolution) else None))) (\<lambda>lifecycle.
     case lifecycle of
       Some (staged, resolution) \<Rightarrow>
         recover_lifecycle_stage env current_catalog staged_catalog current_delivery staged resolution
     | None \<Rightarrow>
         if \<not> matches_catalog (ux_recovery_env env) current_delivery current_catalog
         then fail StoreCorruptState
         else if staged_catalog \<noteq> None then fail StoreRevisionConflict
         else if staged_delivery \<noteq> None then recover_scale_set_delivery_locked env
         else ret ()))"

definition recover_first_delivery ::
  "('j, 'v, 'p, 'l) unix_env \<Rightarrow> catalog_document option \<Rightarrow> catalog_document option \<Rightarrow>
   recovery_state option \<Rightarrow> (store_error_kind, unit) io" where
  "recover_first_delivery env current_catalog staged_catalog staged_delivery =
     (case staged_delivery of
        None \<Rightarrow>
          if staged_catalog \<noteq> None then io_map_err map_catalog_error (recover_catalog_locked env)
          else ret ()
      | Some staged_delivery \<Rightarrow>
          if rec_revision staged_delivery \<noteq> 1 \<or> rec_phase staged_delivery \<noteq> Reconciled
          then fail StoreCorruptState
          else
            io_try (io_result (ok_or current_catalog StoreCorruptState)) (\<lambda>current_catalog.
            let bound = matches_catalog (ux_recovery_env env) staged_delivery;
                bound_prior = matches_prior_catalog (ux_recovery_env env) staged_delivery;
                synchronize_delivery =
                  synchronize_existing_scale_set_delivery_stage env staged_delivery;
                publish_delivery = publish_named_staged SD DELIVERY_RECOVERY_DOCUMENT True
            in
            case staged_catalog of
              Some staged_catalog \<Rightarrow>
                if bound current_catalog \<and> staged_catalog = current_catalog
                then
                  io_try (io_map_err map_catalog_error remove_catalog_stage) (\<lambda>_.
                  io_try synchronize_delivery (\<lambda>_. publish_delivery))
                else if \<not> bound_prior current_catalog \<or> \<not> bound staged_catalog
                then fail StoreCorruptState
                else
                  io_try synchronize_delivery (\<lambda>_.
                  io_try (io_map_err map_catalog_error
                    (synchronize_existing_catalog_stage env staged_catalog)) (\<lambda>_.
                  io_try (publish_named_staged SC CATALOG_DOCUMENT False) (\<lambda>_.
                  publish_delivery)))
            | None \<Rightarrow>
                if bound current_catalog
                then io_try synchronize_delivery (\<lambda>_. publish_delivery)
                else if bound_prior current_catalog then remove_stage SD
                else fail StoreCorruptState))"

definition recover_scale_set_reconcile_transaction_locked ::
  "('j, 'v, 'p, 'l) unix_env \<Rightarrow> (store_error_kind, unit) io" where
  "recover_scale_set_reconcile_transaction_locked env =
     io_try (refuse_unsettled_scale_set_neighbors env) (\<lambda>_.
     io_try (io_map_err map_catalog_error (load_catalog_named env CATALOG_DOCUMENT)) (\<lambda>current_catalog.
     io_try (io_map_err map_catalog_error (load_catalog_named env SC)) (\<lambda>staged_catalog.
     io_try (load_scale_set_delivery_named env DELIVERY_RECOVERY_DOCUMENT) (\<lambda>current_delivery.
     io_try (load_scale_set_delivery_named env SD) (\<lambda>staged_delivery.
     case current_delivery of
       Some current_delivery \<Rightarrow>
         recover_beside_delivery env current_catalog staged_catalog current_delivery staged_delivery
     | None \<Rightarrow> recover_first_delivery env current_catalog staged_catalog staged_delivery)))))"

definition reconcile_mutation_locked ::
  "('j, 'v, 'p, 'l) unix_env \<Rightarrow> (store_error_kind, unit) io" where
  "reconcile_mutation_locked env =
     io_try (acquire_mutation_lock (ux_owner env)) (\<lambda>_.
     io_try synchronize_directory (\<lambda>_.
     recover_scale_set_reconcile_transaction_locked env))"

text \<open>
  Both paired publications: the delivery is staged first; when the catalog changes, its stage name
  is made durable and its guard disarmed before the catalog is staged and published; then the
  delivery is published.
\<close>

definition publish_pair ::
  "('j, 'v, 'p, 'l) unix_env \<Rightarrow> bool \<Rightarrow> catalog_document \<Rightarrow> catalog_document \<Rightarrow> recovery_state \<Rightarrow>
   (store_error_kind, unit) io" where
  "publish_pair env no_replace current_catalog catalog_successor recovery =
     io_try (stage_scale_set_delivery env recovery) (\<lambda>_.
     guarded SD (
       io_try
         (if catalog_successor \<noteq> current_catalog
          then
            io_try synchronize_directory (\<lambda>_.
            io_try (arm SD False) (\<lambda>_.
            io_try (io_map_err map_catalog_error (stage_catalog env catalog_successor)) (\<lambda>_.
            guarded SC (
              io_try synchronize_directory (\<lambda>_.
              publish_named_staged SC CATALOG_DOCUMENT False)))))
          else ret ()) (\<lambda>_.
       publish_named_staged SD DELIVERY_RECOVERY_DOCUMENT no_replace)))"

definition publish_scale_set_reconciled_delivery ::
  "('j, 'v, 'p, 'l) unix_env \<Rightarrow> catalog_revision \<Rightarrow> consumer_policy \<Rightarrow> scale_set_delivery \<Rightarrow> epoch_millis \<Rightarrow>
   (store_error_kind, catalog_document \<times> recovery_state) io" where
  "publish_scale_set_reconciled_delivery env expected_catalog_revision policy delivery observed_at =
     io_try (reconcile_mutation_locked env) (\<lambda>_.
     io_try (io_map_err map_catalog_error (load_catalog_named env CATALOG_DOCUMENT)) (\<lambda>found.
     io_try (io_result (ok_or found StoreMissing)) (\<lambda>current_catalog.
     io_try (load_scale_set_delivery_named env DELIVERY_RECOVERY_DOCUMENT) (\<lambda>live.
     case live of
       Some current_delivery \<Rightarrow>
         if (expected_catalog_revision = cd_revision current_catalog
             \<or> expected_catalog_revision = rec_prior_catalog_revision current_delivery)
            \<and> matches_catalog (ux_recovery_env env) current_delivery current_catalog
            \<and> rec_delivery current_delivery = delivery
         then ret (current_catalog, current_delivery)
         else fail StoreRevisionConflict
     | None \<Rightarrow>
         if cd_revision current_catalog \<noteq> expected_catalog_revision then fail StoreRevisionConflict
         else
           io_try (io_result (map_err (\<lambda>_. StoreRevisionConflict)
             (reconcile_scale_set_delivery (env_sha256_hex (ux_recovery_env env)) policy delivery
                current_catalog observed_at))) (\<lambda>catalog_successor.
           io_try (io_result (map_err map_recovery_error
             (recovery_reconciled (ux_recovery_env env) delivery current_catalog catalog_successor)))
             (\<lambda>recovery.
           io_try (publish_pair env True current_catalog catalog_successor recovery) (\<lambda>_.
           ret (catalog_successor, recovery))))))))"

definition publish_scale_set_lifecycle_resolution ::
  "('j, 'v, 'p, 'l) unix_env \<Rightarrow> recovery_state \<Rightarrow> consumer_policy \<Rightarrow> scale_set_delivery \<Rightarrow>
   (store_error_kind, recovery_state) io" where
  "publish_scale_set_lifecycle_resolution env expected policy delivery =
     io_try (reconcile_mutation_locked env) (\<lambda>_.
     io_try (load_scale_set_delivery_named env DELIVERY_RECOVERY_DOCUMENT) (\<lambda>live.
     io_try (io_result (ok_or live StoreMissing)) (\<lambda>current.
     if current \<noteq> expected \<or> rec_phase current \<noteq> AcquisitionRecoveryObserved []
     then fail StoreRevisionConflict
     else
       io_try (io_map_err map_catalog_error (load_catalog_named env CATALOG_DOCUMENT)) (\<lambda>found.
       io_try (io_result (ok_or found StoreCorruptState)) (\<lambda>current_catalog.
       if \<not> matches_catalog (ux_recovery_env env) current current_catalog then fail StoreCorruptState
       else
         io_try (io_result (map_err (\<lambda>_. StoreCorruptState)
           (available_request_ids (rec_delivery current)))) (\<lambda>ambiguous.
         io_try (io_result (map_err (\<lambda>_. StoreRevisionConflict)
           (reconcile_scale_set_acquisition_resolution (env_sha256_hex (ux_recovery_env env)) policy
              ambiguous delivery current_catalog))) (\<lambda>(target_catalog, acquired).
         io_try (io_result (map_err map_recovery_error
           (prepare_lifecycle_resolution (ux_recovery_env env) current delivery acquired current_catalog
              target_catalog))) (\<lambda>successor.
         io_try (publish_pair env False current_catalog target_catalog successor) (\<lambda>_.
         ret successor)))))))))"

end
