(* ===== verification/Unix_Delivery_Control.thy ===== *)
theory Unix_Delivery_Control
  imports Unix_Delivery_Store
begin

text \<open>
  The transactions of the delivery controller:
  \<open>src/unix_personal_worker_store/scale_set_delivery_recovery/controller_transaction.rs\<close>
  (acknowledging a message and recovering its acquisition around one external call) and
  \<open>settlement_transaction.rs\<close> (publishing the settled catalog and removing the delivery).
\<close>

section \<open>External calls\<close>

datatype ('a, 'x) external_transaction = Completed 'a | ExternalFailed 'x

type_synonym 'x acknowledge_call = "nat \<Rightarrow> (store_error_kind, 'x + request_ids) io"
type_synonym 'x acquire_call = "request_ids \<Rightarrow> (store_error_kind, 'x + request_ids) io"

definition publish_scale_set_delivery_successor_locked ::
  "('j, 'v, 'p, 'l) unix_env \<Rightarrow> recovery_state \<Rightarrow> recovery_state \<Rightarrow> (store_error_kind, unit) io" where
  "publish_scale_set_delivery_successor_locked env current successor =
     (if \<not> exact_recovery_successor (ux_recovery_env env) current successor
      then fail StoreRevisionConflict
      else
        io_try (stage_scale_set_delivery env successor) (\<lambda>_.
        guarded SD (publish_named_staged SD DELIVERY_RECOVERY_DOCUMENT False)))"

definition require_scale_set_catalog_binding ::
  "('j, 'v, 'p, 'l) unix_env \<Rightarrow> recovery_state \<Rightarrow> (store_error_kind, unit) io" where
  "require_scale_set_catalog_binding env delivery =
     io_try (io_map_err (\<lambda>_. StoreCorruptState) (load_catalog_named env CATALOG_DOCUMENT)) (\<lambda>found.
     io_try (io_result (ok_or found StoreCorruptState)) (\<lambda>catalog.
     if \<not> matches_catalog (ux_recovery_env env) delivery catalog then fail StoreCorruptState
     else ret ()))"

definition acknowledge_scale_set_delivery_locked ::
  "('j, 'v, 'p, 'l) unix_env \<Rightarrow> recovery_state \<Rightarrow> 'x acknowledge_call \<Rightarrow>
   (store_error_kind, (recovery_state, 'x) external_transaction) io" where
  "acknowledge_scale_set_delivery_locked env expected acknowledge =
     io_try (delivery_mutation_locked env) (\<lambda>_.
     io_try (load_scale_set_delivery_named env DELIVERY_RECOVERY_DOCUMENT) (\<lambda>found.
     io_try (io_result (ok_or found StoreMissing)) (\<lambda>current.
     if current \<noteq> expected \<or> rec_phase current \<noteq> Reconciled then fail StoreRevisionConflict
     else
       io_try (require_scale_set_catalog_binding env current) (\<lambda>_.
       io_try (io_result (map_err map_recovery_error (begin_ack (ux_recovery_env env) current)))
         (\<lambda>started.
       io_try (publish_scale_set_delivery_successor_locked env current started) (\<lambda>_.
       io_try (acknowledge (dl_message_id (rec_delivery started))) (\<lambda>response.
       case response of
         Inl x \<Rightarrow> ret (ExternalFailed x)
       | Inr acquired \<Rightarrow>
           io_try (io_result (map_err map_recovery_error
             (record_ack_response (ux_recovery_env env) started acquired))) (\<lambda>acknowledged.
           io_try (publish_scale_set_delivery_successor_locked env started acknowledged) (\<lambda>_.
           ret (Completed acknowledged))))))))))"

text \<open>The candidate of a retried or confirmed lifecycle-only acknowledgement.\<close>

definition lifecycle_only_candidate ::
  "('j, 'v, 'p, 'l) unix_env \<Rightarrow> recovery_state \<Rightarrow> (store_error_kind, recovery_state) io" where
  "lifecycle_only_candidate env expected =
     io_try (delivery_mutation_locked env) (\<lambda>_.
     io_try (load_scale_set_delivery_named env DELIVERY_RECOVERY_DOCUMENT) (\<lambda>found.
     io_try (io_result (ok_or found StoreCorruptState)) (\<lambda>current.
     if current \<noteq> expected \<or> rec_phase current \<noteq> AcknowledgementStarted then fail StoreRevisionConflict
     else
       io_try (io_result (map_err (\<lambda>_. StoreCorruptState)
         (available_request_ids (rec_delivery current)))) (\<lambda>available.
       if available \<noteq> [] then fail StoreRevisionConflict
       else
         io_try (require_scale_set_catalog_binding env current) (\<lambda>_.
         ret current)))))"

definition retry_scale_set_delivery_acknowledgement_locked ::
  "('j, 'v, 'p, 'l) unix_env \<Rightarrow> recovery_state \<Rightarrow> 'x acknowledge_call \<Rightarrow>
   (store_error_kind, (recovery_state, 'x) external_transaction) io" where
  "retry_scale_set_delivery_acknowledgement_locked env expected acknowledge =
     io_try (lifecycle_only_candidate env expected) (\<lambda>current.
     io_try (acknowledge (dl_message_id (rec_delivery current))) (\<lambda>response.
     case response of
       Inl x \<Rightarrow> ret (ExternalFailed x)
     | Inr acquired \<Rightarrow>
         if acquired \<noteq> [] then fail StoreCorruptState
         else
           io_try (io_result (map_err map_recovery_error
             (record_ack_response (ux_recovery_env env) current []))) (\<lambda>acknowledged.
           io_try (publish_scale_set_delivery_successor_locked env current acknowledged) (\<lambda>_.
           ret (Completed acknowledged)))))"

definition confirm_scale_set_delivery_acknowledged_locked ::
  "('j, 'v, 'p, 'l) unix_env \<Rightarrow> recovery_state \<Rightarrow> (store_error_kind, recovery_state) io" where
  "confirm_scale_set_delivery_acknowledged_locked env expected =
     io_try (lifecycle_only_candidate env expected) (\<lambda>current.
     io_try (io_result (map_err map_recovery_error
       (record_ack_response (ux_recovery_env env) current []))) (\<lambda>acknowledged.
     io_try (publish_scale_set_delivery_successor_locked env current acknowledged) (\<lambda>_.
     ret acknowledged)))"

fun acquisition_candidate :: "recovery_phase \<Rightarrow> bool" where
  "acquisition_candidate AcknowledgementStarted = True"
| "acquisition_candidate (AcquisitionRecoveryObserved _) = True"
| "acquisition_candidate _ = False"

definition recover_scale_set_acquisition_locked ::
  "('j, 'v, 'p, 'l) unix_env \<Rightarrow> recovery_state \<Rightarrow> 'x acquire_call \<Rightarrow>
   (store_error_kind, (recovery_state, 'x) external_transaction) io" where
  "recover_scale_set_acquisition_locked env expected acquire =
     io_try (delivery_mutation_locked env) (\<lambda>_.
     io_try (load_scale_set_delivery_named env DELIVERY_RECOVERY_DOCUMENT) (\<lambda>found.
     io_try (io_result (ok_or found StoreMissing)) (\<lambda>current.
     if current \<noteq> expected \<or> \<not> acquisition_candidate (rec_phase current)
     then fail StoreRevisionConflict
     else
       io_try (require_scale_set_catalog_binding env current) (\<lambda>_.
       io_try (io_result (map_err (\<lambda>_. StoreCorruptState)
         (available_request_ids (rec_delivery current)))) (\<lambda>available.
       if available = [] then fail StoreRevisionConflict
       else
         io_try (acquire available) (\<lambda>response.
         case response of
           Inl x \<Rightarrow> ret (ExternalFailed x)
         | Inr acquired \<Rightarrow>
             io_try (io_result (map_err map_recovery_error
               (record_recovery_acquire (ux_recovery_env env) current acquired))) (\<lambda>successor.
             io_try
               (if successor \<noteq> current
                then publish_scale_set_delivery_successor_locked env current successor
                else ret ()) (\<lambda>_.
             ret (Completed successor)))))))))"

fun lifecycle_candidate :: "recovery_phase \<Rightarrow> bool" where
  "lifecycle_candidate (LifecycleReconciled _) = True"
| "lifecycle_candidate (LifecycleAcknowledgementStarted _) = True"
| "lifecycle_candidate _ = False"

definition acknowledge_scale_set_lifecycle_locked ::
  "('j, 'v, 'p, 'l) unix_env \<Rightarrow> recovery_state \<Rightarrow> 'x acknowledge_call \<Rightarrow>
   (store_error_kind, (recovery_state, 'x) external_transaction) io" where
  "acknowledge_scale_set_lifecycle_locked env expected acknowledge =
     io_try (delivery_mutation_locked env) (\<lambda>_.
     io_try (load_scale_set_delivery_named env DELIVERY_RECOVERY_DOCUMENT) (\<lambda>found.
     io_try (io_result (ok_or found StoreMissing)) (\<lambda>current.
     if current \<noteq> expected \<or> \<not> lifecycle_candidate (rec_phase current)
     then fail StoreRevisionConflict
     else
       io_try (require_scale_set_catalog_binding env current) (\<lambda>_.
       io_try (io_result (map_err map_recovery_error
         (begin_lifecycle_ack (ux_recovery_env env) current))) (\<lambda>started.
       io_try
         (if started \<noteq> current
          then publish_scale_set_delivery_successor_locked env current started
          else ret ()) (\<lambda>_.
       io_try (io_result (ok_or (recovery_lifecycle_resolution started) StoreCorruptState))
         (\<lambda>resolution.
       io_try (acknowledge (dl_message_id (lx_delivery resolution))) (\<lambda>response.
       case response of
         Inl x \<Rightarrow> ret (ExternalFailed x)
       | Inr acquired \<Rightarrow>
           if acquired \<noteq> [] then fail StoreCorruptState
           else
             io_try (io_result (map_err map_recovery_error
               (record_lifecycle_ack (ux_recovery_env env) started))) (\<lambda>acknowledged.
             io_try (publish_scale_set_delivery_successor_locked env started acknowledged) (\<lambda>_.
             ret (Completed acknowledged)))))))))))"

fun lifecycle_started :: "recovery_phase \<Rightarrow> bool" where
  "lifecycle_started (LifecycleAcknowledgementStarted _) = True"
| "lifecycle_started _ = False"

definition confirm_scale_set_lifecycle_acknowledged_locked ::
  "('j, 'v, 'p, 'l) unix_env \<Rightarrow> recovery_state \<Rightarrow> (store_error_kind, recovery_state) io" where
  "confirm_scale_set_lifecycle_acknowledged_locked env expected =
     io_try (delivery_mutation_locked env) (\<lambda>_.
     io_try (load_scale_set_delivery_named env DELIVERY_RECOVERY_DOCUMENT) (\<lambda>found.
     io_try (io_result (ok_or found StoreCorruptState)) (\<lambda>current.
     if current \<noteq> expected \<or> \<not> lifecycle_started (rec_phase current) then fail StoreRevisionConflict
     else
       io_try (require_scale_set_catalog_binding env current) (\<lambda>_.
       io_try (io_result (map_err map_recovery_error
         (record_lifecycle_ack (ux_recovery_env env) current))) (\<lambda>acknowledged.
       io_try (publish_scale_set_delivery_successor_locked env current acknowledged) (\<lambda>_.
       ret acknowledged))))))"

section \<open>The settlement transaction\<close>

record delivery_settlement =
  dset_catalog :: catalog_document
  dset_prepared :: recovery_state
  dset_acquired :: nat

definition settlement_matches_expected ::
  "('j, 'v) recovery_env \<Rightarrow> delivery_settlement \<Rightarrow> recovery_state \<Rightarrow> bool" where
  "settlement_matches_expected env settled expected \<longleftrightarrow>
     expected = dset_prepared settled
     \<or> (case settlement_prior_catalog (dset_prepared settled) of
          None \<Rightarrow> False
        | Some prior \<Rightarrow>
            prepare_settlement env expected prior (dset_catalog settled) = Inr (dset_prepared settled))"

fun settlement_phase :: "recovery_phase \<Rightarrow> bool" where
  "settlement_phase (SettlementPrepared _ _ _ _ _) = True"
| "settlement_phase _ = False"

definition remove_settled_delivery ::
  "('j, 'v, 'p, 'l) unix_env \<Rightarrow> recovery_state \<Rightarrow> (store_error_kind, unit) io" where
  "remove_settled_delivery env expected =
     io_try (load_scale_set_delivery_named env DELIVERY_RECOVERY_DOCUMENT) (\<lambda>found.
     io_try (io_result (ok_or found StoreCorruptState)) (\<lambda>current.
     if current \<noteq> expected \<or> \<not> settlement_phase (rec_phase current) then fail StoreCorruptState
     else
       io_try (or_io (sys_unlink DELIVERY_RECOVERY_DOCUMENT)) (\<lambda>_.
       synchronize_directory)))"

definition settlement_of ::
  "recovery_state \<Rightarrow> catalog_document \<Rightarrow> (store_error_kind, delivery_settlement) io" where
  "settlement_of prepared target =
     io_try (io_result (ok_or (settlement_acquired prepared) StoreCorruptState)) (\<lambda>acquired.
     ret \<lparr>dset_catalog = target, dset_prepared = prepared, dset_acquired = length acquired\<rparr>)"

definition finish_recovered_settlement ::
  "('j, 'v, 'p, 'l) unix_env \<Rightarrow> recovery_state \<Rightarrow> catalog_document \<Rightarrow>
   (store_error_kind, delivery_settlement option) io" where
  "finish_recovered_settlement env prepared target =
     io_try (settlement_of prepared target) (\<lambda>settled.
     io_try (remove_settled_delivery env prepared) (\<lambda>_.
     ret (Some settled)))"

definition remove_equal_catalog_stage ::
  "catalog_document \<Rightarrow> catalog_document option \<Rightarrow> (store_error_kind, unit) io" where
  "remove_equal_catalog_stage catalog staged_catalog =
     (case staged_catalog of
        None \<Rightarrow> ret ()
      | Some staged \<Rightarrow>
          if staged \<noteq> catalog then fail StoreCorruptState
          else io_map_err map_catalog_error remove_catalog_stage)"

definition recover_settlement_catalog ::
  "('j, 'v, 'p, 'l) unix_env \<Rightarrow> recovery_state \<Rightarrow> catalog_document \<Rightarrow> catalog_document option \<Rightarrow>
   (store_error_kind, delivery_settlement option) io" where
  "recover_settlement_catalog env prepared catalog staged_catalog =
     (if matches_catalog (ux_recovery_env env) prepared catalog
      then
        io_try (io_result (map_err (\<lambda>_. StoreCorruptState)
          (settle_scale_set_delivery_catalog (ux_recovery_env env) prepared catalog))) (\<lambda>target.
        if \<not> matches_settlement_catalog (ux_recovery_env env) prepared target then fail StoreCorruptState
        else if target \<noteq> catalog
        then
          (case staged_catalog of
             Some staged \<Rightarrow>
               if staged = target
               then
                 io_try (io_map_err map_catalog_error (synchronize_existing_catalog_stage env staged)) (\<lambda>_.
                 io_try (publish_named_staged SC CATALOG_DOCUMENT False) (\<lambda>_.
                 finish_recovered_settlement env prepared target))
               else fail StoreCorruptState
           | None \<Rightarrow>
               io_try (io_map_err map_catalog_error (stage_catalog env target)) (\<lambda>_.
               guarded SC (
                 io_try synchronize_directory (\<lambda>_.
                 io_try (publish_named_staged SC CATALOG_DOCUMENT False) (\<lambda>_.
                 finish_recovered_settlement env prepared target)))))
        else
          io_try (remove_equal_catalog_stage catalog staged_catalog) (\<lambda>_.
          finish_recovered_settlement env prepared target))
      else if matches_settlement_catalog (ux_recovery_env env) prepared catalog
      then
        io_try (io_result (ok_or (settlement_prior_catalog prepared) StoreCorruptState)) (\<lambda>prior.
        io_try (io_result (map_err (\<lambda>_. StoreCorruptState)
          (settle_scale_set_delivery_catalog (ux_recovery_env env) prepared prior))) (\<lambda>derived.
        if derived \<noteq> catalog \<or> \<not> matches_settlement_catalog (ux_recovery_env env) prepared derived
        then fail StoreCorruptState
        else
          io_try (remove_equal_catalog_stage catalog staged_catalog) (\<lambda>_.
          finish_recovered_settlement env prepared catalog)))
      else fail StoreCorruptState)"

definition recover_scale_set_settlement_locked ::
  "('j, 'v, 'p, 'l) unix_env \<Rightarrow> (store_error_kind, delivery_settlement option) io" where
  "recover_scale_set_settlement_locked env =
     io_try (load_scale_set_delivery_named env DELIVERY_RECOVERY_DOCUMENT) (\<lambda>current.
     io_try (load_scale_set_delivery_named env SD) (\<lambda>staged.
     let settling = (\<lambda>found. case found of None \<Rightarrow> False | Some s \<Rightarrow> settlement_phase (rec_phase s)) in
     if \<not> (settling current \<or> settling staged) then ret None
     else
       io_try (refuse_unsettled_scale_set_neighbors env) (\<lambda>_.
       io_try (if staged \<noteq> None then recover_scale_set_delivery_locked env else ret ()) (\<lambda>_.
       io_try (load_scale_set_delivery_named env DELIVERY_RECOVERY_DOCUMENT) (\<lambda>found.
       io_try (io_result (ok_or found StoreCorruptState)) (\<lambda>prepared.
       if \<not> settlement_phase (rec_phase prepared) then fail StoreCorruptState
       else
         io_try (io_map_err map_catalog_error (load_catalog_named env CATALOG_DOCUMENT)) (\<lambda>found.
         io_try (io_result (ok_or found StoreCorruptState)) (\<lambda>catalog.
         io_try (io_map_err map_catalog_error (load_catalog_named env SC)) (\<lambda>staged_catalog.
         recover_settlement_catalog env prepared catalog staged_catalog)))))))))"

definition open_scale_set_delivery_controller ::
  "('j, 'v, 'p, 'l) unix_env \<Rightarrow> (store_error_kind, unit) io" where
  "open_scale_set_delivery_controller env =
     io_try (acquire_mutation_lock (ux_owner env)) (\<lambda>_.
     io_try synchronize_directory (\<lambda>_.
     io_try (recover_scale_set_settlement_locked env) (\<lambda>_.
     recover_scale_set_reconcile_transaction_locked env)))"

text \<open>
  Unlike the paired publications, the settlement keeps the guard of the delivery stage armed while
  the catalog stage exists; the guards are dropped in reverse order of their declaration.
\<close>

definition publish_settlement ::
  "('j, 'v, 'p, 'l) unix_env \<Rightarrow> catalog_document \<Rightarrow> catalog_document \<Rightarrow> recovery_state \<Rightarrow>
   (store_error_kind, unit) io" where
  "publish_settlement env catalog target prepared =
     io_try (stage_scale_set_delivery env prepared) (\<lambda>_.
     guarded SD (
       io_try synchronize_directory (\<lambda>_.
       if target \<noteq> catalog
       then
         io_try (io_map_err map_catalog_error (stage_catalog env target)) (\<lambda>_.
         guarded SC (
           io_try synchronize_directory (\<lambda>_.
           io_try (publish_named_staged SD DELIVERY_RECOVERY_DOCUMENT False) (\<lambda>_.
           io_try (publish_named_staged SC CATALOG_DOCUMENT False) (\<lambda>_.
           remove_settled_delivery env prepared)))))
       else
         io_try (publish_named_staged SD DELIVERY_RECOVERY_DOCUMENT False) (\<lambda>_.
         remove_settled_delivery env prepared))))"

definition settle_scale_set_delivery_locked ::
  "('j, 'v, 'p, 'l) unix_env \<Rightarrow> recovery_state \<Rightarrow> (store_error_kind, delivery_settlement) io" where
  "settle_scale_set_delivery_locked env expected =
     io_try (acquire_mutation_lock (ux_owner env)) (\<lambda>_.
     io_try synchronize_directory (\<lambda>_.
     io_try (recover_scale_set_settlement_locked env) (\<lambda>recovered.
     case recovered of
       Some settled \<Rightarrow>
         if settlement_matches_expected (ux_recovery_env env) settled expected then ret settled
         else fail StoreRevisionConflict
     | None \<Rightarrow>
         io_try (recover_scale_set_reconcile_transaction_locked env) (\<lambda>_.
         io_try (load_scale_set_delivery_named env DELIVERY_RECOVERY_DOCUMENT) (\<lambda>found.
         io_try (io_result (ok_or found StoreRevisionConflict)) (\<lambda>current.
         if current \<noteq> expected then fail StoreRevisionConflict
         else
           io_try (io_map_err map_catalog_error (load_catalog_named env CATALOG_DOCUMENT)) (\<lambda>found.
           io_try (io_result (ok_or found StoreCorruptState)) (\<lambda>catalog.
           io_try (io_result (map_err (\<lambda>_. StoreCorruptState)
             (settle_scale_set_delivery_catalog (ux_recovery_env env) current catalog))) (\<lambda>target.
           io_try (io_result (map_err map_recovery_error
             (prepare_settlement (ux_recovery_env env) current catalog target))) (\<lambda>prepared.
           io_try (publish_settlement env catalog target prepared) (\<lambda>_.
           settlement_of prepared target)))))))))))"

end
