(* ===== verification/Store_Triples.thy ===== *)
theory Store_Triples
  imports Store_Io
begin

text \<open>
  A program logic for the store operations of \<open>Store_Io\<close>: triples with a normal and an exceptional
  postcondition, and for each operation what it does to the view of the running process and to the
  set of directory contents a restart may find.
\<close>

section \<open>Triples\<close>

fun outcome ::
  "('a \<Rightarrow> world \<Rightarrow> bool) \<Rightarrow> (bool \<Rightarrow> world \<Rightarrow> bool) \<Rightarrow> ('e halt + 'a) \<times> world \<Rightarrow> bool" where
  "outcome Q X (Inr v, w) = Q v w"
| "outcome Q X (Inl (Failed k), w) = X False w"
| "outcome Q X (Inl PowerLost, w) = X True w"

definition triple ::
  "(world \<Rightarrow> bool) \<Rightarrow> ('e, 'a) io \<Rightarrow> ('a \<Rightarrow> world \<Rightarrow> bool) \<Rightarrow> (bool \<Rightarrow> world \<Rightarrow> bool) \<Rightarrow> bool" where
  "triple P m Q X \<longleftrightarrow> (\<forall>w. P w \<longrightarrow> outcome Q X (m w))"

text \<open>\<open>X\<close> is told whether the power was lost; then no guard is dropped.\<close>

lemma outcome_conseq:
  "outcome Q' X' r \<Longrightarrow> (\<And>v w. Q' v w \<Longrightarrow> Q v w) \<Longrightarrow> (\<And>l w. X' l w \<Longrightarrow> X l w) \<Longrightarrow> outcome Q X r"
  by (cases "(Q, X, r)" rule: outcome.cases) auto

named_theorems triple_intros \<open>rules that take a program apart\<close>

lemma triple_pre: "triple P' m Q X \<Longrightarrow> (\<And>w. P w \<Longrightarrow> P' w) \<Longrightarrow> triple P m Q X"
  by (auto simp: triple_def)

lemma triple_conseq:
  "triple P' m Q' X' \<Longrightarrow> (\<And>w. P w \<Longrightarrow> P' w) \<Longrightarrow> (\<And>v w. Q' v w \<Longrightarrow> Q v w) \<Longrightarrow>
     (\<And>l w. X' l w \<Longrightarrow> X l w) \<Longrightarrow> triple P m Q X"
  unfolding triple_def using outcome_conseq[of Q' X' _ Q X] by blast

lemma triple_post:
  "triple P m Q' X \<Longrightarrow> (\<And>v w. Q' v w \<Longrightarrow> Q v w) \<Longrightarrow> triple P m Q X"
  by (erule triple_conseq) auto

lemma triple_ret [triple_intros]: "(\<And>w. P w \<Longrightarrow> Q x w) \<Longrightarrow> triple P (ret x) Q X"
  by (auto simp: triple_def ret_def)

lemma triple_fail [triple_intros]: "(\<And>w. P w \<Longrightarrow> X False w) \<Longrightarrow> triple P (fail k) Q X"
  by (auto simp: triple_def fail_def)

lemma triple_try [triple_intros]:
  "triple P m R X \<Longrightarrow> (\<And>v. triple (R v) (k v) Q X) \<Longrightarrow> triple P (io_try m k) Q X"
  unfolding triple_def
proof (intro allI impI)
  fix w assume first: "\<forall>w. P w \<longrightarrow> outcome R X (m w)" and next_op: "\<And>v. \<forall>w. R v w \<longrightarrow> outcome Q X (k v w)"
    and "P w"
  then have "outcome R X (m w)" by blast
  then show "outcome Q X (io_try m k w)"
    using next_op by (cases "(R, X, m w)" rule: outcome.cases) (auto simp: io_try_def)
qed

lemma triple_map_err [triple_intros]: "triple P m Q X \<Longrightarrow> triple P (io_map_err f m) Q X"
  unfolding triple_def
proof (intro allI impI)
  fix w assume "\<forall>w. P w \<longrightarrow> outcome Q X (m w)" and "P w"
  then have "outcome Q X (m w)" by blast
  then show "outcome Q X (io_map_err f m w)"
    by (cases "(Q, X, m w)" rule: outcome.cases) (auto simp: io_map_err_def)
qed

lemma triple_result [triple_intros]:
  "(\<And>w x. P w \<Longrightarrow> r = Inr x \<Longrightarrow> Q x w) \<Longrightarrow> (\<And>w e. P w \<Longrightarrow> r = Inl e \<Longrightarrow> X False w) \<Longrightarrow>
     triple P (io_result r) Q X"
  by (cases r) (auto simp: io_result_def triple_def ret_def fail_def)

lemma triple_if [triple_intros]:
  "(b \<Longrightarrow> triple P m Q X) \<Longrightarrow> (\<not> b \<Longrightarrow> triple P m' Q X) \<Longrightarrow> triple P (if b then m else m') Q X"
  by simp

lemma triple_exists: "(\<And>x. triple (P x) m Q X) \<Longrightarrow> triple (\<lambda>w. \<exists>x. P x w) m Q X"
  unfolding triple_def by blast

lemma triple_pure: "(p \<Longrightarrow> triple P m Q X) \<Longrightarrow> triple (\<lambda>w. p \<and> P w) m Q X"
  by (auto simp: triple_def)

lemma triple_arm [triple_intros]:
  "(\<And>w. P w \<Longrightarrow> Q () (w\<lparr>w_armed := (w_armed w)(n := a)\<rparr>)) \<Longrightarrow> triple P (arm n a) Q X"
  by (auto simp: triple_def arm_def)

lemma triple_syscall:
  assumes "\<And>w r w'. P w \<Longrightarrow> act (w\<lparr>w_faults := tl (w_faults w)\<rparr>) = (r, w') \<Longrightarrow> Q r w'"
    and "\<And>w e k. P w \<Longrightarrow> w_faults w \<noteq> [] \<Longrightarrow> e \<noteq> EXIST \<Longrightarrow> e \<noteq> NOENT \<Longrightarrow>
      Q (Inl e) (failing k (w\<lparr>w_faults := tl (w_faults w)\<rparr>))"
    and "\<And>w. P w \<Longrightarrow> w_faults w \<noteq> [] \<Longrightarrow> X True (w\<lparr>w_faults := tl (w_faults w)\<rparr>)"
  shows "triple P (syscall failing act) Q X"
  unfolding triple_def
proof (intro allI impI)
  fix w assume "P w"
  note here = assms(1)[OF this] assms(2,3)[OF this]
  show "outcome Q X (syscall failing act w)"
    using here by (cases "w_faults w"; cases "hd (w_faults w)")
      (auto simp: syscall_def injected_def Let_def split: prod.splits)
qed

lemma triple_or_else [triple_intros]:
  "triple P call (\<lambda>r w. case r of Inl e \<Rightarrow> X False w | Inr v \<Rightarrow> Q v w) X \<Longrightarrow>
     triple P (or_else call err) Q X"
  unfolding or_else_def
  by (rule triple_try, assumption) (auto intro!: triple_result simp: map_err_eq_Inl)

section \<open>What a restart may find\<close>

definition contents :: "world \<Rightarrow> string \<Rightarrow> string option" where
  "contents w n = map_option (\<lambda>i. ino_bytes (w_inodes w i)) (w_dir w n)"

definition survivor :: "world \<Rightarrow> (string \<Rightarrow> string option) \<Rightarrow> bool" where
  "survivor w m \<longleftrightarrow> (\<exists>keep kept. m = contents (reboot keep kept [] w))"

definition possible_directory :: "world \<Rightarrow> directory_map \<Rightarrow> bool" where
  "possible_directory w d \<longleftrightarrow> (\<exists>keep. d = surviving_directory keep w)"

definition surviving_contents :: "(nat \<Rightarrow> nat) \<Rightarrow> world \<Rightarrow> directory_map \<Rightarrow> string \<Rightarrow> string option" where
  "surviving_contents kept w d n =
     map_option (\<lambda>i. ino_bytes (surviving_inode (kept i) (w_inodes w i))) (d n)"

lemma surviving_contents_cong:
  "w_inodes w' = w_inodes w \<Longrightarrow> surviving_contents kept w' d = surviving_contents kept w d"
  by (simp add: surviving_contents_def fun_eq_iff)

lemma survivor_iff:
  "survivor w m \<longleftrightarrow> (\<exists>d kept. possible_directory w d \<and> m = surviving_contents kept w d)"
proof -
  have "contents (reboot keep kept [] w) = surviving_contents kept w (surviving_directory keep w)"
    for keep kept
    by (simp add: contents_def reboot_def surviving_contents_def fun_eq_iff)
  then show ?thesis
    unfolding survivor_def possible_directory_def by auto
qed

lemma possible_directory_append:
  assumes "w_disk w' = w_disk w" and "w_pending w' = w_pending w @ [u]" and "possible_directory w' d"
  shows "possible_directory w d \<or> (\<exists>d0. possible_directory w d0 \<and> d = apply_update u d0)"
proof -
  obtain keep where d: "d = surviving_directory keep w'"
    using assms(3) by (auto simp: possible_directory_def)
  let ?d0 = "surviving_directory (take (length (w_pending w)) keep) w"
  let ?rest = "drop (length (w_pending w)) keep"
  have "zip keep (w_pending w @ [u])
      = zip (take (length (w_pending w)) keep) (w_pending w) @ zip ?rest [u]"
    by (rule zip_append2)
  then have "d = fold apply_update (map snd (filter fst (zip ?rest [u]))) ?d0"
    by (simp add: d surviving_directory_def assms)
  then have "d = ?d0 \<or> d = apply_update u ?d0"
    by (cases ?rest) (auto split: if_splits)
  then show ?thesis
    by (auto simp: possible_directory_def)
qed

lemma possible_directory_all:
  "possible_directory w (fold apply_update (w_pending w) (w_disk w))"
proof -
  have "map snd (filter fst (zip (replicate (length us) True) us)) = us" for us :: "directory_update list"
    by (induction us) simp_all
  then show ?thesis
    unfolding possible_directory_def surviving_directory_def by metis
qed

lemma possible_directory_flushed:
  "w_pending w = [] \<Longrightarrow> possible_directory w d \<longleftrightarrow> d = w_disk w"
  by (simp add: possible_directory_def surviving_directory_def)

lemma possible_directory_cong:
  "w_disk w' = w_disk w \<Longrightarrow> w_pending w' = w_pending w \<Longrightarrow> possible_directory w' d = possible_directory w d"
  by (simp add: possible_directory_def surviving_directory_def)

section \<open>Assertions\<close>

definition private_inode :: "identity \<Rightarrow> inode \<Rightarrow> bool" where
  "private_inode owner f \<longleftrightarrow>
     ino_regular f \<and> ino_links f = 1 \<and> ino_mode f = PRIVATE_FILE_MODE \<and> ino_owner f = owner"

definition private_directory :: "identity \<Rightarrow> directory_stat \<Rightarrow> bool" where
  "private_directory owner s \<longleftrightarrow>
     dst_directory s \<and> dst_mode s = MANAGED_DIRECTORY_MODE \<and> dst_owner s = owner"

text \<open>
  The store directory is private, every inode a directory may name is allocated and private, and
  what the process sees is what the disk will hold once everything pending has been written.
\<close>

definition store_ok :: "identity \<Rightarrow> world \<Rightarrow> bool" where
  "store_ok owner w \<longleftrightarrow>
     (\<forall>i < w_fresh w. private_inode owner (w_inodes w i)) \<and> private_inode owner (w_new w)
     \<and> private_directory owner (w_stat w)
     \<and> (\<forall>d n i. possible_directory w d \<longrightarrow> d n = Some i \<longrightarrow> i < w_fresh w)
     \<and> w_dir w = fold apply_update (w_pending w) (w_disk w)"

definition synced_outside :: "string set \<Rightarrow> world \<Rightarrow> bool" where
  "synced_outside U w \<longleftrightarrow> (\<forall>n i. n \<notin> U \<longrightarrow> w_dir w n = Some i \<longrightarrow> ino_synced (w_inodes w i))"

text \<open>
  \<open>holds\<close>: the process sees \<open>V\<close>, every file but those named in \<open>U\<close> is synchronised, a restart finds
  contents satisfying \<open>M\<close>, only guards of names in \<open>N\<close> are armed. \<open>calm\<close> says that no system call
  will fail, which turns a triple into a claim that the operation succeeds.
\<close>

record assertion =
  a_calm :: bool
  a_owner :: identity
  a_stages :: "string set"

definition holds ::
  "assertion \<Rightarrow> (string \<Rightarrow> string option) \<Rightarrow> string set \<Rightarrow> ((string \<Rightarrow> string option) \<Rightarrow> bool) \<Rightarrow>
   string set \<Rightarrow> world \<Rightarrow> bool" where
  "holds a V U M N w \<longleftrightarrow>
     store_ok (a_owner a) w \<and> contents w = V \<and> U \<subseteq> a_stages a \<and> synced_outside U w
     \<and> (\<forall>m. survivor w m \<longrightarrow> M m) \<and> (a_calm a \<longrightarrow> w_faults w = []) \<and> (\<forall>n. w_armed w n \<longrightarrow> n \<in> N)"

definition flushed ::
  "assertion \<Rightarrow> (string \<Rightarrow> string option) \<Rightarrow> string set \<Rightarrow> ((string \<Rightarrow> string option) \<Rightarrow> bool) \<Rightarrow>
   string set \<Rightarrow> world \<Rightarrow> bool" where
  "flushed a V U M N w \<longleftrightarrow> holds a V U M N w \<and> w_pending w = []"

definition broken ::
  "assertion \<Rightarrow> ((string \<Rightarrow> string option) \<Rightarrow> bool) \<Rightarrow> string set \<Rightarrow> bool \<Rightarrow> world \<Rightarrow> bool" where
  "broken a M N lost w \<longleftrightarrow>
     \<not> a_calm a \<and> store_ok (a_owner a) w \<and> synced_outside (a_stages a) w
     \<and> (\<forall>m. survivor w m \<longrightarrow> M m) \<and> (\<not> lost \<longrightarrow> (\<forall>n. w_armed w n \<longrightarrow> n \<in> N))"

lemma possible_directory_frame [simp]:
  "possible_directory (w\<lparr>w_faults := f\<rparr>) = possible_directory w"
  "possible_directory (w\<lparr>w_armed := a\<rparr>) = possible_directory w"
  "possible_directory (w\<lparr>w_inodes := g\<rparr>) = possible_directory w"
  by (auto simp: fun_eq_iff intro!: possible_directory_cong)

lemma contents_frame [simp]:
  "contents (w\<lparr>w_faults := f\<rparr>) = contents w" "contents (w\<lparr>w_armed := a\<rparr>) = contents w"
  by (auto simp: contents_def fun_eq_iff)

lemma survivor_frame [simp]:
  "survivor (w\<lparr>w_faults := f\<rparr>) = survivor w" "survivor (w\<lparr>w_armed := a\<rparr>) = survivor w"
  by (auto simp: survivor_iff surviving_contents_def fun_eq_iff)

lemma store_ok_frame [simp]:
  "store_ok owner (w\<lparr>w_faults := f\<rparr>) = store_ok owner w"
  "store_ok owner (w\<lparr>w_armed := a\<rparr>) = store_ok owner w"
  by (auto simp: store_ok_def)

lemma synced_frame [simp]:
  "synced_outside U (w\<lparr>w_faults := f\<rparr>) = synced_outside U w"
  "synced_outside U (w\<lparr>w_armed := a\<rparr>) = synced_outside U w"
  by (auto simp: synced_outside_def)

lemma holds_tl: "holds a V U M N w \<Longrightarrow> holds a V U M N (w\<lparr>w_faults := tl (w_faults w)\<rparr>)"
  by (auto simp: holds_def)

lemma flushed_holds: "flushed a V U M N w \<Longrightarrow> holds a V U M N w"
  by (simp add: flushed_def)

lemma flushed_tl: "flushed a V U M N w \<Longrightarrow> flushed a V U M N (w\<lparr>w_faults := tl (w_faults w)\<rparr>)"
  by (auto simp: flushed_def holds_tl)

lemma holds_not_calm: "holds a V U M N w \<Longrightarrow> w_faults w \<noteq> [] \<Longrightarrow> \<not> a_calm a"
  by (auto simp: holds_def)

lemma holds_weaken:
  "holds a V U M N w \<Longrightarrow> U \<subseteq> U' \<Longrightarrow> U' \<subseteq> a_stages a \<Longrightarrow> (\<And>m. M m \<Longrightarrow> M' m) \<Longrightarrow> N \<subseteq> N' \<Longrightarrow>
     holds a V U' M' N' w"
  unfolding holds_def synced_outside_def by blast

lemma broken_weaken:
  "broken a M N l w \<Longrightarrow> (\<And>m. M m \<Longrightarrow> M' m) \<Longrightarrow> N \<subseteq> N' \<Longrightarrow> broken a M' N' l w"
  unfolding broken_def by blast

lemma holds_broken: "holds a V U M N w \<Longrightarrow> \<not> a_calm a \<Longrightarrow> broken a M N l w"
  unfolding holds_def broken_def synced_outside_def by blast

lemma surviving_bytes [simp]:
  "ino_bytes (surviving_inode k f) = (if ino_synced f then ino_bytes f else take k (ino_bytes f))"
  by (simp add: surviving_inode_def)

lemma contents_survive: "store_ok owner w \<Longrightarrow> survivor w (contents w)"
proof -
  assume ok: "store_ok owner w"
  let ?kept = "\<lambda>i. length (ino_bytes (w_inodes w i))"
  have "contents w n = surviving_contents ?kept w (w_dir w) n" for n
    by (cases "w_dir w n") (simp_all add: contents_def surviving_contents_def)
  then have "contents w = surviving_contents ?kept w (w_dir w)" by blast
  moreover have "possible_directory w (w_dir w)"
    using ok possible_directory_all by (simp add: store_ok_def)
  ultimately show ?thesis unfolding survivor_iff by blast
qed

lemma flushed_exact:
  assumes "flushed a V {} M N w"
  shows "flushed a V {} (\<lambda>m. m = V) N w"
proof -
  have w: "store_ok (a_owner a) w" "contents w = V" "synced_outside {} w" "w_pending w = []"
    using assms by (auto simp: flushed_def holds_def)
  have "m = V" if m: "survivor w m" for m
  proof -
    obtain d kept where "d = w_dir w" "m = surviving_contents kept w d"
      using m w by (auto simp: survivor_iff possible_directory_flushed store_ok_def)
    then have "m n = contents w n" for n
      using w(3) by (cases "w_dir w n") (auto simp: surviving_contents_def contents_def synced_outside_def)
    then show ?thesis using w(2) by auto
  qed
  then show ?thesis using assms by (auto simp: flushed_def holds_def)
qed

lemma triple_call:
  assumes "\<And>w. P w \<Longrightarrow> P (w\<lparr>w_faults := tl (w_faults w)\<rparr>)"
    and "\<And>w. P w \<Longrightarrow> w_faults w \<noteq> [] \<Longrightarrow> \<not> a_calm a"
    and "\<And>w r w'. P w \<Longrightarrow> act w = (r, w') \<Longrightarrow> Q r w'"
    and "\<And>w e. P w \<Longrightarrow> \<not> a_calm a \<Longrightarrow> e \<noteq> EXIST \<Longrightarrow> e \<noteq> NOENT \<Longrightarrow> Q (Inl e) w"
    and "\<And>w. P w \<Longrightarrow> \<not> a_calm a \<Longrightarrow> X True w"
  shows "triple P (syscall unchanged act) Q X"
  by (rule triple_syscall) (use assms in blast)+

section \<open>Directory updates\<close>

lemma synchronised_world:
  assumes "store_ok owner w"
  shows "store_ok owner (w\<lparr>w_disk := w_dir w, w_pending := []\<rparr>)"
    and "contents (w\<lparr>w_disk := w_dir w, w_pending := []\<rparr>) = contents w"
    and "survivor (w\<lparr>w_disk := w_dir w, w_pending := []\<rparr>) m \<Longrightarrow> survivor w m"
    and "synced_outside U (w\<lparr>w_disk := w_dir w, w_pending := []\<rparr>) = synced_outside U w"
proof -
  let ?w = "w\<lparr>w_disk := w_dir w, w_pending := []\<rparr>"
  have now: "possible_directory w (w_dir w)"
    using assms possible_directory_all by (simp add: store_ok_def)
  have only: "possible_directory ?w d \<longleftrightarrow> d = w_dir w" for d
    by (simp add: possible_directory_flushed)
  have "\<forall>d n i. possible_directory ?w d \<longrightarrow> d n = Some i \<longrightarrow> i < w_fresh w"
    using assms now unfolding only store_ok_def by blast
  then show "store_ok owner ?w"
    using assms by (simp add: store_ok_def)
  show "survivor ?w m \<Longrightarrow> survivor w m"
    using now surviving_contents_cong[of ?w w] unfolding survivor_iff only by auto
qed (auto simp: contents_def synced_outside_def fun_eq_iff)

lemma triple_synchronize [triple_intros]:
  "triple (holds a V U M N) synchronize_directory (\<lambda>_. flushed a V U M N) (broken a M N)"
  unfolding synchronize_directory_def sys_fsync_directory_def
  by (intro triple_or_else triple_call[where a = a])
     (auto simp: flushed_def holds_def synchronised_world intro: holds_broken holds_tl holds_not_calm)

text \<open>A pending update adds the contents it leads to from any contents that could survive before.\<close>

definition or_updated ::
  "((string \<Rightarrow> string option) \<Rightarrow> bool) \<Rightarrow> ((string \<Rightarrow> string option) \<Rightarrow> (string \<Rightarrow> string option)) \<Rightarrow>
   (string \<Rightarrow> string option) \<Rightarrow> bool" where
  "or_updated M f m \<longleftrightarrow> M m \<or> (\<exists>m0. M m0 \<and> m = f m0)"

lemma apply_update_source:
  "apply_update u d n = Some i \<Longrightarrow> (\<exists>x. d x = Some i) \<or> (\<exists>x. (x, Some i) \<in> set u)"
proof (induction u d rule: apply_update.induct)
  case (2 y j rest d)
  then have "(\<exists>x. (d(y := j)) x = Some i) \<or> (\<exists>x. (x, Some i) \<in> set rest)"
    by (simp only: apply_update.simps)
  then show ?case by (metis fun_upd_apply list.set_intros)
qed auto

lemma updated_world:
  fixes u :: directory_update
  assumes ok: "store_ok owner w"
    and alloc: "\<And>n i. (n, Some i) \<in> set u \<Longrightarrow> i < w_fresh w"
    and w': "w' = w\<lparr>w_dir := apply_update u (w_dir w), w_pending := w_pending w @ [u]\<rparr>"
    and f: "\<And>d kept. surviving_contents kept w (apply_update u d) = f (surviving_contents kept w d)"
    and M: "\<And>m. survivor w m \<Longrightarrow> M m"
  shows "store_ok owner w'" and "survivor w' m \<Longrightarrow> or_updated M f m"
proof -
  have possible: "possible_directory w' d \<Longrightarrow>
      possible_directory w d \<or> (\<exists>d0. possible_directory w d0 \<and> d = apply_update u d0)" for d
    by (rule possible_directory_append) (simp_all add: w')
  have old: "\<forall>n i. d n = Some i \<longrightarrow> i < w_fresh w" if "possible_directory w d" for d
    using ok that by (simp add: store_ok_def)
  have "\<forall>n i. d n = Some i \<longrightarrow> i < w_fresh w" if "possible_directory w' d" for d
    using possible[OF that] old alloc apply_update_source[of u] by metis
  then show "store_ok owner w'"
    using ok by (simp add: store_ok_def w')
  show "or_updated M f m" if surv: "survivor w' m"
  proof -
    obtain d kept where d: "possible_directory w' d" and "m = surviving_contents kept w' d"
      using surv by (auto simp: survivor_iff)
    then have m: "m = surviving_contents kept w d"
      using surviving_contents_cong[of w' w] by (simp add: w')
    from possible[OF d] show ?thesis
    proof (elim disjE exE conjE)
      assume "possible_directory w d"
      then show ?thesis using M m by (auto simp: or_updated_def survivor_iff)
    next
      fix d0 assume "possible_directory w d0" "d = apply_update u d0"
      then show ?thesis using M m f by (auto simp: or_updated_def survivor_iff)
    qed
  qed
qed

abbreviation moved ::
  "string \<Rightarrow> string \<Rightarrow> string \<Rightarrow> (string \<Rightarrow> string option) \<Rightarrow> (string \<Rightarrow> string option)" where
  "moved source target bytes m \<equiv> m(target := Some bytes, source := None)"

lemma renamed_world:
  assumes "holds a V U M N w" and i: "w_dir w source = Some i" "source \<notin> U" "V source = Some bytes"
    and w': "w' = w\<lparr>w_dir := apply_update [(target, Some i), (source, None)] (w_dir w),
        w_pending := w_pending w @ [[(target, Some i), (source, None)]]\<rparr>"
  shows "holds a (moved source target bytes V) U (or_updated M (moved source target bytes)) N w'"
proof -
  have w: "store_ok (a_owner a) w" "synced_outside U w" "contents w = V"
    using assms(1) by (auto simp: holds_def)
  have synced: "ino_synced (w_inodes w i)" and content: "ino_bytes (w_inodes w i) = bytes"
    using w i by (auto simp: synced_outside_def contents_def)
  have "possible_directory w (w_dir w)"
    using w(1) possible_directory_all by (simp add: store_ok_def)
  then have alloc: "i < w_fresh w"
    using w(1) i by (auto simp: store_ok_def)
  note updated = updated_world[OF w(1) _ w', where f = "moved source target bytes" and M = M]
  have "store_ok (a_owner a) w'"
    by (rule updated(1))
       (use alloc synced content assms(1) in \<open>auto simp: surviving_contents_def fun_eq_iff holds_def\<close>)
  moreover have "or_updated M (moved source target bytes) m" if "survivor w' m" for m
    by (rule updated(2)[OF _ _ _ that])
       (use alloc synced content assms(1) in \<open>auto simp: surviving_contents_def fun_eq_iff holds_def\<close>)
  moreover have "contents w' = moved source target bytes V"
    using w(3) content by (auto simp: w' contents_def fun_eq_iff)
  moreover have "synced_outside U w'"
    using w(2) synced by (auto simp: w' synced_outside_def)
  ultimately show ?thesis using assms(1) by (auto simp: holds_def w')
qed

lemma triple_rename:
  assumes "V source = Some bytes" and "source \<notin> U" and "no_replace \<longrightarrow> V target = None"
  shows "triple (holds a V U M N) (or_else (sys_rename source target no_replace) err)
    (\<lambda>_. holds a (moved source target bytes V) U (or_updated M (moved source target bytes)) N)
    (broken a M N)"
  unfolding sys_rename_def
proof (intro triple_or_else triple_call[where a = a])
  fix w and r :: "errno + unit" and w'
  assume w: "holds a V U M N w" and act: "(case w_dir w source of
        None \<Rightarrow> (Inl NOENT, w)
      | Some i \<Rightarrow>
          if no_replace \<and> w_dir w target \<noteq> None then (Inl EXIST, w)
          else let update = [(target, Some i), (source, None)]
               in (Inr (), w\<lparr>w_dir := apply_update update (w_dir w),
                             w_pending := w_pending w @ [update]\<rparr>)) = (r, w')"
  have dir: "contents w = V" using w by (simp add: holds_def)
  then obtain i where i: "w_dir w source = Some i"
    using assms(1) by (auto simp: contents_def)
  have "\<not> (no_replace \<and> w_dir w target \<noteq> None)"
    using assms(3) dir by (auto simp: contents_def)
  then have "r = Inr () \<and> w' = w\<lparr>w_dir := apply_update [(target, Some i), (source, None)] (w_dir w),
      w_pending := w_pending w @ [[(target, Some i), (source, None)]]\<rparr>"
    using act i by (auto simp: Let_def split: if_splits)
  then show "case r of Inl e \<Rightarrow> broken a M N False w'
      | Inr v \<Rightarrow> holds a (moved source target bytes V) U (or_updated M (moved source target bytes)) N w'"
    using renamed_world[OF w i assms(2,1)] by auto
qed (auto intro: holds_tl holds_broken dest: holds_not_calm)

lemma broken_updated: "broken a M N l w \<Longrightarrow> broken a (or_updated M f) N l w"
  by (erule broken_weaken) (auto simp: or_updated_def)

lemma triple_publish:
  assumes "V source = Some bytes" and "source \<notin> U" and "no_replace \<longrightarrow> V target = None"
  shows "triple (holds a V U M N) (publish_named_staged source target no_replace)
    (\<lambda>_. flushed a (moved source target bytes V) U (or_updated M (moved source target bytes)) (N - {source}))
    (\<lambda>l w. broken a M N l w \<or> broken a (or_updated M (moved source target bytes)) (N - {source}) l w)"
  unfolding publish_named_staged_def
proof (rule triple_try)
  let ?V = "moved source target bytes V" and ?M = "or_updated M (moved source target bytes)"
  show "triple (holds a V U M N) (or_else (sys_rename source target no_replace)
      (\<lambda>e. map_publish_error e no_replace)) (\<lambda>_. holds a ?V U ?M N)
      (\<lambda>l w. broken a M N l w \<or> broken a ?M (N - {source}) l w)"
    by (rule triple_conseq[OF triple_rename[OF assms]]) auto
  have "triple (holds a ?V U ?M N) (arm source False) (\<lambda>_. holds a ?V U ?M (N - {source})) X" for X
    by (rule triple_arm) (auto simp: holds_def)
  moreover have "triple (holds a ?V U ?M (N - {source})) synchronize_directory
      (\<lambda>_. flushed a ?V U ?M (N - {source}))
      (\<lambda>l w. broken a M N l w \<or> broken a ?M (N - {source}) l w)"
    by (rule triple_conseq[OF triple_synchronize]) auto
  ultimately show "triple (holds a ?V U ?M N) (io_try (arm source False) (\<lambda>_. synchronize_directory))
      (\<lambda>_. flushed a ?V U ?M (N - {source}))
      (\<lambda>l w. broken a M N l w \<or> broken a ?M (N - {source}) l w)"
    by (rule triple_try)
qed

abbreviation without :: "string \<Rightarrow> (string \<Rightarrow> string option) \<Rightarrow> (string \<Rightarrow> string option)" where
  "without n m \<equiv> m(n := None)"

lemma unlinked_world:
  assumes ok: "store_ok owner w" and "synced_outside U w" and "\<And>m. survivor w m \<Longrightarrow> M m"
    and w': "w' = w\<lparr>w_dir := (w_dir w)(n := None), w_pending := w_pending w @ [[(n, None)]]\<rparr>"
  shows "store_ok owner w'" "survivor w' m \<Longrightarrow> or_updated M (without n) m"
    "contents w' = without n (contents w)" "synced_outside (U - {n}) w'"
proof -
  have u: "w' = w\<lparr>w_dir := apply_update [(n, None)] (w_dir w), w_pending := w_pending w @ [[(n, None)]]\<rparr>"
    by (simp add: w')
  have f: "surviving_contents kept w (apply_update [(n, None)] d) = without n (surviving_contents kept w d)"
    for d kept by (simp add: surviving_contents_def fun_eq_iff)
  note updated = updated_world[OF ok _ u f, where M = M]
  show "store_ok owner w'"
    by (rule updated(1)) (use assms(3) in auto)
  show "survivor w' m \<Longrightarrow> or_updated M (without n) m"
    by (rule updated(2)) (use assms(3) in auto)
  show "contents w' = without n (contents w)" "synced_outside (U - {n}) w'"
    using assms(2) by (auto simp: w' contents_def synced_outside_def fun_eq_iff)
qed

text \<open>The unlink fails because of the schedule or because there is nothing to unlink.\<close>

lemma triple_unlink:
  assumes P: "\<And>w. P w \<Longrightarrow> holds a V U M N w" and tl: "\<And>w. P w \<Longrightarrow> P (w\<lparr>w_faults := tl (w_faults w)\<rparr>)"
  shows "triple P (sys_unlink n)
     (\<lambda>r w. case r of
        Inr _ \<Rightarrow> holds a (without n V) (U - {n}) (or_updated M (without n)) N w
      | Inl e \<Rightarrow> P w \<and> (if e = NOENT then V n = None else \<not> a_calm a))
     (broken a M N)"
  unfolding sys_unlink_def
proof (intro triple_call[where a = a])
  fix w and r :: "errno + unit" and w'
  assume Pw: "P w" and act: "(case w_dir w n of
        None \<Rightarrow> (Inl NOENT, w)
      | Some _ \<Rightarrow> (Inr (), w\<lparr>w_dir := (w_dir w)(n := None),
                               w_pending := w_pending w @ [[(n, None)]]\<rparr>)) = (r, w')"
  note w = P[OF Pw]
  show "case r of
        Inr _ \<Rightarrow> holds a (without n V) (U - {n}) (or_updated M (without n)) N w'
      | Inl e \<Rightarrow> P w' \<and> (if e = NOENT then V n = None else \<not> a_calm a)"
  proof (cases "w_dir w n")
    case None
    then have "V n = None" using w by (auto simp: holds_def contents_def)
    then show ?thesis using None act Pw by auto
  next
    case (Some i)
    then have w': "r = Inr ()" "w' = w\<lparr>w_dir := (w_dir w)(n := None), w_pending := w_pending w @ [[(n, None)]]\<rparr>"
      using act by auto
    moreover have "holds a (without n V) (U - {n}) (or_updated M (without n)) N w'"
      using w unlinked_world[OF _ _ _ w'(2), of "a_owner a" U M] by (auto simp: holds_def w'(2))
    ultimately show ?thesis by simp
  qed
qed (use P tl in \<open>auto intro: holds_broken dest: holds_not_calm\<close>)

lemmas triple_unlink_holds =
  triple_unlink[where P = "holds a V U M N" for a V U M N, OF _ holds_tl, simplified]
lemmas triple_unlink_flushed =
  triple_unlink[where P = "flushed a V U M N" for a V U M N, OF flushed_holds flushed_tl]

lemma flushed_absent:
  assumes "flushed a V U M N w" and "V n = None"
  shows "flushed a (without n V) (U - {n}) (or_updated M (without n)) N w"
proof -
  have "w_dir w n = None" using assms by (auto simp: flushed_def holds_def contents_def)
  then show ?thesis
    using assms unfolding flushed_def holds_def synced_outside_def or_updated_def by fastforce
qed

lemma triple_remove_stage:
  "triple (flushed a V U M N) (remove_stage n)
     (\<lambda>_. flushed a (without n V) (U - {n}) (or_updated M (without n)) N)
     (broken a (or_updated M (without n)) N)"
  unfolding remove_stage_def
proof (rule triple_try)
  let ?V = "without n V" and ?M = "or_updated M (without n)"
  let ?R = "\<lambda>r w. case r of
        Inr (_ :: unit) \<Rightarrow> holds a ?V (U - {n}) ?M N w
      | Inl e \<Rightarrow> (if e = NOENT then flushed a ?V (U - {n}) ?M N w else \<not> a_calm a \<and> holds a V U M N w)"
  show "triple (flushed a V U M N) (sys_unlink n) ?R (broken a ?M N)"
    by (rule triple_conseq[OF triple_unlink_flushed[where V = V and U = U and M = M]])
       (auto simp: flushed_absent flushed_holds intro: broken_updated split: sum.splits if_splits)
  show "triple (?R r) (case r of Inr _ \<Rightarrow> synchronize_directory
      | Inl e \<Rightarrow> if e = NOENT then ret () else fail StoreIo)
      (\<lambda>_. flushed a ?V (U - {n}) ?M N) (broken a ?M N)" for r :: "errno + unit"
  proof (cases r)
    case (Inl e)
    then show ?thesis
      by (cases "e = NOENT") (auto intro!: triple_ret triple_fail intro: broken_updated holds_broken)
  qed (simp add: triple_synchronize)
qed

section \<open>Guards\<close>

lemma triple_disj: "triple P m Q X \<Longrightarrow> triple P' m Q X \<Longrightarrow> triple (\<lambda>w. P w \<or> P' w) m Q X"
  by (auto simp: triple_def)

lemma broken_holds:
  "broken a M N False w \<Longrightarrow> holds a (contents w) (a_stages a) M N w"
  by (auto simp: broken_def holds_def)

lemma broken_not_calm: "broken a M N l w \<Longrightarrow> \<not> a_calm a"
  by (simp add: broken_def)

lemma triple_drop_staged:
  "triple (\<lambda>w. P w \<and> w_armed w n)
     (io_try (arm n False) (\<lambda>_. io_try (sys_unlink n) (\<lambda>_. ret ())) :: ('e, unit) io) Q X \<Longrightarrow>
     (\<And>w. P w \<Longrightarrow> \<not> w_armed w n \<Longrightarrow> Q () w) \<Longrightarrow> triple P (drop_staged n :: ('e, unit) io) Q X"
  by (auto simp: triple_def drop_staged_def ret_def)

lemma triple_drop:
  "triple (broken a M N False) (drop_staged n :: ('e, unit) io)
     (\<lambda>_. broken a (or_updated M (without n)) (N - {n}) False)
     (broken a (or_updated M (without n)) (N - {n}))"
proof (rule triple_drop_staged)
  let ?M = "or_updated M (without n)"
  have "triple (\<lambda>w. \<not> a_calm a \<and> holds a V U M (N - {n}) w) (sys_unlink n :: ('e, errno + unit) io)
      (\<lambda>_. broken a ?M (N - {n}) False) (broken a ?M (N - {n}))" for V U
    by (rule triple_pure, rule triple_conseq[OF triple_unlink_holds[where V = V and U = U and M = M]])
       (auto intro: holds_broken broken_updated split: sum.splits)
  then have unlink: "triple (\<lambda>w. \<exists>V U. \<not> a_calm a \<and> holds a V U M (N - {n}) w)
      (sys_unlink n :: ('e, errno + unit) io)
      (\<lambda>_. broken a ?M (N - {n}) False) (broken a ?M (N - {n}))"
    by (intro triple_exists)
  show "triple (\<lambda>w. broken a M N False w \<and> w_armed w n)
      (io_try (arm n False) (\<lambda>_. io_try (sys_unlink n) (\<lambda>_. ret ())) :: ('e, unit) io)
      (\<lambda>_. broken a ?M (N - {n}) False) (broken a ?M (N - {n}))"
  proof (intro triple_try[OF triple_arm])
    fix w assume "broken a M N False w \<and> w_armed w n"
    then show "\<exists>V U. \<not> a_calm a \<and> holds a V U M (N - {n}) (w\<lparr>w_armed := (w_armed w)(n := False)\<rparr>)"
      by (auto simp: broken_def holds_def)
  qed (rule triple_try[OF unlink], rule triple_ret)
qed (auto simp: broken_def or_updated_def)

lemma triple_drop_unarmed:
  "n \<notin> N \<Longrightarrow> triple (broken a M N False) (drop_staged n) (\<lambda>_. broken a M N False) (broken a M N)"
  by (auto simp: triple_def drop_staged_def ret_def broken_def)

lemma triple_on_error:
  fixes m :: "('e, 'a) io"
  assumes "triple P m Q X" and "triple (X False) (drop_staged n :: ('e, unit) io) (\<lambda>_. Y False) Y"
    and "\<And>w. X True w \<Longrightarrow> Y True w"
  shows "triple P (on_error n m) Q Y"
  unfolding triple_def
proof (intro allI impI)
  fix w assume "P w"
  then have first: "outcome Q X (m w)" using assms(1) by (simp add: triple_def)
  show "outcome Q Y (on_error n m w)"
  proof (cases "(Q, X, m w)" rule: outcome.cases)
    case (2 _ _ k w')
    then have "outcome (\<lambda>_. Y False) Y ((drop_staged n :: ('e, unit) io) w')"
      using first assms(2) by (simp add: triple_def)
    then have "outcome Q Y (io_try (drop_staged n) (\<lambda>_. fail k) w')"
      by (cases "(\<lambda>_ :: unit. Y False, Y, (drop_staged n :: ('e, unit) io) w')" rule: outcome.cases)
         (auto simp: io_try_def fail_def)
    then show ?thesis using 2 by (simp add: on_error_def)
  qed (use first assms(3) in \<open>auto simp: on_error_def\<close>)
qed

lemma triple_guarded:
  fixes m :: "('e, 'a) io"
  assumes "triple P m Q X" and "triple (X False) (drop_staged n :: ('e, unit) io) (\<lambda>_. Y False) Y"
    and "\<And>w. X True w \<Longrightarrow> Y True w" and "\<And>v w. Q v w \<Longrightarrow> \<not> w_armed w n"
  shows "triple P (guarded n m) Q Y"
  unfolding guarded_def
  by (rule triple_try[OF triple_on_error[OF assms(1-3)]])
     (use assms(4) in \<open>auto simp: triple_def drop_staged_def ret_def io_try_def\<close>)

end
