(* ===== verification/Store_Staging.thy ===== *)
theory Store_Staging
  imports Store_Triples
begin

text \<open>
  Triples for the operations that read a document, stage one and synchronise a stage: what they
  return, and which contents a restart may find while they run.
\<close>

section \<open>Reading\<close>

text \<open>An assertion that fixes what the process sees and survives a system call without effect.\<close>

definition steady ::
  "assertion \<Rightarrow> (string \<Rightarrow> string option) \<Rightarrow> ((string \<Rightarrow> string option) \<Rightarrow> bool) \<Rightarrow> string set \<Rightarrow>
   (world \<Rightarrow> bool) \<Rightarrow> bool" where
  "steady a V M N P \<longleftrightarrow>
     (\<forall>w. P w \<longrightarrow> (\<exists>U. holds a V U M N w) \<and> P (w\<lparr>w_faults := tl (w_faults w)\<rparr>))"

lemma steady_holds [simp]: "steady a V M N (holds a V U M N)"
  unfolding steady_def by (auto intro: holds_tl)

lemma steady_flushed [simp]: "steady a V M N (flushed a V U M N)"
  unfolding steady_def by (auto intro: flushed_tl flushed_holds)

lemma steady_at:
  "steady a V M N P \<Longrightarrow> steady a V M N (\<lambda>w. P w \<and> w_dir w n = Some i)"
  unfolding steady_def by auto

lemma steady_broken: "steady a V M N P \<Longrightarrow> P w \<Longrightarrow> \<not> a_calm a \<Longrightarrow> broken a M N l w"
  unfolding steady_def using holds_broken by blast

lemma steady_ok:
  "steady a V M N P \<Longrightarrow> P w \<Longrightarrow> store_ok (a_owner a) w \<and> contents w = V"
  unfolding steady_def holds_def by blast

lemma triple_look:
  assumes "steady a V M N P" and "\<And>w r w'. P w \<Longrightarrow> act w = (r, w') \<Longrightarrow> Q r w'"
    and "\<And>w e. P w \<Longrightarrow> \<not> a_calm a \<Longrightarrow> e \<noteq> EXIST \<Longrightarrow> e \<noteq> NOENT \<Longrightarrow> Q (Inl e) w"
  shows "triple P (syscall unchanged act) Q (broken a M N)"
proof (rule triple_call[where a = a])
  show "P w \<Longrightarrow> P (w\<lparr>w_faults := tl (w_faults w)\<rparr>)" for w
    using assms(1) by (simp add: steady_def)
  show "P w \<Longrightarrow> w_faults w \<noteq> [] \<Longrightarrow> \<not> a_calm a" for w
    using assms(1) unfolding steady_def by (blast dest: holds_not_calm)
qed (use assms steady_broken[OF assms(1)] in blast)+

lemma private_file_at:
  assumes "steady a V M N P" and "P w" and "w_dir w n = Some i"
  shows "private_inode (a_owner a) (w_inodes w i) \<and> V n = Some (ino_bytes (w_inodes w i))"
proof -
  have w: "store_ok (a_owner a) w" "contents w = V"
    using steady_ok[OF assms(1,2)] by auto
  have "possible_directory w (w_dir w)"
    using w(1) possible_directory_all by (simp add: store_ok_def)
  then have "i < w_fresh w"
    using w(1) assms(3) unfolding store_ok_def by blast
  then show ?thesis
    using w assms(3) by (auto simp: store_ok_def contents_def)
qed

lemma triple_inspect_directory:
  assumes "steady a V M N P"
  shows "triple P (inspect_directory (Some (a_owner a))) (\<lambda>_. P) (broken a M N)"
proof -
  have "triple P (or_io sys_fstat_directory)
      (\<lambda>stat w. private_directory (a_owner a) stat \<and> P w) (broken a M N)"
    unfolding sys_fstat_directory_def
  proof (intro triple_or_else triple_look[OF assms])
    fix w and r :: "errno + directory_stat" and w' assume "P w" "(Inr (w_stat w), w) = (r, w')"
    then show "case r of Inl e \<Rightarrow> broken a M N False w'
        | Inr stat \<Rightarrow> private_directory (a_owner a) stat \<and> P w'"
      using steady_ok[OF assms, of w] by (auto simp: store_ok_def)
  qed (use steady_broken[OF assms] in auto)
  then show ?thesis
    unfolding inspect_directory_def
    by (rule triple_try)
       (intro triple_pure, auto simp: private_directory_def intro!: triple_ret)
qed

lemma triple_inspect_file:
  assumes "steady a V M N P"
    and "\<And>w. P w \<Longrightarrow> private_inode (a_owner a) (w_inodes w i)"
    and "\<And>w. P w \<Longrightarrow> expected_size \<noteq> None \<Longrightarrow> expected_size = Some (length (ino_bytes (w_inodes w i)))"
  shows "triple P (inspect_private_file i (a_owner a) expected_size) (\<lambda>_. P) (broken a M N)"
proof -
  have "triple P (or_io (sys_fstat i))
      (\<lambda>f w. (private_inode (a_owner a) f
         \<and> (expected_size \<noteq> None \<longrightarrow> expected_size = Some (length (ino_bytes f)))) \<and> P w) (broken a M N)"
    unfolding sys_fstat_def
  proof (intro triple_or_else triple_look[OF assms(1)])
    fix w and r :: "errno + inode" and w' assume "P w" "(Inr (w_inodes w i), w) = (r, w')"
    then show "case r of Inl e \<Rightarrow> broken a M N False w'
        | Inr f \<Rightarrow> (private_inode (a_owner a) f
            \<and> (expected_size \<noteq> None \<longrightarrow> expected_size = Some (length (ino_bytes f)))) \<and> P w'"
      using assms(2,3) by auto
  qed (use steady_broken[OF assms(1)] in auto)
  then show ?thesis
    unfolding inspect_private_file_def
    by (rule triple_try)
       (intro triple_pure, auto simp: private_inode_def intro!: triple_ret)
qed

lemma triple_open:
  assumes "steady a V M N P"
  shows "triple P (sys_open n)
    (\<lambda>r w. case r of
       Inr i \<Rightarrow> P w \<and> w_dir w n = Some i
     | Inl e \<Rightarrow> P w \<and> (if e = NOENT then V n = None else \<not> a_calm a)) (broken a M N)"
  unfolding sys_open_def
proof (intro triple_look[OF assms])
  fix w and r :: "errno + nat" and w'
  assume "P w" and "(case w_dir w n of None \<Rightarrow> (Inl NOENT, w) | Some i \<Rightarrow> (Inr i, w)) = (r, w')"
  then show "case r of
       Inr i \<Rightarrow> P w' \<and> w_dir w' n = Some i
     | Inl e \<Rightarrow> P w' \<and> (if e = NOENT then V n = None else \<not> a_calm a)"
    using steady_ok[OF assms, of w] by (auto simp: contents_def split: option.splits)
qed auto

lemma triple_read_at:
  assumes "steady a V M N P" and "V n = Some bytes" and "length bytes < limit"
  shows "triple (\<lambda>w. P w \<and> w_dir w n = Some i) (or_else (sys_read i limit) err)
    (\<lambda>r w. r = bytes \<and> P w \<and> w_dir w n = Some i) (broken a M N)"
  unfolding sys_read_def
proof (intro triple_or_else triple_look[OF steady_at[OF assms(1)]])
  fix w and r :: "errno + string" and w'
  assume "P w \<and> w_dir w n = Some i" and "(Inr (take limit (ino_bytes (w_inodes w i))), w) = (r, w')"
  then show "case r of Inl e \<Rightarrow> broken a M N False w' | Inr b \<Rightarrow> b = bytes \<and> P w' \<and> w_dir w' n = Some i"
    using private_file_at[OF assms(1)] assms(2,3) by auto
qed (use steady_broken[OF assms(1)] in auto)

lemma triple_read_named:
  assumes "steady a V M N P" and "\<And>bytes. V n = Some bytes \<Longrightarrow> length bytes \<le> max_bytes"
  shows "triple P (read_named_bytes_bounded (a_owner a) n max_bytes) (\<lambda>r w. r = V n \<and> P w) (broken a M N)"
  unfolding read_named_bytes_bounded_def
proof (rule triple_try[OF triple_inspect_directory[OF assms(1)]], rule triple_try[OF triple_open[OF assms(1)]])
  fix opened :: "errno + nat"
  show "triple (\<lambda>w. case opened of
       Inr i \<Rightarrow> P w \<and> w_dir w n = Some i
     | Inl e \<Rightarrow> P w \<and> (if e = NOENT then V n = None else \<not> a_calm a))
    (case opened of
       Inl e \<Rightarrow> if e = NOENT then ret None else fail (map_document_open_error e)
     | Inr i \<Rightarrow>
         io_try (inspect_private_file i (a_owner a) None) (\<lambda>_.
         io_try (or_io (sys_read i (max_bytes + 1))) (\<lambda>bytes.
         if max_bytes < length bytes then fail StoreCorruptState else ret (Some bytes))))
    (\<lambda>r w. r = V n \<and> P w) (broken a M N)"
  proof (cases opened)
    case (Inl e)
    then show ?thesis
      by (cases "e = NOENT") (auto intro!: triple_ret triple_fail intro: steady_broken[OF assms(1)])
  next
    case (Inr i)
    show ?thesis
    proof (cases "V n")
      case None
      then have "\<not> (P w \<and> w_dir w n = Some i)" for w
        using private_file_at[OF assms(1)] by auto
      then show ?thesis using Inr unfolding triple_def by auto
    next
      case (Some bytes)
      have "triple (\<lambda>w. P w \<and> w_dir w n = Some i) (inspect_private_file i (a_owner a) None)
          (\<lambda>_ w. P w \<and> w_dir w n = Some i) (broken a M N)"
        by (rule triple_inspect_file[OF steady_at[OF assms(1)]])
           (use private_file_at[OF assms(1)] in auto)
      moreover have "triple (\<lambda>w. P w \<and> w_dir w n = Some i) (or_io (sys_read i (max_bytes + 1)))
          (\<lambda>r w. r = bytes \<and> P w \<and> w_dir w n = Some i) (broken a M N)"
        using assms(2)[OF Some] by (intro triple_read_at[OF assms(1) Some]) simp
      ultimately show ?thesis
        using Inr Some assms(2)[OF Some]
        by (auto intro!: triple_try[where R = "\<lambda>_ w. P w \<and> w_dir w n = Some i"]
            triple_try[where R = "\<lambda>r w. r = bytes \<and> P w \<and> w_dir w n = Some i"] triple_ret triple_pure)
    qed
  qed
qed

lemma triple_lock:
  assumes "steady a V M N P" and "V STORE_LOCK_FILE = Some []"
  shows "triple P (acquire_mutation_lock (a_owner a)) (\<lambda>_. P) (broken a M N)"
proof -
  have "triple P (or_else (sys_open STORE_LOCK_FILE) map_lock_open_error)
      (\<lambda>i w. P w \<and> w_dir w STORE_LOCK_FILE = Some i) (broken a M N)"
    by (rule triple_or_else, rule triple_conseq[OF triple_open[OF assms(1)]])
       (use assms steady_broken[OF assms(1)] in \<open>auto split: sum.splits if_splits\<close>)
  moreover have "triple (\<lambda>w. P w \<and> w_dir w STORE_LOCK_FILE = Some i)
      (inspect_private_file i (a_owner a) (Some 0)) (\<lambda>_ w. P w \<and> w_dir w STORE_LOCK_FILE = Some i)
      (broken a M N)" for i
    by (rule triple_inspect_file[OF steady_at[OF assms(1)]])
       (use private_file_at[OF assms(1)] assms(2) in auto)
  moreover have "triple (\<lambda>w. P w \<and> w_dir w STORE_LOCK_FILE = Some i)
      (or_else sys_flock (\<lambda>e. if e = AGAIN then StoreBusy else StoreIo)) (\<lambda>_. P) (broken a M N)" for i
    unfolding sys_flock_def
    by (intro triple_or_else triple_look[OF steady_at[OF assms(1)]])
       (use steady_broken[OF assms(1)] in auto)
  ultimately show ?thesis
    unfolding acquire_mutation_lock_def by (blast intro: triple_try)
qed

section \<open>Staging\<close>

text \<open>
  While the new file \<open>i\<close> is written under the name \<open>n\<close>, a restart finds the earlier contents, or these
  with \<open>n\<close> holding what survives of the bytes.
\<close>

definition staging ::
  "assertion \<Rightarrow> (string \<Rightarrow> string option) \<Rightarrow> ((string \<Rightarrow> string option) \<Rightarrow> bool) \<Rightarrow> string set \<Rightarrow> string \<Rightarrow>
   nat \<Rightarrow> string \<Rightarrow> bool \<Rightarrow> world \<Rightarrow> bool" where
  "staging a V M N n i bytes synced w \<longleftrightarrow>
     store_ok (a_owner a) w \<and> i < w_fresh w \<and> w_dir w n = Some i
     \<and> ino_bytes (w_inodes w i) = bytes \<and> ino_synced (w_inodes w i) = synced
     \<and> contents w = V(n := Some bytes) \<and> n \<in> a_stages a \<and> synced_outside {n} w
     \<and> (\<forall>d. possible_directory w d \<longrightarrow>
          (\<exists>d0. (d = d0 \<or> d = d0(n := Some i)) \<and> i \<notin> ran d0 \<and> (\<forall>kept. M (surviving_contents kept w d0))))
     \<and> (a_calm a \<longrightarrow> w_faults w = []) \<and> (\<forall>x. w_armed w x \<longrightarrow> x \<in> N)"

definition written ::
  "((string \<Rightarrow> string option) \<Rightarrow> bool) \<Rightarrow> string \<Rightarrow> string \<Rightarrow> (string \<Rightarrow> string option) \<Rightarrow> bool" where
  "written M n bytes m \<longleftrightarrow> M m \<or> (\<exists>m0. M m0 \<and> m = m0(n := Some bytes))"

definition torn ::
  "((string \<Rightarrow> string option) \<Rightarrow> bool) \<Rightarrow> string \<Rightarrow> string \<Rightarrow> (string \<Rightarrow> string option) \<Rightarrow> bool" where
  "torn M n bytes m \<longleftrightarrow> M m \<or> (\<exists>m0 k. M m0 \<and> m = m0(n := Some (take k bytes)))"

lemma surviving_contents_frame [simp]:
  "surviving_contents kept (w\<lparr>w_faults := f\<rparr>) = surviving_contents kept w"
  "surviving_contents kept (w\<lparr>w_armed := g\<rparr>) = surviving_contents kept w"
  by (auto simp: surviving_contents_def fun_eq_iff)

lemma staging_survivor:
  assumes "staging a V M N n i bytes synced w" and "survivor w m"
  shows "M m \<or> (\<exists>m0 k. M m0 \<and> m = m0(n := Some (if synced then bytes else take k bytes)))"
proof -
  obtain d kept where d: "possible_directory w d" and m: "m = surviving_contents kept w d"
    using assms(2) by (auto simp: survivor_iff)
  then obtain d0 where d0: "d = d0 \<or> d = d0(n := Some i)" "\<And>kept. M (surviving_contents kept w d0)"
    using assms(1) unfolding staging_def by blast
  have "surviving_contents kept w (d0(n := Some i)) =
      (surviving_contents kept w d0)(n := Some (if synced then bytes else take (kept i) bytes))"
    using assms(1) by (auto simp: staging_def surviving_contents_def fun_eq_iff)
  then show ?thesis using d0 m by metis
qed

lemma staging_update:
  assumes "staging a V M N n i bytes synced w" and "private_inode (a_owner a) f"
  shows "staging a V M N n i (ino_bytes f) (ino_synced f) (w\<lparr>w_inodes := (w_inodes w)(i := f)\<rparr>)"
proof -
  let ?w = "w\<lparr>w_inodes := (w_inodes w)(i := f)\<rparr>"
  have w: "store_ok (a_owner a) w" "w_dir w n = Some i" "contents w = V(n := Some bytes)" "synced_outside {n} w"
    using assms(1) by (auto simp: staging_def)
  have possible: "\<exists>d0. (d = d0 \<or> d = d0(n := Some i)) \<and> i \<notin> ran d0 \<and> (\<forall>kept. M (surviving_contents kept ?w d0))"
    if d: "possible_directory w d" for d
  proof -
    obtain d0 where d0: "d = d0 \<or> d = d0(n := Some i)" "i \<notin> ran d0" "\<And>kept. M (surviving_contents kept w d0)"
      using assms(1) d unfolding staging_def by blast
    have "surviving_contents kept ?w d0 x = surviving_contents kept w d0 x" for kept x
      using d0(2) by (cases "d0 x") (auto simp: surviving_contents_def ran_def)
    then have "surviving_contents kept ?w d0 = surviving_contents kept w d0" for kept by blast
    then show ?thesis using d0 by metis
  qed
  have other: "w_dir w x \<noteq> Some i" if "x \<noteq> n" for x
  proof -
    have "possible_directory w (w_dir w)"
      using w(1) possible_directory_all by (simp add: store_ok_def)
    from possible[OF this] that show ?thesis by (auto simp: ran_def fun_eq_iff split: if_splits)
  qed
  have "store_ok (a_owner a) ?w"
    using w(1) assms(2) by (auto simp: store_ok_def)
  moreover have "contents ?w x = (V(n := Some (ino_bytes f))) x" for x
    using w(2) other[of x] arg_cong[where f = "\<lambda>g. g x", OF w(3)]
    by (cases "w_dir w x") (auto simp: contents_def)
  moreover have "synced_outside {n} ?w"
    using w(4) other by (auto simp: synced_outside_def)
  ultimately show ?thesis
    using assms(1) possible by (auto simp: staging_def)
qed

lemma synced_outside_mono: "U \<subseteq> U' \<Longrightarrow> synced_outside U w \<Longrightarrow> synced_outside U' w"
  by (auto simp: synced_outside_def)

lemma staging_broken:
  assumes "staging a V M N n i bytes synced w" and "\<not> a_calm a" and "bytes = take k encoded"
  shows "broken a (torn M n encoded) N l w"
proof -
  have "torn M n encoded m" if "survivor w m" for m
    using staging_survivor[OF assms(1) that] assms(3)
    by (auto simp: torn_def split: if_splits)
  moreover have "synced_outside (a_stages a) w"
    by (rule synced_outside_mono[of "{n}"]) (use assms(1) in \<open>auto simp: staging_def\<close>)
  ultimately show ?thesis
    using assms(1,2) by (auto simp: staging_def broken_def)
qed

lemma staging_holds:
  assumes "staging a V M N n i bytes True w"
  shows "holds a (V(n := Some bytes)) {} (written M n bytes) N w"
proof -
  have "written M n bytes m" if "survivor w m" for m
    using staging_survivor[OF assms that] by (auto simp: written_def)
  moreover have "synced_outside {} w"
    using assms by (simp add: staging_def synced_outside_def) (metis option.inject)
  ultimately show ?thesis
    using assms by (auto simp: staging_def holds_def)
qed

lemma staging_tl: "staging a V M N n i b s w \<Longrightarrow> staging a V M N n i b s (w\<lparr>w_faults := tl (w_faults w)\<rparr>)"
  by (auto simp: staging_def)

lemma staging_not_calm: "staging a V M N n i b s w \<Longrightarrow> w_faults w \<noteq> [] \<Longrightarrow> \<not> a_calm a"
  by (auto simp: staging_def)

lemma triple_stage_call:
  assumes "\<And>w r w'. staging a V M N n i b s w \<Longrightarrow> act w = (r, w') \<Longrightarrow> Q r w'"
    and "\<And>w e. staging a V M N n i b s w \<Longrightarrow> \<not> a_calm a \<Longrightarrow> Q (Inl e) w"
    and "b = take k encoded"
  shows "triple (staging a V M N n i b s) (syscall unchanged act) Q (broken a (torn M n encoded) N)"
  by (rule triple_call[where a = a])
     (use assms staging_broken in \<open>auto intro: staging_tl dest: staging_not_calm\<close>)

lemma created_world:
  assumes "holds a V {} M N w" and "w_dir w n = None" and "n \<in> a_stages a"
    and w': "w' = w\<lparr>w_inodes := (w_inodes w)(w_fresh w := (w_new w)\<lparr>ino_bytes := [], ino_synced := False\<rparr>),
        w_fresh := w_fresh w + 1, w_dir := (w_dir w)(n := Some (w_fresh w)),
        w_pending := w_pending w @ [[(n, Some (w_fresh w))]]\<rparr>"
  shows "staging a V M N n (w_fresh w) [] False w'"
proof -
  let ?i = "w_fresh w"
  have w: "store_ok (a_owner a) w" "contents w = V" "synced_outside {} w" "\<And>m. survivor w m \<Longrightarrow> M m"
    using assms(1) by (auto simp: holds_def)
  have unnamed: "?i \<notin> ran d" if "possible_directory w d" for d
    using w(1) that by (auto simp: store_ok_def ran_def)
  have now: "possible_directory w (w_dir w)"
    using w(1) possible_directory_all by (simp add: store_ok_def)
  have earlier: "M (surviving_contents kept w' d)" if "possible_directory w d" for kept d
  proof -
    have "surviving_contents kept w' d x = surviving_contents kept w d x" for x
      using unnamed[OF that] by (cases "d x") (auto simp: w' surviving_contents_def ran_def)
    then have "surviving_contents kept w' d = surviving_contents kept w d" by blast
    then show ?thesis using w(4) that by (auto simp: survivor_iff)
  qed
  have possible: "possible_directory w d \<or> (\<exists>d0. possible_directory w d0 \<and> d = d0(n := Some ?i))"
    if "possible_directory w' d" for d
    using possible_directory_append[OF _ _ that, of w "[(n, Some ?i)]"] by (simp add: w')
  have "\<forall>x i. d x = Some i \<longrightarrow> i < w_fresh w'" if d: "possible_directory w' d" for d
  proof -
    have "\<forall>x i. d0 x = Some i \<longrightarrow> i < ?i" if "possible_directory w d0" for d0
      using w(1) that unfolding store_ok_def by blast
    then show ?thesis using possible[OF d] by (auto simp: w' less_Suc_eq split: if_splits)
  qed
  then have "store_ok (a_owner a) w'"
    using w(1) by (auto simp: store_ok_def w' private_inode_def less_Suc_eq)
  moreover have "contents w' x = (V(n := Some [])) x" for x
    using unnamed[OF now] arg_cong[where f = "\<lambda>g. g x", OF w(2)]
    by (cases "w_dir w x") (auto simp: w' contents_def ran_def)
  moreover have "synced_outside {n} w'"
    using w(3) unnamed[OF now] by (auto simp: w' synced_outside_def ran_def)
  moreover have "\<exists>d0. (d = d0 \<or> d = d0(n := Some ?i)) \<and> ?i \<notin> ran d0 \<and> (\<forall>kept. M (surviving_contents kept w' d0))"
    if "possible_directory w' d" for d
    using possible[OF that] unnamed earlier by blast
  ultimately show ?thesis
    using assms(1,3) by (auto simp: staging_def holds_def w')
qed

lemma triple_create:
  assumes "V n = None" and "n \<in> a_stages a"
  shows "triple (holds a V {} M N) (or_else (sys_create n) err)
    (\<lambda>i. staging a V M N n i [] False) (broken a M N)"
  unfolding sys_create_def
proof (intro triple_or_else triple_look[OF steady_holds])
  fix w and r :: "errno + nat" and w'
  assume w: "holds a V {} M N w" and act: "(case w_dir w n of
      Some _ \<Rightarrow> (Inl EXIST, w)
    | None \<Rightarrow> let i = w_fresh w in
        (Inr i, w\<lparr>w_inodes := (w_inodes w)(i := (w_new w)\<lparr>ino_bytes := [], ino_synced := False\<rparr>),
                  w_fresh := i + 1, w_dir := (w_dir w)(n := Some i),
                  w_pending := w_pending w @ [[(n, Some i)]]\<rparr>)) = (r, w')"
  have "w_dir w n = None"
    using w assms(1) by (auto simp: holds_def contents_def)
  then show "case r of Inl e \<Rightarrow> broken a M N False w' | Inr i \<Rightarrow> staging a V M N n i [] False w'"
    using act created_world[OF w _ assms(2)] by (auto simp: Let_def)
qed (auto intro: holds_broken)

lemma triple_write:
  "triple (staging a V M N n i [] False) (or_else (sys_write_all i encoded) err)
     (\<lambda>_. staging a V M N n i encoded False) (broken a (torn M n encoded) N)"
proof (rule triple_or_else, unfold sys_write_all_def, rule triple_syscall)
  have append: "staging a V M N n i bytes False (append_bytes i bytes w)"
    if w: "staging a V M N n i [] False w" for w bytes
  proof -
    have "private_inode (a_owner a) ((w_inodes w i)\<lparr>ino_bytes := bytes, ino_synced := False\<rparr>)"
      using w by (auto simp: staging_def store_ok_def private_inode_def)
    from staging_update[OF w this] show ?thesis
      using w by (simp add: append_bytes_def staging_def)
  qed
  fix w assume w: "staging a V M N n i [] False w"
  note tl = staging_tl[OF w]
  show "(Inr (), append_bytes i encoded (w\<lparr>w_faults := tl (w_faults w)\<rparr>)) = (r, w') \<Longrightarrow>
      case r of Inl e \<Rightarrow> broken a (torn M n encoded) N False w' | Inr _ \<Rightarrow> staging a V M N n i encoded False w'"
    for r :: "errno + unit" and w'
    using append[OF tl] by auto
  show "w_faults w \<noteq> [] \<Longrightarrow> case Inl e of
      Inl e \<Rightarrow> broken a (torn M n encoded) N False
        (append_bytes i (take k encoded) (w\<lparr>w_faults := tl (w_faults w)\<rparr>))
      | Inr v \<Rightarrow> staging a V M N n i encoded False
        (append_bytes i (take k encoded) (w\<lparr>w_faults := tl (w_faults w)\<rparr>))" for e :: errno and k
    using staging_broken[OF append[OF tl] staging_not_calm[OF w]] by auto
  show "w_faults w \<noteq> [] \<Longrightarrow> broken a (torn M n encoded) N True (w\<lparr>w_faults := tl (w_faults w)\<rparr>)"
    using staging_broken[OF tl staging_not_calm[OF w], of 0 encoded] by simp
qed

lemma triple_chmod_stage:
  "triple (staging a V M N n i [] False) (or_else (sys_fchmod i PRIVATE_FILE_MODE) err)
     (\<lambda>_. staging a V M N n i [] False) (broken a (torn M n encoded) N)"
  unfolding sys_fchmod_def
proof (intro triple_or_else triple_stage_call[where k = 0])
  fix w and r :: "errno + unit" and w'
  assume w: "staging a V M N n i [] False w"
    and act: "(Inr (), w\<lparr>w_inodes := (w_inodes w)(i := (w_inodes w i)\<lparr>ino_mode := PRIVATE_FILE_MODE\<rparr>)\<rparr>) = (r, w')"
  have "private_inode (a_owner a) ((w_inodes w i)\<lparr>ino_mode := PRIVATE_FILE_MODE\<rparr>)"
    using w by (auto simp: staging_def store_ok_def private_inode_def)
  from staging_update[OF w this] show "case r of Inl e \<Rightarrow> broken a (torn M n encoded) N False w'
      | Inr _ \<Rightarrow> staging a V M N n i [] False w'"
    using act w by (auto simp: staging_def)
qed (auto intro: staging_broken[where k = 0])

lemma triple_sync_stage:
  "triple (staging a V M N n i encoded False) (or_else (sys_fsync i) err)
     (\<lambda>_. staging a V M N n i encoded True) (broken a (torn M n encoded) N)"
  unfolding sys_fsync_def
proof (intro triple_or_else triple_stage_call[where k = "length encoded"])
  fix w and r :: "errno + unit" and w'
  assume w: "staging a V M N n i encoded False w"
    and act: "(Inr (), w\<lparr>w_inodes := (w_inodes w)(i := (w_inodes w i)\<lparr>ino_synced := True\<rparr>)\<rparr>) = (r, w')"
  have "private_inode (a_owner a) ((w_inodes w i)\<lparr>ino_synced := True\<rparr>)"
    using w by (auto simp: staging_def store_ok_def private_inode_def)
  from staging_update[OF w this] show "case r of Inl e \<Rightarrow> broken a (torn M n encoded) N False w'
      | Inr _ \<Rightarrow> staging a V M N n i encoded True w'"
    using act w by (auto simp: staging_def)
qed (auto intro: staging_broken[where k = "length encoded"])

lemma triple_inspect_stage:
  assumes "bytes = take k encoded"
  shows "triple (staging a V M N n i bytes synced) (inspect_private_file i (a_owner a) (Some (length bytes)))
    (\<lambda>_. staging a V M N n i bytes synced) (broken a (torn M n encoded) N)"
proof -
  have "triple (staging a V M N n i bytes synced) (or_io (sys_fstat i))
      (\<lambda>f w. (private_inode (a_owner a) f \<and> ino_bytes f = bytes) \<and> staging a V M N n i bytes synced w)
      (broken a (torn M n encoded) N)"
    unfolding sys_fstat_def
  proof (intro triple_or_else triple_stage_call)
    fix w and r :: "errno + inode" and w'
    assume "staging a V M N n i bytes synced w" and "(Inr (w_inodes w i), w) = (r, w')"
    then show "case r of Inl e \<Rightarrow> broken a (torn M n encoded) N False w'
        | Inr f \<Rightarrow> (private_inode (a_owner a) f \<and> ino_bytes f = bytes) \<and> staging a V M N n i bytes synced w'"
      by (auto simp: staging_def store_ok_def)
  qed (use assms in \<open>auto intro: staging_broken[where k = k]\<close>)
  then show ?thesis
    unfolding inspect_private_file_def
    by (rule triple_try) (intro triple_pure, auto simp: private_inode_def intro!: triple_ret)
qed

lemma broken_lost: "broken a M N True w \<Longrightarrow> (\<And>m. M m \<Longrightarrow> M' m) \<Longrightarrow> broken a M' N' True w"
  by (auto simp: broken_def)

lemma triple_stage_file:
  assumes "V n = None" and "n \<in> a_stages a"
  shows "triple (holds a V {} M N) (stage_named_bytes (a_owner a) n encoded)
    (\<lambda>_. holds a (V(n := Some encoded)) {} (written M n encoded) (insert n N))
    (broken a (or_updated (torn M n encoded) (without n)) N)"
proof -
  let ?N = "insert n N" and ?T = "torn M n encoded"
  have body: "triple (staging a V M ?N n i [] False)
      (io_try (or_io (sys_fchmod i PRIVATE_FILE_MODE)) (\<lambda>_.
       io_try (inspect_private_file i (a_owner a) (Some 0)) (\<lambda>_.
       io_try (or_io (sys_write_all i encoded)) (\<lambda>_.
       io_try (or_io (sys_fsync i)) (\<lambda>_.
       inspect_private_file i (a_owner a) (Some (length encoded)))))))
      (\<lambda>_. staging a V M ?N n i encoded True) (broken a ?T ?N)" for i
    by (rule triple_try[OF triple_chmod_stage],
        rule triple_try[OF triple_inspect_stage[where bytes = "[]" and k = 0, simplified]],
        rule triple_try[OF triple_write], rule triple_try[OF triple_sync_stage],
        rule triple_inspect_stage[where k = "length encoded"], simp)
  have armed: "triple (staging a V M N n i [] False) (arm n True) (\<lambda>_. staging a V M ?N n i [] False) X" for i X
    by (rule triple_arm) (auto simp: staging_def)
  have create: "triple (holds a V {} M N) (or_else (sys_create n) map_stage_create_error)
      (\<lambda>i. staging a V M N n i [] False) (broken a (or_updated ?T (without n)) N)"
    by (rule triple_conseq[OF triple_create[where V = V and M = M and N = N, OF assms]])
       (auto elim!: broken_weaken simp: or_updated_def torn_def)
  have staged: "triple (staging a V M ?N n i [] False) (on_error n (
       io_try (or_io (sys_fchmod i PRIVATE_FILE_MODE)) (\<lambda>_.
       io_try (inspect_private_file i (a_owner a) (Some 0)) (\<lambda>_.
       io_try (or_io (sys_write_all i encoded)) (\<lambda>_.
       io_try (or_io (sys_fsync i)) (\<lambda>_.
       inspect_private_file i (a_owner a) (Some (length encoded))))))))
      (\<lambda>_. staging a V M ?N n i encoded True) (broken a (or_updated ?T (without n)) N)" for i
    by (rule triple_on_error[OF body triple_conseq[OF triple_drop]])
       (auto elim: broken_weaken broken_lost simp: or_updated_def)
  show ?thesis
    unfolding stage_named_bytes_def
    by (intro triple_try[OF create] triple_try[OF armed] triple_post[OF staged] staging_holds)
qed

section \<open>Synchronising an existing stage\<close>

lemma triple_sync_file:
  assumes "steady a V M N P" and "\<And>w. P w \<Longrightarrow> synced_outside {} w"
  shows "triple (\<lambda>w. P w \<and> w_dir w n = Some i) (or_else (sys_fsync i) err)
    (\<lambda>_ w. P w \<and> w_dir w n = Some i) (broken a M N)"
  unfolding sys_fsync_def
proof (intro triple_or_else triple_look[OF steady_at[OF assms(1)]])
  fix w and r :: "errno + unit" and w'
  assume w: "P w \<and> w_dir w n = Some i"
    and act: "(Inr (), w\<lparr>w_inodes := (w_inodes w)(i := (w_inodes w i)\<lparr>ino_synced := True\<rparr>)\<rparr>) = (r, w')"
  have "ino_synced (w_inodes w i)"
    using w assms(2) by (auto simp: synced_outside_def)
  then have "(w_inodes w i)\<lparr>ino_synced := True\<rparr> = w_inodes w i"
    by simp
  then have "w' = w"
    using act by simp
  then show "case r of Inl e \<Rightarrow> broken a M N False w' | Inr _ \<Rightarrow> P w' \<and> w_dir w' n = Some i"
    using w act by auto
qed (use steady_broken[OF assms(1)] in auto)

lemma triple_synchronize_existing:
  assumes P: "steady a V M N P" "\<And>w. P w \<Longrightarrow> synced_outside {} w"
    and V: "V n = Some bytes" "length bytes \<le> max_bytes" and expect: "expect bytes = Inr ()"
  shows "triple P (synchronize_existing (a_owner a) convert n max_bytes expect) (\<lambda>_. P) (broken a M N)"
proof -
  let ?P = "\<lambda>i w. P w \<and> w_dir w n = Some i"
  have opened: "triple P (or_else (sys_open n) err) ?P (broken a M N)" for err :: "errno \<Rightarrow> 'e"
    by (rule triple_or_else, rule triple_conseq[OF triple_open[OF P(1)]])
       (use V steady_broken[OF P(1)] in \<open>auto split: sum.splits if_splits\<close>)
  have inspected: "triple (?P i) (io_map_err f (inspect_private_file i (a_owner a) size)) (\<lambda>_. ?P i) (broken a M N)"
    if "size = None \<or> size = Some (length bytes)" for i size and f :: "store_error_kind \<Rightarrow> 'e"
    by (intro triple_map_err triple_inspect_file[OF steady_at[OF P(1)]])
       (use that private_file_at[OF P(1)] V in auto)
  have bytes: "triple (?P i) (or_else (sys_read i (max_bytes + 1)) err) (\<lambda>r w. r = bytes \<and> ?P i w) (broken a M N)"
    for i and err :: "errno \<Rightarrow> 'e"
    using V by (intro triple_read_at[OF P(1)]) auto
  have inspect_end: "triple (?P i) (io_map_err convert (inspect_private_file i (a_owner a) (Some (length bytes))))
      (\<lambda>_. P) (broken a M N)" for i
    by (rule triple_post[OF inspected]) auto
  show ?thesis
    unfolding synchronize_existing_def
    by (rule triple_try[OF opened], rule triple_try[OF inspected], simp, rule triple_try[OF bytes], rule triple_pure)
       (use V expect in \<open>auto simp: io_result_def intro!: triple_try[where R = "\<lambda>_. ?P _"] triple_ret
          triple_sync_file[OF P] inspect_end\<close>)
qed

end
