(* ===== verification/Delivery_Triples.thy ===== *)
theory Delivery_Triples
  imports Unix_Delivery_Control Store_Staging
begin

text \<open>
  Triples for the paired publication of a catalog and its first delivery document, and for the
  recovery that runs when the controller opens the store: from which directory contents they start,
  where they end, and which contents a power loss on the way may leave.
\<close>

section \<open>Documents\<close>

lemmas document_names =
  CURRENT_DOCUMENT_def STAGED_DOCUMENT_def CATALOG_DOCUMENT_def STAGED_CATALOG_DOCUMENT_def
  DELIVERY_RECOVERY_DOCUMENT_def STAGED_DELIVERY_RECOVERY_DOCUMENT_def STAGED_GENERATION_DOCUMENT_def
  AUTHORITY_DOCUMENT_def STAGED_AUTHORITY_DOCUMENT_def STORE_LOCK_FILE_def

lemma paired_names [simp]:
  "CATALOG_DOCUMENT \<noteq> SC" "CATALOG_DOCUMENT \<noteq> DELIVERY_RECOVERY_DOCUMENT" "CATALOG_DOCUMENT \<noteq> SD"
  "SC \<noteq> CATALOG_DOCUMENT" "SC \<noteq> DELIVERY_RECOVERY_DOCUMENT" "SC \<noteq> SD"
  "DELIVERY_RECOVERY_DOCUMENT \<noteq> CATALOG_DOCUMENT" "DELIVERY_RECOVERY_DOCUMENT \<noteq> SC"
  "DELIVERY_RECOVERY_DOCUMENT \<noteq> SD"
  "SD \<noteq> CATALOG_DOCUMENT" "SD \<noteq> SC" "SD \<noteq> DELIVERY_RECOVERY_DOCUMENT"
  by (simp_all add: document_names)

text \<open>What a name holds, decoded: nothing, or bytes that decode.\<close>

definition decodes_to :: "(string \<Rightarrow> 'e + 'a) \<Rightarrow> string option \<Rightarrow> 'a option \<Rightarrow> bool" where
  "decodes_to decode found document \<longleftrightarrow>
     (case found of
        None \<Rightarrow> document = None
      | Some bytes \<Rightarrow> (\<exists>d. document = Some d \<and> decode bytes = Inr d))"

lemma decodes_to_simps [simp]:
  "decodes_to decode None None"
  "decodes_to decode (Some bytes) (Some d) \<longleftrightarrow> decode bytes = Inr d"
  by (simp_all add: decodes_to_def)

lemma decodes_to_decoded:
  "decodes_to decode found document \<Longrightarrow> option_decoded (\<lambda>bytes. map_err f (decode bytes)) found = Inr document"
  by (auto simp: decodes_to_def option_decoded_def split: option.splits)

lemma catalog_decodes_length:
  "decode_disposable_attempt_catalog json bytes = Inr d \<Longrightarrow>
     length bytes \<le> MAX_DISPOSABLE_ATTEMPT_CATALOG_DOCUMENT_BYTES"
  by (auto simp: decode_disposable_attempt_catalog_def split: if_splits)

lemma delivery_decodes_length:
  "decode_scale_set_delivery_recovery codec bytes = Inr s \<Longrightarrow>
     length bytes \<le> MAX_SCALE_SET_DELIVERY_RECOVERY_BYTES"
  by (auto simp: decode_scale_set_delivery_recovery_def split: if_splits)

lemma triple_load_catalog:
  assumes "steady a V M N P" and owner: "a_owner a = ux_owner env"
    and found: "decodes_to (decode_disposable_attempt_catalog (ux_catalog_json env)) (V n) document"
  shows "triple P (io_map_err f (load_catalog_named env n)) (\<lambda>r w. r = document \<and> P w) (broken a M N)"
  unfolding load_catalog_named_def owner[symmetric]
proof (intro triple_map_err triple_try[OF triple_map_err[OF triple_read_named[OF assms(1)]]])
  show "length bytes \<le> MAX_DISPOSABLE_ATTEMPT_CATALOG_DOCUMENT_BYTES" if "V n = Some bytes" for bytes
    using found that by (auto simp: decodes_to_def intro: catalog_decodes_length)
qed (auto intro!: triple_result simp: decodes_to_decoded[OF found])

lemma triple_load_delivery:
  assumes "steady a V M N P" and owner: "a_owner a = ux_owner env"
    and found: "decodes_to (decode_scale_set_delivery_recovery (ux_codec env)) (V n) document"
  shows "triple P (load_scale_set_delivery_named env n) (\<lambda>r w. r = document \<and> P w) (broken a M N)"
  unfolding load_scale_set_delivery_named_def owner[symmetric]
proof (rule triple_try[OF triple_read_named[OF assms(1)]])
  show "length bytes \<le> MAX_SCALE_SET_DELIVERY_RECOVERY_BYTES" if "V n = Some bytes" for bytes
    using found that by (auto simp: decodes_to_def intro: delivery_decodes_length)
qed (auto intro!: triple_result simp: decodes_to_decoded[OF found])

text \<open>A document that does not decode is refused, and nothing has changed.\<close>

abbreviation refused_unchanged ::
  "assertion \<Rightarrow> ((string \<Rightarrow> string option) \<Rightarrow> bool) \<Rightarrow> string set \<Rightarrow> (world \<Rightarrow> bool) \<Rightarrow> bool \<Rightarrow> world \<Rightarrow> bool" where
  "refused_unchanged a M N P lost w \<equiv> \<not> lost \<and> P w \<or> broken a M N lost w"

lemma triple_refuse_catalog:
  assumes "steady a V M N P" and owner: "a_owner a = ux_owner env"
    and found: "V n = Some bytes" "length bytes \<le> MAX_DISPOSABLE_ATTEMPT_CATALOG_DOCUMENT_BYTES"
      "decode_disposable_attempt_catalog (ux_catalog_json env) bytes = Inl e"
  shows "triple P (io_map_err f (load_catalog_named env n)) (\<lambda>_ _. False) (refused_unchanged a M N P)"
  unfolding load_catalog_named_def owner[symmetric]
proof (rule triple_map_err, rule triple_try)
  show "triple P (io_map_err map_personal_error (read_named_bytes_bounded (a_owner a) n
      MAX_DISPOSABLE_ATTEMPT_CATALOG_DOCUMENT_BYTES)) (\<lambda>r w. r = V n \<and> P w) (refused_unchanged a M N P)"
    by (rule triple_map_err, rule triple_conseq[OF triple_read_named[OF assms(1)]]) (use found in auto)
qed (auto intro!: triple_result simp: found option_decoded_def)

lemma triple_refuse_delivery:
  assumes "steady a V M N P" and owner: "a_owner a = ux_owner env"
    and found: "V n = Some bytes" "length bytes \<le> MAX_SCALE_SET_DELIVERY_RECOVERY_BYTES"
      "decode_scale_set_delivery_recovery (ux_codec env) bytes = Inl e"
  shows "triple P (load_scale_set_delivery_named env n) (\<lambda>_ _. False) (refused_unchanged a M N P)"
  unfolding load_scale_set_delivery_named_def owner[symmetric]
proof (rule triple_try)
  show "triple P (read_named_bytes_bounded (a_owner a) n MAX_SCALE_SET_DELIVERY_RECOVERY_BYTES)
      (\<lambda>r w. r = V n \<and> P w) (refused_unchanged a M N P)"
    by (rule triple_conseq[OF triple_read_named[OF assms(1)]]) (use found in auto)
qed (auto intro!: triple_result simp: found option_decoded_def)

section \<open>The neighbours\<close>

text \<open>
  The lock file is there and the neighbouring documents are settled: no stage of the personal
  worker, the template generation or the Lima authority, and what is published there decodes, the
  authority without an open attempt and beside a personal-worker document.
\<close>

definition neighbours_settled ::
  "('j, 'v, 'p, 'l) unix_env \<Rightarrow> (string \<Rightarrow> string option) \<Rightarrow> bool" where
  "neighbours_settled env V \<longleftrightarrow>
     V STORE_LOCK_FILE = Some [] \<and> V STAGED_DOCUMENT = None \<and> V STAGED_GENERATION_DOCUMENT = None
     \<and> V STAGED_AUTHORITY_DOCUMENT = None
     \<and> (\<forall>bytes. V CURRENT_DOCUMENT = Some bytes \<longrightarrow>
          length bytes \<le> MAX_PERSONAL_WORKER_STORE_BYTES \<and> (\<exists>d. ux_worker_decode env bytes = Inr d))
     \<and> (\<forall>bytes. V AUTHORITY_DOCUMENT = Some bytes \<longrightarrow>
          length bytes \<le> MAX_PERSONAL_WORKER_LIMA_AUTHORITY_BYTES \<and> V CURRENT_DOCUMENT \<noteq> None
          \<and> (\<exists>d. ux_authority_decode env bytes = Inr d \<and> \<not> ux_authority_attempt env d))"

lemma neighbours_settled_cong:
  "(\<And>n. n \<notin> {CATALOG_DOCUMENT, SC, DELIVERY_RECOVERY_DOCUMENT, SD} \<Longrightarrow> V' n = V n) \<Longrightarrow>
     neighbours_settled env V' = neighbours_settled env V"
  by (simp add: neighbours_settled_def document_names)

lemma triple_load_worker:
  assumes "steady a V M N P" and owner: "a_owner a = ux_owner env"
    and found: "decodes_to (ux_worker_decode env) (V n) document"
    and "\<And>bytes. V n = Some bytes \<Longrightarrow> length bytes \<le> MAX_PERSONAL_WORKER_STORE_BYTES"
  shows "triple P (load_named env n) (\<lambda>r w. r = document \<and> P w) (broken a M N)"
proof -
  have decoded: "option_decoded (ux_worker_decode env) (V n) = Inr document"
    using found by (auto simp: decodes_to_def option_decoded_def split: option.splits)
  show ?thesis
    unfolding load_named_def owner[symmetric]
    by (rule triple_try[OF triple_read_named[OF assms(1,4)]]) (auto intro!: triple_result simp: decoded)
qed

lemma triple_load_authority:
  assumes P: "steady a V M N P" and owner: "a_owner a = ux_owner env"
    and found: "decodes_to (ux_authority_decode env) (V n) document"
    and size: "\<And>bytes. V n = Some bytes \<Longrightarrow> length bytes \<le> MAX_PERSONAL_WORKER_LIMA_AUTHORITY_BYTES"
  shows "triple P (load_authority env n) (\<lambda>r w. r = document \<and> P w) (broken a M N)"
  unfolding load_authority_def owner[symmetric]
proof (rule triple_try[OF triple_inspect_directory[OF P]], rule triple_try[OF triple_open[OF P]])
  fix opened :: "errno + nat"
  show "triple (\<lambda>w. case opened of
       Inr i \<Rightarrow> P w \<and> w_dir w n = Some i
     | Inl e \<Rightarrow> P w \<and> (if e = NOENT then V n = None else \<not> a_calm a))
    (case opened of
       Inl e \<Rightarrow> if e = NOENT then ret None else fail StoreIo
     | Inr i \<Rightarrow>
         io_try (inspect_private_file i (a_owner a) None) (\<lambda>_.
         io_try (or_io (sys_read i (MAX_PERSONAL_WORKER_LIMA_AUTHORITY_BYTES + 1))) (\<lambda>bytes.
         if MAX_PERSONAL_WORKER_LIMA_AUTHORITY_BYTES < length bytes then fail StoreCorruptState
         else
           io_try (io_result (map_err
             (\<lambda>version. if version then StoreVersionIncompatible else StoreCorruptState)
             (ux_authority_decode env bytes))) (\<lambda>document.
           ret (Some document)))))
    (\<lambda>r w. r = document \<and> P w) (broken a M N)"
  proof (cases opened)
    case (Inl e)
    then show ?thesis
      using found by (cases "e = NOENT")
        (auto intro!: triple_ret triple_fail intro: steady_broken[OF P] simp: decodes_to_def)
  next
    case (Inr i)
    show ?thesis
    proof (cases "V n")
      case None
      then have "\<not> (P w \<and> w_dir w n = Some i)" for w
        using private_file_at[OF P] by auto
      then show ?thesis using Inr unfolding triple_def by auto
    next
      case (Some bytes)
      then obtain d where d: "document = Some d" "ux_authority_decode env bytes = Inr d"
        using found by (auto simp: decodes_to_def)
      have "triple (\<lambda>w. P w \<and> w_dir w n = Some i) (inspect_private_file i (a_owner a) None)
          (\<lambda>_ w. P w \<and> w_dir w n = Some i) (broken a M N)"
        by (rule triple_inspect_file[OF steady_at[OF P]]) (use private_file_at[OF P] in auto)
      moreover have "triple (\<lambda>w. P w \<and> w_dir w n = Some i)
          (or_io (sys_read i (MAX_PERSONAL_WORKER_LIMA_AUTHORITY_BYTES + 1)))
          (\<lambda>r w. r = bytes \<and> P w \<and> w_dir w n = Some i) (broken a M N)"
        using size[OF Some] by (intro triple_read_at[OF P Some]) simp
      ultimately show ?thesis
        using Inr Some size[OF Some] d
        by (auto intro!: triple_try[where R = "\<lambda>_ w. P w \<and> w_dir w n = Some i"]
            triple_try[where R = "\<lambda>r w. r = bytes \<and> P w \<and> w_dir w n = Some i"]
            triple_try[where R = "\<lambda>r w. r = d \<and> P w"] triple_result triple_ret triple_pure)
    qed
  qed
qed

text \<open>An operation that returns a known value.\<close>

lemma triple_step:
  "triple P m (\<lambda>r w. r = v \<and> R w) X \<Longrightarrow> triple R (k v) Q X \<Longrightarrow> triple P (io_try m k) Q X"
  by (rule triple_try, assumption) (auto intro: triple_pure)

lemma triple_recovery_plan:
  assumes P: "steady a V M N P" and owner: "a_owner a = ux_owner env" and "neighbours_settled env V"
  shows "\<exists>revision. triple P (recovery_plan env) (\<lambda>r w. r = PlanClean revision \<and> P w) (broken a M N)"
proof -
  obtain current where current: "decodes_to (ux_worker_decode env) (V CURRENT_DOCUMENT) current"
    and size: "\<And>bytes. V CURRENT_DOCUMENT = Some bytes \<Longrightarrow> length bytes \<le> MAX_PERSONAL_WORKER_STORE_BYTES"
    using assms(3) by (cases "V CURRENT_DOCUMENT") (auto simp: neighbours_settled_def decodes_to_def)
  have staged: "V STAGED_DOCUMENT = None"
    using assms(3) by (simp add: neighbours_settled_def)
  have "triple P (recovery_plan env)
      (\<lambda>r w. r = PlanClean (map_option (ux_worker_revision env) current) \<and> P w) (broken a M N)"
    unfolding recovery_plan_def
  proof (rule triple_step[where v = None])
    show "triple P (load_named env STAGED_DOCUMENT) (\<lambda>r w. r = None \<and> P w) (broken a M N)"
      by (rule triple_load_worker[OF P owner]) (use staged in auto)
    show "triple P (case None of
          None \<Rightarrow> io_try (load_named env CURRENT_DOCUMENT) (\<lambda>current.
            ret (PlanClean (map_option (ux_worker_revision env) current)))
        | Some staged \<Rightarrow> k staged)
        (\<lambda>r w. r = PlanClean (map_option (ux_worker_revision env) current) \<and> P w) (broken a M N)" for k
      by (simp, rule triple_step[OF triple_load_worker[OF P owner current size]])
         (auto intro: triple_ret)
  qed
  then show ?thesis by blast
qed

lemma triple_template_settled:
  assumes P: "steady a V M N P" and owner: "a_owner a = ux_owner env" and "neighbours_settled env V"
  shows "triple P (template_refuse_unsettled env) (\<lambda>_. P) (broken a M N)"
  unfolding template_refuse_unsettled_def owner[symmetric]
  by (rule triple_step[where v = None and R = P, OF triple_post[OF triple_read_named[OF P]]])
     (use assms(3) in \<open>auto simp: neighbours_settled_def intro: triple_ret\<close>)

lemma triple_authority_settled:
  assumes owner: "a_owner a = ux_owner env" and settled: "neighbours_settled env V"
  shows "triple (flushed a V {} M N) (refuse_unsettled_lima_authority env)
    (\<lambda>_. flushed a V {} M N) (broken a M N)"
proof -
  let ?P = "flushed a V {} M N"
  obtain current where current: "decodes_to (ux_authority_decode env) (V AUTHORITY_DOCUMENT) current"
    and size: "\<And>bytes. V AUTHORITY_DOCUMENT = Some bytes \<Longrightarrow>
      length bytes \<le> MAX_PERSONAL_WORKER_LIMA_AUTHORITY_BYTES"
    and closed: "current = None \<or> V CURRENT_DOCUMENT \<noteq> None"
      "\<And>d. current = Some d \<Longrightarrow> \<not> ux_authority_attempt env d"
    using settled by (cases "V AUTHORITY_DOCUMENT") (auto simp: neighbours_settled_def decodes_to_def)
  have "V STAGED_AUTHORITY_DOCUMENT = None"
    "\<And>bytes. V CURRENT_DOCUMENT = Some bytes \<Longrightarrow> length bytes \<le> MAX_PERSONAL_WORKER_STORE_BYTES"
    using settled by (auto simp: neighbours_settled_def)
  note stages = this
  have sync: "triple ?P synchronize_directory (\<lambda>_. ?P) (broken a M N)"
    by (rule triple_pre[OF triple_synchronize]) (rule flushed_holds)
  have staged: "triple ?P (load_authority env STAGED_AUTHORITY_DOCUMENT) (\<lambda>r w. r = None \<and> ?P w) (broken a M N)"
    by (rule triple_load_authority[OF steady_flushed owner]) (use stages in auto)
  have authority: "triple ?P (load_authority env AUTHORITY_DOCUMENT) (\<lambda>r w. r = current \<and> ?P w) (broken a M N)"
    by (rule triple_load_authority[OF steady_flushed owner]) (use current size in auto)
  have worker: "triple ?P (read_named_bytes_bounded (ux_owner env) CURRENT_DOCUMENT
      MAX_PERSONAL_WORKER_STORE_BYTES) (\<lambda>r w. r = V CURRENT_DOCUMENT \<and> ?P w) (broken a M N)"
    unfolding owner[symmetric] by (rule triple_read_named[OF steady_flushed stages(2)])
  show ?thesis
    unfolding refuse_unsettled_lima_authority_def
    apply (rule triple_try[OF sync])
    apply (rule triple_step[OF staged])
    apply (rule triple_step[OF authority])
    apply (rule triple_step[OF worker])
    using closed by (auto intro!: triple_ret split: option.splits)
qed

lemma triple_neighbours:
  assumes owner: "a_owner a = ux_owner env" and settled: "neighbours_settled env V"
  shows "triple (flushed a V {} M N) (refuse_unsettled_scale_set_neighbors env)
    (\<lambda>_. flushed a V {} M N) (broken a M N)"
proof -
  obtain revision where plan: "triple (flushed a V {} M N) (recovery_plan env)
      (\<lambda>r w. r = PlanClean revision \<and> flushed a V {} M N w) (broken a M N)"
    using triple_recovery_plan[OF steady_flushed owner settled] by blast
  show ?thesis
    unfolding refuse_unsettled_scale_set_neighbors_def
    by (rule triple_step[OF plan], simp,
        rule triple_try[OF triple_template_settled[OF steady_flushed owner settled]],
        rule triple_authority_settled[OF owner settled])
qed

section \<open>The paired publication\<close>

lemma triple_stage_delivery:
  assumes "a_owner a = ux_owner env" and "V SD = None" and "SD \<in> a_stages a"
    and "encode_scale_set_delivery_recovery (ux_codec env) state = Inr bytes"
  shows "triple (holds a V {} M N) (stage_scale_set_delivery env state)
    (\<lambda>_. holds a (V(SD := Some bytes)) {} (written M SD bytes) (insert SD N))
    (broken a (or_updated (torn M SD bytes) (without SD)) N)"
  unfolding stage_scale_set_delivery_def assms(1)[symmetric]
  by (rule triple_step[where v = bytes and R = "holds a V {} M N"])
     (use assms(4) in \<open>auto intro!: triple_result triple_stage_file[where V = V and n = SD, OF assms(2,3)]\<close>)

lemma triple_stage_catalog:
  assumes "a_owner a = ux_owner env" and "V SC = None" and "SC \<in> a_stages a"
    and "encode_disposable_attempt_catalog (ux_catalog_json env) document = Inr bytes"
  shows "triple (holds a V {} M N) (io_map_err f (stage_catalog env document))
    (\<lambda>_. holds a (V(SC := Some bytes)) {} (written M SC bytes) (insert SC N))
    (broken a (or_updated (torn M SC bytes) (without SC)) N)"
  unfolding stage_catalog_def assms(1)[symmetric]
  by (rule triple_map_err, rule triple_step[where v = bytes and R = "holds a V {} M N"])
     (use assms(4) in \<open>auto intro!: triple_result triple_map_err triple_stage_file[where V = V and n = SC, OF assms(2,3)]\<close>)

text \<open>
  One publication: the directory before it, the catalogs, the delivery document and their bytes.
  \<open>layout\<close> is the directory with given contents of the four names the transaction touches.
\<close>

record ('j, 'v, 'p, 'l) publication =
  pb_env :: "('j, 'v, 'p, 'l) unix_env"
  pb_base :: "string \<Rightarrow> string option"
  pb_old :: catalog_document
  pb_new :: catalog_document
  pb_delivery :: recovery_state
  pb_old_bytes :: string
  pb_new_bytes :: string
  pb_delivery_bytes :: string

definition layout ::
  "('j, 'v, 'p, 'l) publication \<Rightarrow> string \<Rightarrow> string option \<Rightarrow> string option \<Rightarrow> string option \<Rightarrow>
   string \<Rightarrow> string option" where
  "layout p catalog staged_catalog delivery staged_delivery =
     (pb_base p)(CATALOG_DOCUMENT := Some catalog, SC := staged_catalog,
       DELIVERY_RECOVERY_DOCUMENT := delivery, SD := staged_delivery)"

lemma layout_lookup [simp]:
  "layout p c sc d sd CATALOG_DOCUMENT = Some c" "layout p c sc d sd SC = sc"
  "layout p c sc d sd DELIVERY_RECOVERY_DOCUMENT = d" "layout p c sc d sd SD = sd"
  by (simp_all add: layout_def)

lemma layout_update [simp]:
  "(layout p c sc d sd)(CATALOG_DOCUMENT := Some c') = layout p c' sc d sd"
  "(layout p c sc d sd)(SC := sc') = layout p c sc' d sd"
  "(layout p c sc d sd)(DELIVERY_RECOVERY_DOCUMENT := d') = layout p c sc d' sd"
  "(layout p c sc d sd)(SD := sd') = layout p c sc d sd'"
  by (auto simp: layout_def fun_eq_iff)

definition publication_ok :: "('j, 'v, 'p, 'l) publication \<Rightarrow> bool" where
  "publication_ok p \<longleftrightarrow>
     neighbours_settled (pb_env p) (pb_base p)
     \<and> decode_disposable_attempt_catalog (ux_catalog_json (pb_env p)) (pb_old_bytes p) = Inr (pb_old p)
     \<and> decode_disposable_attempt_catalog (ux_catalog_json (pb_env p)) (pb_new_bytes p) = Inr (pb_new p)
     \<and> decode_scale_set_delivery_recovery (ux_codec (pb_env p)) (pb_delivery_bytes p) = Inr (pb_delivery p)
     \<and> rec_revision (pb_delivery p) = 1 \<and> rec_phase (pb_delivery p) = Reconciled
     \<and> matches_prior_catalog (ux_recovery_env (pb_env p)) (pb_delivery p) (pb_old p)
     \<and> matches_catalog (ux_recovery_env (pb_env p)) (pb_delivery p) (pb_new p)
     \<and> (matches_catalog (ux_recovery_env (pb_env p)) (pb_delivery p) (pb_old p) \<longrightarrow> pb_new p = pb_old p)"

text \<open>The contents a power loss may leave on the way from the old pair to the new one.\<close>

abbreviation old_pair :: "('j, 'v, 'p, 'l) publication \<Rightarrow> string \<Rightarrow> string option" where
  "old_pair p \<equiv> layout p (pb_old_bytes p) None None None"

abbreviation delivery_staged :: "('j, 'v, 'p, 'l) publication \<Rightarrow> nat \<Rightarrow> string \<Rightarrow> string option" where
  "delivery_staged p k \<equiv> layout p (pb_old_bytes p) None None (Some (take k (pb_delivery_bytes p)))"

abbreviation both_staged :: "('j, 'v, 'p, 'l) publication \<Rightarrow> nat \<Rightarrow> string \<Rightarrow> string option" where
  "both_staged p k \<equiv>
     layout p (pb_old_bytes p) (Some (take k (pb_new_bytes p))) None (Some (pb_delivery_bytes p))"

abbreviation catalog_published :: "('j, 'v, 'p, 'l) publication \<Rightarrow> string \<Rightarrow> string option" where
  "catalog_published p \<equiv> layout p (pb_new_bytes p) None None (Some (pb_delivery_bytes p))"

abbreviation new_pair :: "('j, 'v, 'p, 'l) publication \<Rightarrow> string \<Rightarrow> string option" where
  "new_pair p \<equiv> layout p (pb_new_bytes p) None (Some (pb_delivery_bytes p)) None"

definition reached :: "('j, 'v, 'p, 'l) publication \<Rightarrow> (string \<Rightarrow> string option) \<Rightarrow> bool" where
  "reached p m \<longleftrightarrow>
     m = old_pair p \<or> (\<exists>k. m = delivery_staged p k) \<or> (pb_new p \<noteq> pb_old p \<and> (\<exists>k. m = both_staged p k))
     \<or> m = catalog_published p \<or> m = new_pair p"

lemma publication_encoded:
  assumes "publication_ok p"
  shows "encode_disposable_attempt_catalog (ux_catalog_json (pb_env p)) (pb_new p) = Inr (pb_new_bytes p)"
    and "encode_scale_set_delivery_recovery (ux_codec (pb_env p)) (pb_delivery p) = Inr (pb_delivery_bytes p)"
    and "pb_new p = pb_old p \<Longrightarrow> pb_new_bytes p = pb_old_bytes p"
proof -
  note encode = catalog_encode_of_decode[of "ux_catalog_json (pb_env p)"]
  have old: "encode_disposable_attempt_catalog (ux_catalog_json (pb_env p)) (pb_old p) = Inr (pb_old_bytes p)"
    and "encode_disposable_attempt_catalog (ux_catalog_json (pb_env p)) (pb_new p) = Inr (pb_new_bytes p)"
    using assms encode by (auto simp: publication_ok_def)
  then show "encode_disposable_attempt_catalog (ux_catalog_json (pb_env p)) (pb_new p) = Inr (pb_new_bytes p)"
    and "pb_new p = pb_old p \<Longrightarrow> pb_new_bytes p = pb_old_bytes p" by auto
  show "encode_scale_set_delivery_recovery (ux_codec (pb_env p)) (pb_delivery p) = Inr (pb_delivery_bytes p)"
    using assms recovery_encode_of_decode by (auto simp: publication_ok_def)
qed

lemma flushed_unarmed: "flushed a V U M {} w \<Longrightarrow> \<not> w_armed w n"
  by (auto simp: flushed_def holds_def)

lemma delivery_staged_all: "delivery_staged p (length (pb_delivery_bytes p)) =
    layout p (pb_old_bytes p) None None (Some (pb_delivery_bytes p))"
  by simp

lemma both_staged_all: "both_staged p (length (pb_new_bytes p)) =
    layout p (pb_old_bytes p) (Some (pb_new_bytes p)) None (Some (pb_delivery_bytes p))"
  by simp

lemma reached_intros:
  "reached p (old_pair p)" "reached p (delivery_staged p k)" "reached p (catalog_published p)"
  "reached p (new_pair p)"
  "pb_new p \<noteq> pb_old p \<Longrightarrow> reached p (both_staged p k)"
  by (auto simp: reached_def)

lemma reached_full [simp]:
  "reached p (layout p (pb_old_bytes p) None None (Some (pb_delivery_bytes p)))"
  "pb_new p \<noteq> pb_old p \<Longrightarrow>
     reached p (layout p (pb_old_bytes p) (Some (pb_new_bytes p)) None (Some (pb_delivery_bytes p)))"
  using reached_intros(2)[of p "length (pb_delivery_bytes p)"]
    reached_intros(5)[of p "length (pb_new_bytes p)"] by simp_all

lemma broken_exactly: "reached p V \<Longrightarrow> broken a (\<lambda>m. m = V) {} l w \<Longrightarrow> broken a (reached p) {} l w"
  by (erule broken_weaken) auto

text \<open>A guard that is dropped: the stage may be gone or not, or the guard was disarmed before.\<close>

lemma triple_drop_stage:
  assumes "\<And>m. M m \<Longrightarrow> M' m \<and> M' (without n m)" and "N \<subseteq> {n}"
  shows "triple (\<lambda>w. broken a M N False w \<or> broken a M' {} False w) (drop_staged n :: ('e, unit) io)
    (\<lambda>_. broken a M' {} False) (broken a M' {})"
proof (rule triple_disj)
  have M': "M' m" if "or_updated M (without n) m" for m
    using that assms(1) by (auto simp: or_updated_def)
  show "triple (broken a M N False) (drop_staged n :: ('e, unit) io) (\<lambda>_. broken a M' {} False) (broken a M' {})"
    by (rule triple_conseq[OF triple_drop[where M = M and N = N]])
       (use M' assms(2) in \<open>auto elim!: broken_weaken\<close>)
qed (rule triple_drop_unarmed, simp)

lemma triple_publish_exact:
  assumes "V source = Some bytes" and "no_replace \<longrightarrow> V target = None"
    and "\<And>m. M m \<Longrightarrow> M' (moved source target bytes m) \<and> M' m" and "N \<subseteq> {source}"
  shows "triple (holds a V {} M N) (publish_named_staged source target no_replace)
    (\<lambda>_. flushed a (moved source target bytes V) {} (\<lambda>m. m = moved source target bytes V) {})
    (\<lambda>l w. broken a M N l w \<or> broken a M' {} l w)"
proof (rule triple_conseq[OF triple_publish[where V = V and U = "{}" and M = M and N = N, OF assms(1)]])
  have N: "N - {source} = {}" using assms(4) by blast
  show "flushed a (moved source target bytes V) {} (\<lambda>m. m = moved source target bytes V) {} w"
    if "flushed a (moved source target bytes V) {} (or_updated M (moved source target bytes)) (N - {source}) w"
    for w using flushed_exact[OF that] by (simp add: N)
  have "broken a M' {} l w" if "broken a (or_updated M (moved source target bytes)) {} l w" for l w
    using that by (rule broken_weaken) (use assms(3) in \<open>auto simp: or_updated_def\<close>)
  then show "broken a M N l w \<or> broken a M' {} l w"
    if "broken a M N l w \<or> broken a (or_updated M (moved source target bytes)) (N - {source}) l w" for l w
    using that by (auto simp: N)
qed (use assms(2) in auto)

lemma triple_publish_catalog:
  fixes p :: "('j, 'v, 'p, 'l) publication"
  assumes ok: "publication_ok p" and owner: "a_owner a = ux_owner (pb_env p)"
    and stages: "a_stages a = {SC, SD}" and changed: "pb_new p \<noteq> pb_old p"
  shows "triple (flushed a (delivery_staged p (length (pb_delivery_bytes p))) {}
      (\<lambda>m. m = delivery_staged p (length (pb_delivery_bytes p))) {})
    (io_try (io_map_err map_catalog_error (stage_catalog (pb_env p) (pb_new p))) (\<lambda>_.
       guarded SC (
         io_try synchronize_directory (\<lambda>_.
         publish_named_staged SC CATALOG_DOCUMENT False))))
    (\<lambda>_. flushed a (catalog_published p) {} (\<lambda>m. m = catalog_published p) {})
    (broken a (reached p) {})"
proof (rule triple_try)
  let ?S = "layout p (pb_old_bytes p) None None (Some (pb_delivery_bytes p))"
  let ?B = "layout p (pb_old_bytes p) (Some (pb_new_bytes p)) None (Some (pb_delivery_bytes p))"
  let ?X = "\<lambda>l w. broken a (\<lambda>m. m = ?S \<or> m = ?B) {SC} l w \<or> broken a (reached p) {} l w"
  have reached: "reached p m" if "or_updated (torn (\<lambda>m. m = ?S) SC (pb_new_bytes p)) (without SC) m" for m
    using that changed by (auto simp: or_updated_def torn_def reached_intros)
  show "triple (flushed a (delivery_staged p (length (pb_delivery_bytes p))) {}
      (\<lambda>m. m = delivery_staged p (length (pb_delivery_bytes p))) {})
    (io_map_err map_catalog_error (stage_catalog (pb_env p) (pb_new p)))
    (\<lambda>_. holds a ?B {} (\<lambda>m. m = ?S \<or> m = ?B) {SC}) (broken a (reached p) {})"
    unfolding delivery_staged_all
    by (rule triple_conseq[OF triple_stage_catalog[where V = ?S and M = "\<lambda>m. m = ?S" and N = "{}",
          OF owner _ _ publication_encoded(1)[OF ok]]])
       (use reached stages in \<open>auto simp: flushed_holds written_def elim!: broken_weaken holds_weaken\<close>)
  have sync: "triple (holds a ?B {} (\<lambda>m. m = ?S \<or> m = ?B) {SC}) synchronize_directory
      (\<lambda>_. holds a ?B {} (\<lambda>m. m = ?B) {SC}) ?X"
    by (rule triple_conseq[OF triple_synchronize[where V = ?B and U = "{}" and N = "{SC}"]])
       (auto intro: flushed_holds dest: flushed_exact)
  have publish: "triple (holds a ?B {} (\<lambda>m. m = ?B) {SC}) (publish_named_staged SC CATALOG_DOCUMENT False)
      (\<lambda>_. flushed a (catalog_published p) {} (\<lambda>m. m = catalog_published p) {}) ?X"
    by (rule triple_conseq[OF triple_publish_exact[where V = ?B and M = "\<lambda>m. m = ?B" and N = "{SC}"
          and M' = "reached p" and bytes = "pb_new_bytes p"]])
       (use changed in \<open>auto simp: reached_intros elim: broken_weaken\<close>)
  show "triple (holds a ?B {} (\<lambda>m. m = ?S \<or> m = ?B) {SC})
      (guarded SC (io_try synchronize_directory (\<lambda>_. publish_named_staged SC CATALOG_DOCUMENT False)))
      (\<lambda>_. flushed a (catalog_published p) {} (\<lambda>m. m = catalog_published p) {})
      (broken a (reached p) {})" for v :: unit
    by (rule triple_guarded[OF triple_try[OF sync publish] triple_drop_stage])
       (use changed in \<open>auto dest: flushed_unarmed elim!: broken_lost\<close>)
qed

text \<open>What runs under the guard of the delivery stage: the catalog's half, then the delivery's.\<close>

abbreviation publish_halves :: "('j, 'v, 'p, 'l) publication \<Rightarrow> (store_error_kind, unit) io" where
  "publish_halves p \<equiv>
     io_try
       (if pb_new p \<noteq> pb_old p
        then
          io_try synchronize_directory (\<lambda>_.
          io_try (arm SD False) (\<lambda>_.
          io_try (io_map_err map_catalog_error (stage_catalog (pb_env p) (pb_new p))) (\<lambda>_.
          guarded SC (
            io_try synchronize_directory (\<lambda>_.
            publish_named_staged SC CATALOG_DOCUMENT False)))))
        else ret ()) (\<lambda>_.
     publish_named_staged SD DELIVERY_RECOVERY_DOCUMENT True)"

abbreviation delivery_may_stand :: "('j, 'v, 'p, 'l) publication \<Rightarrow> (string \<Rightarrow> string option) \<Rightarrow> bool" where
  "delivery_may_stand p m \<equiv>
     m = old_pair p \<or> m = layout p (pb_old_bytes p) None None (Some (pb_delivery_bytes p))"

lemma triple_publish_halves:
  fixes p :: "('j, 'v, 'p, 'l) publication"
  assumes ok: "publication_ok p" and owner: "a_owner a = ux_owner (pb_env p)"
    and stages: "a_stages a = {SC, SD}"
  shows "triple (holds a (layout p (pb_old_bytes p) None None (Some (pb_delivery_bytes p))) {}
      (delivery_may_stand p) {SD}) (publish_halves p)
    (\<lambda>_. flushed a (new_pair p) {} (\<lambda>m. m = new_pair p) {})
    (\<lambda>l w. broken a (delivery_may_stand p) {SD} l w \<or> broken a (reached p) {} l w)"
    (is "triple (holds a ?S {} ?A {SD}) _ ?Q ?X")
proof (cases "pb_new p = pb_old p")
  case True
  have "triple (holds a ?S {} ?A {SD}) (publish_named_staged SD DELIVERY_RECOVERY_DOCUMENT True) ?Q ?X"
    by (rule triple_conseq[OF triple_publish_exact[where V = ?S
          and M = ?A and N = "{SD}" and M' = "reached p" and bytes = "pb_delivery_bytes p"]])
       (use publication_encoded(3)[OF ok True] reached_intros(1,4)[of p] in auto)
  then show ?thesis
    by (intro triple_try[where R = "\<lambda>_. holds a ?S {} ?A {SD}"]) (auto simp: True intro: triple_ret)
next
  case False
  have sync: "triple (holds a ?S {} ?A {SD}) synchronize_directory
      (\<lambda>_. flushed a ?S {} (\<lambda>m. m = ?S) {SD}) ?X"
    by (rule triple_conseq[OF triple_synchronize[where V = ?S and U = "{}" and N = "{SD}" and M = ?A]])
       (auto dest: flushed_exact)
  have disarm: "triple (flushed a ?S {} (\<lambda>m. m = ?S) {SD}) (arm SD False)
      (\<lambda>_. flushed a ?S {} (\<lambda>m. m = ?S) {}) ?X"
    by (rule triple_arm) (auto simp: flushed_def holds_def)
  have catalog: "triple (flushed a ?S {} (\<lambda>m. m = ?S) {})
      (io_try (io_map_err map_catalog_error (stage_catalog (pb_env p) (pb_new p))) (\<lambda>_.
         guarded SC (io_try synchronize_directory (\<lambda>_. publish_named_staged SC CATALOG_DOCUMENT False))))
      (\<lambda>_. flushed a (catalog_published p) {} (\<lambda>m. m = catalog_published p) {}) ?X"
    by (rule triple_conseq[OF triple_publish_catalog[OF ok owner stages False]]) (auto simp: delivery_staged_all)
  have publish: "triple (flushed a (catalog_published p) {} (\<lambda>m. m = catalog_published p) {})
      (publish_named_staged SD DELIVERY_RECOVERY_DOCUMENT True) ?Q ?X"
    by (rule triple_conseq[OF triple_publish_exact[where V = "catalog_published p"
          and M = "\<lambda>m. m = catalog_published p" and N = "{}" and M' = "reached p" and bytes = "pb_delivery_bytes p"]])
       (use broken_exactly[OF reached_intros(3)] in \<open>auto simp: reached_intros flushed_holds\<close>)
  show ?thesis
    using False by (simp only: if_True not_False_eq_True simp_thms, intro triple_try[OF _ publish]
        triple_try[OF sync] triple_try[OF disarm] catalog)
qed

lemma triple_publish_pair:
  fixes p :: "('j, 'v, 'p, 'l) publication"
  assumes ok: "publication_ok p" and owner: "a_owner a = ux_owner (pb_env p)"
    and stages: "a_stages a = {SC, SD}"
  shows "triple (flushed a (old_pair p) {} (\<lambda>m. m = old_pair p) {})
    (publish_pair (pb_env p) True (pb_old p) (pb_new p) (pb_delivery p))
    (\<lambda>_. flushed a (new_pair p) {} (\<lambda>m. m = new_pair p) {}) (broken a (reached p) {})"
  unfolding publish_pair_def
proof (rule triple_try)
  let ?S = "layout p (pb_old_bytes p) None None (Some (pb_delivery_bytes p))"
  have reached: "reached p m" if "or_updated (torn (\<lambda>m. m = old_pair p) SD (pb_delivery_bytes p)) (without SD) m" for m
    using that by (auto simp: or_updated_def torn_def reached_intros)
  show "triple (flushed a (old_pair p) {} (\<lambda>m. m = old_pair p) {})
      (stage_scale_set_delivery (pb_env p) (pb_delivery p))
      (\<lambda>_. holds a ?S {} (delivery_may_stand p) {SD}) (broken a (reached p) {})"
    by (rule triple_conseq[OF triple_stage_delivery[where V = "old_pair p" and M = "\<lambda>m. m = old_pair p"
          and N = "{}", OF owner _ _ publication_encoded(2)[OF ok]]])
       (use reached stages in \<open>auto simp: flushed_holds written_def elim!: broken_weaken holds_weaken\<close>)
  show "triple (holds a ?S {} (delivery_may_stand p) {SD}) (guarded SD (publish_halves p))
      (\<lambda>_. flushed a (new_pair p) {} (\<lambda>m. m = new_pair p) {}) (broken a (reached p) {})" for v :: unit
    by (rule triple_guarded[OF triple_publish_halves[OF ok owner stages] triple_drop_stage])
       (auto simp: reached_intros dest: flushed_unarmed elim!: broken_lost)
qed

section \<open>Recovery when the controller opens the store\<close>

abbreviation exactly ::
  "assertion \<Rightarrow> (string \<Rightarrow> string option) \<Rightarrow> world \<Rightarrow> bool" where
  "exactly a V \<equiv> flushed a V {} (\<lambda>m. m = V) {}"

lemma layout_neighbours: "publication_ok p \<Longrightarrow> neighbours_settled (pb_env p) (layout p c sc d sd)"
  using neighbours_settled_cong[of "layout p c sc d sd" "pb_base p" "pb_env p"]
  by (simp add: publication_ok_def layout_def)

lemma layout_lock: "publication_ok p \<Longrightarrow> layout p c sc d sd STORE_LOCK_FILE = Some []"
  using layout_neighbours[of p] by (simp add: neighbours_settled_def)

lemma triple_reconcile_from:
  fixes env :: "('j, 'v, 'p, 'l) unix_env"
  assumes settled: "neighbours_settled env V" and owner: "a_owner a = ux_owner env"
    and catalog: "decodes_to (decode_disposable_attempt_catalog (ux_catalog_json env)) (V CATALOG_DOCUMENT) current_catalog"
    and staged_catalog: "decodes_to (decode_disposable_attempt_catalog (ux_catalog_json env)) (V SC) staged_catalog"
    and delivery: "decodes_to (decode_scale_set_delivery_recovery (ux_codec env)) (V DELIVERY_RECOVERY_DOCUMENT) current_delivery"
    and staged: "decodes_to (decode_scale_set_delivery_recovery (ux_codec env)) (V SD) staged_delivery"
    and X: "\<And>l w. broken a (\<lambda>m. m = V) {} l w \<Longrightarrow> X l w"
    and rest: "triple (exactly a V)
      (case current_delivery of
         Some current_delivery \<Rightarrow> recover_beside_delivery env current_catalog staged_catalog
           current_delivery staged_delivery
       | None \<Rightarrow> recover_first_delivery env current_catalog staged_catalog staged_delivery) Q X"
  shows "triple (exactly a V) (recover_scale_set_reconcile_transaction_locked env) Q X"
proof -
  let ?P = "exactly a V"
  have neighbours: "triple ?P (refuse_unsettled_scale_set_neighbors env) (\<lambda>_. ?P) X"
    by (rule triple_conseq[OF triple_neighbours[OF owner settled]]) (use X in auto)
  have load_catalog: "triple ?P (io_map_err map_catalog_error (load_catalog_named env n))
      (\<lambda>r w. r = document \<and> ?P w) X"
    if "decodes_to (decode_disposable_attempt_catalog (ux_catalog_json env)) (V n) document" for n document
    by (rule triple_conseq[OF triple_load_catalog[where V = V and n = n, OF steady_flushed owner that]]) (use X in auto)
  have load_delivery: "triple ?P (load_scale_set_delivery_named env n) (\<lambda>r w. r = document \<and> ?P w) X"
    if "decodes_to (decode_scale_set_delivery_recovery (ux_codec env)) (V n) document" for n document
    by (rule triple_conseq[OF triple_load_delivery[where V = V and n = n, OF steady_flushed owner that]]) (use X in auto)
  show ?thesis
    unfolding recover_scale_set_reconcile_transaction_locked_def
    by (rule triple_try[OF neighbours], rule triple_step[OF load_catalog[OF catalog]],
        rule triple_step[OF load_catalog[OF staged_catalog]],
        rule triple_step[OF load_delivery[OF delivery]], rule triple_step[OF load_delivery[OF staged]], rule rest)
qed

lemma triple_open_from:
  fixes env :: "('j, 'v, 'p, 'l) unix_env"
  assumes settled: "neighbours_settled env V" and owner: "a_owner a = ux_owner env"
    and delivery: "decodes_to (decode_scale_set_delivery_recovery (ux_codec env)) (V DELIVERY_RECOVERY_DOCUMENT) current_delivery"
    and staged: "decodes_to (decode_scale_set_delivery_recovery (ux_codec env)) (V SD) staged_delivery"
    and unsettling: "\<And>s. current_delivery = Some s \<or> staged_delivery = Some s \<Longrightarrow> \<not> settlement_phase (rec_phase s)"
    and X: "\<And>l w. broken a (\<lambda>m. m = V) {} l w \<Longrightarrow> X l w"
    and rest: "triple (exactly a V) (recover_scale_set_reconcile_transaction_locked env) Q X"
  shows "triple (exactly a V) (open_scale_set_delivery_controller env) Q X"
proof -
  let ?P = "exactly a V"
  have lock: "triple ?P (acquire_mutation_lock (ux_owner env)) (\<lambda>_. ?P) X"
    unfolding owner[symmetric]
    by (rule triple_conseq[OF triple_lock[where V = V, OF steady_flushed]])
       (use settled X in \<open>auto simp: neighbours_settled_def\<close>)
  have sync: "triple ?P synchronize_directory (\<lambda>_. ?P) X"
    by (rule triple_conseq[OF triple_synchronize[where V = V and U = "{}" and N = "{}"]])
       (use X in \<open>auto simp: flushed_holds\<close>)
  have load: "triple ?P (load_scale_set_delivery_named env n) (\<lambda>r w. r = document \<and> ?P w) X"
    if "decodes_to (decode_scale_set_delivery_recovery (ux_codec env)) (V n) document" for n document
    by (rule triple_conseq[OF triple_load_delivery[where V = V and n = n, OF steady_flushed owner that]])
       (use X in auto)
  have settlement: "triple ?P (recover_scale_set_settlement_locked env) (\<lambda>_. ?P) X"
    unfolding recover_scale_set_settlement_locked_def
    by (rule triple_step[OF load[OF delivery]], rule triple_step[OF load[OF staged]])
       (use unsettling in \<open>auto simp: Let_def intro!: triple_ret split: option.splits\<close>)
  show ?thesis
    unfolding open_scale_set_delivery_controller_def
    by (rule triple_try[OF lock], rule triple_try[OF sync], rule triple_try[OF settlement], rule rest)
qed

lemma triple_synchronize_delivery:
  assumes owner: "a_owner a = ux_owner env" and "V SD = Some bytes"
    and decode: "decode_scale_set_delivery_recovery (ux_codec env) bytes = Inr s"
  shows "triple (exactly a V) (synchronize_existing_scale_set_delivery_stage env s) (\<lambda>_. exactly a V)
    (broken a (\<lambda>m. m = V) {})"
  unfolding synchronize_existing_scale_set_delivery_stage_def owner[symmetric]
  by (rule triple_synchronize_existing[where V = V and n = SD, OF steady_flushed _ assms(2)])
     (use decode delivery_decodes_length[OF decode] in \<open>auto simp: flushed_def holds_def\<close>)

lemma triple_synchronize_catalog:
  assumes owner: "a_owner a = ux_owner env" and "V SC = Some bytes"
    and decode: "decode_disposable_attempt_catalog (ux_catalog_json env) bytes = Inr s"
  shows "triple (exactly a V) (io_map_err f (synchronize_existing_catalog_stage env s)) (\<lambda>_. exactly a V)
    (broken a (\<lambda>m. m = V) {})"
  unfolding synchronize_existing_catalog_stage_def owner[symmetric]
  by (rule triple_map_err,
      rule triple_synchronize_existing[where V = V and n = SC, OF steady_flushed _ assms(2)])
     (use decode catalog_decodes_length[OF decode] in \<open>auto simp: flushed_def holds_def\<close>)

text \<open>The steps of the recovery: publishing a stage and removing one.\<close>

lemma triple_publish_reached:
  assumes "V source = Some bytes" and "no_replace \<longrightarrow> V target = None"
    and "reached p V" and "reached p (moved source target bytes V)"
  shows "triple (exactly a V) (publish_named_staged source target no_replace)
    (\<lambda>_. exactly a (moved source target bytes V)) (broken a (reached p) {})"
  by (rule triple_conseq[OF triple_publish_exact[where V = V and M = "\<lambda>m. m = V" and N = "{}"
        and M' = "reached p" and bytes = bytes and source = source and target = target]])
     (use assms broken_exactly[OF assms(3)] in \<open>auto simp: flushed_holds\<close>)

lemma triple_remove_reached:
  assumes "reached p V" and "reached p (without n V)"
  shows "triple (exactly a V) (remove_stage n) (\<lambda>_. exactly a (without n V)) (broken a (reached p) {})"
proof (rule triple_conseq[OF triple_remove_stage[where V = V and U = "{}" and N = "{}" and n = n]])
  show "exactly a (without n V) w"
    if "flushed a (without n V) ({} - {n}) (or_updated (\<lambda>m. m = V) (without n)) {} w" for w
    using flushed_exact[of a "without n V"] that by simp
  show "broken a (reached p) {} l w" if "broken a (or_updated (\<lambda>m. m = V) (without n)) {} l w" for l w
    using that by (rule broken_weaken) (use assms in \<open>auto simp: or_updated_def\<close>)
qed

lemma known_result [simp]: "io_try (io_result (Inr x)) f = f x" "io_try (ret x) f = f x"
  by (auto simp: io_try_def io_result_def ret_def)

lemma publication_matches:
  assumes "publication_ok p"
  shows "rec_revision (pb_delivery p) = 1" "rec_phase (pb_delivery p) = Reconciled"
    "matches_prior_catalog (ux_recovery_env (pb_env p)) (pb_delivery p) (pb_old p)"
    "matches_catalog (ux_recovery_env (pb_env p)) (pb_delivery p) (pb_new p)"
    "matches_catalog (ux_recovery_env (pb_env p)) (pb_delivery p) (pb_old p) \<longleftrightarrow> pb_new p = pb_old p"
  using assms by (auto simp: publication_ok_def)

lemma publication_decodes:
  assumes "publication_ok p"
  shows "decode_disposable_attempt_catalog (ux_catalog_json (pb_env p)) (pb_old_bytes p) = Inr (pb_old p)"
    "decode_disposable_attempt_catalog (ux_catalog_json (pb_env p)) (pb_new_bytes p) = Inr (pb_new p)"
    "decode_scale_set_delivery_recovery (ux_codec (pb_env p)) (pb_delivery_bytes p) = Inr (pb_delivery p)"
  using assms by (auto simp: publication_ok_def)

lemma triple_finish_delivery:
  assumes ok: "publication_ok p" and owner: "a_owner a = ux_owner (pb_env p)"
  shows "triple (exactly a (catalog_published p)) (publish_named_staged SD DELIVERY_RECOVERY_DOCUMENT True)
      (\<lambda>_. exactly a (new_pair p)) (broken a (reached p) {})"
    and "triple (exactly a (catalog_published p))
      (io_try (synchronize_existing_scale_set_delivery_stage (pb_env p) (pb_delivery p)) (\<lambda>_.
       publish_named_staged SD DELIVERY_RECOVERY_DOCUMENT True))
      (\<lambda>_. exactly a (new_pair p)) (broken a (reached p) {})"
proof -
  show publish: "triple (exactly a (catalog_published p)) (publish_named_staged SD DELIVERY_RECOVERY_DOCUMENT True)
      (\<lambda>_. exactly a (new_pair p)) (broken a (reached p) {})"
    by (rule triple_post[OF triple_publish_reached[where V = "catalog_published p" and bytes = "pb_delivery_bytes p"]])
       (auto simp: reached_intros)
  have "triple (exactly a (catalog_published p))
      (synchronize_existing_scale_set_delivery_stage (pb_env p) (pb_delivery p))
      (\<lambda>_. exactly a (catalog_published p)) (broken a (reached p) {})"
    by (rule triple_conseq[OF triple_synchronize_delivery[where V = "catalog_published p", OF owner _
          publication_decodes(3)[OF ok]]])
       (auto intro: broken_exactly reached_intros)
  then show "triple (exactly a (catalog_published p))
      (io_try (synchronize_existing_scale_set_delivery_stage (pb_env p) (pb_delivery p)) (\<lambda>_.
       publish_named_staged SD DELIVERY_RECOVERY_DOCUMENT True))
      (\<lambda>_. exactly a (new_pair p)) (broken a (reached p) {})"
    by (rule triple_try[OF _ publish])
qed

text \<open>From each complete set of contents the recovery reaches the old or the new pair.\<close>

lemma triple_recover_published:
  assumes ok: "publication_ok p" and owner: "a_owner a = ux_owner (pb_env p)"
  shows "triple (exactly a (catalog_published p))
    (recover_first_delivery (pb_env p) (Some (pb_new p)) None (Some (pb_delivery p)))
    (\<lambda>_. exactly a (new_pair p)) (broken a (reached p) {})"
  using triple_finish_delivery(2)[OF ok owner]
  by (simp add: recover_first_delivery_def publication_matches[OF ok] Let_def)

lemma triple_recover_delivery_stage:
  assumes ok: "publication_ok p" and owner: "a_owner a = ux_owner (pb_env p)"
  shows "triple (exactly a (delivery_staged p (length (pb_delivery_bytes p))))
    (recover_first_delivery (pb_env p) (Some (pb_old p)) None (Some (pb_delivery p)))
    (\<lambda>_. exactly a (if pb_new p = pb_old p then new_pair p else old_pair p)) (broken a (reached p) {})"
proof (cases "pb_new p = pb_old p")
  case True
  then show ?thesis
    using triple_recover_published[OF ok owner] publication_encoded(3)[OF ok True] by simp
next
  case False
  let ?S = "layout p (pb_old_bytes p) None None (Some (pb_delivery_bytes p))"
  have "triple (exactly a ?S) (remove_stage SD) (\<lambda>_. exactly a (old_pair p)) (broken a (reached p) {})"
    by (rule triple_post[OF triple_remove_reached[where V = ?S]]) (auto simp: reached_intros)
  then show ?thesis
    using False by (simp add: recover_first_delivery_def publication_matches[OF ok] Let_def)
qed

lemma triple_recover_both_staged:
  assumes ok: "publication_ok p" and owner: "a_owner a = ux_owner (pb_env p)" and changed: "pb_new p \<noteq> pb_old p"
  shows "triple (exactly a (both_staged p (length (pb_new_bytes p))))
    (recover_first_delivery (pb_env p) (Some (pb_old p)) (Some (pb_new p)) (Some (pb_delivery p)))
    (\<lambda>_. exactly a (new_pair p)) (broken a (reached p) {})"
proof -
  let ?B = "layout p (pb_old_bytes p) (Some (pb_new_bytes p)) None (Some (pb_delivery_bytes p))"
  note weaken = broken_exactly[OF reached_full(2)[OF changed]]
  have delivery: "triple (exactly a ?B) (synchronize_existing_scale_set_delivery_stage (pb_env p) (pb_delivery p))
      (\<lambda>_. exactly a ?B) (broken a (reached p) {})"
    by (rule triple_conseq[OF triple_synchronize_delivery[where V = ?B, OF owner _ publication_decodes(3)[OF ok]]])
       (auto intro: weaken)
  have catalog: "triple (exactly a ?B)
      (io_map_err map_catalog_error (synchronize_existing_catalog_stage (pb_env p) (pb_new p)))
      (\<lambda>_. exactly a ?B) (broken a (reached p) {})"
    by (rule triple_conseq[OF triple_synchronize_catalog[where V = ?B, OF owner _ publication_decodes(2)[OF ok]]])
       (auto intro: weaken)
  have publish: "triple (exactly a ?B) (publish_named_staged SC CATALOG_DOCUMENT False)
      (\<lambda>_. exactly a (catalog_published p)) (broken a (reached p) {})"
    by (rule triple_post[OF triple_publish_reached[where V = ?B and bytes = "pb_new_bytes p"]])
       (use changed in \<open>auto simp: reached_intros\<close>)
  have "recover_first_delivery (pb_env p) (Some (pb_old p)) (Some (pb_new p)) (Some (pb_delivery p)) =
      io_try (synchronize_existing_scale_set_delivery_stage (pb_env p) (pb_delivery p)) (\<lambda>_.
      io_try (io_map_err map_catalog_error (synchronize_existing_catalog_stage (pb_env p) (pb_new p))) (\<lambda>_.
      io_try (publish_named_staged SC CATALOG_DOCUMENT False) (\<lambda>_.
      publish_named_staged SD DELIVERY_RECOVERY_DOCUMENT True)))"
    using changed by (simp add: recover_first_delivery_def publication_matches[OF ok] Let_def)
  then show ?thesis
    using triple_try[OF delivery triple_try[OF catalog triple_try[OF publish triple_finish_delivery(1)[OF ok owner]]]]
    by simp
qed

lemma recover_new_pair:
  "publication_ok p \<Longrightarrow> recover_beside_delivery (pb_env p) (Some (pb_new p)) None (pb_delivery p) None = ret ()"
  by (simp add: recover_beside_delivery_def publication_matches)

text \<open>
  A stage that was being written when the power was lost holds a strict prefix. The code cannot
  tell it from corruption: opening the store is refused and leaves everything as it is.
\<close>

definition torn_stage :: "('j, 'v, 'p, 'l) publication \<Rightarrow> (string \<Rightarrow> string option) \<Rightarrow> bool" where
  "torn_stage p m \<longleftrightarrow>
     (\<exists>k < length (pb_delivery_bytes p). m = delivery_staged p k)
     \<or> (pb_new p \<noteq> pb_old p \<and> (\<exists>k < length (pb_new_bytes p). m = both_staged p k))"

definition prefixes_refused :: "('j, 'v, 'p, 'l) publication \<Rightarrow> bool" where
  "prefixes_refused p \<longleftrightarrow>
     (\<forall>k < length (pb_delivery_bytes p). \<exists>e.
        decode_scale_set_delivery_recovery (ux_codec (pb_env p)) (take k (pb_delivery_bytes p)) = Inl e)
     \<and> (\<forall>k < length (pb_new_bytes p). \<exists>e.
        decode_disposable_attempt_catalog (ux_catalog_json (pb_env p)) (take k (pb_new_bytes p)) = Inl e)"

lemma triple_open_new:
  assumes ok: "publication_ok p" and owner: "a_owner a = ux_owner (pb_env p)"
  shows "triple (exactly a (new_pair p)) (open_scale_set_delivery_controller (pb_env p))
    (\<lambda>_. exactly a (new_pair p)) (broken a (\<lambda>m. m = new_pair p) {})"
proof (rule triple_open_from[OF layout_neighbours[OF ok] owner, where current_delivery = "Some (pb_delivery p)" and staged_delivery = None])
  show "triple (exactly a (new_pair p)) (recover_scale_set_reconcile_transaction_locked (pb_env p))
      (\<lambda>_. exactly a (new_pair p)) (broken a (\<lambda>m. m = new_pair p) {})"
    by (rule triple_reconcile_from[OF layout_neighbours[OF ok] owner, where current_delivery = "Some (pb_delivery p)"
          and staged_delivery = None and staged_catalog = None and current_catalog = "Some (pb_new p)"])
       (auto simp: publication_decodes[OF ok] recover_new_pair[OF ok] intro: triple_ret)
qed (auto simp: publication_decodes[OF ok] publication_matches[OF ok])

lemma triple_open_old:
  assumes ok: "publication_ok p" and owner: "a_owner a = ux_owner (pb_env p)"
  shows "triple (exactly a (old_pair p)) (open_scale_set_delivery_controller (pb_env p))
    (\<lambda>_. exactly a (old_pair p)) (broken a (\<lambda>m. m = old_pair p) {})"
proof (rule triple_open_from[OF layout_neighbours[OF ok] owner, where current_delivery = None and staged_delivery = None])
  show "triple (exactly a (old_pair p)) (recover_scale_set_reconcile_transaction_locked (pb_env p))
      (\<lambda>_. exactly a (old_pair p)) (broken a (\<lambda>m. m = old_pair p) {})"
    by (rule triple_reconcile_from[OF layout_neighbours[OF ok] owner, where current_delivery = None
          and staged_delivery = None and staged_catalog = None and current_catalog = "Some (pb_old p)"])
       (auto simp: publication_decodes[OF ok] recover_first_delivery_def intro: triple_ret)
qed auto

text \<open>Opening with a complete delivery stage, under any contents of the catalog names.\<close>

lemma triple_open_staged:
  assumes ok: "publication_ok p" and owner: "a_owner a = ux_owner (pb_env p)"
    and catalog: "decode_disposable_attempt_catalog (ux_catalog_json (pb_env p)) c = Inr current_catalog"
    and staged: "decodes_to (decode_disposable_attempt_catalog (ux_catalog_json (pb_env p))) sc staged_catalog"
    and reached: "reached p (layout p c sc None (Some (pb_delivery_bytes p)))"
    and rest: "triple (exactly a (layout p c sc None (Some (pb_delivery_bytes p))))
      (recover_first_delivery (pb_env p) (Some current_catalog) staged_catalog (Some (pb_delivery p)))
      Q (broken a (reached p) {})"
  shows "triple (exactly a (layout p c sc None (Some (pb_delivery_bytes p))))
    (open_scale_set_delivery_controller (pb_env p)) Q (broken a (reached p) {})"
proof (rule triple_open_from[OF layout_neighbours[OF ok] owner, where current_delivery = None and staged_delivery = "Some (pb_delivery p)"])
  show "triple (exactly a (layout p c sc None (Some (pb_delivery_bytes p))))
      (recover_scale_set_reconcile_transaction_locked (pb_env p)) Q (broken a (reached p) {})"
    by (rule triple_reconcile_from[OF layout_neighbours[OF ok] owner, where current_delivery = None
          and staged_delivery = "Some (pb_delivery p)" and staged_catalog = staged_catalog
          and current_catalog = "Some current_catalog"])
       (use rest catalog staged broken_exactly[OF reached] in \<open>auto simp: publication_decodes[OF ok]\<close>)
qed (use broken_exactly[OF reached] in \<open>auto simp: publication_decodes[OF ok] publication_matches[OF ok]\<close>)

definition paired :: "('j, 'v, 'p, 'l) publication \<Rightarrow> (string \<Rightarrow> string option) \<Rightarrow> bool" where
  "paired p m \<longleftrightarrow> m = old_pair p \<or> m = new_pair p"

lemma triple_open_complete:
  assumes ok: "publication_ok p" and owner: "a_owner a = ux_owner (pb_env p)"
    and V: "reached p V" "\<not> torn_stage p V"
  shows "triple (exactly a V) (open_scale_set_delivery_controller (pb_env p))
    (\<lambda>_ w. \<exists>V'. paired p V' \<and> exactly a V' w) (broken a (reached p) {})"
proof -
  let ?Q = "\<lambda>_ w. \<exists>V'. paired p V' \<and> exactly a V' w"
  have paired: "paired p (old_pair p)" "paired p (new_pair p)"
    "paired p (if b then new_pair p else old_pair p)" for b
    by (simp_all add: paired_def)
  consider "V = old_pair p" | "V = new_pair p" | "V = catalog_published p"
    | "V = layout p (pb_old_bytes p) None None (Some (pb_delivery_bytes p))"
    | "V = layout p (pb_old_bytes p) (Some (pb_new_bytes p)) None (Some (pb_delivery_bytes p))"
      "pb_new p \<noteq> pb_old p"
    using V unfolding reached_def torn_stage_def by (metis linorder_not_less take_all)
  then show ?thesis
  proof cases
    case 1
    then show ?thesis
      by (auto intro!: triple_conseq[OF triple_open_old[OF ok owner]] intro: paired broken_exactly reached_intros)
  next
    case 2
    then show ?thesis
      by (auto intro!: triple_conseq[OF triple_open_new[OF ok owner]] intro: paired broken_exactly reached_intros)
  next
    case 3
    have "triple (exactly a (catalog_published p)) (open_scale_set_delivery_controller (pb_env p))
        (\<lambda>_. exactly a (new_pair p)) (broken a (reached p) {})"
      by (rule triple_open_staged[OF ok owner _ _ _ triple_recover_published[OF ok owner]])
         (auto simp: publication_decodes[OF ok] reached_intros)
    then show ?thesis
      unfolding 3 by (rule triple_post) (use paired in blast)
  next
    case 4
    have "triple (exactly a V) (open_scale_set_delivery_controller (pb_env p))
        (\<lambda>_. exactly a (if pb_new p = pb_old p then new_pair p else old_pair p)) (broken a (reached p) {})"
      unfolding 4
      by (rule triple_open_staged[OF ok owner _ _ _ triple_recover_delivery_stage[OF ok owner, unfolded delivery_staged_all]])
         (auto simp: publication_decodes[OF ok])
    then show ?thesis
      by (rule triple_post) (use paired in blast)
  next
    case 5
    have "triple (exactly a V) (open_scale_set_delivery_controller (pb_env p))
        (\<lambda>_. exactly a (new_pair p)) (broken a (reached p) {})"
      unfolding 5(1)
      by (rule triple_open_staged[OF ok owner _ _ _ triple_recover_both_staged[OF ok owner 5(2), unfolded both_staged_all]])
         (auto simp: publication_decodes[OF ok] 5(2))
    then show ?thesis
      by (rule triple_post) (use paired in blast)
  qed
qed

text \<open>Opening with an incomplete stage.\<close>

lemma torn_lengths:
  assumes "publication_ok p"
  shows "length (take k (pb_delivery_bytes p)) \<le> MAX_SCALE_SET_DELIVERY_RECOVERY_BYTES"
    and "length (take k (pb_new_bytes p)) \<le> MAX_DISPOSABLE_ATTEMPT_CATALOG_DOCUMENT_BYTES"
  using delivery_decodes_length[OF publication_decodes(3)[OF assms]]
    catalog_decodes_length[OF publication_decodes(2)[OF assms]] by auto

lemma triple_open_torn_delivery:
  assumes ok: "publication_ok p" and owner: "a_owner a = ux_owner (pb_env p)"
    and "prefixes_refused p" "k < length (pb_delivery_bytes p)"
  defines "V \<equiv> delivery_staged p k"
  shows "triple (exactly a V) (open_scale_set_delivery_controller (pb_env p))
    (\<lambda>_ _. False) (refused_unchanged a (\<lambda>m. m = V) {} (exactly a V))"
proof -
  let ?P = "exactly a V" and ?X = "refused_unchanged a (\<lambda>m. m = V) {} (exactly a V)"
  obtain e where decode: "decode_scale_set_delivery_recovery (ux_codec (pb_env p))
      (take k (pb_delivery_bytes p)) = Inl e"
    using assms(3,4) by (auto simp: prefixes_refused_def)
  have lock: "triple ?P (acquire_mutation_lock (ux_owner (pb_env p))) (\<lambda>_. ?P) ?X"
    unfolding owner[symmetric]
    by (rule triple_conseq[OF triple_lock[where V = V, OF steady_flushed]])
       (use layout_lock[OF ok] in \<open>auto simp: V_def\<close>)
  have sync: "triple ?P synchronize_directory (\<lambda>_. ?P) ?X"
    by (rule triple_conseq[OF triple_synchronize[where V = V and U = "{}" and N = "{}"]])
       (auto simp: flushed_holds)
  have current: "triple ?P (load_scale_set_delivery_named (pb_env p) DELIVERY_RECOVERY_DOCUMENT)
      (\<lambda>r w. r = None \<and> ?P w) ?X"
    by (rule triple_conseq[OF triple_load_delivery[where V = V and document = None, OF steady_flushed owner]])
       (auto simp: V_def)
  have staged: "triple ?P (load_scale_set_delivery_named (pb_env p) SD) (\<lambda>_ _. False) ?X"
    by (rule triple_refuse_delivery[where V = V, OF steady_flushed owner _ _ decode])
       (use torn_lengths[OF ok] in \<open>auto simp: V_def\<close>)
  show ?thesis
    unfolding open_scale_set_delivery_controller_def recover_scale_set_settlement_locked_def
    by (rule triple_try[OF lock], rule triple_try[OF sync], rule triple_try[where R = "\<lambda>_ _. False"],
        rule triple_step[OF current], rule triple_try[OF staged]) (auto simp: triple_def)
qed

lemma triple_open_torn_catalog:
  assumes ok: "publication_ok p" and owner: "a_owner a = ux_owner (pb_env p)"
    and "prefixes_refused p" "k < length (pb_new_bytes p)"
  defines "V \<equiv> both_staged p k"
  shows "triple (exactly a V) (open_scale_set_delivery_controller (pb_env p))
    (\<lambda>_ _. False) (refused_unchanged a (\<lambda>m. m = V) {} (exactly a V))"
  unfolding V_def
proof (rule triple_open_from[OF layout_neighbours[OF ok] owner, where current_delivery = None and staged_delivery = "Some (pb_delivery p)"])
  let ?P = "exactly a V" and ?X = "refused_unchanged a (\<lambda>m. m = V) {} (exactly a V)"
  obtain e where decode: "decode_disposable_attempt_catalog (ux_catalog_json (pb_env p))
      (take k (pb_new_bytes p)) = Inl e"
    using assms(3,4) by (auto simp: prefixes_refused_def)
  have neighbours: "triple ?P (refuse_unsettled_scale_set_neighbors (pb_env p)) (\<lambda>_. ?P) ?X"
    by (rule triple_conseq[OF triple_neighbours[OF owner]])
       (use layout_neighbours[OF ok] in \<open>auto simp: V_def\<close>)
  have current: "triple ?P (io_map_err map_catalog_error (load_catalog_named (pb_env p) CATALOG_DOCUMENT))
      (\<lambda>r w. r = Some (pb_old p) \<and> ?P w) ?X"
    by (rule triple_conseq[OF triple_load_catalog[where V = V and document = "Some (pb_old p)",
          OF steady_flushed owner]])
       (auto simp: V_def publication_decodes[OF ok])
  have staged: "triple ?P (io_map_err map_catalog_error (load_catalog_named (pb_env p) SC)) (\<lambda>_ _. False) ?X"
    by (rule triple_refuse_catalog[where V = V, OF steady_flushed owner _ _ decode])
       (use torn_lengths[OF ok] in \<open>auto simp: V_def\<close>)
  show "triple (exactly a (both_staged p k)) (recover_scale_set_reconcile_transaction_locked (pb_env p))
      (\<lambda>_ _. False) (refused_unchanged a (\<lambda>m. m = both_staged p k) {} (exactly a (both_staged p k)))"
    unfolding recover_scale_set_reconcile_transaction_locked_def V_def[symmetric]
    by (rule triple_try[OF neighbours], rule triple_step[OF current], rule triple_try[OF staged])
       (simp add: triple_def)
qed (auto simp: publication_decodes[OF ok] publication_matches[OF ok])

lemma triple_open_torn:
  assumes "publication_ok p" and "a_owner a = ux_owner (pb_env p)" and "prefixes_refused p" and "torn_stage p V"
  shows "triple (exactly a V) (open_scale_set_delivery_controller (pb_env p))
    (\<lambda>_ _. False) (refused_unchanged a (\<lambda>m. m = V) {} (exactly a V))"
  using assms(4) triple_open_torn_delivery[OF assms(1-3)] triple_open_torn_catalog[OF assms(1-3)]
  unfolding torn_stage_def by blast

end
