(* ===== verification/Delivery_Crash.thy ===== *)
theory Delivery_Crash
  imports Delivery_Triples
begin

text \<open>
  The reconcile transaction as a whole under power loss: whatever system call fails and whenever the
  power is lost, while a delivery is published or while a later opening recovers, the store ends
  with the old catalog alone or with the new catalog and its delivery document.
\<close>

section \<open>Restarts\<close>

text \<open>A store no process is working on, all of it on the disk.\<close>

definition store_at_rest :: "identity \<Rightarrow> world \<Rightarrow> bool" where
  "store_at_rest owner w \<longleftrightarrow>
     store_ok owner w \<and> synced_outside {} w \<and> w_pending w = [] \<and> (\<forall>n. \<not> w_armed w n)"

text \<open>
  The restarts that may follow: a first one, and others after a controller that tried to open the
  store, each with its own fault schedule and its own choice of what survives.
\<close>

inductive restarts :: "('j, 'v, 'p, 'l) unix_env \<Rightarrow> world \<Rightarrow> world \<Rightarrow> bool" for env where
  restart: "restarts env w (reboot keep kept faults w)"
| restart_again: "restarts env w w' \<Longrightarrow>
    restarts env w (reboot keep kept faults (snd (open_scale_set_delivery_controller env w')))"

lemma private_surviving: "private_inode owner f \<Longrightarrow> private_inode owner (surviving_inode k f)"
  by (simp add: private_inode_def surviving_inode_def)

lemma reboot_at_rest:
  assumes "store_ok owner w"
  shows "store_at_rest owner (reboot keep kept faults w)"
proof -
  let ?w = "reboot keep kept faults w"
  have here: "w_pending ?w = []" "w_disk ?w = surviving_directory keep w" "w_dir ?w = surviving_directory keep w"
    "w_fresh ?w = w_fresh w" "w_new ?w = w_new w" "w_stat ?w = w_stat w"
    "\<And>i. w_inodes ?w i = surviving_inode (kept i) (w_inodes w i)"
    by (simp_all add: reboot_def)
  have "possible_directory w (surviving_directory keep w)"
    by (auto simp: possible_directory_def)
  then have "store_ok owner ?w"
    using assms possible_directory_flushed[OF here(1)] private_surviving
    unfolding store_ok_def here by (simp add: here)
  moreover have "synced_outside {} ?w"
    by (simp add: synced_outside_def here surviving_inode_def)
  ultimately show ?thesis
    by (simp add: store_at_rest_def here) (simp add: reboot_def)
qed

lemma reboot_contents: "survivor w (contents (reboot keep kept faults w))"
proof -
  have "contents (reboot keep kept faults w) = contents (reboot keep kept [] w)"
    by (simp add: contents_def reboot_def fun_eq_iff)
  then show ?thesis unfolding survivor_def by blast
qed

definition safe :: "identity \<Rightarrow> ((string \<Rightarrow> string option) \<Rightarrow> bool) \<Rightarrow> world \<Rightarrow> bool" where
  "safe owner K w \<longleftrightarrow> store_ok owner w \<and> (\<forall>m. survivor w m \<longrightarrow> K m)"

lemma restarts_safe:
  assumes "restarts env w w'" and "safe (ux_owner env) K w"
    and "\<And>w. store_at_rest (ux_owner env) w \<Longrightarrow> K (contents w) \<Longrightarrow>
      safe (ux_owner env) K (snd (open_scale_set_delivery_controller env w))"
  shows "store_at_rest (ux_owner env) w' \<and> K (contents w')"
  using assms(1,2)
proof (induction rule: restarts.induct)
  case (restart w keep kept faults)
  then show ?case using reboot_at_rest reboot_contents by (auto simp: safe_def)
next
  case (restart_again w w' keep kept faults)
  then have "safe (ux_owner env) K (snd (open_scale_set_delivery_controller env w'))"
    using assms(3) by blast
  then show ?case using reboot_at_rest reboot_contents by (auto simp: safe_def)
qed

definition opened_by :: "bool \<Rightarrow> ('j, 'v, 'p, 'l) unix_env \<Rightarrow> assertion" where
  "opened_by calm env = \<lparr>a_calm = calm, a_owner = ux_owner env, a_stages = {SC, SD}\<rparr>"

lemma opened_by_simps [simp]:
  "a_calm (opened_by calm env) = calm" "a_owner (opened_by calm env) = ux_owner env"
  "a_stages (opened_by calm env) = {SC, SD}"
  by (simp_all add: opened_by_def)

lemma at_rest_exactly:
  assumes "store_at_rest (ux_owner env) w" and "calm \<longrightarrow> w_faults w = []"
  shows "exactly (opened_by calm env) (contents w) w"
  by (rule flushed_exact[where M = "\<lambda>_. True"])
     (use assms in \<open>auto simp: store_at_rest_def flushed_def holds_def\<close>)

lemma broken_safe: "broken (opened_by False env) K {} l w \<Longrightarrow> safe (ux_owner env) K w"
  by (simp add: broken_def safe_def)

lemma exactly_safe: "exactly (opened_by calm env) V w \<Longrightarrow> K V \<Longrightarrow> safe (ux_owner env) K w"
  by (auto simp: flushed_def holds_def safe_def)

lemma triple_outcome: "triple P m Q X \<Longrightarrow> P w \<Longrightarrow> outcome Q X (m w)"
  by (simp add: triple_def)

lemma outcome_elim:
  assumes "outcome Q X r"
  obtains v w where "r = (Inr v, w)" "Q v w" | h l w where "r = (Inl h, w)" "X l w"
  using assms by (cases "(Q, X, r)" rule: outcome.cases) auto

lemma outcome_safe:
  assumes "outcome Q X r" and "\<And>v w. Q v w \<Longrightarrow> safe owner K w" and "\<And>l w. X l w \<Longrightarrow> safe owner K w"
  shows "safe owner K (snd r)"
  using assms(1) by (rule outcome_elim) (use assms(2,3) in auto)

lemma paired_reached: "paired p m \<Longrightarrow> reached p m"
  by (auto simp: paired_def reached_intros)

lemma open_safe:
  assumes ok: "publication_ok p" "prefixes_refused p" and rest: "store_at_rest (ux_owner (pb_env p)) w"
    and m: "reached p (contents w)"
  shows "safe (ux_owner (pb_env p)) (reached p) (snd (open_scale_set_delivery_controller (pb_env p) w))"
proof (cases "torn_stage p (contents w)")
  case True
  note here = triple_outcome[OF triple_open_torn[OF ok(1) _ ok(2) True] at_rest_exactly[OF rest, of False]]
  show ?thesis
    by (rule outcome_safe[OF here]) (use m in \<open>auto intro: exactly_safe broken_safe broken_exactly\<close>)
next
  case False
  note here = triple_outcome[OF triple_open_complete[OF ok(1) _ m False] at_rest_exactly[OF rest, of False]]
  show ?thesis
    by (rule outcome_safe[OF here]) (auto intro: exactly_safe broken_safe paired_reached)
qed

lemma open_new_safe:
  assumes ok: "publication_ok p" and rest: "store_at_rest (ux_owner (pb_env p)) w"
    and m: "contents w = new_pair p"
  shows "safe (ux_owner (pb_env p)) (\<lambda>m. m = new_pair p) (snd (open_scale_set_delivery_controller (pb_env p) w))"
proof -
  note here = triple_outcome[OF triple_open_new[OF ok] at_rest_exactly[OF rest, of False, unfolded m]]
  show ?thesis
    by (rule outcome_safe[OF here]) (auto intro: exactly_safe broken_safe)
qed

text \<open>A later opening that meets no fault.\<close>

lemma open_calm:
  assumes ok: "publication_ok p" "prefixes_refused p" and rest: "store_at_rest (ux_owner (pb_env p)) w"
    and m: "reached p (contents w)" and calm: "w_faults w = []"
  shows "case open_scale_set_delivery_controller (pb_env p) w of
      (Inr _, w') \<Rightarrow> paired p (contents w')
    | (Inl _, w') \<Rightarrow> torn_stage p (contents w) \<and> contents w' = contents w"
proof (cases "torn_stage p (contents w)")
  case True
  note here = triple_outcome[OF triple_open_torn[OF ok(1) _ ok(2) True] at_rest_exactly[OF rest, of True]]
  show ?thesis
    by (rule outcome_elim[OF here]) (use calm True in \<open>auto simp: broken_def flushed_def holds_def\<close>)
next
  case False
  note here = triple_outcome[OF triple_open_complete[OF ok(1) _ m False] at_rest_exactly[OF rest, of True]]
  show ?thesis
    by (rule outcome_elim[OF here]) (use calm in \<open>auto simp: broken_def flushed_def holds_def\<close>)
qed

section \<open>Publishing a reconciled delivery\<close>

lemma triple_publish_reconciled:
  fixes p :: "('j, 'v, 'p, 'l) publication"
  assumes ok: "publication_ok p" and owner: "a_owner a = ux_owner (pb_env p)" and stages: "a_stages a = {SC, SD}"
    and successor: "reconcile_scale_set_delivery (env_sha256_hex (ux_recovery_env (pb_env p))) policy delivery
      (pb_old p) observed_at = Inr (pb_new p)"
    and recovery: "recovery_reconciled (ux_recovery_env (pb_env p)) delivery (pb_old p) (pb_new p)
      = Inr (pb_delivery p)"
  shows "triple (exactly a (old_pair p))
    (publish_scale_set_reconciled_delivery (pb_env p) (cd_revision (pb_old p)) policy delivery observed_at)
    (\<lambda>_. exactly a (new_pair p)) (broken a (reached p) {})"
proof -
  let ?P = "exactly a (old_pair p)" and ?X = "broken a (reached p) {}"
  note weaken = broken_exactly[OF reached_intros(1)[of p]]
  have lock: "triple ?P (acquire_mutation_lock (ux_owner (pb_env p))) (\<lambda>_. ?P) ?X"
    unfolding owner[symmetric]
    by (rule triple_conseq[OF triple_lock[where V = "old_pair p" and P = ?P, OF steady_flushed layout_lock[OF ok]]])
       (auto intro: weaken)
  have sync: "triple ?P synchronize_directory (\<lambda>_. ?P) ?X"
    by (rule triple_conseq[OF triple_synchronize[where V = "old_pair p" and U = "{}"
          and M = "\<lambda>m. m = old_pair p" and N = "{}"]])
       (auto simp: flushed_holds intro: weaken)
  have recover: "triple ?P (recover_scale_set_reconcile_transaction_locked (pb_env p)) (\<lambda>_. ?P) ?X"
    by (rule triple_reconcile_from[OF layout_neighbours[OF ok] owner, where current_delivery = None
          and staged_delivery = None and staged_catalog = None and current_catalog = "Some (pb_old p)"])
       (auto simp: publication_decodes[OF ok] recover_first_delivery_def intro: triple_ret weaken)
  have catalog: "triple ?P (io_map_err map_catalog_error (load_catalog_named (pb_env p) CATALOG_DOCUMENT))
      (\<lambda>r w. r = Some (pb_old p) \<and> ?P w) ?X"
    by (rule triple_conseq[OF triple_load_catalog[where V = "old_pair p" and P = ?P and document = "Some (pb_old p)",
          OF steady_flushed owner]])
       (auto simp: publication_decodes[OF ok] intro: weaken)
  have live: "triple ?P (load_scale_set_delivery_named (pb_env p) DELIVERY_RECOVERY_DOCUMENT)
      (\<lambda>r w. r = None \<and> ?P w) ?X"
    by (rule triple_conseq[OF triple_load_delivery[where V = "old_pair p" and P = ?P and document = None,
          OF steady_flushed owner]])
       (auto intro: weaken)
  show ?thesis
    unfolding publish_scale_set_reconciled_delivery_def reconcile_mutation_locked_def
    apply (rule triple_try[OF triple_try[OF lock triple_try[OF sync recover]]])
    apply (rule triple_step[OF catalog], simp only: ok_or_simps known_result)
    apply (rule triple_step[OF live], simp add: successor recovery)
    by (rule triple_try[OF triple_publish_pair[OF ok owner stages]]) (auto intro: triple_ret)
qed

text \<open>A catalog changed by its operations has a higher revision.\<close>

lemma step_revision: "catalog_step d d' \<Longrightarrow> d' = d \<or> cat_rev d' = cat_rev d + 1"
  by (cases rule: catalog_step.cases)
     (auto simp: doc_reserve_def doc_replace_attempt_def doc_retire_complete_def doc_set_attempt_def
        doc_bind_vm_identity_after_clone_def catalog_revision_next_ok Let_def split: option.splits if_splits)

lemma steps_revision: "catalog_step\<^sup>*\<^sup>* d d' \<Longrightarrow> d' = d \<or> cat_rev d < cat_rev d'"
  by (induction rule: rtranclp_induct) (auto dest: step_revision)

lemma reconcile_revision:
  assumes "catalog_reachable d" and "worker_resources_new cpu memory disk = Inr (cp_resources policy)"
    and "reconcile_scale_set_delivery sha policy delivery d observed_at = Inr d'"
  shows "d' = d \<or> cat_rev d < cat_rev d'"
proof -
  obtain events where "reconcile_events sha policy d observed_at events = Inr d'"
    using assms(3) by (auto simp: reconcile_scale_set_delivery_def)
  from reconcile_events_framed[OF this reachable_inv[OF assms(1)] assms(2)] show ?thesis
    using steps_revision by (auto simp: framed_def)
qed

text \<open>
  What the codecs rely on serde for: a strict prefix of a document it wrote is not a document.
\<close>

definition json_prefix_free :: "('j, 'v) recovery_codec \<Rightarrow> bool" where
  "json_prefix_free codec \<longleftrightarrow>
     (\<forall>w bytes k. rj_to_vec codec w = Inr bytes \<and> k < length bytes \<longrightarrow>
        (\<exists>e. rj_version codec (take k bytes) = Inl e))
     \<and> (\<forall>w bytes k. cj_catalog_to_vec (env_catalog_json (rj_env codec)) w = Inr bytes \<and> k < length bytes \<longrightarrow>
        (\<exists>e. cj_catalog_version (env_catalog_json (rj_env codec)) (take k bytes) = Inl e))"

lemma json_prefixes_refused:
  assumes "publication_ok p" and "json_prefix_free (ux_codec (pb_env p))"
  shows "prefixes_refused p"
proof -
  obtain w where "rj_to_vec (ux_codec (pb_env p)) w = Inr (pb_delivery_bytes p)"
    using publication_encoded(2)[OF assms(1)]
    by (auto simp: encode_scale_set_delivery_recovery_def split: if_splits)
  then have delivery: "\<exists>e. rj_version (ux_codec (pb_env p)) (take k (pb_delivery_bytes p)) = Inl e"
    if "k < length (pb_delivery_bytes p)" for k
    using assms(2) that unfolding json_prefix_free_def by blast
  obtain w' where "cj_catalog_to_vec (ux_catalog_json (pb_env p)) w' = Inr (pb_new_bytes p)"
    using publication_encoded(1)[OF assms(1)]
    by (auto simp: encode_disposable_attempt_catalog_def split: if_splits)
  then have catalog: "\<exists>e. cj_catalog_version (ux_catalog_json (pb_env p)) (take k (pb_new_bytes p)) = Inl e"
    if "k < length (pb_new_bytes p)" for k
    using assms(2) that unfolding json_prefix_free_def by blast
  show ?thesis
    using torn_lengths[OF assms(1)] delivery catalog
    by (auto simp: prefixes_refused_def decode_scale_set_delivery_recovery_def
        decode_disposable_attempt_catalog_def) fastforce+
qed

section \<open>Crash atomicity\<close>

text \<open>The contents before and after: the other names of the directory are untouched.\<close>

definition published_pair ::
  "(string \<Rightarrow> string option) \<Rightarrow> string \<Rightarrow> string \<Rightarrow> (string \<Rightarrow> string option)" where
  "published_pair m catalog_bytes delivery_bytes =
     m(CATALOG_DOCUMENT := Some catalog_bytes, DELIVERY_RECOVERY_DOCUMENT := Some delivery_bytes)"

definition incomplete_stage ::
  "(string \<Rightarrow> string option) \<Rightarrow> string \<Rightarrow> string \<Rightarrow> bool" where
  "incomplete_stage m catalog_bytes delivery_bytes \<longleftrightarrow>
     (\<exists>k < length delivery_bytes. m SD = Some (take k delivery_bytes))
     \<or> (\<exists>k < length catalog_bytes. m SC = Some (take k catalog_bytes))"

definition no_delivery :: "(string \<Rightarrow> string option) \<Rightarrow> bool" where
  "no_delivery m \<longleftrightarrow> m SC = None \<and> m DELIVERY_RECOVERY_DOCUMENT = None \<and> m SD = None"

definition publication_of ::
  "('j, 'v, 'p, 'l) unix_env \<Rightarrow> (string \<Rightarrow> string option) \<Rightarrow> catalog_document \<Rightarrow> catalog_document \<Rightarrow>
   recovery_state \<Rightarrow> string \<Rightarrow> string \<Rightarrow> string \<Rightarrow> ('j, 'v, 'p, 'l) publication" where
  "publication_of env m old new delivery old_bytes new_bytes delivery_bytes =
     \<lparr>pb_env = env, pb_base = m, pb_old = old, pb_new = new, pb_delivery = delivery,
      pb_old_bytes = old_bytes, pb_new_bytes = new_bytes, pb_delivery_bytes = delivery_bytes\<rparr>"

lemma publication_of_ok:
  assumes "neighbours_settled env m"
    and "decode_disposable_attempt_catalog (ux_catalog_json env) old_bytes = Inr old"
    and "decode_disposable_attempt_catalog (ux_catalog_json env) new_bytes = Inr new"
    and "decode_scale_set_delivery_recovery (ux_codec env) delivery_bytes = Inr recovery"
    and "new = old \<or> cat_rev old < cat_rev new"
    and "recovery_reconciled (ux_recovery_env env) delivery old new = Inr recovery"
  shows "publication_ok (publication_of env m old new recovery old_bytes new_bytes delivery_bytes)"
  using assms by (auto simp: publication_ok_def publication_of_def recovery_reconciled_def Let_def
      matches_prior_catalog_def matches_catalog_def)

lemma publication_of_pairs:
  assumes "no_delivery m" and "m CATALOG_DOCUMENT = Some old_bytes"
    and p_def: "p = publication_of env m old new recovery old_bytes new_bytes delivery_bytes"
  shows "old_pair p = m" and "new_pair p = published_pair m new_bytes delivery_bytes"
    and "torn_stage p m' \<Longrightarrow> incomplete_stage m' new_bytes delivery_bytes"
proof -
  show "old_pair p = m" "new_pair p = published_pair m new_bytes delivery_bytes"
    using assms(1,2) by (auto simp: p_def publication_of_def layout_def published_pair_def no_delivery_def fun_eq_iff)
  have "pb_new_bytes p = new_bytes" "pb_delivery_bytes p = delivery_bytes"
    by (simp_all add: p_def publication_of_def)
  then show "torn_stage p m' \<Longrightarrow> incomplete_stage m' new_bytes delivery_bytes"
    by (auto simp: torn_stage_def incomplete_stage_def)
qed

text \<open>
  C3. Publishing a reconciled delivery is atomic under power loss. Start from a store at rest with a
  catalog, no delivery document and settled neighbours, and publish a delivery that reconciles to a
  successor catalog, under any schedule of failing system calls and power loss. Let the machine
  restart, any number of times, each time with any choice of surviving updates and bytes and any
  schedule while the controller opens the store. When an opening then meets no fault, it either
  succeeds and the directory holds exactly the old catalog without a delivery or exactly the new
  catalog with its delivery document, all other names unchanged and no stage left; or it is refused,
  changes nothing, and one of the two stages is a strict prefix of its document. If the publication
  had returned, every restart finds the new pair.
\<close>
theorem reconciled_delivery_crash_atomic:
  fixes env :: "('j, 'v, 'p, 'l) unix_env"
  assumes "catalog_reachable old" and "worker_resources_new cpu memory disk = Inr (cp_resources policy)"
    and rest: "store_at_rest (ux_owner env) w"
    and m: "contents w = m" "no_delivery m" "neighbours_settled env m" "m CATALOG_DOCUMENT = Some old_bytes"
    and documents: "decode_disposable_attempt_catalog (ux_catalog_json env) old_bytes = Inr old"
      "decode_disposable_attempt_catalog (ux_catalog_json env) new_bytes = Inr new"
      "decode_scale_set_delivery_recovery (ux_codec env) delivery_bytes = Inr recovery"
    and json: "json_prefix_free (ux_codec env)"
    and successor: "reconcile_scale_set_delivery (env_sha256_hex (ux_recovery_env env)) policy delivery old
      observed_at = Inr new"
    and recovery: "recovery_reconciled (ux_recovery_env env) delivery old new = Inr recovery"
    and run: "publish_scale_set_reconciled_delivery env (cd_revision old) policy delivery observed_at w = (r, w1)"
    and restarts: "restarts env w1 w2"
  shows "(is_ok r \<longrightarrow> contents w2 = published_pair m new_bytes delivery_bytes)
    \<and> (w_faults w2 = [] \<longrightarrow>
         (case open_scale_set_delivery_controller env w2 of
            (Inr _, w3) \<Rightarrow> contents w3 = m \<or> contents w3 = published_pair m new_bytes delivery_bytes
          | (Inl _, w3) \<Rightarrow>
              incomplete_stage (contents w2) new_bytes delivery_bytes \<and> contents w3 = contents w2))"
proof -
  let ?p = "publication_of env m old new recovery old_bytes new_bytes delivery_bytes"
  have p: "pb_env ?p = env" "pb_old ?p = old" "pb_new ?p = new" "pb_delivery ?p = recovery"
    by (simp_all add: publication_of_def)
  have ok: "publication_ok ?p"
    using publication_of_ok[OF m(3) documents reconcile_revision[OF assms(1,2) successor] recovery] .
  note prefixes = json_prefixes_refused[OF ok, unfolded p, OF json]
  note pairs = publication_of_pairs[OF m(2,4) refl, of env old new recovery new_bytes delivery_bytes]
  have published: "outcome (\<lambda>_. exactly (opened_by False env) (new_pair ?p))
      (broken (opened_by False env) (reached ?p) {}) (r, w1)"
    using triple_outcome[OF triple_publish_reconciled[OF ok, unfolded p, OF _ _ successor recovery]]
      at_rest_exactly[OF rest, of False] pairs(1) m(1) run by (metis opened_by_simps(2,3))
  have safe: "safe (ux_owner env) (reached ?p) w1"
    using outcome_safe[OF published, of "ux_owner env" "reached ?p"]
    by (auto intro: exactly_safe broken_safe reached_intros)
  have after: "store_at_rest (ux_owner env) w2 \<and> reached ?p (contents w2)"
    by (rule restarts_safe[OF restarts safe]) (use open_safe[OF ok prefixes] p in auto)
  have "contents w2 = new_pair ?p" if "is_ok r"
  proof -
    have "safe (ux_owner env) (\<lambda>m. m = new_pair ?p) w1"
      using published that by (cases r) (auto intro: exactly_safe)
    from restarts_safe[OF restarts this] show ?thesis
      using open_new_safe[OF ok] p by auto
  qed
  moreover have "case open_scale_set_delivery_controller env w2 of
      (Inr _, w') \<Rightarrow> paired ?p (contents w')
    | (Inl _, w') \<Rightarrow> torn_stage ?p (contents w2) \<and> contents w' = contents w2" if "w_faults w2 = []"
    using open_calm[OF ok prefixes _ _ that] after p by simp
  ultimately show ?thesis
    using pairs by (auto simp: paired_def split: prod.splits sum.splits)
qed

section \<open>An interrupted acknowledgement\<close>

text \<open>The successor an acknowledgement or acquisition stages beside the current delivery.\<close>

fun acquisition_phase :: "recovery_phase \<Rightarrow> bool" where
  "acquisition_phase AcknowledgementStarted = True"
| "acquisition_phase (Acknowledged _) = True"
| "acquisition_phase (AcquisitionRecoveryObserved _) = True"
| "acquisition_phase _ = False"

lemma acquisition_phase_cases:
  "acquisition_phase (rec_phase s) \<Longrightarrow> recovery_lifecycle_resolution s = None \<and> \<not> settlement_phase (rec_phase s)"
  by (cases "rec_phase s") (auto simp: recovery_lifecycle_resolution_def)

lemma decoded_revision:
  "decode_scale_set_delivery_recovery codec bytes = Inr s \<Longrightarrow> rec_revision s \<le> MAX_DELIVERY_RECOVERY_REVISION"
  unfolding decode_scale_set_delivery_recovery_def
  by (auto split: if_splits) (subst (asm) recovery_validate.simps, auto split: if_splits)

lemma exact_successor_differs:
  assumes "decode_scale_set_delivery_recovery (ux_codec env) bytes = Inr s"
    and "exact_recovery_successor (ux_recovery_env env) s staged"
  shows "staged \<noteq> s"
  using decoded_revision[OF assms(1)] assms(2)
  by (auto simp: exact_recovery_successor_def saturating_add_def MAX_DELIVERY_RECOVERY_REVISION_def)

lemma failing_result: "io_try (fail k) f = fail k" "io_result (Inl k) = fail k"
  by (auto simp: io_try_def io_result_def fail_def)

lemma outcome_refused:
  assumes "outcome Q (refused_unchanged a M N P) r" and "a_calm a" and "\<And>v w. \<not> Q v w"
  shows "\<exists>k w. r = (Inl (Failed k), w) \<and> P w"
  using assms by (cases "(Q, refused_unchanged a M N P, r)" rule: outcome.cases) (auto simp: broken_def)

lemma triple_open_acquisition:
  assumes settled: "neighbours_settled env V" and owner: "a_owner a = ux_owner env"
    and V: "decodes_to (decode_disposable_attempt_catalog (ux_catalog_json env)) (V CATALOG_DOCUMENT) (Some catalog)"
      "V SC = None"
      "decodes_to (decode_scale_set_delivery_recovery (ux_codec env)) (V DELIVERY_RECOVERY_DOCUMENT) (Some s)"
      "decodes_to (decode_scale_set_delivery_recovery (ux_codec env)) (V SD) (Some staged)"
    and phases: "\<not> settlement_phase (rec_phase s)" "acquisition_phase (rec_phase staged)"
  shows "triple (exactly a V) (open_scale_set_delivery_controller env)
    (\<lambda>_ _. False) (refused_unchanged a (\<lambda>m. m = V) {} (exactly a V))"
proof (rule triple_open_from[OF settled owner V(3,4)])
  have "recover_beside_delivery env (Some catalog) None s (Some staged) = fail StoreCorruptState"
    using acquisition_phase_cases[OF phases(2)]
    by (simp add: recover_beside_delivery_def failing_result)
  then show "triple (exactly a V) (recover_scale_set_reconcile_transaction_locked env)
      (\<lambda>_ _. False) (refused_unchanged a (\<lambda>m. m = V) {} (exactly a V))"
    by (intro triple_reconcile_from[OF settled owner V(1) _ V(3,4), where staged_catalog = None])
       (auto simp: V(2) intro: triple_fail)
qed (use phases acquisition_phase_cases in auto)

lemma triple_recover_acquisition:
  assumes owner: "a_owner a = ux_owner env"
    and V: "V DELIVERY_RECOVERY_DOCUMENT = Some bytes" "V SD = Some staged_bytes"
      "decode_scale_set_delivery_recovery (ux_codec env) bytes = Inr s"
      "decode_scale_set_delivery_recovery (ux_codec env) staged_bytes = Inr staged"
    and exact: "exact_recovery_successor (ux_recovery_env env) s staged"
  shows "triple (exactly a V) (recover_scale_set_delivery_locked env)
    (\<lambda>_. exactly a (moved SD DELIVERY_RECOVERY_DOCUMENT staged_bytes V)) (broken a (\<lambda>_. True) {})"
proof -
  let ?P = "exactly a V" and ?X = "broken a (\<lambda>_. True) {}"
  have weaken: "broken a (\<lambda>m. m = V) {} l w \<Longrightarrow> ?X l w" for l w
    by (erule broken_weaken) auto
  have load: "triple ?P (load_scale_set_delivery_named env n) (\<lambda>r w. r = document \<and> ?P w) ?X"
    if "decodes_to (decode_scale_set_delivery_recovery (ux_codec env)) (V n) document" for n document
    by (rule triple_conseq[OF triple_load_delivery[where V = V and n = n and P = ?P, OF steady_flushed owner that]])
       (use weaken in auto)
  have plan: "triple ?P (scale_set_delivery_recovery_plan env)
      (\<lambda>r w. r = RecoveryPublishStaged False \<and> ?P w) ?X"
    unfolding scale_set_delivery_recovery_plan_def
    by (rule triple_step[OF load[where document = "Some staged"]], simp add: V, simp only: option.case,
        rule triple_step[OF load[where document = "Some s"]], simp add: V)
       (use exact exact_successor_differs[OF V(3) exact] in \<open>auto intro: triple_ret\<close>)
  have sync: "triple ?P (synchronize_existing_scale_set_delivery_stage env staged) (\<lambda>_. ?P) ?X"
    by (rule triple_conseq[OF triple_synchronize_delivery[where V = V, OF owner V(2,4)]]) (use weaken in auto)
  have publish: "triple ?P (publish_named_staged SD DELIVERY_RECOVERY_DOCUMENT False)
      (\<lambda>_. exactly a (moved SD DELIVERY_RECOVERY_DOCUMENT staged_bytes V)) ?X"
    by (rule triple_conseq[OF triple_publish_exact[where V = V and M = "\<lambda>m. m = V" and N = "{}"
          and M' = "\<lambda>_. True" and bytes = staged_bytes]])
       (use V weaken in \<open>auto simp: flushed_holds\<close>)
  show ?thesis
    unfolding recover_scale_set_delivery_locked_def
    by (rule triple_step[OF plan], simp only: document_recovery_plan.case,
        rule triple_step[OF load[where document = "Some staged"]], simp add: V,
        simp only: ok_or_simps known_result, rule triple_try[OF sync publish])
qed

text \<open>
  C22. A complete stage of an acknowledgement or acquisition blocks every later opening. When a
  power loss leaves, beside a current delivery, the complete and exact successor that
  acknowledging it or replaying its acquisition staged, opening the controller fails although no
  system call does, and leaves the store as it was, so that the next opening fails too; the
  recovery of the delivery document alone, which the opening reaches only for lifecycle stages,
  publishes the successor.
\<close>
theorem interrupted_acknowledgement_refused:
  assumes "store_at_rest (ux_owner env) w" and "w_faults w = []" and "neighbours_settled env (contents w)"
    and "contents w CATALOG_DOCUMENT = Some catalog_bytes" "contents w SC = None"
      "contents w DELIVERY_RECOVERY_DOCUMENT = Some bytes" "contents w SD = Some staged_bytes"
    and "decode_disposable_attempt_catalog (ux_catalog_json env) catalog_bytes = Inr catalog"
      "decode_scale_set_delivery_recovery (ux_codec env) bytes = Inr s"
      "decode_scale_set_delivery_recovery (ux_codec env) staged_bytes = Inr staged"
    and "exact_recovery_successor (ux_recovery_env env) s staged"
      "\<not> settlement_phase (rec_phase s)" "acquisition_phase (rec_phase staged)"
  shows "(\<exists>k w'. open_scale_set_delivery_controller env w = (Inl (Failed k), w') \<and> contents w' = contents w)
    \<and> (\<exists>w'. recover_scale_set_delivery_locked env w = (Inr (), w')
         \<and> contents w' = moved SD DELIVERY_RECOVERY_DOCUMENT staged_bytes (contents w))"
proof
  note here = at_rest_exactly[OF assms(1), of True]
  have "outcome (\<lambda>_ _. False) (refused_unchanged (opened_by True env) (\<lambda>m. m = contents w) {}
      (exactly (opened_by True env) (contents w))) (open_scale_set_delivery_controller env w)"
    by (rule triple_outcome[OF triple_open_acquisition]) (use assms here in auto)
  then show "\<exists>k w'. open_scale_set_delivery_controller env w = (Inl (Failed k), w') \<and> contents w' = contents w"
    using outcome_refused by (fastforce simp: flushed_def holds_def)
  have "outcome (\<lambda>_. exactly (opened_by True env) (moved SD DELIVERY_RECOVERY_DOCUMENT staged_bytes (contents w)))
      (broken (opened_by True env) (\<lambda>_. True) {}) (recover_scale_set_delivery_locked env w)"
    by (rule triple_outcome[OF triple_recover_acquisition]) (use assms here in auto)
  then show "\<exists>w'. recover_scale_set_delivery_locked env w = (Inr (), w')
      \<and> contents w' = moved SD DELIVERY_RECOVERY_DOCUMENT staged_bytes (contents w)"
    by (rule outcome_elim) (auto simp: broken_def flushed_def holds_def)
qed

section \<open>A store with one catalog\<close>

definition offered_attempt :: attempt_state where
  "offered_attempt = rs_attempt (hd (cd_active offered_catalog))"

definition empty_wire :: "string catalog_wire" where
  "empty_wire = \<lparr>cw_schema_version = 7, cw_revision = 1, cw_active = [], cw_tombstones = []\<rparr>"

text \<open>A JSON layer that knows the empty catalog, the catalog of one offered job and its delivery.\<close>

definition crash_json :: "(unit, string) catalog_json" where
  "crash_json = sample_json
     \<lparr>cj_attempt_from_json := \<lambda>_. Inr (attempt_to_wire offered_attempt),
      cj_catalog_to_vec := \<lambda>w. if w = empty_wire then Inr ''e'' else if w = sample_wire then Inr ''c'' else Inl (),
      cj_catalog_version := \<lambda>b. if b = [] then Inl () else Inr 7,
      cj_catalog_from_slice := \<lambda>b. Inr (if b = ''e'' then empty_wire else sample_wire)\<rparr>"

definition reconciled_state :: recovery_state where
  "reconciled_state = (sample_state 1 Reconciled)
     \<lparr>rec_prior_catalog_revision := DisposableAttemptCatalogRevision 1\<rparr>"

definition reconciled_wire :: recovery_wire where
  "reconciled_wire = settled_wire
     \<lparr>yw_revision := 1, yw_prior_catalog_revision := 1, yw_phase := WireReconciled\<rparr>"

text \<open>The successor that acknowledging the delivery stages.\<close>

definition started_state :: recovery_state where
  "started_state = reconciled_state\<lparr>rec_revision := 2, rec_phase := AcknowledgementStarted\<rparr>"

definition started_wire :: recovery_wire where
  "started_wire = reconciled_wire\<lparr>yw_revision := 2, yw_phase := WireAcknowledgementStarted\<rparr>"

definition crash_codec :: "(unit, string) recovery_codec" where
  "crash_codec =
     \<lparr>rj_env = (rj_env sample_codec)\<lparr>env_catalog_json := crash_json, env_sha256_hex := zero_hex\<rparr>,
      rj_delivery_version = (\<lambda>_. Inr (dl_schema_version sample_delivery)),
      rj_delivery_from_slice = (\<lambda>_. Inr sample_delivery),
      rj_version = (\<lambda>b. if b = [] then Inl () else Inr 4),
      rj_from_slice = (\<lambda>b. Inr (if b = ''s'' then started_wire else reconciled_wire)),
      rj_to_vec = (\<lambda>w. if w = reconciled_wire then Inr ''r'' else if w = started_wire then Inr ''s'' else Inl ())\<rparr>"

lemma crash_codec_simps [simp]:
  "env_catalog_json (rj_env crash_codec) = crash_json" "env_sha256_hex (rj_env crash_codec) = zero_hex"
  "env_delivery_to_json (rj_env crash_codec) = env_delivery_to_json (rj_env sample_codec)"
  by (simp_all add: crash_codec_def)

lemma empty_encoded: "encode_disposable_attempt_catalog crash_json catalog_empty = Inr ''e''"
  using empty_inv
  by (simp add: encode_disposable_attempt_catalog_def catalog_inv_def crash_json_def empty_wire_def)
     (simp add: catalog_empty_def DISPOSABLE_ATTEMPT_CATALOG_SCHEMA_VERSION_def
       MAX_DISPOSABLE_ATTEMPT_CATALOG_DOCUMENT_BYTES_def)

lemma offered_encoded: "encode_disposable_attempt_catalog crash_json offered_catalog = Inr ''c''"
  using offered_catalog_valid
  by (simp add: encode_disposable_attempt_catalog_def offered_catalog_def catalog_empty_def
      encode_reservation_def encode_attempt_value_def crash_json_def sample_json_def
      encode_disposable_attempt_state_def reserved_valid offered_reservation_def sample_policy_def
      sample_reservation_def example_reservation_def empty_wire_def sample_wire_def
      template_identity_str_def DISPOSABLE_ATTEMPT_CATALOG_SCHEMA_VERSION_def
      MAX_DISPOSABLE_ATTEMPT_STATE_BYTES_def MAX_DISPOSABLE_ATTEMPT_CATALOG_DOCUMENT_BYTES_def)

lemma crash_json_faithful: "catalog_json_faithful crash_json"
  by (simp add: catalog_json_faithful_def crash_json_def empty_wire_def sample_wire_def)

lemma offered_parsed: "catalog_parsed offered_catalog"
proof -
  have "hyphenated (''attempt-'' @ replicate 32 (CHR ''0''))" "hyphenated (''claim-'' @ replicate 64 (CHR ''0''))"
    "hyphenated (''w-'' @ replicate 24 (CHR ''0''))" "hyphenated (''smolrunner-'' @ replicate 32 (CHR ''0''))"
    by (rule hyphenated_zeros; simp add: byte_simps)+
  then have "attempt_parsed offered_attempt"
    by (simp add: attempt_parsed_def offered_attempt_def offered_catalog_def offered_reservation_def
        attempt_reserved_def zero_identities_def attempt_id_parse_def worker_claim_id_parse_def vm_id_parse_def
        runner_name_parse_def validate_worker_identifier_def DISPOSABLE_LIMA_VM_ID_HEX_CHARS_def
        attempt_revision_new_def MAX_DISPOSABLE_ATTEMPT_REVISION_def runner_request_id_new_def epoch_millis_new_def opt_parsed_def)
  then show ?thesis
    using sample_resources
    by (simp add: catalog_parsed_def offered_catalog_def catalog_empty_def reservation_parsed_def
        catalog_revision_new_def MAX_DISPOSABLE_ATTEMPT_CATALOG_REVISION_def offered_attempt_def
        offered_reservation_def sample_policy_def sample_reservation_def example_reservation_def
        template_identity_parse_def template_identity_str_def sha256_digest_parse_def byte_simps
        list_all_iff is_lower_hex_def)
qed

lemma empty_decoded: "decode_disposable_attempt_catalog crash_json ''e'' = Inr catalog_empty"
  by (rule catalog_decode_of_encode[OF crash_json_faithful _ _ empty_encoded])
     (simp_all add: catalog_empty_def catalog_parsed_def catalog_revision_new_def
        MAX_DISPOSABLE_ATTEMPT_CATALOG_REVISION_def)

lemma offered_decoded: "decode_disposable_attempt_catalog crash_json ''c'' = Inr offered_catalog"
proof (rule catalog_decode_of_encode[OF crash_json_faithful _ offered_parsed offered_encoded])
  fix s assume "s \<in> set (catalog_attempts offered_catalog)"
  then have s: "s = offered_attempt"
    by (simp add: offered_catalog_def catalog_empty_def offered_attempt_def)
  show "attempt_json_faithful crash_json s"
    by (simp add: s attempt_json_faithful_def crash_json_def sample_json_def)
       (simp add: offered_attempt_def offered_catalog_def offered_reservation_def attempt_reserved_def
          DISPOSABLE_ATTEMPT_STATE_SCHEMA_VERSION_def)
qed

lemma crash_digest:
  "catalog_digest (rj_env crash_codec) catalog_empty = Inr (Sha256Digest (''sha256:'' @ replicate 64 (CHR ''0'')))"
  "catalog_digest (rj_env crash_codec) offered_catalog = Inr (Sha256Digest (''sha256:'' @ replicate 64 (CHR ''0'')))"
  by (simp_all add: catalog_digest_def empty_encoded offered_encoded zero_hex_def sha256_digest_parse_def
      is_lower_hex_def byte_simps list_all_iff)

lemma reconciled_valid: "recovery_validate (rj_env crash_codec) reconciled_state = Inr ()"
  by (subst recovery_validate.simps)
     (simp add: reconciled_state_def sample_state_def codec_delivery_encoded
        MAX_DELIVERY_RECOVERY_REVISION_def SCALE_SET_DELIVERY_RECOVERY_SCHEMA_VERSION_def Let_def)

lemma started_valid: "recovery_validate (rj_env crash_codec) started_state = Inr ()"
  by (subst recovery_validate.simps)
     (simp add: started_state_def reconciled_state_def sample_state_def codec_delivery_encoded
        MAX_DELIVERY_RECOVERY_REVISION_def SCALE_SET_DELIVERY_RECOVERY_SCHEMA_VERSION_def Let_def)

lemma crash_recovery:
  "recovery_reconciled (rj_env crash_codec) sample_delivery catalog_empty offered_catalog = Inr reconciled_state"
proof -
  have "cd_revision catalog_empty = DisposableAttemptCatalogRevision 1"
    by (simp add: catalog_empty_def)
  moreover have "reconciled_state = \<lparr>rec_schema_version = SCALE_SET_DELIVERY_RECOVERY_SCHEMA_VERSION, rec_revision = 1,
      rec_prior_catalog_revision = DisposableAttemptCatalogRevision 1,
      rec_prior_catalog_digest = Sha256Digest (''sha256:'' @ replicate 64 (CHR ''0'')),
      rec_catalog_revision = DisposableAttemptCatalogRevision 2,
      rec_catalog_digest = Sha256Digest (''sha256:'' @ replicate 64 (CHR ''0'')),
      rec_delivery = sample_delivery, rec_phase = Reconciled\<rparr>"
    by (simp add: reconciled_state_def sample_state_def SCALE_SET_DELIVERY_RECOVERY_SCHEMA_VERSION_def Let_def)
  ultimately show ?thesis
    using reconciled_valid by (simp add: recovery_reconciled_def crash_digest offered_revision Let_def)
qed

lemma crash_codec_faithful: "recovery_json_faithful crash_codec"
  using crash_json_faithful
  by (simp add: recovery_json_faithful_def) (simp add: crash_codec_def sample_codec_def reconciled_wire_def
      started_wire_def settled_wire_def sample_env_def)

lemma delivery_state_decoded:
  assumes "state = (reconciled_state, reconciled_wire, ''r'') \<or> state = (started_state, started_wire, ''s'')"
  shows "decode_scale_set_delivery_recovery crash_codec (snd (snd state)) = Inr (fst state)"
proof (rule recovery_decode_of_encode[OF crash_codec_faithful])
  have "binding_parsed (DisposableAttemptCatalogRevision n)
      (Sha256Digest (''sha256:'' @ replicate 64 (CHR ''0'')))" if "0 < n" "n \<le> 2" for n
    using that by (simp add: binding_parsed_def catalog_revision_new_def sha256_digest_parse_def is_lower_hex_def
        MAX_DISPOSABLE_ATTEMPT_CATALOG_REVISION_def byte_simps list_all_iff)
  then show "recovery_parsed crash_codec (fst state)"
    using assms by (auto simp: recovery_parsed_def reconciled_state_def started_state_def sample_state_def Let_def)
  have "delivery_json_string crash_codec sample_delivery = Inr ''d''"
    by (simp add: delivery_json_string_def codec_delivery_encoded string_from_utf8_def)
  then have "from_state crash_codec (fst state) = Inr (fst (snd state))"
    using assms by (auto simp: from_state_def reconciled_state_def started_state_def sample_state_def
        reconciled_wire_def started_wire_def settled_wire_def Let_def)
  moreover have "rj_to_vec crash_codec (fst (snd state)) = Inr (snd (snd state))"
    using assms by (auto simp: crash_codec_def reconciled_wire_def started_wire_def settled_wire_def)
  moreover have "recovery_validate (rj_env crash_codec) (fst state) = Inr ()"
    using assms reconciled_valid started_valid by auto
  ultimately show "encode_scale_set_delivery_recovery crash_codec (fst state) = Inr (snd (snd state))"
    using assms by (auto simp: encode_scale_set_delivery_recovery_def MAX_SCALE_SET_DELIVERY_RECOVERY_BYTES_def)
qed

lemmas reconciled_decoded = delivery_state_decoded[of "(reconciled_state, reconciled_wire, ''r'')", simplified]
lemmas started_decoded = delivery_state_decoded[of "(started_state, started_wire, ''s'')", simplified]

definition crash_env :: "(unit, string, unit, unit) unix_env" where
  "crash_env =
     \<lparr>ux_owner = (1000, 1000), ux_codec = crash_codec, ux_worker_decode = (\<lambda>_. Inl StoreCorruptState),
      ux_worker_revision = (\<lambda>_. 0), ux_worker_history_empty = (\<lambda>_. True),
      ux_worker_successor = (\<lambda>_ _. False), ux_authority_decode = (\<lambda>_. Inl False),
      ux_authority_attempt = (\<lambda>_. False)\<rparr>"

definition private_file :: "string \<Rightarrow> inode" where
  "private_file bytes =
     \<lparr>ino_regular = True, ino_links = 1, ino_mode = 384, ino_owner = (1000, 1000), ino_bytes = bytes,
      ino_synced = True\<rparr>"

definition crash_directory :: directory_map where
  "crash_directory = Map.empty(STORE_LOCK_FILE \<mapsto> 0, CATALOG_DOCUMENT \<mapsto> 1)"

text \<open>A store with its lock and the empty catalog, and a power loss at the fortieth system call.\<close>

definition crash_world :: world where
  "crash_world =
     \<lparr>w_inodes = (\<lambda>i. private_file (if i = 1 then ''e'' else [])), w_fresh = 2, w_new = private_file [],
      w_dir = crash_directory, w_disk = crash_directory, w_pending = [],
      w_stat = \<lparr>dst_directory = True, dst_mode = 488, dst_owner = (1000, 1000)\<rparr>,
      w_armed = (\<lambda>_. False), w_faults = replicate 39 Succeeds @ [PowerLoss]\<rparr>"

lemma crash_world_contents:
  "contents crash_world = Map.empty(STORE_LOCK_FILE \<mapsto> [], CATALOG_DOCUMENT \<mapsto> ''e'')"
  by (auto simp: contents_def crash_world_def crash_directory_def private_file_def document_names fun_eq_iff)

lemma crash_world_at_rest: "store_at_rest (ux_owner crash_env) crash_world"
  by (auto simp: store_at_rest_def store_ok_def private_inode_def private_directory_def PRIVATE_FILE_MODE_def
      MANAGED_DIRECTORY_MODE_def possible_directory_flushed synced_outside_def crash_world_def crash_env_def
      private_file_def crash_directory_def split: if_splits)

lemma crash_prefix_free: "json_prefix_free (ux_codec crash_env)"
  by (auto simp: json_prefix_free_def crash_env_def crash_json_def crash_codec_def split: if_splits)

abbreviation crash_run :: "(store_error_kind halt + catalog_document \<times> recovery_state) \<times> world" where
  "crash_run \<equiv> publish_scale_set_reconciled_delivery crash_env (cd_revision catalog_empty) sample_policy
     sample_delivery (EpochMillis 1000) crash_world"

theorem reconciled_delivery_crash_atomic_witness:
  "case open_scale_set_delivery_controller crash_env (reboot [True] (\<lambda>_. 0) [] (snd crash_run)) of
     (Inr _, w) \<Rightarrow> contents w = contents crash_world
       \<or> contents w = published_pair (contents crash_world) ''c'' ''r''
   | (Inl _, w) \<Rightarrow>
       incomplete_stage (contents (reboot [True] (\<lambda>_. 0) [] (snd crash_run))) ''c'' ''r''
       \<and> contents w = contents (reboot [True] (\<lambda>_. 0) [] (snd crash_run))"
proof -
  have env: "ux_codec crash_env = crash_codec" "ux_owner crash_env = (1000, 1000)"
    by (simp_all add: crash_env_def)
  have "no_delivery (contents crash_world)" "neighbours_settled crash_env (contents crash_world)"
    "contents crash_world CATALOG_DOCUMENT = Some ''e''"
    unfolding crash_world_contents no_delivery_def neighbours_settled_def by (simp_all add: document_names)
  from reconciled_delivery_crash_atomic[OF catalog_created sample_resources crash_world_at_rest refl this,
      unfolded env crash_codec_simps, OF empty_decoded offered_decoded reconciled_decoded
      crash_prefix_free[unfolded env] sample_reconciled crash_recovery prod.collapse[symmetric] restart]
  show ?thesis by (simp add: reboot_def)
qed

text \<open>The same store after the delivery was published and its acknowledgement was interrupted.\<close>

definition interrupted_directory :: directory_map where
  "interrupted_directory =
     crash_directory(DELIVERY_RECOVERY_DOCUMENT \<mapsto> 2, STAGED_DELIVERY_RECOVERY_DOCUMENT \<mapsto> 3)"

definition interrupted_world :: world where
  "interrupted_world = crash_world
     \<lparr>w_inodes := \<lambda>i. private_file (if i = 0 then [] else if i = 1 then ''c'' else if i = 2 then ''r'' else ''s''),
      w_fresh := 4, w_dir := interrupted_directory, w_disk := interrupted_directory, w_faults := []\<rparr>"

lemma interrupted_contents:
  "contents interrupted_world = Map.empty(STORE_LOCK_FILE \<mapsto> [], CATALOG_DOCUMENT \<mapsto> ''c'',
     DELIVERY_RECOVERY_DOCUMENT \<mapsto> ''r'', STAGED_DELIVERY_RECOVERY_DOCUMENT \<mapsto> ''s'')"
  by (auto simp: contents_def interrupted_world_def interrupted_directory_def crash_directory_def
      private_file_def document_names fun_eq_iff)

lemma started_exact: "exact_recovery_successor (rj_env crash_codec) reconciled_state started_state"
proof -
  have "rec_revision reconciled_state = 1" "rec_phase reconciled_state = Reconciled"
    by (simp_all add: reconciled_state_def sample_state_def Let_def)
  moreover from this have "next_revision reconciled_state = Inr 2"
    by (simp add: next_revision_def checked_add_n_def MAX_DELIVERY_RECOVERY_REVISION_def)
  then have "recovery_successor (rj_env crash_codec) reconciled_state AcknowledgementStarted = Inr started_state"
    using started_valid by (simp add: recovery_successor_def started_state_def Let_def)
  ultimately show ?thesis
    by (simp add: exact_recovery_successor_def started_state_def saturating_add_def begin_ack_def)
qed

theorem interrupted_acknowledgement_refused_witness:
  "\<exists>k w'. open_scale_set_delivery_controller crash_env interrupted_world = (Inl (Failed k), w')
     \<and> contents w' = contents interrupted_world"
proof -
  have env: "ux_codec crash_env = crash_codec" by (simp add: crash_env_def)
  have rest: "store_at_rest (ux_owner crash_env) interrupted_world"
    using crash_world_at_rest
    by (auto simp: store_at_rest_def store_ok_def private_inode_def possible_directory_flushed synced_outside_def
        interrupted_world_def interrupted_directory_def crash_world_def crash_directory_def private_file_def
        crash_env_def split: if_splits)
  have files: "w_faults interrupted_world = []" "neighbours_settled crash_env (contents interrupted_world)"
    "contents interrupted_world CATALOG_DOCUMENT = Some ''c''" "contents interrupted_world SC = None"
    "contents interrupted_world DELIVERY_RECOVERY_DOCUMENT = Some ''r''" "contents interrupted_world SD = Some ''s''"
    unfolding interrupted_contents neighbours_settled_def
    by (simp_all add: document_names) (simp add: interrupted_world_def)
  have "\<not> settlement_phase (rec_phase reconciled_state)" "acquisition_phase (rec_phase started_state)"
    by (simp_all add: reconciled_state_def started_state_def sample_state_def Let_def)
  from interrupted_acknowledgement_refused[OF rest files, unfolded env crash_codec_simps,
      OF offered_decoded reconciled_decoded started_decoded started_exact this]
  show ?thesis by blast
qed

end
