(* ===== verification/Spec2Isabelle.thy ===== *)
theory Spec2Isabelle
  imports Lease_Catalog Durable_Journal Capacity Attempt_Codec Worker_Convergence Admission
    Delivery_Crash
begin

text \<open>
  A verification library for the Rust control plane of glaeda (sources under \<open>src/src/\<close>).
\<close>

end
